(* ===== verification/Machines.thy ===== *)
theory Machines
  imports Prelude
begin

text \<open>
  The two interfaces the stateful components share. A \<open>machine\<close> is a step function with an
  invariant each step keeps, so that every run keeps it. A \<open>terminal_machine\<close> also has
  final states in which some observation never changes again. Components interpret these
  locales on their own step functions and read off the facts about whole runs.
\<close>

locale machine =
  fixes step :: "'s \<Rightarrow> 'e \<Rightarrow> 's"
    and allowed :: "'e \<Rightarrow> bool"
    and inv :: "'s \<Rightarrow> bool"
  assumes step_inv: "inv s \<Longrightarrow> allowed e \<Longrightarrow> inv (step s e)"
begin

lemma run_inv: "inv s \<Longrightarrow> list_all allowed es \<Longrightarrow> inv (foldl step s es)"
  by (induction es arbitrary: s) (simp_all add: step_inv)

end

locale terminal_machine = machine +
  fixes final :: "'s \<Rightarrow> bool"
    and observe :: "'s \<Rightarrow> 'o"
  assumes final_step: "inv s \<Longrightarrow> final s \<Longrightarrow> allowed e \<Longrightarrow> final (step s e)"
    and final_observe: "inv s \<Longrightarrow> final s \<Longrightarrow> allowed e \<Longrightarrow> observe (step s e) = observe s"
begin

lemma final_run:
  "inv s \<Longrightarrow> final s \<Longrightarrow> list_all allowed es \<Longrightarrow>
     final (foldl step s es) \<and> observe (foldl step s es) = observe s"
proof (induction es arbitrary: s)
  case (Cons e es)
  then have "inv (step s e)" and "final (step s e)"
    by (simp_all add: step_inv final_step)
  then show ?case
    using Cons by (simp add: final_observe)
qed simp

end

text \<open>
  A budget: some requests are charged to it, the others leave it alone. A charged request is
  granted exactly while the limit is not reached, and then spends one unit. A run then grants
  its first charged requests, up to the limit, and refuses all later ones.
\<close>

locale budget = machine +
  fixes charged :: "'e \<Rightarrow> bool"
    and spent :: "'s \<Rightarrow> nat"
    and granted :: "'s \<Rightarrow> 'e \<Rightarrow> bool"
    and limit :: nat
  assumes granted_iff: "inv s \<Longrightarrow> allowed e \<Longrightarrow> charged e \<Longrightarrow> granted s e \<longleftrightarrow> spent s < limit"
    and spent_step: "inv s \<Longrightarrow> allowed e \<Longrightarrow>
      spent (step s e) = (if charged e \<and> granted s e then Suc (spent s) else spent s)"
begin

lemma spent_run:
  assumes "inv s" and "list_all allowed es" and "spent s \<le> limit"
  shows "spent (foldl step s es) = min limit (spent s + length (filter charged es))"
  using assms
proof (induction es arbitrary: s)
  case (Cons e es)
  then have e: "inv s" "allowed e" by simp_all
  have "inv (step s e)" "spent (step s e) \<le> limit"
    using e Cons.prems(3) by (auto simp: step_inv spent_step granted_iff)
  then have "spent (foldl step (step s e) es) =
      min limit (spent (step s e) + length (filter charged es))"
    using Cons by simp
  then show ?case
    using e Cons.prems(3) by (auto simp: spent_step granted_iff)
qed simp

lemma granted_run:
  assumes "inv s" and "list_all allowed es" and "allowed e" and "charged e" and "spent s \<le> limit"
  shows "granted (foldl step s es) e \<longleftrightarrow> spent s + length (filter charged es) < limit"
  using assms by (simp add: granted_iff run_inv spent_run min_def)

end

text \<open>
  A simulation: every step of the machine is, seen through an abstraction, a step of an abstract
  transition relation or nothing at all. A run then is a run of the relation.
\<close>

locale simulation = machine +
  fixes abstraction :: "'s \<Rightarrow> 'a"
    and next_abstract :: "'a \<Rightarrow> 'a \<Rightarrow> bool"
  assumes simulates: "inv s \<Longrightarrow> allowed e \<Longrightarrow>
      abstraction (step s e) = abstraction s \<or> next_abstract (abstraction s) (abstraction (step s e))"
begin

lemma run_simulates:
  "inv s \<Longrightarrow> list_all allowed es \<Longrightarrow> next_abstract\<^sup>*\<^sup>* (abstraction s) (abstraction (foldl step s es))"
proof (induction es arbitrary: s)
  case (Cons e es)
  then have "next_abstract\<^sup>*\<^sup>* (abstraction (step s e)) (abstraction (foldl step (step s e) es))"
    by (simp add: step_inv)
  then show ?case
    using simulates [of s e] Cons.prems by (auto intro: converse_rtranclp_into_rtranclp)
qed simp

text \<open>An abstract state without successors is never left.\<close>

lemma run_final:
  assumes "inv s" and "list_all allowed es" and "\<And>b. \<not> next_abstract (abstraction s) b"
  shows "abstraction (foldl step s es) = abstraction s"
  using run_simulates [OF assms(1,2)] assms(3) by (auto elim: converse_rtranclpE)

end

end
