(* ===== verification/Rate_Limiter.thy ===== *)
theory Rate_Limiter
  imports Machines "HOL-Library.AList"
begin

text \<open>
  \<open>crates/raios-core/src/security/rate_limiter.rs\<close>: the fixed-window limiter in front of
  every tool call. \<open>u32\<close> counters are 32-bit words; \<open>Instant\<close>s and \<open>Duration\<close>s are
  nanoseconds since an origin (an \<open>Instant\<close> difference saturates at zero, as subtraction
  on \<open>nat\<close> does). The bucket map is an association list with one entry per tool; its order is
  the map's iteration order. The clock reading of each call is an argument.
\<close>

section \<open>Configuration and state\<close>

record rate_rule =
  rr_tool :: string
  rr_max_calls :: "32 word"

record rate_config =
  rl_enabled :: bool
  rl_window_secs :: nat
  rl_default_max :: "32 word"
  rl_rules :: "rate_rule list"

definition default_rate_config :: rate_config where
  "default_rate_config =
     \<lparr>rl_enabled = True, rl_window_secs = 60, rl_default_max = 100, rl_rules = []\<rparr>"

record window_bucket =
  wb_count :: "32 word"
  wb_start :: nat

record rate_limiter =
  lim_config :: rate_config
  lim_buckets :: "(string \<times> window_bucket) list"

record rate_limit_error =
  re_tool :: string
  re_calls_this_window :: "32 word"
  re_max_calls :: "32 word"
  re_window_secs :: nat
  re_resets_in_secs :: nat

record tool_rate_status =
  rs_tool :: string
  rs_calls_this_window :: "32 word"
  rs_max_calls :: "32 word"
  rs_window_secs :: nat
  rs_resets_in_secs :: nat

abbreviation nanos_per_sec :: nat where
  "nanos_per_sec \<equiv> 1000000000"

section \<open>Operations\<close>

definition limiter_new :: "rate_config \<Rightarrow> rate_limiter" where
  "limiter_new c = \<lparr>lim_config = c, lim_buckets = []\<rparr>"

definition limiter_disabled :: rate_limiter where
  "limiter_disabled = limiter_new (default_rate_config\<lparr>rl_enabled := False\<rparr>)"

definition limiter_from_policy :: "rate_config option \<Rightarrow> rate_limiter" where
  "limiter_from_policy c = (case c of Some c \<Rightarrow> limiter_new c | None \<Rightarrow> limiter_disabled)"

definition limiter_max_for :: "rate_limiter \<Rightarrow> string \<Rightarrow> 32 word" where
  "limiter_max_for lim tool =
     (case List.find (\<lambda>r. rr_tool r = tool) (rl_rules (lim_config lim)) of
        Some r \<Rightarrow> rr_max_calls r
      | None \<Rightarrow>
          (case List.find (\<lambda>r. rr_tool r = ''*'') (rl_rules (lim_config lim)) of
             Some r \<Rightarrow> rr_max_calls r
           | None \<Rightarrow> rl_default_max (lim_config lim)))"

definition window_nanos :: "rate_limiter \<Rightarrow> nat" where
  "window_nanos lim = rl_window_secs (lim_config lim) * nanos_per_sec"

text \<open>The bucket a call at time \<open>now\<close> is counted in: created on demand, reset when its window is over.\<close>

definition current_bucket :: "rate_limiter \<Rightarrow> string \<Rightarrow> nat \<Rightarrow> window_bucket" where
  "current_bucket lim tool now =
     (let b = (case map_of (lim_buckets lim) tool of
                 Some b \<Rightarrow> b
               | None \<Rightarrow> \<lparr>wb_count = 0, wb_start = now\<rparr>)
      in if now - wb_start b \<ge> window_nanos lim then \<lparr>wb_count = 0, wb_start = now\<rparr> else b)"

definition limiter_check ::
  "rate_limiter \<Rightarrow> string \<Rightarrow> nat \<Rightarrow> (rate_limit_error + unit) \<times> rate_limiter" where
  "limiter_check lim tool now =
     (if \<not> rl_enabled (lim_config lim) then (Ok (), lim)
      else let mx = limiter_max_for lim tool;
               b = current_bucket lim tool now
           in if mx \<le> wb_count b
              then (Err \<lparr>re_tool = tool, re_calls_this_window = wb_count b, re_max_calls = mx,
                         re_window_secs = rl_window_secs (lim_config lim),
                         re_resets_in_secs =
                           (window_nanos lim - (now - wb_start b)) div nanos_per_sec\<rparr>,
                    lim\<lparr>lim_buckets := AList.update tool b (lim_buckets lim)\<rparr>)
              else (Ok (),
                    lim\<lparr>lim_buckets :=
                      AList.update tool (b\<lparr>wb_count := wb_count b + 1\<rparr>) (lim_buckets lim)\<rparr>))"

definition limiter_status :: "rate_limiter \<Rightarrow> nat \<Rightarrow> tool_rate_status list" where
  "limiter_status lim now =
     sort_key (\<lambda>s. - int (unat (rs_calls_this_window s)))
       (map (\<lambda>(tool, b).
          \<lparr>rs_tool = tool, rs_calls_this_window = wb_count b,
           rs_max_calls = limiter_max_for lim tool,
           rs_window_secs = rl_window_secs (lim_config lim),
           rs_resets_in_secs = (window_nanos lim - (now - wb_start b)) div nanos_per_sec\<rparr>)
        (lim_buckets lim))"

definition limiter_is_enabled :: "rate_limiter \<Rightarrow> bool" where
  "limiter_is_enabled lim = rl_enabled (lim_config lim)"

text \<open>\<open>RateLimitError\<close>'s \<open>Display\<close>, up to the dash before the reset time.\<close>

definition show_rate_limit_error :: "rate_limit_error \<Rightarrow> string" where
  "show_rate_limit_error e =
     ''rate_limit: tool '' @ [CHR 0x27] @ re_tool e @ [CHR 0x27] @ '' called '' @
     show_nat (unat (re_calls_this_window e)) @ ''/'' @ show_nat (unat (re_max_calls e)) @
     '' times in '' @ show_nat (re_window_secs e) @ ''s window '' @
     [CHR 0xE2, CHR 0x80, CHR 0x94] @ '' resets in '' @ show_nat (re_resets_in_secs e) @ ''s''"

section \<open>The limiter as a machine\<close>

text \<open>A call is a tool and the clock reading; a step keeps the limiter and forgets the answer.\<close>

definition limiter_step :: "rate_limiter \<Rightarrow> string \<times> nat \<Rightarrow> rate_limiter" where
  "limiter_step lim call = snd (limiter_check lim (fst call) (snd call))"

lemma limiter_check_config [simp]: "lim_config (snd (limiter_check lim tool now)) = lim_config lim"
  by (simp add: limiter_check_def Let_def)

lemma limiter_step_config [simp]: "lim_config (limiter_step lim call) = lim_config lim"
  by (simp add: limiter_step_def)

lemma limiter_max_for_config:
  "lim_config lim = lim_config lim' \<Longrightarrow> limiter_max_for lim = limiter_max_for lim'"
  by (rule ext) (simp add: limiter_max_for_def cong: option.case_cong)

lemma limiter_max_for_check [simp]:
  "limiter_max_for (snd (limiter_check lim tool now)) = limiter_max_for lim"
  by (rule limiter_max_for_config) simp

lemma limiter_check_other:
  "tool \<noteq> other \<Longrightarrow>
     map_of (lim_buckets (snd (limiter_check lim tool now))) other = map_of (lim_buckets lim) other"
  by (simp add: limiter_check_def Let_def update_conv')

lemma limiter_check_granted:
  "is_ok (fst (limiter_check lim tool now)) \<longleftrightarrow>
     \<not> rl_enabled (lim_config lim)
     \<or> wb_count (current_bucket lim tool now) < limiter_max_for lim tool"
  by (auto simp: limiter_check_def Let_def not_le)

lemma limiter_check_bucket:
  assumes "rl_enabled (lim_config lim)"
  shows "map_of (lim_buckets (snd (limiter_check lim tool now))) tool =
    Some (let b = current_bucket lim tool now
          in if wb_count b < limiter_max_for lim tool then b\<lparr>wb_count := wb_count b + 1\<rparr> else b)"
  using assms by (simp add: limiter_check_def Let_def update_conv' not_le)

lemma word_succ_below:
  fixes a b :: "'n::len word"
  assumes "a < b"
  shows "unat (a + 1) = Suc (unat a)"
proof -
  from assms have "Suc (unat a) \<le> unat b"
    by (simp add: word_less_nat_alt)
  also have "unat b < 2 ^ LENGTH('n)"
    by (rule unsigned_less)
  finally show ?thesis
    by (simp add: unat_word_ariths)
qed

text \<open>While a window is open, calls of the tool spend its budget and nothing else does.\<close>

definition window_open :: "rate_config \<Rightarrow> string \<Rightarrow> nat \<Rightarrow> rate_limiter \<Rightarrow> bool" where
  "window_open c tool w lim \<longleftrightarrow>
     lim_config lim = c \<and> rl_enabled c \<and>
     (case map_of (lim_buckets lim) tool of
        Some b \<Rightarrow> wb_start b = w \<and> wb_count b \<le> limiter_max_for lim tool
      | None \<Rightarrow> False)"

definition window_spent :: "string \<Rightarrow> rate_limiter \<Rightarrow> nat" where
  "window_spent tool lim =
     (case map_of (lim_buckets lim) tool of Some b \<Rightarrow> unat (wb_count b) | None \<Rightarrow> 0)"

definition in_window :: "rate_config \<Rightarrow> nat \<Rightarrow> nat \<Rightarrow> bool" where
  "in_window c w now \<longleftrightarrow> now - w < rl_window_secs c * nanos_per_sec"

lemma window_open_bucket:
  assumes "window_open c tool w lim" and "in_window c w now"
  obtains b where "map_of (lim_buckets lim) tool = Some b"
    and "current_bucket lim tool now = b" and "wb_start b = w"
    and "wb_count b \<le> limiter_max_for lim tool" and "rl_enabled (lim_config lim)"
  using assms
  by (auto simp: window_open_def in_window_def current_bucket_def window_nanos_def
      split: option.splits)

lemma window_open_max:
  "window_open c tool w lim \<Longrightarrow> limiter_max_for (limiter_new c) = limiter_max_for lim"
  by (rule limiter_max_for_config) (simp add: window_open_def limiter_new_def)

lemma limiter_step_other:
  assumes "t \<noteq> tool"
  shows "window_open c tool w (limiter_step lim (t, now)) = window_open c tool w lim"
    and "window_spent tool (limiter_step lim (t, now)) = window_spent tool lim"
  using assms
  by (simp_all add: window_open_def window_spent_def limiter_step_def limiter_check_other
      cong: option.case_cong)

lemma limiter_step_same:
  assumes "window_open c tool w lim" and "in_window c w now"
  shows "window_open c tool w (limiter_step lim (tool, now))"
    and "is_ok (fst (limiter_check lim tool now)) \<longleftrightarrow>
          window_spent tool lim < unat (limiter_max_for lim tool)"
    and "window_spent tool (limiter_step lim (tool, now)) =
          (if is_ok (fst (limiter_check lim tool now)) then Suc (window_spent tool lim)
           else window_spent tool lim)"
proof -
  from assms obtain b where b: "map_of (lim_buckets lim) tool = Some b"
    "current_bucket lim tool now = b" "wb_start b = w"
    "wb_count b \<le> limiter_max_for lim tool" "rl_enabled (lim_config lim)"
    by (rule window_open_bucket)
  have "wb_count b < limiter_max_for lim tool \<Longrightarrow> wb_count b + 1 \<le> limiter_max_for lim tool"
    using inc_le by blast
  then show "window_open c tool w (limiter_step lim (tool, now))"
    using assms(1) b limiter_check_bucket [OF b(5), of tool now]
    by (auto simp: window_open_def limiter_step_def Let_def)
  show "is_ok (fst (limiter_check lim tool now)) \<longleftrightarrow>
          window_spent tool lim < unat (limiter_max_for lim tool)"
    using b by (simp add: limiter_check_granted window_spent_def word_less_nat_alt)
  show "window_spent tool (limiter_step lim (tool, now)) =
          (if is_ok (fst (limiter_check lim tool now)) then Suc (window_spent tool lim)
           else window_spent tool lim)"
    using b
    by (auto simp: limiter_check_granted limiter_check_bucket window_spent_def limiter_step_def
        Let_def word_succ_below)
qed

interpretation window: budget
  limiter_step "\<lambda>call. fst call = tool \<longrightarrow> in_window c w (snd call)" "window_open c tool w"
  "\<lambda>call. fst call = tool" "window_spent tool"
  "\<lambda>lim call. is_ok (fst (limiter_check lim (fst call) (snd call)))"
  "unat (limiter_max_for (limiter_new c) tool)"
  for tool c w
proof (unfold_locales, goal_cases)
  case (1 lim call)
  then show ?case
    by (cases call; cases "fst call = tool") (simp_all add: limiter_step_other limiter_step_same)
next
  case (2 lim call)
  then show ?case
    unfolding window_open_max [OF 2(1)] by (cases call) (simp add: limiter_step_same)
next
  case (3 lim call)
  then show ?case
    by (cases call; cases "fst call = tool") (simp_all add: limiter_step_other limiter_step_same)
qed

text \<open>Every bucket a limiter ever holds stays within its tool's limit.\<close>

definition buckets_bounded :: "rate_limiter \<Rightarrow> bool" where
  "buckets_bounded lim \<longleftrightarrow>
     (\<forall>tool b. map_of (lim_buckets lim) tool = Some b \<longrightarrow> wb_count b \<le> limiter_max_for lim tool)"

interpretation limiter: machine limiter_step "\<lambda>_. True" buckets_bounded
proof (unfold_locales)
  fix lim :: rate_limiter and call :: "string \<times> nat"
  assume inv: "buckets_bounded lim"
  obtain t now where call: "call = (t, now)" by (cases call)
  show "buckets_bounded (limiter_step lim call)"
  proof (cases "rl_enabled (lim_config lim)")
    case False
    with inv show ?thesis
      by (simp add: limiter_step_def limiter_check_def)
  next
    case True
    have "wb_count (current_bucket lim t now) \<le> limiter_max_for lim t"
      using inv by (auto simp: current_bucket_def buckets_bounded_def Let_def split: option.splits)
    then have "wb_count b \<le> limiter_max_for lim t"
      if "map_of (lim_buckets (limiter_step lim call)) t = Some b" for b
      using that inc_le
      by (auto simp: call limiter_step_def limiter_check_bucket [OF True] Let_def split: if_splits)
    moreover have "map_of (lim_buckets (limiter_step lim call)) tool = map_of (lim_buckets lim) tool"
      if "tool \<noteq> t" for tool
      using that by (simp add: call limiter_step_def limiter_check_other)
    ultimately show ?thesis
      using inv by (metis (no_types, lifting) buckets_bounded_def limiter_max_for_check limiter_step_def)
  qed
qed

section \<open>Properties\<close>

text \<open>
  C32: Within an open window the limiter accepts exactly the first calls of a tool, up to its
  maximum, and rejects the rest, whatever other tools are called in between.
\<close>

theorem limiter_window_exact:
  assumes "window_open c tool w lim"
    and "list_all (\<lambda>call. fst call = tool \<longrightarrow> in_window c w (snd call)) calls"
    and "in_window c w now"
  shows "is_ok (fst (limiter_check (foldl limiter_step lim calls) tool now)) \<longleftrightarrow>
    window_spent tool lim + length (filter (\<lambda>call. fst call = tool) calls)
      < unat (limiter_max_for lim tool)"
proof -
  have "window_spent tool lim \<le> unat (limiter_max_for lim tool)"
    using assms(1) by (auto simp: window_open_def window_spent_def word_le_nat_alt split: option.splits)
  then show ?thesis
    using window.granted_run [OF assms(1,2), of "(tool, now)"] assms(3)
      window_open_max [OF assms(1)] by simp
qed

text \<open>
  A tool's counter never passes its configured maximum in any run of a fresh limiter, so
  the unchecked 32-bit increment in \<open>check\<close> cannot wrap around.
\<close>

theorem limiter_count_bounded:
  assumes "map_of (lim_buckets (foldl limiter_step (limiter_new c) calls)) tool = Some b"
  shows "wb_count b \<le> limiter_max_for (limiter_new c) tool"
proof -
  have "buckets_bounded (foldl limiter_step (limiter_new c) calls)"
    by (rule limiter.run_inv) (simp_all add: buckets_bounded_def limiter_new_def list_all_iff)
  moreover have "lim_config (foldl limiter_step lim0 calls) = lim_config lim0" for lim0
    by (induction calls arbitrary: lim0) simp_all
  ultimately show ?thesis
    using assms limiter_max_for_config by (metis buckets_bounded_def)
qed

text \<open>
  A rejection says how long to wait: the reported whole seconds do not exceed the time left
  in the window and fall short of it by less than a second, and once the window is over the next
  call of a tool with a positive maximum is accepted.
\<close>

theorem limiter_rejection_resets:
  assumes "limiter_check lim tool now = (Err e, lim')"
  shows "\<exists>b. map_of (lim_buckets lim') tool = Some b
    \<and> re_resets_in_secs e * nanos_per_sec \<le> window_nanos lim - (now - wb_start b)
    \<and> window_nanos lim - (now - wb_start b) < (re_resets_in_secs e + 1) * nanos_per_sec
    \<and> (\<forall>later \<ge> wb_start b + window_nanos lim. 0 < limiter_max_for lim tool \<longrightarrow>
          is_ok (fst (limiter_check lim' tool later)))"
proof -
  let ?b = "current_bucket lim tool now"
  have en: "rl_enabled (lim_config lim)" and full: "limiter_max_for lim tool \<le> wb_count ?b"
    and e: "re_resets_in_secs e = (window_nanos lim - (now - wb_start ?b)) div nanos_per_sec"
    and lim': "lim' = lim\<lparr>lim_buckets := AList.update tool ?b (lim_buckets lim)\<rparr>"
    using assms by (auto simp: limiter_check_def Let_def split: if_splits)
  have b: "map_of (lim_buckets lim') tool = Some ?b"
    by (simp add: lim' update_conv')
  have "limiter_max_for lim' = limiter_max_for lim" "window_nanos lim' = window_nanos lim"
    by (auto simp: lim' window_nanos_def intro: limiter_max_for_config)
  then have "is_ok (fst (limiter_check lim' tool later))"
    if "wb_start ?b + window_nanos lim \<le> later" "0 < limiter_max_for lim tool" for later
    using that b by (auto simp: limiter_check_granted current_bucket_def Let_def)
  moreover have "re_resets_in_secs e * nanos_per_sec \<le> window_nanos lim - (now - wb_start ?b)"
    unfolding e by simp
  moreover have "window_nanos lim - (now - wb_start ?b) < (re_resets_in_secs e + 1) * nanos_per_sec"
    unfolding e by (metis Suc_eq_plus1 dividend_less_times_div mult.commute mult_Suc_right zero_less_numeral)
  ultimately show ?thesis
    using b by blast
qed

section \<open>Runs of a small limiter\<close>

text \<open>Two calls per minute, no rules; one call of \<open>t\<close> was counted at time zero.\<close>

abbreviation two_per_minute :: rate_config where
  "two_per_minute \<equiv> \<lparr>rl_enabled = True, rl_window_secs = 60, rl_default_max = 2, rl_rules = []\<rparr>"

abbreviation one_spent :: rate_limiter where
  "one_spent \<equiv> \<lparr>lim_config = two_per_minute, lim_buckets = [(''t'', \<lparr>wb_count = 1, wb_start = 0\<rparr>)]\<rparr>"

lemma limiter_window_exact_witness:
  "is_ok (fst (limiter_check (foldl limiter_step one_spent [(''u'', 3)]) ''t'' 5)) \<and>
   \<not> is_ok (fst (limiter_check (foldl limiter_step one_spent [(''u'', 3), (''t'', 4)]) ''t'' 5))"
  using limiter_window_exact [where c = two_per_minute and tool = "''t''" and w = 0
      and lim = one_spent and calls = "[(''u'', 3)]" and now = 5]
    limiter_window_exact [where c = two_per_minute and tool = "''t''" and w = 0
      and lim = one_spent and calls = "[(''u'', 3), (''t'', 4)]" and now = 5]
  by (simp add: window_open_def in_window_def window_spent_def limiter_max_for_def)

lemma limiter_count_bounded_witness:
  "(case map_of (lim_buckets (foldl limiter_step (limiter_new two_per_minute)
        [(''t'', 1), (''t'', 2), (''t'', 3)])) ''t'' of
      Some b \<Rightarrow> wb_count b \<le> limiter_max_for (limiter_new two_per_minute) ''t'' \<and> wb_count b = 2
    | None \<Rightarrow> False)"
proof -
  have "map_of (lim_buckets (foldl limiter_step (limiter_new two_per_minute)
      [(''t'', 1), (''t'', 2), (''t'', 3)])) ''t'' = Some \<lparr>wb_count = 2, wb_start = 1\<rparr>"
    by (simp add: limiter_step_def limiter_check_def limiter_new_def current_bucket_def
        limiter_max_for_def window_nanos_def word_le_nat_alt Let_def)
  then show ?thesis
    using limiter_count_bounded [of two_per_minute] by fastforce
qed

lemma limiter_rejection_resets_witness:
  "is_ok (fst (limiter_check (snd (limiter_check (limiter_step one_spent (''t'', 4)) ''t'' 5)) ''t''
     (60 * nanos_per_sec)))"
proof -
  let ?lim = "limiter_step one_spent (''t'', 4)"
  let ?e = "\<lparr>re_tool = ''t'', re_calls_this_window = 2, re_max_calls = 2, re_window_secs = 60,
    re_resets_in_secs = 59\<rparr>"
  let ?lim' = "\<lparr>lim_config = two_per_minute, lim_buckets = [(''t'', \<lparr>wb_count = 2, wb_start = 0\<rparr>)]\<rparr>"
  have "limiter_check ?lim ''t'' 5 = (Err ?e, ?lim')"
    by (simp add: limiter_step_def limiter_check_def current_bucket_def
        limiter_max_for_def window_nanos_def word_le_nat_alt Let_def)
  moreover have "window_nanos ?lim = 60 * nanos_per_sec" "0 < limiter_max_for ?lim ''t''"
    by (simp_all add: window_nanos_def limiter_max_for_def)
  ultimately show ?thesis
    using limiter_rejection_resets [of ?lim "''t''" 5 ?e ?lim'] by auto
qed

end
