(* ===== verification/Sql_Table.thy ===== *)
theory Sql_Table
  imports Prelude
begin

text \<open>
  The SQL statements the stores issue, over a table kept as the list of its rows in rowid
  order: \<open>UPDATE ... WHERE\<close> and \<open>DELETE ... WHERE\<close> report the number of rows they touched,
  \<open>INSERT OR IGNORE\<close> keeps the row that already has the primary key, \<open>SELECT ... LIMIT 1\<close>
  takes the first match. The locale \<open>keyed_table\<close> is the interface of a table with a
  primary key; each store interprets it on its own row type.
\<close>

definition select_where :: "('r \<Rightarrow> bool) \<Rightarrow> 'r list \<Rightarrow> 'r list" where
  "select_where p rows = filter p rows"

definition update_where :: "('r \<Rightarrow> bool) \<Rightarrow> ('r \<Rightarrow> 'r) \<Rightarrow> 'r list \<Rightarrow> 'r list" where
  "update_where p f rows = map (\<lambda>r. if p r then f r else r) rows"

definition delete_where :: "('r \<Rightarrow> bool) \<Rightarrow> 'r list \<Rightarrow> 'r list" where
  "delete_where p rows = filter (\<lambda>r. \<not> p r) rows"

definition count_where :: "('r \<Rightarrow> bool) \<Rightarrow> 'r list \<Rightarrow> nat" where
  "count_where p rows = length (filter p rows)"

lemma count_where_pos: "0 < count_where p rows \<longleftrightarrow> (\<exists>r\<in>set rows. p r)"
  by (auto simp: count_where_def filter_empty_conv)

lemma set_update_where:
  "set (update_where p f rows) = f ` {r \<in> set rows. p r} \<union> {r \<in> set rows. \<not> p r}"
  by (auto simp: update_where_def)

lemma update_where_none: "(\<forall>r\<in>set rows. \<not> p r) \<Longrightarrow> update_where p f rows = rows"
  by (simp add: update_where_def map_idI)

lemma find_update_where:
  assumes "\<And>r. q (f r) = q r"
  shows "List.find q (update_where p f rows) = map_option (\<lambda>r. if p r then f r else r) (List.find q rows)"
  by (induction rows) (auto simp: update_where_def assms)

lemma image_update_where:
  assumes "\<And>r. h (f r) = h r"
  shows "h ` set (update_where p f rows) = h ` set rows"
  unfolding update_where_def set_map image_image by (rule image_cong) (simp_all add: assms)

locale keyed_table =
  fixes key :: "'r \<Rightarrow> 'k"
begin

lemma keys_update:
  assumes "\<And>r. key (f r) = key r"
  shows "map key (update_where p f rows) = map key rows"
  by (simp add: update_where_def assms)

lemma distinct_update:
  assumes "\<And>r. key (f r) = key r" and "distinct (map key rows)"
  shows "distinct (map key (update_where p f rows))"
  using assms by (simp add: keys_update)

lemma distinct_delete:
  "distinct (map key rows) \<Longrightarrow> distinct (map key (delete_where p rows))"
  by (simp add: delete_where_def distinct_map_filter)

lemma distinct_insert:
  assumes "distinct (map key rows)" and "key r \<notin> key ` set rows"
  shows "distinct (map key (rows @ [r]))"
  using assms by simp

lemma row_unique:
  assumes "distinct (map key rows)" and "r \<in> set rows" and "q \<in> set rows" and "key r = key q"
  shows "r = q"
  using assms by (meson distinct_map inj_onD)

lemma find_key:
  "distinct (map key rows) \<Longrightarrow> r \<in> set rows \<Longrightarrow> List.find (\<lambda>q. key q = key r) rows = Some r"
  by (induction rows) (auto simp: rev_image_eqI)

lemma update_other_key:
  assumes "k \<notin> key ` set rows"
  shows "update_where (\<lambda>q. key q = k) f rows = rows"
  using assms by (intro update_where_none) auto

text \<open>An update that asks for more than the key touches the row with the key, or none.\<close>

lemma hit_row:
  assumes "distinct (map key rows)" and "\<exists>r\<in>set rows. key r = k \<and> P r"
  obtains r where "r \<in> set rows" "key r = k" "P r" "List.find (\<lambda>q. key q = k) rows = Some r"
    "\<And>f. update_where (\<lambda>q. key q = k \<and> P q) f rows = update_where (\<lambda>q. key q = k) f rows"
proof -
  obtain r where r: "r \<in> set rows" "key r = k" "P r"
    using assms(2) by blast
  have "update_where (\<lambda>q. key q = k \<and> P q) f rows = update_where (\<lambda>q. key q = k) f rows" for f
  proof -
    have "(key q = k \<and> P q) = (key q = k)" if "q \<in> set rows" for q
      using row_unique [OF assms(1) that r(1)] r(2,3) by auto
    then show ?thesis
      unfolding update_where_def by (intro map_cong refl) simp
  qed
  then show thesis
    using that [OF r] find_key [OF assms(1) r(1)] r(2) by simp
qed

text \<open>Updating the one row with a key moves a count by that row only.\<close>

lemma count_update_key:
  assumes "distinct (map key rows)" and "r \<in> set rows"
  shows "count_where p (update_where (\<lambda>q. key q = key r) f rows) + (if p r then 1 else 0) =
    count_where p rows + (if p (f r) then 1 else 0)"
  using assms
proof (induction rows)
  case (Cons q rows)
  show ?case
  proof (cases "q = r")
    case True
    then have "update_where (\<lambda>q. key q = key r) f rows = rows"
      using Cons.prems by (intro update_other_key) simp
    then show ?thesis
      using True by (simp add: update_where_def count_where_def)
  next
    case False
    then have "r \<in> set rows" and "key q \<noteq> key r"
      using Cons.prems by (auto simp: rev_image_eqI)
    then show ?thesis
      using Cons by (simp add: update_where_def count_where_def)
  qed
qed simp

end

end
