(* ===== verification/Quarantine.thy ===== *)
theory Quarantine
  imports Machines Sql_Table
begin

text \<open>
  \<open>crates/raios-core/src/security/quarantine.rs\<close>: suspicious tool calls are queued in the
  table \<open>quarantine_queue\<close> until a human approves or denies them. The connection is the
  table together with two flags that say whether reads and writes succeed, so that every
  error path of the code is a branch here. The clock readings are arguments.
\<close>

section \<open>Configuration, rows and errors\<close>

record quarantine_config =
  qc_enabled :: bool
  always_quarantine :: "string list"
  suspicious_patterns :: "string list"

datatype quarantine_status = QPending | QApproved | QDenied | QConsumed

record quarantine_item =
  qi_id :: string
  qi_tool :: string
  qi_args_json :: string
  qi_created_at :: nat
  qi_status :: quarantine_status

datatype quarantine_error = Queued string | Denied string | QDb

record quarantine_db =
  q_rows :: "quarantine_item list"
  q_readable :: bool
  q_writable :: bool

definition default_quarantine_config :: quarantine_config where
  "default_quarantine_config =
     \<lparr>qc_enabled = False, always_quarantine = [], suspicious_patterns = []\<rparr>"

definition quarantine_from_policy :: "quarantine_config option \<Rightarrow> quarantine_config" where
  "quarantine_from_policy c =
     (case c of Some c \<Rightarrow> c | None \<Rightarrow> default_quarantine_config)"

definition is_suspicious :: "quarantine_config \<Rightarrow> string \<Rightarrow> string \<Rightarrow> bool" where
  "is_suspicious c tool args =
     (list_ex (\<lambda>t. t = tool) (always_quarantine c) \<or>
      list_ex (\<lambda>p. str_contains args p \<or> str_contains tool p) (suspicious_patterns c))"

section \<open>Identifiers\<close>

definition hex_char :: "nat \<Rightarrow> char" where
  "hex_char d = char_of (if d < 10 then 48 + d else 87 + d)"

fun show_hex :: "nat \<Rightarrow> string" where
  "show_hex n = (if n < 16 then [hex_char n] else show_hex (n div 16) @ [hex_char (n mod 16)])"

declare show_hex.simps [simp del]

text \<open>\<open>new_id\<close> reads the clock twice: once for the nanoseconds, once for the seconds.\<close>

definition quarantine_new_id :: "nat \<Rightarrow> nat \<Rightarrow> string" where
  "quarantine_new_id nanos secs = show_hex secs @ pad_left 8 (show_hex nanos)"

section \<open>Statements\<close>

definition pending_item :: "string \<Rightarrow> string \<Rightarrow> string \<Rightarrow> nat \<Rightarrow> quarantine_item" where
  "pending_item ident tool args created =
     \<lparr>qi_id = ident, qi_tool = tool, qi_args_json = args, qi_created_at = created,
      qi_status = QPending\<rparr>"

lemma pending_item_simps [simp]:
  "qi_id (pending_item i tool args t) = i" "qi_tool (pending_item i tool args t) = tool"
  "qi_status (pending_item i tool args t) = QPending"
  by (simp_all add: pending_item_def)

definition insert_item ::
  "quarantine_db \<Rightarrow> string \<Rightarrow> string \<Rightarrow> string \<Rightarrow> nat \<Rightarrow> quarantine_error + quarantine_db" where
  "insert_item db ident tool args created =
     (if \<not> q_writable db then Err QDb
      else if list_ex (\<lambda>r. qi_id r = ident) (q_rows db) then Ok db
      else Ok (db\<lparr>q_rows := q_rows db @ [pending_item ident tool args created]\<rparr>))"

definition set_status :: "string \<Rightarrow> quarantine_status list \<Rightarrow> quarantine_status \<Rightarrow>
    quarantine_item list \<Rightarrow> quarantine_item list" where
  "set_status ident froms to =
     update_where (\<lambda>r. qi_id r = ident \<and> qi_status r \<in> set froms) (\<lambda>r. r\<lparr>qi_status := to\<rparr>)"

definition consume_approved :: "quarantine_db \<Rightarrow> string \<Rightarrow> string option \<times> quarantine_db" where
  "consume_approved db tool =
     (if \<not> q_readable db then (None, db)
      else case List.find (\<lambda>r. qi_tool r = tool \<and> qi_status r = QApproved) (q_rows db) of
             None \<Rightarrow> (None, db)
           | Some r \<Rightarrow>
               (Some (qi_id r),
                if q_writable db
                then db\<lparr>q_rows := update_where (\<lambda>q. qi_id q = qi_id r)
                        (\<lambda>q. q\<lparr>qi_status := QConsumed\<rparr>) (q_rows db)\<rparr>
                else db))"

definition find_denied :: "quarantine_db \<Rightarrow> string \<Rightarrow> quarantine_error + string option" where
  "find_denied db tool =
     (if \<not> q_readable db then Err QDb
      else Ok (map_option qi_id
             (List.find (\<lambda>r. qi_tool r = tool \<and> qi_status r = QDenied) (q_rows db))))"

section \<open>The check and the queue management\<close>

definition quarantine_check :: "quarantine_config \<Rightarrow> quarantine_db \<Rightarrow> string \<Rightarrow> string \<Rightarrow>
    nat \<Rightarrow> nat \<Rightarrow> (quarantine_error + unit) \<times> quarantine_db" where
  "quarantine_check c db tool args nanos secs =
     (if \<not> qc_enabled c then (Ok (), db)
      else case consume_approved db tool of
        (Some ident, db') \<Rightarrow> (Ok (), db')
      | (None, db') \<Rightarrow>
          (case find_denied db' tool of
             Inl e \<Rightarrow> (Err e, db')
           | Inr (Some ident) \<Rightarrow> (Err (Denied ident), db')
           | Inr None \<Rightarrow>
               (if is_suspicious c tool args then
                  (let ident = quarantine_new_id nanos secs
                   in case insert_item db' ident tool args secs of
                        Inl e \<Rightarrow> (Err e, db')
                      | Inr db'' \<Rightarrow> (Err (Queued ident), db''))
                else (Ok (), db'))))"

definition quarantine_approve :: "quarantine_db \<Rightarrow> string \<Rightarrow> (quarantine_error + bool) \<times> quarantine_db" where
  "quarantine_approve db ident =
     (if \<not> q_writable db then (Err QDb, db)
      else (Ok (0 < count_where (\<lambda>r. qi_id r = ident \<and> qi_status r = QPending) (q_rows db)),
            db\<lparr>q_rows := set_status ident [QPending] QApproved (q_rows db)\<rparr>))"

definition quarantine_deny :: "quarantine_db \<Rightarrow> string \<Rightarrow> (quarantine_error + bool) \<times> quarantine_db" where
  "quarantine_deny db ident =
     (if \<not> q_writable db then (Err QDb, db)
      else (Ok (0 < count_where
              (\<lambda>r. qi_id r = ident \<and> qi_status r \<in> {QPending, QApproved}) (q_rows db)),
            db\<lparr>q_rows := set_status ident [QPending, QApproved] QDenied (q_rows db)\<rparr>))"

definition quarantine_clear :: "quarantine_db \<Rightarrow> string \<Rightarrow> (quarantine_error + bool) \<times> quarantine_db" where
  "quarantine_clear db ident =
     (if \<not> q_writable db then (Err QDb, db)
      else (Ok (0 < count_where (\<lambda>r. qi_id r = ident) (q_rows db)),
            db\<lparr>q_rows := delete_where (\<lambda>r. qi_id r = ident) (q_rows db)\<rparr>))"

definition list_pending :: "quarantine_db \<Rightarrow> quarantine_error + quarantine_item list" where
  "list_pending db =
     (if \<not> q_readable db then Err QDb
      else Ok (sort_key qi_created_at (select_where (\<lambda>r. qi_status r = QPending) (q_rows db))))"

definition quarantine_list_all :: "quarantine_db \<Rightarrow> quarantine_error + quarantine_item list" where
  "quarantine_list_all db =
     (if \<not> q_readable db then Err QDb
      else Ok (take 50 (sort_key (\<lambda>r. - int (qi_created_at r)) (q_rows db))))"

text \<open>\<open>QuarantineError\<close>'s \<open>Display\<close>.\<close>

definition show_quarantine_error :: "quarantine_error \<Rightarrow> string" where
  "show_quarantine_error e = (case e of
     Queued ident \<Rightarrow> ''quarantine: tool call queued for human approval (id: '' @ ident @
       ''). Run `raios quarantine approve '' @ ident @ ''` then retry the tool call.''
   | Denied ident \<Rightarrow> ''quarantine: tool call denied by human (id: '' @ ident @
       ''). Run `raios quarantine deny '' @ ident @ '' --clear` to remove the block.''
   | QDb \<Rightarrow> ''quarantine: db error: '')"

section \<open>The queue as a machine\<close>

datatype quarantine_event =
    CallTool string string nat nat
  | Approve string
  | Deny string
  | Clear string

fun quarantine_step :: "quarantine_config \<Rightarrow> quarantine_db \<Rightarrow> quarantine_event \<Rightarrow> quarantine_db" where
  "quarantine_step c db (CallTool tool args nanos secs) =
     snd (quarantine_check c db tool args nanos secs)"
| "quarantine_step c db (Approve ident) = snd (quarantine_approve db ident)"
| "quarantine_step c db (Deny ident) = snd (quarantine_deny db ident)"
| "quarantine_step c db (Clear ident) = snd (quarantine_clear db ident)"

section \<open>Invariants\<close>

interpretation queue_table: keyed_table qi_id .

definition queue_keyed :: "quarantine_db \<Rightarrow> bool" where
  "queue_keyed db \<longleftrightarrow> distinct (map qi_id (q_rows db))"

definition approvals :: "string \<Rightarrow> quarantine_db \<Rightarrow> nat" where
  "approvals tool db = count_where (\<lambda>r. qi_tool r = tool \<and> qi_status r = QApproved) (q_rows db)"

lemma set_status_keys [simp]: "map qi_id (set_status i fs t rows) = map qi_id rows"
  by (simp add: set_status_def queue_table.keys_update)

lemma consume_flags [simp]:
  "q_readable (snd (consume_approved db tool)) = q_readable db"
  "q_writable (snd (consume_approved db tool)) = q_writable db"
  by (simp_all add: consume_approved_def split: option.splits)

lemma consume_keyed: "queue_keyed db \<Longrightarrow> queue_keyed (snd (consume_approved db tool))"
  by (simp add: consume_approved_def queue_keyed_def queue_table.keys_update split: option.splits)

lemma consume_none_unchanged: "consume_approved db tool = (None, db') \<Longrightarrow> db' = db"
  by (auto simp: consume_approved_def split: if_splits option.splits)

lemma consume_none_iff:
  "q_readable db \<Longrightarrow> fst (consume_approved db tool) = None \<longleftrightarrow> approvals tool db = 0"
  by (auto simp: consume_approved_def approvals_def count_where_def find_None_iff filter_empty_conv
      dest!: find_Some_in split: option.splits)

lemma insert_item_cases:
  assumes "insert_item db i tool args t = Inr db'"
  shows "(db' = db \<and> i \<in> qi_id ` set (q_rows db)) \<or>
    (i \<notin> qi_id ` set (q_rows db) \<and>
     db' = db\<lparr>q_rows := q_rows db @ [pending_item i tool args t]\<rparr>)"
  using assms by (auto simp: insert_item_def list_ex_iff split: if_splits)

text \<open>A call either consumes an approval or at most appends one pending row.\<close>

lemma check_cases:
  obtains (consumed) i where "fst (consume_approved db tool) = Some i"
      "quarantine_check c db tool args n t = (Ok (), snd (consume_approved db tool))" "qc_enabled c"
  | (appended) row where "qi_status row = QPending" "qi_id row \<notin> qi_id ` set (q_rows db)"
      "snd (quarantine_check c db tool args n t) = db\<lparr>q_rows := q_rows db @ [row]\<rparr>"
  | (unchanged) "snd (quarantine_check c db tool args n t) = db"
proof -
  obtain o1 db1 where step: "consume_approved db tool = (o1, db1)"
    by (cases "consume_approved db tool")
  show ?thesis
  proof (cases o1)
    case (Some i)
    then show ?thesis
      using step consumed unchanged by (cases "qc_enabled c") (simp_all add: quarantine_check_def)
  next
    case None
    then have db1: "db1 = db"
      using step consume_none_unchanged by simp
    let ?new = "pending_item (quarantine_new_id n t) tool args t"
    have "snd (quarantine_check c db tool args n t) = db \<or>
        (qi_id ?new \<notin> qi_id ` set (q_rows db) \<and>
           snd (quarantine_check c db tool args n t) = db\<lparr>q_rows := q_rows db @ [?new]\<rparr>)"
      using step None
      by (auto simp: db1 quarantine_check_def Let_def dest!: insert_item_cases
          split: option.splits sum.splits)
    then show ?thesis
      using appended [of ?new] unchanged by auto
  qed
qed

lemma check_keyed:
  assumes "queue_keyed db"
  shows "queue_keyed (snd (quarantine_check c db tool args n t))"
proof (cases rule: check_cases [of db tool c args n t])
  case (consumed i)
  with assms show ?thesis by (simp add: consume_keyed)
next
  case (appended row)
  with assms show ?thesis by (simp add: queue_keyed_def)
next
  case unchanged
  with assms show ?thesis by simp
qed

lemma step_keyed: "queue_keyed db \<Longrightarrow> queue_keyed (quarantine_step c db e)"
  by (cases e)
    (auto simp: queue_keyed_def quarantine_approve_def quarantine_deny_def quarantine_clear_def
      queue_table.distinct_delete intro: check_keyed [unfolded queue_keyed_def])

text \<open>The rows of one identifier: once denied, only \<open>clear\<close> changes them.\<close>

definition id_denied :: "string \<Rightarrow> quarantine_db \<Rightarrow> bool" where
  "id_denied i db \<longleftrightarrow> (\<exists>r\<in>set (q_rows db). qi_id r = i \<and> qi_status r = QDenied)"

lemma consume_keeps_denied:
  assumes "queue_keyed db" and "r \<in> set (q_rows db)" and "qi_status r = QDenied"
  shows "r \<in> set (q_rows (snd (consume_approved db tool)))"
proof (cases "List.find (\<lambda>r. qi_tool r = tool \<and> qi_status r = QApproved) (q_rows db)")
  case None
  with assms show ?thesis by (simp add: consume_approved_def)
next
  case (Some q)
  then have q: "q \<in> set (q_rows db)" "qi_status q = QApproved"
    by (auto dest: find_Some_in)
  then have "r \<noteq> q"
    using assms(3) by auto
  then have "qi_id r \<noteq> qi_id q"
    using assms(1) queue_table.row_unique [OF _ assms(2) q(1)] by (auto simp: queue_keyed_def)
  with Some assms show ?thesis
    by (auto simp: consume_approved_def set_update_where)
qed

lemma step_keeps_denied:
  assumes "queue_keyed db" and "r \<in> set (q_rows db)" and "qi_status r = QDenied"
    and "e \<noteq> Clear (qi_id r)"
  shows "r \<in> set (q_rows (quarantine_step c db e))"
proof (cases e)
  case (CallTool tool args n t)
  show ?thesis
    unfolding CallTool quarantine_step.simps
    using assms
    by (cases rule: check_cases [of db tool c args n t]) (simp_all add: consume_keeps_denied)
next
  case (Approve i)
  then show ?thesis
    using assms by (auto simp: quarantine_approve_def set_status_def set_update_where)
next
  case (Deny i)
  then show ?thesis
    using assms by (auto simp: quarantine_deny_def set_status_def set_update_where)
next
  case (Clear i)
  then show ?thesis
    using assms by (auto simp: quarantine_clear_def delete_where_def)
qed

interpretation denied_row: terminal_machine
  "quarantine_step c" "\<lambda>e. e \<noteq> Clear (qi_id r)" queue_keyed
  "\<lambda>db. qi_status r = QDenied \<and> r \<in> set (q_rows db)" "\<lambda>db. r \<in> set (q_rows db)"
  for c r
  by unfold_locales (simp_all add: step_keyed step_keeps_denied)

section \<open>Approvals as a budget\<close>

lemma consume_approvals:
  assumes "queue_keyed db" and "q_readable db" and "q_writable db"
  shows "approvals tool (snd (consume_approved db other)) =
    (if tool = other then approvals tool db - 1 else approvals tool db)"
proof (cases "List.find (\<lambda>r. qi_tool r = other \<and> qi_status r = QApproved) (q_rows db)")
  case None
  with assms(2) have "approvals other db = 0"
    using consume_none_iff [OF assms(2), of other] by (simp add: consume_approved_def)
  with None assms show ?thesis by (simp add: consume_approved_def)
next
  case (Some r)
  then have "r \<in> set (q_rows db)" "qi_tool r = other" "qi_status r = QApproved"
    by (auto dest: find_Some_in)
  then show ?thesis
    using queue_table.count_update_key [of "q_rows db" r
        "\<lambda>r. qi_tool r = tool \<and> qi_status r = QApproved" "\<lambda>q. q\<lparr>qi_status := QConsumed\<rparr>"]
      Some assms
    by (auto simp: consume_approved_def approvals_def queue_keyed_def)
qed

lemma check_flags [simp]:
  "q_readable (snd (quarantine_check c db tool args n t)) = q_readable db"
  "q_writable (snd (quarantine_check c db tool args n t)) = q_writable db"
  by (cases rule: check_cases [of db tool c args n t]; simp)+

lemma check_approvals:
  assumes "queue_keyed db" and "q_readable db" and "q_writable db" and "qc_enabled c"
  shows "approvals tool (snd (quarantine_check c db other args n t)) =
    (if tool = other then approvals tool db - 1 else approvals tool db)"
proof (cases "approvals other db = 0")
  case True
  then have none: "fst (consume_approved db other) = None"
    by (simp add: consume_none_iff assms)
  have "approvals tool (snd (quarantine_check c db other args n t)) = approvals tool db"
    by (cases rule: check_cases [of db other c args n t])
      (use none in \<open>simp_all add: approvals_def count_where_def\<close>)
  with True show ?thesis by auto
next
  case False
  then obtain i where "fst (consume_approved db other) = Some i"
    using assms(2) consume_none_iff by (metis option.exhaust)
  then have "snd (quarantine_check c db other args n t) = snd (consume_approved db other)"
    using assms(4) by (cases "consume_approved db other") (simp add: quarantine_check_def)
  then show ?thesis
    by (simp add: consume_approvals assms)
qed

text \<open>A suspicious call passes exactly when an approval for its tool is there to be consumed.\<close>

lemma suspicious_check_ok:
  assumes "q_readable db" and "qc_enabled c" and "is_suspicious c tool args"
  shows "is_ok (fst (quarantine_check c db tool args n t)) \<longleftrightarrow> 0 < approvals tool db"
proof -
  obtain o1 db1 where step: "consume_approved db tool = (o1, db1)"
    by (cases "consume_approved db tool")
  then have "o1 = None \<longleftrightarrow> approvals tool db = 0"
    using consume_none_iff [OF assms(1), of tool] by simp
  then show ?thesis
    using step assms(2,3)
    by (cases o1) (auto simp: quarantine_check_def Let_def split: sum.splits option.splits)
qed

fun called_tool :: "quarantine_event \<Rightarrow> string option" where
  "called_tool (CallTool tool args n t) = Some tool"
| "called_tool _ = None"

fun call_passes :: "quarantine_config \<Rightarrow> quarantine_db \<Rightarrow> quarantine_event \<Rightarrow> bool" where
  "call_passes c db (CallTool tool args n t) = is_ok (fst (quarantine_check c db tool args n t))"
| "call_passes c db _ = False"

fun suspicious_call_of :: "quarantine_config \<Rightarrow> string \<Rightarrow> quarantine_event \<Rightarrow> bool" where
  "suspicious_call_of c tool (CallTool other args n t) =
     (other = tool \<longrightarrow> is_suspicious c tool args)"
| "suspicious_call_of c tool _ = False"

definition approvals_at_most ::
  "quarantine_config \<Rightarrow> string \<Rightarrow> nat \<Rightarrow> quarantine_db \<Rightarrow> bool" where
  "approvals_at_most c tool k db \<longleftrightarrow>
     queue_keyed db \<and> q_readable db \<and> q_writable db \<and> qc_enabled c \<and> approvals tool db \<le> k"

interpretation approval: budget
  "quarantine_step c" "suspicious_call_of c tool" "approvals_at_most c tool k"
  "\<lambda>e. called_tool e = Some tool" "\<lambda>db. k - approvals tool db" "call_passes c" k
  for c tool k
proof (unfold_locales, goal_cases)
  case (1 db e)
  then show ?case
    by (cases e) (auto simp: approvals_at_most_def check_keyed check_approvals)
next
  case (2 db e)
  then show ?case
    by (cases e) (auto simp: approvals_at_most_def suspicious_check_ok)
next
  case (3 db e)
  then show ?case
    by (cases e) (auto simp: approvals_at_most_def suspicious_check_ok check_approvals)
qed

section \<open>Properties\<close>

text \<open>
  C21: Each approval lets exactly one suspicious call of its tool through: in a run of calls
  (suspicious for this tool, arbitrary for all others) a call passes if and only if fewer calls
  of the tool came before it than there were approvals at the start.
\<close>

theorem quarantine_approval_single_use:
  assumes "queue_keyed db" and "q_readable db" and "q_writable db" and "qc_enabled c"
    and "list_all (suspicious_call_of c tool) calls" and "is_suspicious c tool args"
  shows "is_ok (fst (quarantine_check c (foldl (quarantine_step c) db calls) tool args n t)) \<longleftrightarrow>
    length (filter (\<lambda>e. called_tool e = Some tool) calls) < approvals tool db"
  using approval.granted_run [of c tool "approvals tool db" db calls "CallTool tool args n t"] assms
  by (simp add: approvals_at_most_def)

text \<open>
  A request that was denied stays denied, whatever calls and decisions follow, until its
  identifier is cleared; and while it is there, a call of its tool for which no approval is
  left is refused with that tool's denial.
\<close>

theorem quarantine_denial_persists:
  assumes "queue_keyed db" and "r \<in> set (q_rows db)" and "qi_status r = QDenied"
    and "list_all (\<lambda>e. e \<noteq> Clear (qi_id r)) events"
  shows "r \<in> set (q_rows (foldl (quarantine_step c) db events)) \<and>
    (qc_enabled c \<and> q_readable db \<and> approvals (qi_tool r) db = 0 \<longrightarrow>
      (\<exists>i. fst (quarantine_check c db (qi_tool r) args n t) = Err (Denied i)))"
proof (intro conjI impI)
  show "r \<in> set (q_rows (foldl (quarantine_step c) db events))"
    using denied_row.final_run [of db r events c] assms by simp
  assume "qc_enabled c \<and> q_readable db \<and> approvals (qi_tool r) db = 0"
  moreover from this have "fst (consume_approved db (qi_tool r)) = None"
    by (simp add: consume_none_iff)
  moreover have "List.find (\<lambda>q. qi_tool q = qi_tool r \<and> qi_status q = QDenied) (q_rows db) \<noteq> None"
    using assms(2,3) by (auto simp: find_None_iff)
  ultimately show "\<exists>i. fst (quarantine_check c db (qi_tool r) args n t) = Err (Denied i)"
    by (auto simp: quarantine_check_def find_denied_def dest: consume_none_unchanged
        split: prod.splits option.splits)
qed

text \<open>
  The check fails closed: when the quarantine store cannot be read, every call is refused
  with the database error, suspicious or not, and the store is left alone.
\<close>

theorem quarantine_unreadable_fails_closed:
  assumes "qc_enabled c" and "\<not> q_readable db"
  shows "quarantine_check c db tool args n t = (Err QDb, db)"
  using assms by (simp add: quarantine_check_def consume_approved_def find_denied_def)

text \<open>
  \<open>consume_approved\<close> ignores the result of its \<open>UPDATE\<close>: when the store can be read but not
  written, an approved request stays approved and lets any number of calls through.
\<close>

theorem quarantine_approval_replayed_when_read_only:
  assumes "qc_enabled c" and "q_readable db" and "\<not> q_writable db" and "0 < approvals tool db"
    and "list_all (\<lambda>e. called_tool e = Some tool) calls"
  shows "foldl (quarantine_step c) db calls = db \<and>
    is_ok (fst (quarantine_check c (foldl (quarantine_step c) db calls) tool args n t))"
proof -
  have same: "quarantine_check c db tool as m u = (Ok (), db)" for as m u
    using assms consume_none_iff [OF assms(2), of tool]
    by (auto simp: quarantine_check_def consume_approved_def approvals_def split: option.splits)
  have "quarantine_step c db e = db" if "called_tool e = Some tool" for e
    using that same by (cases e) auto
  with assms(5) have "foldl (quarantine_step c) db calls = db"
    by (induction calls) auto
  then show ?thesis
    by (simp add: same)
qed

section \<open>A queue with one approval\<close>

abbreviation guarded :: quarantine_config where
  "guarded \<equiv> \<lparr>qc_enabled = True, always_quarantine = [''rm''], suspicious_patterns = []\<rparr>"

abbreviation one_approval :: "bool \<Rightarrow> quarantine_db" where
  "one_approval writable \<equiv> \<lparr>q_rows = [\<lparr>qi_id = ''a'', qi_tool = ''rm'', qi_args_json = ''{}'',
     qi_created_at = 1, qi_status = QApproved\<rparr>], q_readable = True, q_writable = writable\<rparr>"

lemma quarantine_approval_single_use_witness:
  "is_ok (fst (quarantine_check guarded (one_approval True) ''rm'' ''{}'' 2 2)) \<and>
   \<not> is_ok (fst (quarantine_check guarded
      (foldl (quarantine_step guarded) (one_approval True) [CallTool ''rm'' ''{}'' 2 2, CallTool ''ls'' ''{}'' 3 3])
      ''rm'' ''{}'' 4 4))"
  using quarantine_approval_single_use [where db = "one_approval True" and c = guarded and tool = "''rm''"
      and calls = "[]" and args = "''{}''" and n = 2 and t = 2]
    quarantine_approval_single_use [where db = "one_approval True" and c = guarded and tool = "''rm''"
      and calls = "[CallTool ''rm'' ''{}'' 2 2, CallTool ''ls'' ''{}'' 3 3]" and args = "''{}''"
      and n = 4 and t = 4]
  by (simp add: queue_keyed_def is_suspicious_def approvals_def count_where_def)

lemma quarantine_denial_persists_witness:
  "let r = \<lparr>qi_id = ''d'', qi_tool = ''rm'', qi_args_json = ''{}'', qi_created_at = 1, qi_status = QDenied\<rparr>;
       db = \<lparr>q_rows = [r], q_readable = True, q_writable = True\<rparr>
   in r \<in> set (q_rows (foldl (quarantine_step guarded) db [Approve ''d'', CallTool ''rm'' ''{}'' 2 2])) \<and>
      (\<exists>i. fst (quarantine_check guarded db ''rm'' ''{}'' 3 3) = Err (Denied i))"
  using quarantine_denial_persists [where c = guarded
      and r = "\<lparr>qi_id = ''d'', qi_tool = ''rm'', qi_args_json = ''{}'', qi_created_at = 1, qi_status = QDenied\<rparr>"
      and db = "\<lparr>q_rows = [\<lparr>qi_id = ''d'', qi_tool = ''rm'', qi_args_json = ''{}'', qi_created_at = 1,
        qi_status = QDenied\<rparr>], q_readable = True, q_writable = True\<rparr>"
      and events = "[Approve ''d'', CallTool ''rm'' ''{}'' 2 2]" and args = "''{}''" and n = 3 and t = 3]
  by (simp add: queue_keyed_def approvals_def count_where_def del: foldl_Cons)

lemma quarantine_approval_replayed_when_read_only_witness:
  "is_ok (fst (quarantine_check guarded (foldl (quarantine_step guarded) (one_approval False)
      [CallTool ''rm'' ''{}'' 2 2, CallTool ''rm'' ''{}'' 3 3]) ''rm'' ''{}'' 4 4))"
  by (rule quarantine_approval_replayed_when_read_only [THEN conjunct2])
    (simp_all add: approvals_def count_where_def)

end
