(* ===== verification/Policy.thy ===== *)
theory Policy
  imports Rate_Limiter Quarantine
begin

text \<open>
  The policy layer: \<open>crates/raios-core/src/security/policy.rs\<close> (the parsed
  \<open>raios-policy.toml\<close> and its per-tool action), \<open>hooks.rs\<close> (lifecycle hook scripts),
  \<open>crates/raios-core/src/shield.rs\<close> (the pattern scan of payloads and the preflight report)
  and \<open>umai.rs\<close> (the choke point that combines policy and shield).

  Outside the sources: the regex engine (\<open>is_match\<close>, from pattern and text to a match), the
  JSON serializer and what a hook process does; they are parameters.
\<close>

section \<open>Configuration\<close>

datatype policy_action = Allow | Deny_Action | Confirm

record tool_capabilities =
  fs_read :: "string list"
  fs_write :: "string list"
  network :: "string list"
  exec :: bool

definition no_capabilities :: tool_capabilities where
  "no_capabilities = \<lparr>fs_read = [], fs_write = [], network = [], exec = False\<rparr>"

record tool_rule =
  tr_name :: string
  tr_action :: policy_action
  tr_capabilities :: "tool_capabilities option"

record tools_policy =
  default_action :: policy_action
  tool_rules :: "tool_rule list"

record hub_policy =
  bind_mode :: string
  trusted_cidr :: string
  api_key_hash :: "string option"
  trusted_proxy :: bool
  cors_allowed_origins :: "string list"

definition default_hub_policy :: hub_policy where
  "default_hub_policy =
     \<lparr>bind_mode = ''localhost'', trusted_cidr = ''100.64.0.0/10'', api_key_hash = None,
      trusted_proxy = False,
      cors_allowed_origins = [''http://localhost:5173'', ''http://127.0.0.1:5173'']\<rparr>"

record server_policy =
  http_port :: "16 word option"
  hub :: "hub_policy option"

record egress_policy =
  ep_enabled :: bool
  ep_deny_all :: "bool option"
  ep_allowed_domains :: "string list"
  ep_blocked_domains :: "string list"

record filesystem_policy =
  enforce_sandbox :: bool
  fp_allowed_paths :: "string list"
  fp_blocked_paths :: "string list"

record hooks_policy =
  pre_tool_call :: "string option"
  run_start :: "string option"
  run_end :: "string option"
  handoff_sent :: "string option"

record policy_config =
  pc_server :: "server_policy option"
  pc_filesystem :: filesystem_policy
  pc_tools :: tools_policy
  pc_preflight :: "bool option"
  pc_egress :: "egress_policy option"
  pc_rate_limits :: "rate_config option"
  pc_quarantine :: "quarantine_config option"
  pc_hooks :: "hooks_policy option"

section \<open>Per-tool action\<close>

definition action_as_str :: "policy_action \<Rightarrow> string" where
  "action_as_str a = (case a of Allow \<Rightarrow> ''allow'' | Deny_Action \<Rightarrow> ''deny'' | Confirm \<Rightarrow> ''confirm'')"

definition tool_action :: "policy_config \<Rightarrow> string \<Rightarrow> policy_action" where
  "tool_action p tool =
     (case List.find (\<lambda>r. tr_name r = tool) (tool_rules (pc_tools p)) of
        Some r \<Rightarrow> tr_action r
      | None \<Rightarrow> default_action (pc_tools p))"

definition quoted :: "string \<Rightarrow> string" where
  "quoted s = [CHR 0x27] @ s @ [CHR 0x27]"

definition validate_tool_call :: "policy_config \<Rightarrow> string \<Rightarrow> string + unit" where
  "validate_tool_call p tool = (case tool_action p tool of
     Allow \<Rightarrow> Ok ()
   | Deny_Action \<Rightarrow>
       Err (''Policy Denied: tool '' @ quoted tool @ '' is blocked by security policy'')
   | Confirm \<Rightarrow>
       Err (''confirm:Policy requires user confirmation before running tool '' @ quoted tool))"

definition needs_confirmation :: "policy_config \<Rightarrow> string \<Rightarrow> bool" where
  "needs_confirmation p tool = (tool_action p tool = Confirm)"

section \<open>Lifecycle hooks\<close>

record hook_payload =
  hp_hook :: string
  hp_tool_name :: "string option"
  hp_args_json :: "string option"
  hp_project :: "string option"
  hp_agent :: "string option"
  hp_timestamp :: string

datatype hook_outcome = Hook_Allowed | Hook_Blocked string | Hook_Skipped

text \<open>What became of the spawned script: exit code (none when a signal ended it), stderr, stdout.\<close>

datatype hook_process =
    Spawn_Failed
  | Wait_Failed
  | Exited "int option" string string

text \<open>
  \<open>run_hook\<close>: \<open>disabled\<close> is whether \<open>RAIOS_HOOKS_DISABLED\<close> is 1, \<open>to_json\<close> the serializer,
  \<open>spawn\<close> the shell run on the script and at most 16 KB of payload.
\<close>

definition run_hook :: "bool \<Rightarrow> (hook_payload \<Rightarrow> string option) \<Rightarrow> (string \<Rightarrow> string \<Rightarrow> hook_process) \<Rightarrow>
    string \<Rightarrow> hook_payload \<Rightarrow> hook_outcome" where
  "run_hook disabled to_json spawn script payload =
     (if disabled then Hook_Skipped
      else case to_json payload of
        None \<Rightarrow> Hook_Allowed
      | Some json \<Rightarrow>
          (case spawn script (take (16 * 1024) json) of
             Spawn_Failed \<Rightarrow> Hook_Allowed
           | Wait_Failed \<Rightarrow> Hook_Allowed
           | Exited code stderr stdout \<Rightarrow>
               (if code = Some 2 then
                  (let reason = trim (if stderr \<noteq> [] then stderr else stdout)
                   in Hook_Blocked (if reason = []
                        then ''Blocked by hook script (exit status 2)'' else reason))
                else Hook_Allowed)))"

definition validate_tool_call_with_hook ::
  "bool \<Rightarrow> (hook_payload \<Rightarrow> string option) \<Rightarrow> (string \<Rightarrow> string \<Rightarrow> hook_process) \<Rightarrow> string \<Rightarrow>
    policy_config \<Rightarrow> string \<Rightarrow> hook_payload option \<Rightarrow> string + unit" where
  "validate_tool_call_with_hook disabled to_json spawn timestamp p tool payload =
     and_then (validate_tool_call p tool) (\<lambda>_.
       case pc_hooks p of
         None \<Rightarrow> Ok ()
       | Some h \<Rightarrow>
           (case pre_tool_call h of
              None \<Rightarrow> Ok ()
            | Some script \<Rightarrow>
                (let default_payload = \<lparr>hp_hook = ''pre_tool_call'', hp_tool_name = Some tool,
                       hp_args_json = None, hp_project = None, hp_agent = None,
                       hp_timestamp = timestamp\<rparr>;
                     used = (case payload of Some q \<Rightarrow> q | None \<Rightarrow> default_payload)
                 in case run_hook disabled to_json spawn script used of
                      Hook_Blocked reason \<Rightarrow> Err (''Hook Blocked pre_tool_call: '' @ reason)
                    | _ \<Rightarrow> Ok ())))"

section \<open>AgentShield\<close>

abbreviation (input) backslash :: char where
  "backslash \<equiv> CHR 0x5C"

definition dangerous_patterns :: "string list" where
  "dangerous_patterns =
     (let ws = [backslash] @ ''s+''; ws0 = [backslash] @ ''s*''
      in [''rm'' @ ws @ ''-rf'' @ ws @ ''/'',
          ''rm'' @ ws @ ''-rf'' @ ws @ [backslash] @ ''$HOME'',
          ''mkfs'' @ ws,
          ''dd'' @ ws @ ''if='',
          ''>'' @ ws @ ''/dev/sd'',
          ''curl.*'' @ [backslash] @ ''|'' @ ws0 @ ''sh'',
          ''wget.*'' @ [backslash] @ ''|'' @ ws0 @ ''sh'',
          ''cat'' @ ws @ [backslash] @ ''.env'',
          ''grep.*sk-''])"

definition shield_is_safe :: "(string \<Rightarrow> string \<Rightarrow> bool) \<Rightarrow> string \<Rightarrow> bool" where
  "shield_is_safe is_match command = list_all (\<lambda>p. \<not> is_match p command) dangerous_patterns"

datatype severity = Critical | High | Medium | Low | Info

datatype preflight_detail =
    Path_Missing
  | Path_Not_A_Directory
  | Env_File
  | High_Findings nat
  | Low_Findings nat

record preflight_finding =
  pf_label :: string
  pf_detail :: preflight_detail
  pf_blocking :: bool

text \<open>The preflight report from what the file system and the project scan say about the path.\<close>

definition preflight_report :: "bool \<Rightarrow> bool \<Rightarrow> bool \<Rightarrow> severity list \<Rightarrow> preflight_finding list" where
  "preflight_report path_exists is_dir env_exists issues =
     (if \<not> path_exists then
        [\<lparr>pf_label = ''Project path'', pf_detail = Path_Missing, pf_blocking = True\<rparr>]
      else if \<not> is_dir then
        [\<lparr>pf_label = ''Project path'', pf_detail = Path_Not_A_Directory, pf_blocking = True\<rparr>]
      else
        (if env_exists
         then [\<lparr>pf_label = ''.env present'', pf_detail = Env_File, pf_blocking = False\<rparr>] else []) @
        (let high = length (filter (\<lambda>s. s = High \<or> s = Critical) issues)
         in if 0 < high then
              [\<lparr>pf_label = ''Security scan'', pf_detail = High_Findings high, pf_blocking = True\<rparr>]
            else if issues \<noteq> [] then
              [\<lparr>pf_label = ''Security scan'', pf_detail = Low_Findings (length issues),
                pf_blocking = False\<rparr>]
            else []))"

section \<open>UMAI\<close>

datatype umai_decision = U_Allow | U_Deny string | U_Confirm string

record umai =
  um_policy :: "policy_config option"
  um_is_match :: "string \<Rightarrow> string \<Rightarrow> bool"

definition umai_is_allowed :: "umai_decision \<Rightarrow> bool" where
  "umai_is_allowed d = (d = U_Allow)"

definition rule_source :: "umai \<Rightarrow> string \<Rightarrow> string" where
  "rule_source u command =
     (case um_policy u of
        Some p \<Rightarrow> if list_ex (\<lambda>r. tr_name r = command) (tool_rules (pc_tools p))
                  then ''rule'' else ''default''
      | None \<Rightarrow> ''default'')"

definition umai_tool_capabilities :: "umai \<Rightarrow> string \<Rightarrow> tool_capabilities option" where
  "umai_tool_capabilities u command =
     Option.bind (um_policy u) (\<lambda>p.
       Option.bind (List.find (\<lambda>r. tr_name r = command) (tool_rules (pc_tools p)))
         tr_capabilities)"

definition umai_check :: "umai \<Rightarrow> string \<Rightarrow> string option \<Rightarrow> umai_decision" where
  "umai_check u command payload =
     (if (case payload of Some raw \<Rightarrow> \<not> shield_is_safe (um_is_match u) raw | None \<Rightarrow> False)
      then U_Deny (''UMAI: payload for '' @ quoted command @ '' matched a blocked pattern'')
      else case um_policy u of
        None \<Rightarrow> U_Allow
      | Some p \<Rightarrow>
          (case validate_tool_call p command of
             Inr _ \<Rightarrow> U_Allow
           | Inl msg \<Rightarrow>
               (case strip_prefix msg ''confirm:'' of
                  Some stripped \<Rightarrow> U_Confirm stripped
                | None \<Rightarrow> U_Deny msg)))"

section \<open>Properties\<close>

text \<open>
  C37: The decision is the one the layers call for: a payload that matches a blocked pattern is
  denied whatever the policy says; otherwise no policy allows everything, and a policy allows,
  denies or asks according to the first rule of the command's name, or the default action. In
  particular, recognising \<open>confirm\<close> by the prefix of the error text never mistakes a denial
  for a confirmation.
\<close>

theorem umai_check_decides:
  "umai_check u command payload =
    (if \<exists>raw. payload = Some raw \<and> (\<exists>p\<in>set dangerous_patterns. um_is_match u p raw)
     then U_Deny (''UMAI: payload for '' @ quoted command @ '' matched a blocked pattern'')
     else case um_policy u of
       None \<Rightarrow> U_Allow
     | Some pol \<Rightarrow>
         (case (case List.find (\<lambda>r. tr_name r = command) (tool_rules (pc_tools pol)) of
                  Some r \<Rightarrow> tr_action r | None \<Rightarrow> default_action (pc_tools pol)) of
            Allow \<Rightarrow> U_Allow
          | Deny_Action \<Rightarrow> U_Deny (''Policy Denied: tool '' @ quoted command @
              '' is blocked by security policy'')
          | Confirm \<Rightarrow> U_Confirm (''Policy requires user confirmation before running tool '' @
              quoted command)))"
  by (auto simp: umai_check_def shield_is_safe_def list_all_iff validate_tool_call_def
      tool_action_def strip_prefix_def split: option.splits policy_action.splits)

text \<open>
  The pre-call hook can only tighten the policy: with the hook a call is let through exactly
  when the policy allows it and no enabled hook script ended with exit status 2; every other
  failure of the hook lets the call through.
\<close>

theorem hook_only_tightens:
  "is_ok (validate_tool_call_with_hook disabled to_json spawn ts p tool payload) \<longleftrightarrow>
     tool_action p tool = Allow \<and>
     \<not> (\<not> disabled \<and> (\<exists>h script json out err. pc_hooks p = Some h \<and> pre_tool_call h = Some script \<and>
          to_json (case payload of Some q \<Rightarrow> q | None \<Rightarrow>
            \<lparr>hp_hook = ''pre_tool_call'', hp_tool_name = Some tool, hp_args_json = None,
             hp_project = None, hp_agent = None, hp_timestamp = ts\<rparr>) = Some json \<and>
          spawn script (take (16 * 1024) json) = Exited (Some 2) err out))"
  by (auto simp: validate_tool_call_with_hook_def validate_tool_call_def run_hook_def Let_def
      split: policy_action.splits option.splits hook_process.splits if_splits)

text \<open>
  A preflight report blocks the run exactly when the path is missing, is not a directory, or
  the scan found an issue of high or critical severity.
\<close>

theorem preflight_blocks_iff:
  "list_ex pf_blocking (preflight_report path_exists is_dir env_exists issues) \<longleftrightarrow>
     \<not> path_exists \<or> \<not> is_dir \<or> High \<in> set issues \<or> Critical \<in> set issues"
  by (auto simp: preflight_report_def Let_def filter_empty_conv)

end
