(* ===== verification/Egress.thy ===== *)
theory Egress
  imports Policy
begin

text \<open>
  \<open>crates/raios-core/src/security/egress.rs\<close>: the domain filter for outbound calls. The URL
  parser (the \<open>url\<close> crate) is the parameter \<open>url_host\<close>, from a text to the host of the URL it
  parses to; the IPv4 parser is the standard library's.
\<close>

section \<open>Filter\<close>

record egress_filter =
  ef_enabled :: bool
  ef_deny_all :: bool
  allowed_domains :: "string list"
  blocked_domains :: "string list"

definition egress_disabled :: egress_filter where
  "egress_disabled =
     \<lparr>ef_enabled = False, ef_deny_all = False, allowed_domains = [], blocked_domains = []\<rparr>"

definition egress_from_policy :: "policy_config \<Rightarrow> egress_filter" where
  "egress_from_policy p =
     (case pc_egress p of
        Some e \<Rightarrow>
          \<lparr>ef_enabled = ep_enabled e,
           ef_deny_all = (case ep_deny_all e of Some b \<Rightarrow> b | None \<Rightarrow> False),
           allowed_domains = ep_allowed_domains e, blocked_domains = ep_blocked_domains e\<rparr>
      | None \<Rightarrow> egress_disabled)"

section \<open>Hosts\<close>

definition extract_domain :: "(string \<Rightarrow> string option) \<Rightarrow> string \<Rightarrow> string" where
  "extract_domain url_host url =
     (case (case url_host url of Some h \<Rightarrow> Some h | None \<Rightarrow> url_host (''http://'' @ url)) of
        Some host \<Rightarrow>
          to_lowercase
            (case Option.bind (strip_prefix host ''['') (\<lambda>h. strip_suffix h '']'') of
               Some inner \<Rightarrow> inner | None \<Rightarrow> host)
      | None \<Rightarrow> to_lowercase url)"

text \<open>One decimal octet: one to three digits, no leading zero, at most 255.\<close>

definition parse_octet :: "string \<Rightarrow> nat option" where
  "parse_octet s =
     (if s = [] \<or> 3 < length s \<or> \<not> list_all is_ascii_digit s \<or> (1 < length s \<and> hd s = CHR ''0'')
      then None
      else if digits_value s \<le> 255 then Some (digits_value s) else None)"

definition parse_ipv4 :: "string \<Rightarrow> (nat \<times> nat \<times> nat \<times> nat) option" where
  "parse_ipv4 s =
     (case map parse_octet (split_on (CHR ''.'') s) of
        [Some a, Some b, Some c, Some d] \<Rightarrow> Some (a, b, c, d)
      | _ \<Rightarrow> None)"

definition blocked_hosts :: "string list" where
  "blocked_hosts = [''169.254.169.254'', ''fd00:ec2::254'', ''metadata.google.internal'',
     ''metadata.internal'', ''metadata.azure.com'']"

definition is_blocked_metadata_target :: "string \<Rightarrow> bool" where
  "is_blocked_metadata_target host =
     (List.member blocked_hosts host \<or>
      (case parse_ipv4 host of Some (a, b, c, d) \<Rightarrow> a = 169 \<and> b = 254 | None \<Rightarrow> False))"

definition domain_matches :: "string \<Rightarrow> string \<Rightarrow> bool" where
  "domain_matches domain pattern =
     (let p = to_lowercase (trim pattern)
      in if starts_with p ''.'' then domain = drop 1 p \<or> ends_with domain p
         else domain = p)"

section \<open>Check\<close>

datatype egress_error =
    Metadata_Target string
  | All_Blocked
  | Explicitly_Blocked string
  | Not_In_Allowlist string

definition egress_check ::
  "(string \<Rightarrow> string option) \<Rightarrow> egress_filter \<Rightarrow> string \<Rightarrow> egress_error + unit" where
  "egress_check url_host f url =
     (let domain = extract_domain url_host url
      in if is_blocked_metadata_target domain then Err (Metadata_Target domain)
         else if \<not> ef_enabled f then Ok ()
         else if ef_deny_all f then Err All_Blocked
         else if list_ex (domain_matches domain) (blocked_domains f)
           then Err (Explicitly_Blocked domain)
         else if list_ex (domain_matches domain) (allowed_domains f) then Ok ()
         else Err (Not_In_Allowlist domain))"

definition egress_is_allowed :: "(string \<Rightarrow> string option) \<Rightarrow> egress_filter \<Rightarrow> string \<Rightarrow> bool" where
  "egress_is_allowed url_host f url = is_ok (egress_check url_host f url)"

section \<open>Lemmas\<close>

lemma split_on_append:
  "c \<notin> set xs \<Longrightarrow> split_on c (xs @ c # ys) = xs # split_on c ys"
  by (induction xs) (auto split: list.splits)

lemma split_on_single: "c \<notin> set xs \<Longrightarrow> split_on c xs = [xs]"
  by (induction xs) auto

lemma digits_no_dot: "list_all is_ascii_digit s \<Longrightarrow> CHR ''.'' \<notin> set s"
  by (auto simp: list_all_iff is_ascii_digit_def)

lemma show_nat_length: "n < 10 ^ k \<Longrightarrow> 0 < k \<Longrightarrow> length (show_nat n) \<le> k"
proof (induction n arbitrary: k rule: show_nat.induct)
  case (1 n)
  show ?case
  proof (cases "n < 10")
    case True
    with 1 show ?thesis by (subst show_nat.simps) simp
  next
    case False
    then obtain j where k: "k = Suc j" "0 < j"
      using 1 by (cases k; cases "k - 1") auto
    then have "length (show_nat (n div 10)) \<le> j"
      using 1 False by (intro "1.IH") (auto simp: less_mult_imp_div_less)
    then show ?thesis
      using False k by (subst show_nat.simps) simp
  qed
qed

lemma show_nat_no_leading_zero: "10 \<le> n \<Longrightarrow> hd (show_nat n) \<noteq> CHR ''0''"
proof (induction n rule: show_nat.induct)
  case (1 n)
  show ?case
  proof (cases "n div 10 < 10")
    case True
    then have "show_nat (n div 10) = [digit_char (n div 10)]"
      by (subst show_nat.simps) simp
    moreover have "digit_value (digit_char (n div 10)) \<noteq> digit_value (CHR ''0'')"
      using True 1 by (simp add: digit_char_digit) (simp add: digit_value_def)
    ultimately show ?thesis
      using 1 by (subst show_nat.simps) auto
  next
    case False
    then show ?thesis
      using 1 by (subst show_nat.simps) (simp add: hd_append)
  qed
qed

lemma parse_octet_show: "n \<le> 255 \<Longrightarrow> parse_octet (show_nat n) = Some n"
proof -
  assume n: "n \<le> 255"
  have "length (show_nat n) \<le> 3"
    using n by (intro show_nat_length) simp_all
  moreover have "1 < length (show_nat n) \<Longrightarrow> 10 \<le> n"
    by (subst (asm) show_nat.simps) (auto split: if_splits)
  ultimately show ?thesis
    using n show_nat_no_leading_zero [of n]
    by (auto simp: parse_octet_def show_nat_digits digits_value_show_nat)
qed

definition show_ipv4 :: "nat \<Rightarrow> nat \<Rightarrow> nat \<Rightarrow> nat \<Rightarrow> string" where
  "show_ipv4 a b c d =
     show_nat a @ ''.'' @ show_nat b @ ''.'' @ show_nat c @ ''.'' @ show_nat d"

lemma parse_show_ipv4:
  assumes "a \<le> 255" and "b \<le> 255" and "c \<le> 255" and "d \<le> 255"
  shows "parse_ipv4 (show_ipv4 a b c d) = Some (a, b, c, d)"
  using assms
  by (simp add: parse_ipv4_def show_ipv4_def split_on_append split_on_single digits_no_dot
      show_nat_digits parse_octet_show)

lemma domain_matches_suffix:
  assumes "to_lowercase (trim pattern) = CHR ''.'' # base"
  shows "domain_matches domain pattern \<longleftrightarrow>
    domain = base \<or> (\<exists>sub. domain = sub @ CHR ''.'' # base)"
  using assms by (auto simp: domain_matches_def ends_with_iff suffix_def)

lemma domain_matches_exact:
  assumes "\<not> starts_with (to_lowercase (trim pattern)) ''.''"
  shows "domain_matches domain pattern \<longleftrightarrow> domain = to_lowercase (trim pattern)"
  using assms by (simp add: domain_matches_def)

lemma lower_digit: "is_ascii_digit c \<Longrightarrow> lower_char c = c"
  by (simp add: lower_char_def is_ascii_digit_def)

lemma lower_show_nat: "to_lowercase (show_nat n) = show_nat n"
  using show_nat_digits [of n] lower_digit
  unfolding to_lowercase_def list_all_iff by (intro map_idI) blast

lemma lower_show_ipv4: "to_lowercase (show_ipv4 a b c d) = show_ipv4 a b c d"
proof -
  have "lower_char CHR ''.'' = CHR ''.''"
    by (simp add: lower_char_def)
  then show ?thesis
    using lower_show_nat by (simp add: show_ipv4_def to_lowercase_def)
qed

lemma show_ipv4_no_bracket: "strip_prefix (show_ipv4 a b c d) ''['' = None"
proof -
  have "c \<noteq> CHR ''[''" if "is_ascii_digit c" for c
    using that by (auto simp: is_ascii_digit_def)
  moreover have "hd (show_nat a) \<in> set (show_nat a)"
    by simp
  ultimately have "hd (show_nat a) \<noteq> CHR ''[''"
    using show_nat_digits [of a] by (metis list_all_iff)
  then show ?thesis
    by (cases "show_nat a") (auto simp: strip_prefix_def show_ipv4_def)
qed

section \<open>Properties\<close>

text \<open>
  The metadata floor holds under every configuration: a URL whose host is one of the listed
  metadata names, or any address of the block \<open>169.254.0.0/16\<close>, is refused even when the filter
  is disabled or its allowlist names the host.
\<close>

theorem egress_metadata_always_blocked:
  assumes "url_host url = Some host"
    and "host \<in> set blocked_hosts \<or> (\<exists>c d. c \<le> 255 \<and> d \<le> 255 \<and> host = show_ipv4 169 254 c d)"
  shows "egress_check url_host f url = Err (Metadata_Target host)"
proof -
  have "extract_domain url_host url = host"
    using assms
    by (auto simp: extract_domain_def show_ipv4_no_bracket lower_show_ipv4)
      (auto simp: blocked_hosts_def strip_prefix_def to_lowercase_def lower_char_def)
  moreover have "is_blocked_metadata_target host"
    using assms(2) by (auto simp: is_blocked_metadata_target_def parse_show_ipv4)
  ultimately show ?thesis
    by (simp add: egress_check_def)
qed

text \<open>
  C31: The filter decides in the documented order and fails closed: a call is let through exactly
  when its host is no metadata target and either the filter is disabled, or nothing is denied
  wholesale, no blocked pattern matches and some allowed pattern does, where a pattern with a
  leading dot stands for the domain and its subdomains and any other pattern for itself.
\<close>

theorem egress_allowed_iff:
  "egress_is_allowed url_host f url \<longleftrightarrow>
    (let domain = extract_domain url_host url;
         matches = (\<lambda>pat. case to_lowercase (trim pat) of
           c # base \<Rightarrow>
             if c = CHR ''.'' then domain = base \<or> (\<exists>sub. domain = sub @ CHR ''.'' # base)
             else domain = c # base
         | [] \<Rightarrow> domain = [])
     in \<not> is_blocked_metadata_target domain \<and>
        (ef_enabled f \<longrightarrow> \<not> ef_deny_all f \<and>
           (\<forall>pat\<in>set (blocked_domains f). \<not> matches pat) \<and>
           (\<exists>pat\<in>set (allowed_domains f). matches pat)))"
proof -
  have "domain_matches domain pat = (case to_lowercase (trim pat) of
           c # base \<Rightarrow>
             if c = CHR ''.'' then domain = base \<or> (\<exists>sub. domain = sub @ CHR ''.'' # base)
             else domain = c # base
         | [] \<Rightarrow> domain = [])" for domain pat
    by (cases "to_lowercase (trim pat)")
      (auto simp: domain_matches_suffix domain_matches_exact domain_matches_def ends_with_iff
        suffix_def)
  then show ?thesis
    by (auto simp: egress_is_allowed_def egress_check_def Let_def list_ex_iff)
qed

text \<open>
  The floor is by spelling: with the filter disabled, the IPv4-mapped IPv6 form of the
  metadata address and the metadata name with a trailing dot are let through.
\<close>

theorem egress_metadata_aliases_pass:
  assumes "url_host url = Some host" and "\<not> ef_enabled f"
    and "host = ''[::ffff:a9fe:a9fe]'' \<or> host = ''metadata.google.internal.''"
  shows "egress_check url_host f url = Ok ()"
proof -
  have "extract_domain url_host url = (if host = ''[::ffff:a9fe:a9fe]'' then ''::ffff:a9fe:a9fe''
      else ''metadata.google.internal.'')"
  proof -
    have "extract_domain (\<lambda>u. Some ''[::ffff:a9fe:a9fe]'') [] = ''::ffff:a9fe:a9fe''"
      "extract_domain (\<lambda>u. Some ''metadata.google.internal.'') [] = ''metadata.google.internal.''"
      by code_simp+
    then show ?thesis
      using assms(1,3) by (auto simp: extract_domain_def)
  qed
  moreover have "\<not> is_blocked_metadata_target ''::ffff:a9fe:a9fe''"
    "\<not> is_blocked_metadata_target ''metadata.google.internal.''"
    by code_simp+
  ultimately show ?thesis
    using assms(2,3) by (auto simp: egress_check_def Let_def)
qed

section \<open>A filter with an allowlist\<close>

text \<open>Here a URL is its host.\<close>

lemma egress_metadata_always_blocked_witness:
  "egress_check Some egress_disabled ''metadata.azure.com'' = Err (Metadata_Target ''metadata.azure.com'') \<and>
   egress_check Some egress_disabled (show_ipv4 169 254 7 8) = Err (Metadata_Target (show_ipv4 169 254 7 8))"
proof
  show "egress_check Some egress_disabled ''metadata.azure.com'' =
      Err (Metadata_Target ''metadata.azure.com'')"
    by (rule egress_metadata_always_blocked) (simp_all add: blocked_hosts_def)
  have "\<exists>c d. c \<le> 255 \<and> d \<le> 255 \<and> show_ipv4 169 254 7 8 = show_ipv4 169 254 c d"
    by (rule exI [of _ 7], rule exI [of _ 8]) simp
  then show "egress_check Some egress_disabled (show_ipv4 169 254 7 8) =
      Err (Metadata_Target (show_ipv4 169 254 7 8))"
    by (intro egress_metadata_always_blocked) simp_all
qed

lemma egress_allowed_iff_witness:
  "let f = \<lparr>ef_enabled = True, ef_deny_all = False, allowed_domains = [''.org''], blocked_domains = [''b.org'']\<rparr>
   in egress_is_allowed Some f ''a.org'' \<and> \<not> egress_is_allowed Some f ''b.org''"
  unfolding Let_def egress_allowed_iff
  by (simp add: extract_domain_def strip_prefix_def strip_suffix_def is_blocked_metadata_target_def
      blocked_hosts_def parse_ipv4_def parse_octet_def is_ascii_digit_def to_lowercase_def lower_char_def
      trim_def trim_end_by_def trim_start_def is_whitespace_def)

end
