(* ===== verification/Sandbox.thy ===== *)
theory Sandbox
  imports Prelude
begin

text \<open>
  \<open>crates/raios-core/src/security/sandbox.rs\<close> on Unix: the file-system jail of the tools. A
  \<open>Path\<close> is the list of its components (the operations of the code are all
  component-wise); the file system is a record of what \<open>exists\<close> and \<open>canonicalize\<close> answer.
\<close>

section \<open>Paths\<close>

datatype component = Root_Dir | Cur_Dir | Parent_Dir | Normal string

type_synonym path = "component list"

definition segment :: "string \<Rightarrow> component list" where
  "segment s = (if s = [] \<or> s = ''.'' then [] else if s = ''..'' then [Parent_Dir] else [Normal s])"

text \<open>\<open>Path::components\<close>: empty segments vanish, and so does \<open>.\<close> except at the front.\<close>

definition components :: "string \<Rightarrow> path" where
  "components s =
     (let segs = split_on (CHR ''/'') s
      in (if starts_with s ''/'' then [Root_Dir] else if hd segs = ''.'' then [Cur_Dir] else []) @
         concat (map segment segs))"

definition path_parent :: "path \<Rightarrow> path option" where
  "path_parent p = (if p = [] \<or> last p = Root_Dir then None else Some (butlast p))"

definition path_file_name :: "path \<Rightarrow> string option" where
  "path_file_name p =
     (if p = [] then None else case last p of Normal s \<Rightarrow> Some s | _ \<Rightarrow> None)"

definition path_push :: "path \<Rightarrow> component \<Rightarrow> path" where
  "path_push p c = (if c = Root_Dir then [Root_Dir] else p @ [c])"

definition path_pop :: "path \<Rightarrow> path" where
  "path_pop p = (case path_parent p of Some q \<Rightarrow> q | None \<Rightarrow> p)"

definition path_join :: "path \<Rightarrow> path \<Rightarrow> path" where
  "path_join p q =
     (if q \<noteq> [] \<and> hd q = Root_Dir then q
      else p @ (if p = [] then q else filter (\<lambda>c. c \<noteq> Cur_Dir) q))"

section \<open>Resolution\<close>

record file_system =
  fs_exists :: "path \<Rightarrow> bool"
  fs_canonicalize :: "path \<Rightarrow> path option"

datatype sandbox_error =
    Canonicalize_Failed
  | No_Parent
  | Parent_Inaccessible
  | No_File_Name
  | Workspace_Inaccessible
  | Outside_Workspace
  | Blocked_Path path

definition resolve_target :: "file_system \<Rightarrow> path \<Rightarrow> sandbox_error + path" where
  "resolve_target fs target =
     (if fs_exists fs target then
        (case fs_canonicalize fs target of Some p \<Rightarrow> Ok p | None \<Rightarrow> Err Canonicalize_Failed)
      else case path_parent target of
        None \<Rightarrow> Err No_Parent
      | Some parent \<Rightarrow>
          (case fs_canonicalize fs parent of
             None \<Rightarrow> Err Parent_Inaccessible
           | Some canonical_parent \<Rightarrow>
               (case path_file_name target of
                  None \<Rightarrow> Err No_File_Name
                | Some file_name \<Rightarrow> Ok (canonical_parent @ [Normal file_name]))))"

fun normalize_lexically :: "path \<Rightarrow> path \<Rightarrow> path" where
  "normalize_lexically result [] = result"
| "normalize_lexically result (c # cs) =
     normalize_lexically
       (case c of Parent_Dir \<Rightarrow> path_pop result | Cur_Dir \<Rightarrow> result | _ \<Rightarrow> path_push result c) cs"

definition normalize_best_effort :: "file_system \<Rightarrow> path \<Rightarrow> path" where
  "normalize_best_effort fs p =
     (case fs_canonicalize fs p of Some q \<Rightarrow> q | None \<Rightarrow> normalize_lexically [] p)"

fun path_starts_with :: "path \<Rightarrow> path \<Rightarrow> bool" where
  "path_starts_with target [] = True"
| "path_starts_with [] (p # ps) = False"
| "path_starts_with (t # ts) (p # ps) = (t = p \<and> path_starts_with ts ps)"

section \<open>Validation\<close>

definition validate_path :: "file_system \<Rightarrow> path \<Rightarrow> path \<Rightarrow> sandbox_error + path" where
  "validate_path fs target workspace =
     (case fs_canonicalize fs workspace of
        None \<Rightarrow> Err Workspace_Inaccessible
      | Some w \<Rightarrow>
          and_then (resolve_target fs target) (\<lambda>t.
            if path_starts_with t w then Ok t else Err Outside_Workspace))"

definition is_path_safe :: "file_system \<Rightarrow> path \<Rightarrow> path \<Rightarrow> bool" where
  "is_path_safe fs target workspace = is_ok (validate_path fs target workspace)"

definition expand_home :: "path option \<Rightarrow> string \<Rightarrow> path" where
  "expand_home home s =
     (let rest = (if s = ''~'' then Some []
                  else case strip_prefix s ''~/'' of
                         Some r \<Rightarrow> Some r | None \<Rightarrow> strip_prefix s [CHR ''~'', CHR 0x5C])
      in case (rest, home) of
           (Some r, Some h) \<Rightarrow> if r = [] then h else path_join h (components r)
         | _ \<Rightarrow> components s)"

record sandbox_guard =
  sg_workspace :: path
  sg_blocked_paths :: "path list"

definition guard_new :: "path \<Rightarrow> sandbox_guard" where
  "guard_new w = \<lparr>sg_workspace = w, sg_blocked_paths = []\<rparr>"

definition with_blocked_paths :: "path option \<Rightarrow> sandbox_guard \<Rightarrow> string list \<Rightarrow> sandbox_guard" where
  "with_blocked_paths home g paths = g\<lparr>sg_blocked_paths := map (expand_home home) paths\<rparr>"

definition guard_check :: "file_system \<Rightarrow> sandbox_guard \<Rightarrow> path \<Rightarrow> sandbox_error + path" where
  "guard_check fs g target =
     and_then (resolve_target fs target) (\<lambda>t.
       case List.find (\<lambda>b. path_starts_with t (normalize_best_effort fs b)) (sg_blocked_paths g) of
         Some b \<Rightarrow> Err (Blocked_Path b)
       | None \<Rightarrow>
           (case fs_canonicalize fs (sg_workspace g) of
              None \<Rightarrow> Err Workspace_Inaccessible
            | Some w \<Rightarrow> if path_starts_with t w then Ok t else Err Outside_Workspace))"

definition guard_is_allowed :: "file_system \<Rightarrow> sandbox_guard \<Rightarrow> path \<Rightarrow> bool" where
  "guard_is_allowed fs g target = is_ok (guard_check fs g target)"

section \<open>Lemmas\<close>

text \<open>Absolute and free of \<open>.\<close> and \<open>..\<close>: the documented shape of what \<open>canonicalize\<close> returns.\<close>

definition canonical_form :: "path \<Rightarrow> bool" where
  "canonical_form p \<longleftrightarrow> p \<noteq> [] \<and> hd p = Root_Dir \<and>
     list_all (\<lambda>c. \<exists>s. c = Normal s) (tl p)"

definition canonicalize_sound :: "file_system \<Rightarrow> bool" where
  "canonicalize_sound fs \<longleftrightarrow> (\<forall>p q. fs_canonicalize fs p = Some q \<longrightarrow> canonical_form q)"

lemma path_starts_with_iff: "path_starts_with t p \<longleftrightarrow> prefix p t"
  by (induction t p rule: path_starts_with.induct) auto

lemma canonical_form_snoc: "canonical_form p \<Longrightarrow> canonical_form (p @ [Normal s])"
  by (cases p) (auto simp: canonical_form_def)

lemma resolve_canonical:
  assumes "canonicalize_sound fs" and "resolve_target fs target = Ok t"
  shows "canonical_form t"
  using assms
  by (auto simp: resolve_target_def canonicalize_sound_def intro: canonical_form_snoc
      split: if_splits option.splits)

lemma guard_check_Ok_iff:
  "guard_check fs g target = Ok t \<longleftrightarrow>
     resolve_target fs target = Ok t \<and>
     (\<forall>b\<in>set (sg_blocked_paths g). \<not> prefix (normalize_best_effort fs b) t) \<and>
     (\<exists>w. fs_canonicalize fs (sg_workspace g) = Some w \<and> prefix w t)"
  by (auto simp: guard_check_def and_then_Inr_iff find_None_iff path_starts_with_iff
      dest: find_Some_in split: option.splits if_splits)

definition dot_free :: "path \<Rightarrow> bool" where
  "dot_free p \<longleftrightarrow> Cur_Dir \<notin> set p \<and> Parent_Dir \<notin> set p"

lemma dot_free_pop: "dot_free r \<Longrightarrow> dot_free (path_pop r)"
  by (auto simp: dot_free_def path_pop_def path_parent_def dest: in_set_butlastD)

lemma lexical_dot_free: "dot_free r \<Longrightarrow> dot_free (normalize_lexically r p)"
proof (induction p arbitrary: r)
  case (Cons c p)
  have "dot_free (case c of Parent_Dir \<Rightarrow> path_pop r | Cur_Dir \<Rightarrow> r | _ \<Rightarrow> path_push r c)"
    using Cons.prems dot_free_pop [OF Cons.prems]
    by (cases c) (auto simp: dot_free_def path_push_def)
  then show ?case
    using Cons.IH by simp
qed simp

section \<open>Properties\<close>

text \<open>
  The guard lets a target through exactly when it resolves, its resolved form lies under the
  canonical workspace component by component, and no normalized blocked path is a component
  prefix of it; what it returns is that resolved form. With \<open>canonicalize\<close> returning absolute
  dot-free paths, the returned path is one too, so no \<open>..\<close> can lead out of the workspace again.
\<close>

theorem sandbox_confines:
  assumes "canonicalize_sound fs"
  shows "guard_check fs g target = Ok t \<longleftrightarrow>
     resolve_target fs target = Ok t \<and> canonical_form t \<and>
     (\<forall>b\<in>set (sg_blocked_paths g). \<not> prefix (normalize_best_effort fs b) t) \<and>
     (\<exists>w rest. fs_canonicalize fs (sg_workspace g) = Some w \<and> t = w @ rest \<and>
        list_all (\<lambda>c. \<exists>s. c = Normal s) rest)"
proof -
  have "list_all (\<lambda>c. \<exists>s. c = Normal s) rest"
    if "canonical_form (w @ rest)" "fs_canonicalize fs (sg_workspace g) = Some w" for w rest
    using that assms by (cases w) (auto simp: canonicalize_sound_def canonical_form_def)
  then show ?thesis
    using resolve_canonical [OF assms, of target t]
    by (auto simp: guard_check_Ok_iff prefix_def)
qed

text \<open>
  A blocked path that cannot be canonicalized still blocks: its lexical form holds no \<open>.\<close> or
  \<open>..\<close>, and blocking is by whole components, so neither the path itself nor anything below
  it gets through, while a sibling whose name merely extends the blocked name is not affected.
\<close>

theorem sandbox_blocks_components:
  assumes "fs_canonicalize fs b = None" and "b \<in> set (sg_blocked_paths g)"
    and "normalize_lexically [] b = p @ [Normal name]" and "suffix_name \<noteq> []"
  shows "(\<forall>below target. guard_check fs g target \<noteq> Ok (p @ Normal name # below)) \<and>
    \<not> path_starts_with (p @ Normal (name @ suffix_name) # rest) (normalize_best_effort fs b) \<and>
    Cur_Dir \<notin> set (normalize_best_effort fs b) \<and> Parent_Dir \<notin> set (normalize_best_effort fs b)"
proof -
  have norm: "normalize_best_effort fs b = p @ [Normal name]"
    using assms(1,3) by (simp add: normalize_best_effort_def)
  moreover have "prefix (p @ [Normal name]) (p @ Normal name # below)" for below
    by simp
  moreover have "\<not> prefix (p @ [Normal name]) (p @ Normal (name @ suffix_name) # rest)"
    using assms(4) by simp
  moreover have "Cur_Dir \<notin> set (p @ [Normal name])" "Parent_Dir \<notin> set (p @ [Normal name])"
    using lexical_dot_free [of "[]" b] assms(3) by (auto simp: dot_free_def)
  moreover have "guard_check fs g target \<noteq> Ok t" if "prefix (normalize_best_effort fs b) t" for target t
    using that assms(2) by (auto simp: guard_check_Ok_iff)
  ultimately show ?thesis
    by (simp add: path_starts_with_iff)
qed

section \<open>A workspace with a blocked directory\<close>

text \<open>Paths below \<open>/w\<close> exist and are canonical, and \<open>/w/link\<close> leads out of it; nothing else resolves.\<close>

abbreviation linked_fs :: file_system where
  "linked_fs \<equiv> \<lparr>fs_exists = (\<lambda>p. p = [Root_Dir, Normal ''w'', Normal ''link'']),
     fs_canonicalize = (\<lambda>p. if p = [Root_Dir, Normal ''w''] then Some p
       else if p = [Root_Dir, Normal ''w'', Normal ''link''] then Some [Root_Dir, Normal ''etc''] else None)\<rparr>"

abbreviation link_guard :: sandbox_guard where
  "link_guard \<equiv> \<lparr>sg_workspace = [Root_Dir, Normal ''w''],
     sg_blocked_paths = [[Root_Dir, Normal ''w'', Cur_Dir, Normal ''.git'']]\<rparr>"

lemma sandbox_confines_witness:
  "guard_check linked_fs link_guard [Root_Dir, Normal ''w'', Normal ''new''] =
      Ok [Root_Dir, Normal ''w'', Normal ''new''] \<and>
   guard_check linked_fs link_guard [Root_Dir, Normal ''w'', Normal ''link''] \<noteq> Ok [Root_Dir, Normal ''etc'']"
proof -
  have sound: "canonicalize_sound linked_fs"
    by (simp add: canonicalize_sound_def canonical_form_def)
  show ?thesis
    unfolding sandbox_confines [OF sound]
    by (simp add: resolve_target_def path_parent_def path_file_name_def canonical_form_def
        normalize_best_effort_def path_push_def)
qed

lemma sandbox_blocks_components_witness:
  "guard_check linked_fs link_guard [Root_Dir, Normal ''w'', Normal ''.git''] \<noteq>
     Ok [Root_Dir, Normal ''w'', Normal ''.git'']"
  using sandbox_blocks_components [of linked_fs "[Root_Dir, Normal ''w'', Cur_Dir, Normal ''.git'']" link_guard
      "[Root_Dir, Normal ''w'']" "''.git''" "''x''"]
  by (simp add: path_push_def)

end
