(* ===== verification/Capabilities.thy ===== *)
theory Capabilities
  imports Egress Sandbox
begin

text \<open>
  \<open>crates/raios-core/src/security/capabilities.rs\<close>: what each built-in tool may touch ("no
  ambient authority"), and the two places that enforce it: the sandbox for paths, the egress
  filter for domains.
\<close>

definition path_resolving_tools :: "string list" where
  "path_resolving_tools =
     [''git_status'', ''git_log'', ''git_diff'', ''git_commit'', ''disk_usage'', ''version_info'',
      ''version_bump'', ''env_status'', ''deps_status'', ''run_build'', ''run_tests'',
      ''project_info'', ''semantic_search'', ''locate_search'', ''create_swarm_task'']"

definition all_tools :: "string list" where
  "all_tools =
     [''update_state'', ''handover'', ''add_task'', ''get_health'', ''get_inbox'',
      ''list_projects'', ''get_stats'', ''semantic_search'', ''anka_recall'', ''project_info'',
      ''portfolio_status'', ''disk_usage'', ''list_ports'', ''usage_status'', ''version_info'',
      ''version_bump'', ''env_status'', ''deps_status'', ''run_build'', ''run_tests'',
      ''git_status'', ''git_log'', ''git_diff'', ''git_commit'', ''ask_architect'',
      ''get_validation_errors'', ''session_note'', ''create_swarm_task'', ''list_swarm_tasks'',
      ''approve_swarm_task'', ''route_capability'', ''list_evolution_candidates'',
      ''promote_evolution_candidate'', ''get_agent_stats'']"

definition read_any :: tool_capabilities where
  "read_any = no_capabilities\<lparr>fs_read := [''*'']\<rparr>"

definition read_write_exec :: tool_capabilities where
  "read_write_exec = no_capabilities\<lparr>fs_read := [''*''], fs_write := [''*''], exec := True\<rparr>"

definition local_daemon :: "string list" where
  "local_daemon = [''127.0.0.1'', ''localhost'']"

definition default_for :: "string \<Rightarrow> tool_capabilities" where
  "default_for tool =
     (if List.member [''git_status'', ''git_log'', ''git_diff'', ''project_info'', ''disk_usage'',
           ''version_info'', ''env_status'', ''deps_status''] tool then read_any
      else if List.member [''git_commit'', ''version_bump''] tool then read_write_exec
      else if List.member [''run_build'', ''run_tests''] tool then read_write_exec
      else if tool = ''semantic_search'' then read_any\<lparr>network := local_daemon\<rparr>
      else if tool = ''locate_search'' then read_any
      else if tool = ''create_swarm_task'' then read_write_exec
      else if List.member [''get_inbox'', ''route_capability'', ''list_evolution_candidates'',
           ''promote_evolution_candidate''] tool then no_capabilities\<lparr>network := local_daemon\<rparr>
      else if tool = ''anka_recall'' then no_capabilities\<lparr>fs_read := [''<anka-cache>'']\<rparr>
      else no_capabilities)"

definition resolve_capabilities :: "string \<Rightarrow> tool_capabilities option \<Rightarrow> tool_capabilities" where
  "resolve_capabilities tool override_caps =
     (case override_caps of Some c \<Rightarrow> c | None \<Rightarrow> default_for tool)"

datatype capability_error =
    No_Fs_Capability
  | Sandbox_Refused sandbox_error
  | No_Network_Permitted "string list"

definition check_fs_capability :: "file_system \<Rightarrow> path option \<Rightarrow> tool_capabilities \<Rightarrow> path \<Rightarrow> path \<Rightarrow>
    string list \<Rightarrow> capability_error + unit" where
  "check_fs_capability fs home caps workspace_root target blocked =
     (if fs_read caps = [] \<and> fs_write caps = [] then Err No_Fs_Capability
      else case guard_check fs (with_blocked_paths home (guard_new workspace_root) blocked) target of
             Inr _ \<Rightarrow> Ok ()
           | Inl e \<Rightarrow> Err (Sandbox_Refused e))"

definition check_network_capability ::
  "(string \<Rightarrow> string option) \<Rightarrow> tool_capabilities \<Rightarrow> egress_filter \<Rightarrow> capability_error + unit" where
  "check_network_capability url_host caps f =
     (if network caps = [] then Ok ()
      else if list_ex (\<lambda>domain. is_ok (egress_check url_host f domain)) (network caps) then Ok ()
      else Err (No_Network_Permitted (network caps)))"

lemma with_blocked_paths_simps [simp]:
  "sg_workspace (with_blocked_paths home (guard_new w) bs) = w"
  "sg_blocked_paths (with_blocked_paths home (guard_new w) bs) = map (expand_home home) bs"
  by (simp_all add: with_blocked_paths_def guard_new_def)

section \<open>Properties\<close>

text \<open>
  No ambient authority: a tool reaches a path only if it declares a file-system capability and
  the path's resolved form is inside the workspace root and under no blocked path.
\<close>

theorem fs_capability_confines:
  "is_ok (check_fs_capability fs home caps root target blocked) \<longleftrightarrow>
     (fs_read caps \<noteq> [] \<or> fs_write caps \<noteq> []) \<and>
     (\<exists>t w. resolve_target fs target = Ok t \<and> fs_canonicalize fs root = Some w \<and> prefix w t \<and>
        (\<forall>b\<in>set blocked. \<not> prefix (normalize_best_effort fs (expand_home home b)) t))"
proof -
  have "is_ok (guard_check fs (with_blocked_paths home (guard_new root) blocked) target) \<longleftrightarrow>
     (\<exists>t w. resolve_target fs target = Ok t \<and> fs_canonicalize fs root = Some w \<and> prefix w t \<and>
        (\<forall>b\<in>set blocked. \<not> prefix (normalize_best_effort fs (expand_home home b)) t))"
    by (auto simp: is_ok_iff guard_check_Ok_iff)
  then show ?thesis
    by (auto simp: check_fs_capability_def is_ok_iff split: sum.splits)
qed

text \<open>
  The built-in defaults give no tool more than its group needs: every tool with write access
  may also spawn processes and is one of the five that change a project, every tool with network
  access talks to the local daemon only, and a tool that is not listed gets nothing.
\<close>

theorem default_capabilities_minimal:
  "(fs_write (default_for tool) \<noteq> [] \<longleftrightarrow>
      tool \<in> {''git_commit'', ''version_bump'', ''run_build'', ''run_tests'', ''create_swarm_task''}) \<and>
   (exec (default_for tool) \<longleftrightarrow> fs_write (default_for tool) \<noteq> []) \<and>
   set (network (default_for tool)) \<subseteq> {''127.0.0.1'', ''localhost''} \<and>
   (fs_read (default_for tool) = [''*''] \<longleftrightarrow> tool \<in> set path_resolving_tools) \<and>
   (tool \<notin> set all_tools \<union> {''locate_search''} \<longrightarrow> default_for tool = no_capabilities)"
proof (cases "tool \<in> set all_tools \<union> {''locate_search''}")
  case False
  then have "default_for tool = no_capabilities"
    by (auto simp: default_for_def all_tools_def)
  then show ?thesis
    using False by (auto simp: no_capabilities_def path_resolving_tools_def all_tools_def)
next
  case True
  then show ?thesis
    by (auto simp: all_tools_def default_for_def read_any_def read_write_exec_def local_daemon_def
        no_capabilities_def path_resolving_tools_def)
qed

section \<open>A tool in a workspace\<close>

text \<open>A file system in which every path exists and is its own canonical form.\<close>

abbreviation plain_fs :: file_system where
  "plain_fs \<equiv> \<lparr>fs_exists = (\<lambda>_. True), fs_canonicalize = Some\<rparr>"

lemma fs_capability_confines_witness:
  "let root = [Root_Dir, Normal ''w'']; check = (\<lambda>tool p.
        is_ok (check_fs_capability plain_fs None (default_for tool) root p [''/w/.git'']))
   in check ''git_log'' (root @ [Normal ''a'']) \<and> \<not> check ''git_log'' (root @ [Normal ''.git'', Normal ''x'']) \<and>
      \<not> check ''git_log'' [Root_Dir, Normal ''etc''] \<and> \<not> check ''handover'' (root @ [Normal ''a''])"
  unfolding Let_def fs_capability_confines
  by (simp add: default_for_def read_any_def no_capabilities_def resolve_target_def
      normalize_best_effort_def expand_home_def strip_prefix_def components_def segment_def)

lemma default_capabilities_minimal_witness:
  "default_for ''sh'' = no_capabilities \<and> exec (default_for ''git_commit'')"
  using default_capabilities_minimal [of "''sh''"] default_capabilities_minimal [of "''git_commit''"]
  by (simp add: all_tools_def)

end
