(* ===== verification/Secret_Lease.thy ===== *)
theory Secret_Lease
  imports Machines Sql_Table
begin

text \<open>
  \<open>crates/raios-core/src/security/secret_lease.rs\<close>: a secret held in an environment variable
  is leased to one tool for a limited time. The state is the table \<open>secret_leases\<close>, the
  process environment and the in-memory vault; the clock reading of each operation is an
  argument. An environment value is a string, or bytes that are not UTF-8.
\<close>

section \<open>Durations\<close>

datatype ttl_error = Empty_Duration | Invalid_Duration | Unknown_Suffix | Ttl_Panic

text \<open>
  \<open>parse_ttl\<close>: the last byte is split off; a split inside a character panics. The product of
  number and unit is a \<open>u64\<close> multiplication, which wraps in the release profile.
\<close>

definition parse_ttl :: "string \<Rightarrow> ttl_error + 64 word" where
  "parse_ttl s0 =
     (let s = trim s0
      in if s = [] then Err Empty_Duration
         else if is_continuation (last s) then Err Ttl_Panic
         else let number = butlast s; suffix = last s;
                  scaled = (\<lambda>m :: 64 word. case parse_uint u64_max number of
                              Some n \<Rightarrow> Ok (of_nat n * m) | None \<Rightarrow> Err Invalid_Duration)
              in if suffix = CHR ''s'' then scaled 1
                 else if suffix = CHR ''m'' then scaled 60
                 else if suffix = CHR ''h'' then scaled 3600
                 else if suffix = CHR ''d'' then scaled 86400
                 else if is_ascii_digit suffix
                   then (case parse_uint u64_max s of
                           Some n \<Rightarrow> Ok (of_nat n) | None \<Rightarrow> Err Invalid_Duration)
                 else Err Unknown_Suffix)"

section \<open>Lease table, environment and vault\<close>

datatype lease_status = Active | Revoked | Expired

record lease =
  le_id :: string
  le_tool :: string
  le_env_var :: string
  le_granted_at :: int
  le_expires_at :: int
  le_status :: lease_status

datatype os_value = Utf8 string | Not_Utf8 string

record lease_world =
  lw_leases :: "lease list"
  lw_available :: bool
  lw_env :: "string \<rightharpoonup> os_value"
  lw_vault :: "string \<rightharpoonup> string"

text \<open>The rows as the listings show them.\<close>

record secret_lease =
  sl_id :: string
  sl_tool :: string
  sl_env_var :: string
  sl_granted_at :: string
  sl_expires_at :: string
  sl_status :: lease_status

text \<open>\<open>unix_to_iso\<close>: years of 365 and months of 30 days.\<close>

definition iso_date :: "nat \<Rightarrow> nat \<times> nat \<times> nat" where
  "iso_date secs =
     (let days = secs div 86400; doy = days mod 365
      in (1970 + days div 365, doy div 30 + 1, doy mod 30 + 1))"

definition iso_time :: "nat \<Rightarrow> nat \<times> nat \<times> nat" where
  "iso_time secs =
     (let d = secs mod 86400 in (d div 3600, (d mod 3600) div 60, d mod 60))"

definition unix_to_iso :: "64 word \<Rightarrow> string" where
  "unix_to_iso secs =
     (let (year, month, day) = iso_date (unat secs); (h, m, s) = iso_time (unat secs);
          two = (\<lambda>n. pad_left 2 (show_nat n))
      in pad_left 4 (show_nat year) @ ''-'' @ two month @ ''-'' @ two day @ ''T'' @
         two h @ '':'' @ two m @ '':'' @ two s @ ''Z'')"

definition collect_rows :: "lease list \<Rightarrow> secret_lease list" where
  "collect_rows = map (\<lambda>l.
     \<lparr>sl_id = le_id l, sl_tool = le_tool l, sl_env_var = le_env_var l,
      sl_granted_at = unix_to_iso (word_of_int (le_granted_at l)),
      sl_expires_at = unix_to_iso (word_of_int (le_expires_at l)),
      sl_status = le_status l\<rparr>)"

text \<open>
  Timestamps are \<open>u64\<close> seconds; the sum in \<open>grant\<close> wraps, and the columns hold them as \<open>i64\<close>.
\<close>

definition grant ::
  "lease_world \<Rightarrow> string \<Rightarrow> string \<Rightarrow> string \<Rightarrow> 64 word \<Rightarrow> 64 word \<Rightarrow> (unit + string) \<times> lease_world" where
  "grant w ident tool env_var ttl now =
     (if \<not> lw_available w \<or> list_ex (\<lambda>l. le_id l = ident) (lw_leases w) then (Err (), w)
      else (Ok ident, w\<lparr>lw_leases := lw_leases w @
        [\<lparr>le_id = ident, le_tool = tool, le_env_var = env_var, le_granted_at = sint now,
          le_expires_at = sint (now + ttl), le_status = Active\<rparr>]\<rparr>))"

definition revoke :: "lease_world \<Rightarrow> string \<Rightarrow> (unit + bool) \<times> lease_world" where
  "revoke w ident =
     (if \<not> lw_available w then (Err (), w)
      else let p = (\<lambda>l. le_id l = ident \<and> le_status l = Active)
           in (Ok (0 < count_where p (lw_leases w)),
               w\<lparr>lw_leases := update_where p (\<lambda>l. l\<lparr>le_status := Revoked\<rparr>) (lw_leases w)\<rparr>))"

definition expire_old :: "lease_world \<Rightarrow> 64 word \<Rightarrow> (unit + nat) \<times> lease_world" where
  "expire_old w now =
     (if \<not> lw_available w then (Err (), w)
      else let p = (\<lambda>l. le_status l = Active \<and> le_expires_at l < sint now)
           in (Ok (count_where p (lw_leases w)),
               w\<lparr>lw_leases := update_where p (\<lambda>l. l\<lparr>le_status := Expired\<rparr>) (lw_leases w)\<rparr>))"

definition list_active :: "lease_world \<Rightarrow> 64 word \<Rightarrow> (unit + secret_lease list) \<times> lease_world" where
  "list_active w now =
     (case expire_old w now of
        (Inl e, w') \<Rightarrow> (Err e, w')
      | (Inr k, w') \<Rightarrow>
          (Ok (collect_rows (sort_key le_expires_at
             (select_where (\<lambda>l. le_status l = Active) (lw_leases w')))), w'))"

definition lease_list_all :: "lease_world \<Rightarrow> unit + secret_lease list" where
  "lease_list_all w =
     (if \<not> lw_available w then Err ()
      else Ok (collect_rows (take 50 (sort_key (\<lambda>l. - le_granted_at l) (lw_leases w)))))"

section \<open>Scrubbing and injection\<close>

text \<open>One variable moved out of the environment; a value that is not UTF-8 is dropped, not kept.\<close>

definition scrub_var :: "string \<Rightarrow> lease_world \<Rightarrow> lease_world" where
  "scrub_var v w =
     (case lw_env w v of
        None \<Rightarrow> w
      | Some val \<Rightarrow>
          w\<lparr>lw_vault := (case val of Utf8 s \<Rightarrow> (lw_vault w)(v \<mapsto> s) | Not_Utf8 b \<Rightarrow> lw_vault w),
            lw_env := (lw_env w)(v := None)\<rparr>)"

definition leasable_vars :: "lease_world \<Rightarrow> string list" where
  "leasable_vars w = remdups (map le_env_var (lw_leases w))"

definition scrub_leasable_env :: "lease_world \<Rightarrow> nat \<times> lease_world" where
  "scrub_leasable_env w =
     (if \<not> lw_available w then (0, w)
      else (length (filter (\<lambda>v. lw_env w v \<noteq> None) (leasable_vars w)),
            fold scrub_var (leasable_vars w) w))"

definition lookup_secret :: "lease_world \<Rightarrow> string \<Rightarrow> string option" where
  "lookup_secret w v =
     (case lw_vault w v of
        Some s \<Rightarrow> Some s
      | None \<Rightarrow> (case lw_env w v of Some (Utf8 s) \<Rightarrow> Some s | _ \<Rightarrow> None))"

definition active_env_for_tool :: "lease_world \<Rightarrow> string \<Rightarrow> 64 word \<Rightarrow> (string \<times> string) list \<times> lease_world" where
  "active_env_for_tool w tool now =
     (let w' = snd (expire_old w now)
      in (if \<not> lw_available w' then []
          else List.map_filter (\<lambda>v. map_option (Pair v) (lookup_secret w' v))
            (map le_env_var (select_where
               (\<lambda>l. le_tool l = tool \<and> le_status l = Active \<and> sint now \<le> le_expires_at l)
               (lw_leases w'))), w'))"

text \<open>The guard is the list of variables set for the call; dropping it removes them.\<close>

definition inject_active_env :: "lease_world \<Rightarrow> string \<Rightarrow> 64 word \<Rightarrow> string list \<times> lease_world" where
  "inject_active_env w tool now =
     (let w1 = snd (scrub_leasable_env w);
          (pairs, w2) = active_env_for_tool w1 tool now
      in (map fst pairs, w2\<lparr>lw_env := lw_env w2 ++ map_of (rev (map (map_prod id Utf8) pairs))\<rparr>))"

definition drop_guard :: "string list \<Rightarrow> lease_world \<Rightarrow> lease_world" where
  "drop_guard vars w = w\<lparr>lw_env := fold (\<lambda>v e. e(v := None)) vars (lw_env w)\<rparr>"

section \<open>Scrubbing lemmas\<close>

lemma scrub_var_env: "lw_env (scrub_var v w) = (lw_env w)(v := None)"
  by (auto simp: scrub_var_def fun_eq_iff split: option.splits)

lemma scrub_var_frame [simp]:
  "lw_leases (scrub_var v w) = lw_leases w" "lw_available (scrub_var v w) = lw_available w"
  by (simp_all add: scrub_var_def split: option.splits)

lemma fold_scrub_env:
  "lw_env (fold scrub_var vs w) x = (if x \<in> set vs then None else lw_env w x)"
  by (induction vs arbitrary: w) (auto simp: scrub_var_env)

lemma fold_scrub_frame [simp]:
  "lw_leases (fold scrub_var vs w) = lw_leases w"
  "lw_available (fold scrub_var vs w) = lw_available w"
  by (induction vs arbitrary: w) auto

lemma leasable_vars_set: "set (leasable_vars w) = le_env_var ` set (lw_leases w)"
  by (simp add: leasable_vars_def)

lemma scrub_frame [simp]:
  "lw_leases (snd (scrub_leasable_env w)) = lw_leases w"
  "lw_available (snd (scrub_leasable_env w)) = lw_available w"
  by (simp_all add: scrub_leasable_env_def)

lemma scrub_env:
  assumes "lw_available w"
  shows "lw_env (snd (scrub_leasable_env w)) x =
    (if x \<in> le_env_var ` set (lw_leases w) then None else lw_env w x)"
  using assms by (simp add: scrub_leasable_env_def fold_scrub_env leasable_vars_set)

lemma expire_old_frame [simp]:
  "lw_env (snd (expire_old w now)) = lw_env w" "lw_vault (snd (expire_old w now)) = lw_vault w"
  "lw_available (snd (expire_old w now)) = lw_available w"
  by (simp_all add: expire_old_def Let_def)

lemma expire_old_active:
  assumes "lw_available w"
  shows "{l \<in> set (lw_leases (snd (expire_old w now))). le_status l = Active \<and> P l} =
    {l \<in> set (lw_leases w). le_status l = Active \<and> sint now \<le> le_expires_at l \<and> P l}"
  using assms by (auto simp: expire_old_def Let_def set_update_where not_less)

lemma expire_old_vars:
  "le_env_var ` set (lw_leases (snd (expire_old w now))) = le_env_var ` set (lw_leases w)"
proof -
  have "map le_env_var (lw_leases (snd (expire_old w now))) = map le_env_var (lw_leases w)"
    by (auto simp: expire_old_def Let_def update_where_def)
  then show ?thesis by (metis set_map)
qed

definition leased_to :: "lease_world \<Rightarrow> string \<Rightarrow> 64 word \<Rightarrow> string \<Rightarrow> bool" where
  "leased_to w tool now v \<longleftrightarrow> (\<exists>l\<in>set (lw_leases w). le_tool l = tool \<and> le_env_var l = v \<and>
     le_status l = Active \<and> sint now \<le> le_expires_at l)"

lemma active_pairs:
  assumes "lw_available w"
  shows "set (fst (active_env_for_tool w tool now)) =
    {(v, s). leased_to w tool now v \<and> lookup_secret w v = Some s}"
proof -
  have "lookup_secret (snd (expire_old w now)) = lookup_secret w"
    by (simp add: lookup_secret_def fun_eq_iff cong: option.case_cong)
  moreover have "set (map le_env_var (select_where
       (\<lambda>l. le_tool l = tool \<and> le_status l = Active \<and> sint now \<le> le_expires_at l)
       (lw_leases (snd (expire_old w now))))) = {v. leased_to w tool now v}"
    using expire_old_active [OF assms, of now "\<lambda>l. le_tool l = tool \<and> sint now \<le> le_expires_at l"]
    by (auto simp: select_where_def leased_to_def)
  ultimately show ?thesis
    using assms
    by (force simp: active_env_for_tool_def Let_def List.map_filter_def image_iff)
qed

lemma map_of_functional:
  assumes "\<And>p. p \<in> set ps \<Longrightarrow> snd p = f (fst p)"
  shows "map_of ps x = (if x \<in> fst ` set ps then Some (f x) else None)"
  using assms by (induction ps) (auto simp: image_iff)

lemma drop_guard_env: "lw_env (drop_guard vs w) x = (if x \<in> set vs then None else lw_env w x)"
proof -
  have "fold (\<lambda>v e. e(v := None)) vs e x = (if x \<in> set vs then None else e x)" for e :: "string \<rightharpoonup> os_value"
    by (induction vs arbitrary: e) auto
  then show ?thesis by (simp add: drop_guard_def)
qed

lemma leased_to_cong: "lw_leases w = lw_leases w' \<Longrightarrow> leased_to w = leased_to w'"
  by (simp add: leased_to_def fun_eq_iff)

lemma inject_vars:
  assumes "lw_available w"
  shows "set (fst (inject_active_env w tool now)) =
    {v. leased_to w tool now v \<and> lookup_secret (snd (scrub_leasable_env w)) v \<noteq> None}"
  using active_pairs [of "snd (scrub_leasable_env w)" tool now] assms
    leased_to_cong [of "snd (scrub_leasable_env w)" w]
  by (force simp: inject_active_env_def Let_def image_iff split: prod.splits)

lemma inject_env:
  assumes "lw_available w"
  shows "lw_env (snd (inject_active_env w tool now)) v =
    (if v \<in> set (fst (inject_active_env w tool now))
     then map_option Utf8 (lookup_secret (snd (scrub_leasable_env w)) v)
     else lw_env (snd (scrub_leasable_env w)) v)"
proof -
  let ?w1 = "snd (scrub_leasable_env w)"
  obtain pairs w2 where act: "active_env_for_tool ?w1 tool now = (pairs, w2)"
    by (cases "active_env_for_tool ?w1 tool now")
  have pairs: "set pairs = {(v, s). leased_to w tool now v \<and> lookup_secret ?w1 v = Some s}"
    using active_pairs [of ?w1 tool now] act assms leased_to_cong [of ?w1 w] by simp
  have w2: "lw_env w2 = lw_env ?w1"
    using act by (auto simp: active_env_for_tool_def Let_def)
  have "map_of (rev (map (map_prod id Utf8) pairs)) v =
      (if v \<in> fst ` set (rev (map (map_prod id Utf8) pairs))
       then Some (Utf8 (the (lookup_secret ?w1 v))) else None)"
    by (rule map_of_functional) (auto simp: pairs)
  moreover have "v \<in> fst ` set (rev (map (map_prod id Utf8) pairs)) \<longleftrightarrow> v \<in> set (map fst pairs)"
    by (force simp: image_iff)
  ultimately have added: "map_of (rev (map (map_prod id Utf8) pairs)) v =
      (if v \<in> set (map fst pairs) then Some (Utf8 (the (lookup_secret ?w1 v))) else None)"
    by simp
  have env: "lw_env (snd (inject_active_env w tool now)) v =
      (case map_of (rev (map (map_prod id Utf8) pairs)) v of None \<Rightarrow> lw_env ?w1 v | Some x \<Rightarrow> Some x)"
    and vars: "fst (inject_active_env w tool now) = map fst pairs"
    by (simp_all add: inject_active_env_def Let_def act w2 map_add_def cong: option.case_cong)
  show ?thesis
  proof (cases "v \<in> set (map fst pairs)")
    case True
    then obtain s where "lookup_secret ?w1 v = Some s"
      by (auto simp: pairs)
    with True show ?thesis
      unfolding env vars added by simp
  next
    case False
    then show ?thesis
      unfolding env vars added by simp
  qed
qed

section \<open>Leases as a machine\<close>

datatype lease_event =
    Grant string string string "64 word" "64 word"
  | Revoke string
  | Expire "64 word"
  | Call string "64 word"

text \<open>A leased call injects, runs the tool (which leaves the table alone) and drops the guard.\<close>

fun lease_step :: "lease_world \<Rightarrow> lease_event \<Rightarrow> lease_world" where
  "lease_step w (Grant ident tool v ttl now) = snd (grant w ident tool v ttl now)"
| "lease_step w (Revoke ident) = snd (revoke w ident)"
| "lease_step w (Expire now) = snd (expire_old w now)"
| "lease_step w (Call tool now) =
     (let (vars, w') = inject_active_env w tool now in drop_guard vars w')"

interpretation lease_table: keyed_table le_id .

definition leases_keyed :: "lease_world \<Rightarrow> bool" where
  "leases_keyed w \<longleftrightarrow> distinct (map le_id (lw_leases w))"

lemma call_leases: "lw_leases (lease_step w (Call tool now)) = lw_leases (snd (expire_old w now))"
  by (simp add: inject_active_env_def active_env_for_tool_def drop_guard_def Let_def expire_old_def)

lemma expire_keyed: "leases_keyed w \<Longrightarrow> distinct (map le_id (lw_leases (snd (expire_old w now))))"
  by (simp add: leases_keyed_def expire_old_def Let_def lease_table.keys_update)

lemma lease_step_keyed: "leases_keyed w \<Longrightarrow> leases_keyed (lease_step w e)"
proof (cases e)
  case (Call tool now)
  moreover assume "leases_keyed w"
  ultimately show ?thesis
    by (simp only: leases_keyed_def call_leases expire_keyed)
qed (auto simp: leases_keyed_def grant_def revoke_def Let_def list_ex_iff lease_table.keys_update
    intro: expire_keyed [unfolded leases_keyed_def])

lemma inactive_kept:
  assumes "l \<in> set (lw_leases w)" and "le_status l \<noteq> Active"
  shows "l \<in> set (lw_leases (lease_step w e))"
proof (cases e)
  case (Call tool now)
  with assms show ?thesis
    unfolding Call call_leases by (auto simp: expire_old_def Let_def set_update_where)
qed (use assms in \<open>auto simp: grant_def revoke_def expire_old_def Let_def set_update_where\<close>)

interpretation inactive_lease: terminal_machine
  lease_step "\<lambda>_. True" leases_keyed
  "\<lambda>w. le_status l \<noteq> Active \<and> l \<in> set (lw_leases w)" "\<lambda>w. l \<in> set (lw_leases w)" for l
  by unfold_locales (simp_all add: lease_step_keyed inactive_kept)

section \<open>Properties\<close>

text \<open>
  During a tool call a leasable variable is visible in the process environment if and only if
  an active, unexpired lease of that very tool names it (and then with the value taken into the
  vault); and when the call's guard is dropped, no leasable variable is left in the environment.
\<close>

theorem lease_isolation:
  assumes "lw_available w" and "v \<in> le_env_var ` set (lw_leases w)"
    and "inject_active_env w tool now = (vars, w')" and "lw_env after v = lw_env w' v"
  shows "lw_env w' v = (if leased_to w tool now v
      then map_option Utf8 (lw_vault (snd (scrub_leasable_env w)) v) else None) \<and>
    lw_env (drop_guard vars after) v = None"
proof -
  let ?w1 = "snd (scrub_leasable_env w)"
  have none: "lw_env ?w1 v = None"
    using assms(1,2) by (simp add: scrub_env)
  then have look: "lookup_secret ?w1 v = lw_vault ?w1 v"
    by (simp add: lookup_secret_def split: option.splits)
  have "v \<in> set vars \<longleftrightarrow> leased_to w tool now v \<and> lw_vault ?w1 v \<noteq> None"
    using inject_vars [OF assms(1), of tool now] assms(3) look by simp
  moreover have "lw_env w' v =
      (if v \<in> set vars then map_option Utf8 (lw_vault ?w1 v) else None)"
    using inject_env [OF assms(1), of tool now v] assms(3) look none by simp
  ultimately show ?thesis
    using assms(4) by (auto simp: drop_guard_env)
qed

text \<open>
  A lease that was revoked or has expired is never active again: no sequence of grants,
  revocations, expiry sweeps and leased calls changes its row.
\<close>

theorem lease_never_reactivated:
  assumes "leases_keyed w" and "l \<in> set (lw_leases w)" and "le_status l \<noteq> Active"
    and "l' \<in> set (lw_leases (foldl lease_step w events))" and "le_id l' = le_id l"
  shows "l' = l"
proof -
  have "l \<in> set (lw_leases (foldl lease_step w events))"
    using inactive_lease.final_run [of w l events] assms by (simp add: list_all_iff)
  moreover have "leases_keyed (foldl lease_step w events)"
    using inactive_lease.run_inv [of w events] assms(1) by (simp add: list_all_iff)
  ultimately show ?thesis
    using lease_table.row_unique assms(4,5) by (metis leases_keyed_def)
qed

lemma digits_no_space: "list_all is_ascii_digit ds \<Longrightarrow> trim_start (ds @ [c]) = ds @ [c] \<or> ds = []"
  by (cases ds) (auto simp: trim_start_def is_whitespace_def is_ascii_digit_def)

lemma trim_number:
  assumes "list_all is_ascii_digit ds" and "\<not> is_whitespace c"
  shows "trim (ds @ [c]) = ds @ [c]"
proof -
  have "trim_start (ds @ [c]) = ds @ [c]"
    using digits_no_space [OF assms(1), of c] assms(2) by (auto simp: trim_start_def)
  then show ?thesis
    using assms(2) by (simp add: trim_def trim_end_by_def)
qed

text \<open>
  A printed number with a unit suffix parses back to the number of seconds modulo
  \<open>2 ^ 64\<close>: exact while the product fits, silently wrapped around beyond that.
\<close>

theorem parse_ttl_wraps:
  assumes "n \<le> u64_max" and "(unit, k) \<in> {(CHR ''s'', 1), (CHR ''m'', 60), (CHR ''h'', 3600), (CHR ''d'', 86400)}"
  shows "\<exists>t. parse_ttl (show_nat n @ [unit]) = Ok t \<and> unat t = (n * k) mod 2 ^ 64"
proof -
  have "\<not> is_whitespace unit" "\<not> is_continuation unit"
    using assms(2) by (auto simp: is_whitespace_def is_continuation_def)
  then have "parse_ttl (show_nat n @ [unit]) = Ok (of_nat n * of_nat k)"
    using assms
    by (auto simp: parse_ttl_def trim_number show_nat_digits Let_def parse_show_nat)
  then show ?thesis
    by (auto simp: unat_word_ariths unat_of_nat mod_mult_eq)
qed

section \<open>A token leased to one tool\<close>

abbreviation token_lease :: "lease_status \<Rightarrow> lease" where
  "token_lease st \<equiv> \<lparr>le_id = ''1'', le_tool = ''deploy'', le_env_var = ''TOKEN'', le_granted_at = 0,
     le_expires_at = 10, le_status = st\<rparr>"

abbreviation token_world :: "lease_status \<Rightarrow> lease_world" where
  "token_world st \<equiv> \<lparr>lw_leases = [token_lease st], lw_available = True,
     lw_env = [''TOKEN'' \<mapsto> Utf8 ''s3cret''], lw_vault = Map.empty\<rparr>"

lemma lease_isolation_witness:
  "(case inject_active_env (token_world Active) ''deploy'' 5 of
      (vars, w') \<Rightarrow> lw_env w' ''TOKEN'' = Some (Utf8 ''s3cret'') \<and> lw_env (drop_guard vars w') ''TOKEN'' = None) \<and>
   (case inject_active_env (token_world Active) ''other'' 5 of (vars, w') \<Rightarrow> lw_env w' ''TOKEN'' = None)"
proof -
  have "leased_to (token_world Active) ''deploy'' 5 ''TOKEN''" "\<not> leased_to (token_world Active) ''other'' 5 ''TOKEN''"
    "lw_vault (snd (scrub_leasable_env (token_world Active))) ''TOKEN'' = Some ''s3cret''"
    by (simp_all add: leased_to_def scrub_leasable_env_def leasable_vars_def scrub_var_def)
  then show ?thesis
    using lease_isolation [of "token_world Active" "''TOKEN''" "''deploy''" 5]
      lease_isolation [of "token_world Active" "''TOKEN''" "''other''" 5]
    by (simp split: prod.split)
qed

lemma lease_never_reactivated_witness:
  "token_lease Revoked \<in> set (lw_leases (foldl lease_step (token_world Revoked) [Revoke ''1'', Expire 20])) \<and>
   (case filter (\<lambda>l. le_id l = ''1'') (lw_leases (foldl lease_step (token_world Revoked) [Revoke ''1'', Expire 20])) of
      [l'] \<Rightarrow> l' = token_lease Revoked | _ \<Rightarrow> False)"
proof -
  have "lw_leases (foldl lease_step (token_world Revoked) [Revoke ''1'', Expire 20]) = [token_lease Revoked]"
    by (simp add: revoke_def expire_old_def update_where_def Let_def)
  then show ?thesis
    using lease_never_reactivated [of "token_world Revoked" "token_lease Revoked" "token_lease Revoked"
        "[Revoke ''1'', Expire 20]"]
    by (simp add: leases_keyed_def)
qed

lemma parse_ttl_wraps_witness:
  "(\<exists>t. parse_ttl (show_nat 15 @ ''m'') = Ok t \<and> unat t = 900) \<and>
   (\<exists>t. parse_ttl (show_nat 213503982334602 @ ''d'') = Ok t \<and> unat t = 61184)"
  using parse_ttl_wraps [of 15 "CHR ''m''" 60] parse_ttl_wraps [of 213503982334602 "CHR ''d''" 86400]
  by simp

end
