(* ===== verification/Audit_Chain.thy ===== *)
theory Audit_Chain
  imports Machines
begin

text \<open>
  \<open>crates/raios-core/src/security/verify_chain.rs\<close>: the hash-chained audit ledger. The hash
  (hexadecimal SHA-256, a third-party crate) is the parameter \<open>H\<close> of every definition; the
  table is the list of its rows by increasing id.
\<close>

section \<open>Rows and hashing\<close>

record audit_row =
  a_id :: nat
  a_timestamp :: string
  a_event_type :: string
  a_actor :: string
  a_data :: string
  a_prev_hash :: string
  a_hash :: string

definition hash_preimage :: "string \<Rightarrow> string \<Rightarrow> string \<Rightarrow> string \<Rightarrow> string \<Rightarrow> string" where
  "hash_preimage prev ts ev actor data =
     prev @ ''|'' @ ts @ ''|'' @ ev @ ''|'' @ actor @ ''|'' @ data"

definition compute_hash ::
  "(string \<Rightarrow> string) \<Rightarrow> string \<Rightarrow> string \<Rightarrow> string \<Rightarrow> string \<Rightarrow> string \<Rightarrow> string" where
  "compute_hash H prev ts ev actor data = H (hash_preimage prev ts ev actor data)"

section \<open>Appending\<close>

text \<open>The newest hash; an empty ledger and a failed read both give the empty string.\<close>

definition tail_hash :: "audit_row list \<Rightarrow> bool \<Rightarrow> string" where
  "tail_hash rows read_ok = (if read_ok \<and> rows \<noteq> [] then a_hash (last rows) else '''')"

definition next_id :: "audit_row list \<Rightarrow> nat" where
  "next_id rows = (if rows = [] then 1 else a_id (last rows) + 1)"

definition audit_row_after ::
  "(string \<Rightarrow> string) \<Rightarrow> nat \<Rightarrow> string \<Rightarrow> string \<Rightarrow> string \<Rightarrow> string \<Rightarrow> string \<Rightarrow> audit_row" where
  "audit_row_after H i prev ts ev actor data =
     \<lparr>a_id = i, a_timestamp = ts, a_event_type = ev, a_actor = actor, a_data = data,
      a_prev_hash = prev, a_hash = compute_hash H prev ts ev actor data\<rparr>"

definition append_audit_event :: "(string \<Rightarrow> string) \<Rightarrow> audit_row list \<Rightarrow> bool \<Rightarrow>
    string \<Rightarrow> string \<Rightarrow> string \<Rightarrow> string \<Rightarrow> audit_row list" where
  "append_audit_event H rows read_ok ts ev actor data =
     rows @ [audit_row_after H (next_id rows) (tail_hash rows read_ok) ts ev actor data]"

text \<open>
  A tool decision: the JSON envelope (\<open>serde_json\<close>, third party) is built by the parameter
  \<open>envelope\<close> from tool, argument hash and matched rule.
\<close>

definition record_tool_decision :: "(string \<Rightarrow> string) \<Rightarrow> (string \<Rightarrow> string \<Rightarrow> string \<Rightarrow> string) \<Rightarrow>
    audit_row list \<Rightarrow> bool \<Rightarrow> string \<Rightarrow> string \<Rightarrow> string \<Rightarrow> string \<Rightarrow> string \<Rightarrow> string \<Rightarrow> audit_row list" where
  "record_tool_decision H envelope rows read_ok ts tool args_hash matched_rule ev actor =
     append_audit_event H rows read_ok ts ev actor (envelope tool args_hash matched_rule)"

section \<open>Verification\<close>

datatype chain_error = Hash_Mismatch nat | Link_Mismatch nat nat

fun verify_rows :: "(string \<Rightarrow> string) \<Rightarrow> audit_row option \<Rightarrow> audit_row list \<Rightarrow> chain_error + unit" where
  "verify_rows H prev [] = Ok ()"
| "verify_rows H prev (r # rs) =
     (if compute_hash H (a_prev_hash r) (a_timestamp r) (a_event_type r) (a_actor r) (a_data r)
           \<noteq> a_hash r
      then Err (Hash_Mismatch (a_id r))
      else case prev of
             None \<Rightarrow> verify_rows H (Some r) rs
           | Some p \<Rightarrow>
               (if a_prev_hash r \<noteq> a_hash p then Err (Link_Mismatch (a_id r) (a_id p))
                else verify_rows H (Some r) rs))"

definition verify_chain :: "(string \<Rightarrow> string) \<Rightarrow> audit_row list \<Rightarrow> chain_error + nat" where
  "verify_chain H rows = and_then (verify_rows H None rows) (\<lambda>_. Ok (length rows))"

section \<open>Concurrent writers\<close>

text \<open>
  \<open>record_audit_event\<close> takes SQLite's writer slot before it reads the tail: \<open>BEGIN IMMEDIATE\<close>
  outside a transaction, a no-op \<open>UPDATE\<close> inside one. Writers are numbered; a writer holds the
  slot from there to its commit or rollback, and the others wait.
\<close>

record ledger =
  l_rows :: "audit_row list"
  l_slot :: "nat option"
  l_seen :: "nat \<rightharpoonup> string"

definition empty_ledger :: ledger where
  "empty_ledger = \<lparr>l_rows = [], l_slot = None, l_seen = Map.empty\<rparr>"

inductive ledger_step :: "(string \<Rightarrow> string) \<Rightarrow> ledger \<Rightarrow> ledger \<Rightarrow> bool" for H where
  acquire: "l_slot s = None \<Longrightarrow> ledger_step H s (s\<lparr>l_slot := Some w\<rparr>)"
| read_tail: "l_slot s = Some w \<Longrightarrow>
    ledger_step H s (s\<lparr>l_seen := (l_seen s)(w \<mapsto> tail_hash (l_rows s) True)\<rparr>)"
| insert_commit: "l_slot s = Some w \<Longrightarrow> l_seen s w = Some prev \<Longrightarrow>
    ledger_step H s
      (s\<lparr>l_rows := l_rows s @ [audit_row_after H (next_id (l_rows s)) prev ts ev actor data],
         l_slot := None, l_seen := (l_seen s)(w := None)\<rparr>)"
| rollback: "l_slot s = Some w \<Longrightarrow>
    ledger_step H s (s\<lparr>l_slot := None, l_seen := (l_seen s)(w := None)\<rparr>)"

inductive_cases ledger_step_elim: "ledger_step H s t"

inductive ledger_reachable :: "(string \<Rightarrow> string) \<Rightarrow> ledger \<Rightarrow> bool" for H where
  start: "ledger_reachable H empty_ledger"
| step: "ledger_reachable H s \<Longrightarrow> ledger_step H s t \<Longrightarrow> ledger_reachable H t"

section \<open>What verification accepts\<close>

definition row_hashed :: "(string \<Rightarrow> string) \<Rightarrow> audit_row \<Rightarrow> bool" where
  "row_hashed H r \<longleftrightarrow>
     a_hash r = compute_hash H (a_prev_hash r) (a_timestamp r) (a_event_type r) (a_actor r) (a_data r)"

fun linked :: "audit_row list \<Rightarrow> bool" where
  "linked [] = True"
| "linked [r] = True"
| "linked (p # r # rs) = (a_prev_hash r = a_hash p \<and> linked (r # rs))"

definition chain :: "(string \<Rightarrow> string) \<Rightarrow> audit_row list \<Rightarrow> bool" where
  "chain H rows \<longleftrightarrow> list_all (row_hashed H) rows \<and> linked rows"

lemma row_hashed_after [simp]: "row_hashed H (audit_row_after H i prev ts ev actor data)"
  by (simp add: row_hashed_def audit_row_after_def)

lemma prev_hash_after [simp]: "a_prev_hash (audit_row_after H i prev ts ev actor data) = prev"
  by (simp add: audit_row_after_def)

lemma verify_rows_iff:
  "verify_rows H prev rows = Ok () \<longleftrightarrow>
     list_all (row_hashed H) rows \<and> linked (case prev of None \<Rightarrow> rows | Some p \<Rightarrow> p # rows)"
  by (induction H prev rows rule: verify_rows.induct)
    (auto simp: row_hashed_def split: option.splits)

lemma verify_chain_iff: "verify_chain H rows = Ok n \<longleftrightarrow> chain H rows \<and> n = length rows"
  using verify_rows_iff [of H None rows]
  by (auto simp: verify_chain_def and_then_Inr_iff chain_def)

lemma linked_snoc:
  "linked (rows @ [r]) \<longleftrightarrow> linked rows \<and> (rows \<noteq> [] \<longrightarrow> a_prev_hash r = a_hash (last rows))"
  by (induction rows rule: linked.induct) auto

lemma linked_append: "linked (xs @ ys) \<Longrightarrow> linked xs \<and> linked ys"
proof (induction xs rule: linked.induct)
  case (2 r)
  then show ?case by (cases ys) auto
qed auto

lemma linked_nth: "linked rows \<longleftrightarrow>
    (\<forall>i. 0 < i \<and> i < length rows \<longrightarrow> a_prev_hash (rows ! i) = a_hash (rows ! (i - 1)))"
proof (induction rows rule: rev_induct)
  case (snoc r rows)
  have "linked (rows @ [r]) \<longleftrightarrow> (\<forall>i. 0 < i \<and> i < length rows \<longrightarrow>
      a_prev_hash (rows ! i) = a_hash (rows ! (i - 1))) \<and>
      (rows \<noteq> [] \<longrightarrow> a_prev_hash r = a_hash (rows ! (length rows - 1)))"
    by (simp add: linked_snoc snoc last_conv_nth)
  also have "\<dots> \<longleftrightarrow> (\<forall>i. 0 < i \<and> i < length (rows @ [r]) \<longrightarrow>
      a_prev_hash ((rows @ [r]) ! i) = a_hash ((rows @ [r]) ! (i - 1)))"
    by (auto simp: nth_append less_Suc_eq)
  finally show ?case .
qed simp

lemma chain_append_event:
  assumes "chain H rows"
  shows "chain H (append_audit_event H rows True ts ev actor data)"
  using assms by (simp add: chain_def append_audit_event_def linked_snoc tail_hash_def)

text \<open>Single-writer runs: every event appends one row with a readable tail.\<close>

interpretation appending: machine
  "\<lambda>rows (ts, ev, actor, data). append_audit_event H rows True ts ev actor data"
  "\<lambda>_. True" "chain H" for H
  by unfold_locales (auto simp: chain_append_event)

text \<open>What a writer has seen is the current tail for as long as it holds the slot.\<close>

definition ledger_inv :: "(string \<Rightarrow> string) \<Rightarrow> ledger \<Rightarrow> bool" where
  "ledger_inv H s \<longleftrightarrow> chain H (l_rows s) \<and>
     (\<forall>w prev. l_seen s w = Some prev \<longrightarrow> l_slot s = Some w \<and> prev = tail_hash (l_rows s) True)"

lemma ledger_inv_seen:
  assumes "ledger_inv H s" and "l_slot s = Some w"
  shows "l_seen s w = Some prev \<Longrightarrow> prev = tail_hash (l_rows s) True"
    and "v \<noteq> w \<Longrightarrow> l_seen s v = None"
proof -
  have seen: "l_slot s = Some v \<and> p = tail_hash (l_rows s) True" if "l_seen s v = Some p" for v p
    using assms(1) that by (simp add: ledger_inv_def)
  show "l_seen s w = Some prev \<Longrightarrow> prev = tail_hash (l_rows s) True"
    using seen by simp
  show "v \<noteq> w \<Longrightarrow> l_seen s v = None"
    using seen [of v] assms(2) by (cases "l_seen s v") auto
qed

lemma ledger_step_inv: "ledger_step H s t \<Longrightarrow> ledger_inv H s \<Longrightarrow> ledger_inv H t"
proof (induction rule: ledger_step.induct)
  case (insert_commit s w prev ts ev actor data)
  have prev: "prev = tail_hash (l_rows s) True"
    using ledger_inv_seen(1) insert_commit by blast
  have "chain H (l_rows s @ [audit_row_after H (next_id (l_rows s)) prev ts ev actor data])"
    using chain_append_event [of H "l_rows s" ts ev actor data] insert_commit.prems
    by (simp add: prev append_audit_event_def ledger_inv_def)
  then show ?case
    using ledger_inv_seen(2) [OF insert_commit.prems insert_commit.hyps(1)]
    by (simp add: ledger_inv_def)
next
  case (rollback s w)
  then show ?case
    using ledger_inv_seen(2) [OF rollback.prems rollback.hyps(1)] by (simp add: ledger_inv_def)
qed (auto simp: ledger_inv_def)

lemma ledger_reachable_inv: "ledger_reachable H s \<Longrightarrow> ledger_inv H s"
proof (induction rule: ledger_reachable.induct)
  case start
  then show ?case by (simp add: ledger_inv_def empty_ledger_def chain_def)
next
  case (step s t)
  then show ?case by (blast intro: ledger_step_inv)
qed

section \<open>Separators\<close>

definition row_preimage :: "audit_row \<Rightarrow> string" where
  "row_preimage r =
     hash_preimage (a_prev_hash r) (a_timestamp r) (a_event_type r) (a_actor r) (a_data r)"

text \<open>No separator in the fields in front of the data, which may hold any text.\<close>

definition separator_free :: "audit_row \<Rightarrow> bool" where
  "separator_free r \<longleftrightarrow>
     list_all (\<lambda>f. CHR ''|'' \<notin> set f) [a_prev_hash r, a_timestamp r, a_event_type r, a_actor r]"

definition same_content :: "audit_row \<Rightarrow> audit_row \<Rightarrow> bool" where
  "same_content r q \<longleftrightarrow> a_prev_hash r = a_prev_hash q \<and> a_timestamp r = a_timestamp q \<and>
     a_event_type r = a_event_type q \<and> a_actor r = a_actor q \<and> a_data r = a_data q \<and>
     a_hash r = a_hash q"

lemma split_at_separator:
  "c \<notin> set xs \<Longrightarrow> c \<notin> set ys \<Longrightarrow> xs @ c # us = ys @ c # vs \<longleftrightarrow> xs = ys \<and> us = vs"
proof (induction xs arbitrary: ys)
  case Nil
  then show ?case by (cases ys) auto
next
  case (Cons x xs)
  then show ?case by (cases ys) auto
qed

lemma preimage_fields:
  assumes "row_preimage r = row_preimage q" and "separator_free r" and "separator_free q"
    and "a_hash r = a_hash q"
  shows "same_content r q"
  using assms
  by (simp add: row_preimage_def hash_preimage_def separator_free_def same_content_def
      split_at_separator)

lemma chain_agree:
  assumes "inj_on H (row_preimage ` (set xs \<union> set ys))"
    and "chain H xs" and "chain H ys" and "length xs = length ys"
    and "xs \<noteq> [] \<Longrightarrow> a_hash (last xs) = a_hash (last ys)"
    and "list_all separator_free (xs @ ys)"
  shows "list_all2 same_content xs ys"
  using assms
proof (induction xs arbitrary: ys rule: rev_induct)
  case (snoc x xs)
  then obtain y zs where ys: "ys = zs @ [y]"
    by (metis length_append_singleton length_0_conv nat.distinct(1) rev_exhaust)
  have "a_hash x = a_hash y"
    using snoc.prems(5) ys by simp
  moreover have "a_hash x = H (row_preimage x)" "a_hash y = H (row_preimage y)"
    using snoc.prems(2,3) ys
    by (simp_all add: chain_def row_hashed_def compute_hash_def row_preimage_def)
  then have "row_preimage x = row_preimage y"
    using snoc.prems(1) ys \<open>a_hash x = a_hash y\<close> by (auto dest: inj_onD)
  ultimately have xy: "same_content x y"
    using snoc.prems(6) ys by (auto intro: preimage_fields)
  have "list_all2 same_content xs zs"
  proof (rule snoc.IH)
    show "inj_on H (row_preimage ` (set xs \<union> set zs))"
      using snoc.prems(1) by (rule inj_on_subset) (auto simp: ys)
    show "a_hash (last xs) = a_hash (last zs)" if "xs \<noteq> []"
      using snoc.prems(2-4) xy that ys
      by (auto simp: chain_def linked_snoc same_content_def)
  qed (use snoc.prems ys in \<open>auto simp: chain_def linked_snoc\<close>)
  with xy show ?case
    by (simp add: ys list_all2_appendI)
qed simp

section \<open>Properties\<close>

text \<open>
  Verification accepts a ledger exactly when every stored hash is the hash of its row's
  fields and every row but the first carries its predecessor's hash, and then it returns the
  number of rows.
\<close>

theorem verify_chain_characterised:
  "verify_chain H rows = Ok n \<longleftrightarrow> n = length rows \<and>
     (\<forall>i<length rows. row_hashed H (rows ! i)) \<and>
     (\<forall>i. 0 < i \<and> i < length rows \<longrightarrow> a_prev_hash (rows ! i) = a_hash (rows ! (i - 1)))"
  by (auto simp: verify_chain_iff chain_def linked_nth list_all_length)

text \<open>
  Concurrent writers never fork the chain: in every state reachable by any interleaving of
  slot acquisitions, tail reads, commits and rollbacks of any number of writers, verification
  accepts the whole ledger.
\<close>

theorem ledger_always_verifies:
  assumes "ledger_reachable H s"
  shows "verify_chain H (l_rows s) = Ok (length (l_rows s))"
  using ledger_reachable_inv [OF assms] by (simp add: verify_chain_iff ledger_inv_def)

text \<open>
  C3: Tamper evidence: two accepted ledgers of the same length with the same last hash hold the
  same contents row by row, provided the hash has no collision among their rows and no field
  in front of the data contains the separator.
\<close>

theorem ledger_tamper_evident:
  assumes "verify_chain H xs = Ok n" and "verify_chain H ys = Ok n"
    and "xs \<noteq> [] \<Longrightarrow> a_hash (last xs) = a_hash (last ys)"
    and "inj_on H (row_preimage ` (set xs \<union> set ys))"
    and "list_all separator_free (xs @ ys)"
  shows "list_all2 same_content xs ys"
  using assms by (intro chain_agree [of H]) (auto simp: verify_chain_iff)

text \<open>
  The separator is not escaped: moving a part of the event type that follows a separator into
  the actor changes the row but not its hash, for every hash function, so verification accepts
  the altered ledger as it accepted the original.
\<close>

theorem ledger_separator_shift_undetected:
  assumes "verify_chain H (xs @ r # ys) = Ok n" and "a_event_type r = ev @ ''|'' @ part"
    and "q = r\<lparr>a_event_type := ev, a_actor := part @ ''|'' @ a_actor r\<rparr>"
  shows "q \<noteq> r \<and> verify_chain H (xs @ q # ys) = Ok n"
proof -
  have "a_event_type q \<noteq> a_event_type r"
    by (simp add: assms(2,3))
  moreover have "row_hashed H q = row_hashed H r" "a_prev_hash q = a_prev_hash r" "a_hash q = a_hash r"
    by (simp_all add: row_hashed_def compute_hash_def hash_preimage_def assms(2,3))
  then have "linked (zs @ q # ys) = linked (zs @ r # ys)" for zs
    by (induction zs rule: linked.induct) (cases ys, auto)+
  ultimately show ?thesis
    using assms(1) \<open>row_hashed H q = row_hashed H r\<close> by (auto simp: verify_chain_iff chain_def)
qed

text \<open>
  Truncation is not detected: of an accepted ledger every initial and every final segment is
  accepted as well, so dropping the newest or the oldest rows leaves a ledger that verifies.
\<close>

theorem ledger_truncation_undetected:
  assumes "verify_chain H rows = Ok n" and "k \<le> n"
  shows "verify_chain H (take k rows) = Ok k \<and> verify_chain H (drop k rows) = Ok (n - k)"
proof -
  have "linked (take k rows) \<and> linked (drop k rows)"
    using linked_append [of "take k rows" "drop k rows"] assms(1)
    by (simp add: verify_chain_iff chain_def)
  moreover have "list_all (row_hashed H) (take k rows) \<and> list_all (row_hashed H) (drop k rows)"
    using assms(1) by (metis append_take_drop_id chain_def list_all_append verify_chain_iff)
  ultimately show ?thesis
    using assms by (auto simp: verify_chain_iff chain_def)
qed

section \<open>A ledger of two rows\<close>

text \<open>With the identity in place of the hash, which has no collisions.\<close>

abbreviation two_rows :: "audit_row list" where
  "two_rows \<equiv> append_audit_event id (append_audit_event id [] True ''1'' ''a|x'' ''u'' ''d'') True ''2'' ''b'' ''u'' ''e''"

abbreviation plain_row :: audit_row where
  "plain_row \<equiv> audit_row_after id 1 '''' ''1'' ''a'' ''u'' ''d''"

lemma two_rows_accepted: "verify_chain id two_rows = Ok 2" "verify_chain id [plain_row] = Ok 1"
  by (simp_all add: append_audit_event_def verify_chain_iff chain_def tail_hash_def)

lemma verify_chain_characterised_witness:
  "row_hashed id (two_rows ! 0) \<and> a_prev_hash (two_rows ! 1) = a_hash (two_rows ! 0)"
  using verify_chain_characterised [of id two_rows 2] two_rows_accepted(1) by fastforce

lemma ledger_always_verifies_witness:
  "let s = \<lparr>l_rows = [], l_slot = Some 1, l_seen = Map.empty(1 \<mapsto> '''')\<rparr>
   in ledger_reachable id s \<and> verify_chain id (l_rows s) = Ok 0"
proof -
  have "ledger_step id empty_ledger (empty_ledger\<lparr>l_slot := Some 1\<rparr>)"
    by (rule ledger_step.acquire) (simp add: empty_ledger_def)
  then have "ledger_reachable id (empty_ledger\<lparr>l_slot := Some 1\<rparr>)"
    by (rule ledger_reachable.step [OF ledger_reachable.start])
  then have "ledger_reachable id \<lparr>l_rows = [], l_slot = Some 1, l_seen = Map.empty(1 \<mapsto> '''')\<rparr>"
    using ledger_step.read_tail [of "empty_ledger\<lparr>l_slot := Some 1\<rparr>" 1 id]
    by (auto simp: empty_ledger_def tail_hash_def intro: ledger_reachable.step)
  then show ?thesis
    using ledger_always_verifies by (force simp: Let_def)
qed

lemma ledger_tamper_evident_witness: "list_all2 same_content [plain_row] [plain_row]"
  by (rule ledger_tamper_evident [OF two_rows_accepted(2) two_rows_accepted(2)])
    (simp_all add: separator_free_def audit_row_after_def)

lemma ledger_separator_shift_undetected_witness:
  "let q = (two_rows ! 0)\<lparr>a_event_type := ''a'', a_actor := ''x|u''\<rparr>
   in q \<noteq> two_rows ! 0 \<and> verify_chain id [q, two_rows ! 1] = Ok 2"
  using ledger_separator_shift_undetected [of id "[]" "two_rows ! 0" "[two_rows ! 1]" 2 "''a''" "''x''"]
    two_rows_accepted(1)
  by (simp add: append_audit_event_def audit_row_after_def)

end
