(* ===== verification/Tool_Pin.thy ===== *)
theory Tool_Pin
  imports Prelude
begin

text \<open>
  \<open>crates/raios-core/src/security/tool_pin.rs\<close>: the hash of the tool manifest is pinned on the first
  start and compared on every later one. The state is the two pin files, in the working directory and
  in the user's configuration directory (absent when there is none); a file that cannot be read holds
  nothing readable. The hash is the parameter \<open>H\<close>.
\<close>

datatype pin_file = No_File | Unreadable | Contents string

record pin_store =
  ps_local :: pin_file
  ps_config :: pin_file
  ps_writable :: bool

datatype tool_pin_error = Pin_Hash_Mismatch string string | Pin_Io

definition hash_manifest :: "(string \<Rightarrow> string) \<Rightarrow> string \<Rightarrow> string" where
  "hash_manifest H manifest = H manifest"

definition find_existing_pin :: "pin_store \<Rightarrow> pin_file" where
  "find_existing_pin st = (if ps_local st \<noteq> No_File then ps_local st else ps_config st)"

definition write_local_pin :: "pin_store \<Rightarrow> string \<Rightarrow> tool_pin_error + pin_store" where
  "write_local_pin st h = (if ps_writable st then Ok (st\<lparr>ps_local := Contents h\<rparr>) else Err Pin_Io)"

definition verify_or_pin ::
  "(string \<Rightarrow> string) \<Rightarrow> pin_store \<Rightarrow> string \<Rightarrow> (tool_pin_error + bool) \<times> pin_store" where
  "verify_or_pin H st manifest =
     (let actual = hash_manifest H manifest
      in case find_existing_pin st of
        No_File \<Rightarrow> (case write_local_pin st actual of
            Inl e \<Rightarrow> (Err e, st)
          | Inr st' \<Rightarrow> (Ok True, st'))
      | Unreadable \<Rightarrow> (Err Pin_Io, st)
      | Contents text \<Rightarrow>
          (if trim text = actual then (Ok False, st)
           else (Err (Pin_Hash_Mismatch (trim text) actual), st)))"

definition reset_pin :: "pin_store \<Rightarrow> pin_store" where
  "reset_pin st = st\<lparr>ps_local := No_File, ps_config := No_File\<rparr>"

definition current_pin :: "pin_store \<Rightarrow> string option" where
  "current_pin st = (case find_existing_pin st of Contents text \<Rightarrow> Some (trim text) | _ \<Rightarrow> None)"

definition show_tool_pin_error :: "string \<Rightarrow> tool_pin_error \<Rightarrow> string" where
  "show_tool_pin_error io e = (case e of
     Pin_Hash_Mismatch expected actual \<Rightarrow>
       ''tool_pin: manifest hash mismatch '' @ [CHR 0xE2, CHR 0x80, CHR 0x94] @ '' expected '' @
       expected @ '', got '' @ actual @
       ''. MCP tool list changed since last pin. Run `raios pin-reset` to re-pin.''
   | Pin_Io \<Rightarrow> ''tool_pin: I/O error: '' @ io)"

text \<open>The server's start: the tool calls are blocked when the check fails for whatever reason.\<close>

definition pin_broken_at_start :: "(string \<Rightarrow> string) \<Rightarrow> pin_store \<Rightarrow> string \<Rightarrow> bool \<times> pin_store" where
  "pin_broken_at_start H st manifest =
     (case verify_or_pin H st manifest of (r, st') \<Rightarrow> (\<not> is_ok r, st'))"

fun starts :: "(string \<Rightarrow> string) \<Rightarrow> pin_store \<Rightarrow> string list \<Rightarrow> pin_store" where
  "starts H st [] = st"
| "starts H st (m # ms) = starts H (snd (pin_broken_at_start H st m)) ms"

lemma pinned_unchanged:
  "find_existing_pin st \<noteq> No_File \<Longrightarrow> snd (pin_broken_at_start H st m) = st"
  by (auto simp: pin_broken_at_start_def verify_or_pin_def Let_def split: pin_file.splits)

lemma starts_pinned: "find_existing_pin st \<noteq> No_File \<Longrightarrow> starts H st ms = st"
  by (induction ms arbitrary: st) (simp_all add: pinned_unchanged)

text \<open>
  trust on first use: once a start has pinned a manifest, whatever later starts bring, a start is
  blocked exactly when its manifest's hash is not the pinned one; only a reset pins again, and then the
  next manifest is accepted whatever it is. (A hash has no white space around it.)
\<close>

theorem pin_trust_on_first_use:
  assumes "find_existing_pin st = No_File" and "ps_writable st" and "\<And>m. trim (H m) = H m"
  shows "\<not> fst (pin_broken_at_start H st first) \<and>
    (fst (pin_broken_at_start H (starts H st (first # others)) later) \<longleftrightarrow> H later \<noteq> H first) \<and>
    \<not> fst (pin_broken_at_start H (reset_pin (starts H st (first # others))) later)"
proof -
  have "pin_broken_at_start H st first = (False, st\<lparr>ps_local := Contents (H first)\<rparr>)"
    using assms by (simp add: pin_broken_at_start_def verify_or_pin_def write_local_pin_def hash_manifest_def)
  moreover have "starts H (st\<lparr>ps_local := Contents (H first)\<rparr>) others =
      st\<lparr>ps_local := Contents (H first)\<rparr>"
    by (simp add: starts_pinned find_existing_pin_def)
  ultimately show ?thesis
    using assms
    by (auto simp: pin_broken_at_start_def verify_or_pin_def write_local_pin_def hash_manifest_def
        find_existing_pin_def reset_pin_def)
qed

section \<open>Three starts\<close>

lemma pin_trust_on_first_use_witness:
  "let fresh = \<lparr>ps_local = No_File, ps_config = No_File, ps_writable = True\<rparr>; st = starts trim fresh [''v1'', ''v2'']
   in \<not> fst (pin_broken_at_start trim fresh ''v1'') \<and> fst (pin_broken_at_start trim st ''v2'') \<and>
      \<not> fst (pin_broken_at_start trim st ''v1'') \<and> \<not> fst (pin_broken_at_start trim (reset_pin st) ''v2'')"
proof -
  have idem: "trim (trim m) = trim m" for m
  proof -
    have start: "trim_start (trim m) = trim m"
    proof (cases "trim_start m")
      case Nil
      then show ?thesis by (simp add: trim_def trim_end_by_def) (simp add: trim_start_def)
    next
      case (Cons c cs)
      then have c: "\<not> is_whitespace c"
        by (metis dropWhile_eq_Cons_conv trim_start_def)
      then have "trim m = c # rev (dropWhile is_whitespace (rev cs))"
        using Cons by (simp add: trim_def trim_end_by_def dropWhile_append)
      then show ?thesis using c by (simp add: trim_start_def)
    qed
    show ?thesis
      by (subst trim_def, subst start) (simp add: trim_def trim_end_by_def dropWhile_idem)
  qed
  have "trim ''v1'' = ''v1''" "trim ''v2'' = ''v2''"
    by (simp_all add: trim_def trim_end_by_def trim_start_def is_whitespace_def)
  moreover have "find_existing_pin \<lparr>ps_local = No_File, ps_config = No_File, ps_writable = True\<rparr> = No_File"
    by (simp add: find_existing_pin_def)
  ultimately show ?thesis
    using pin_trust_on_first_use [of "\<lparr>ps_local = No_File, ps_config = No_File, ps_writable = True\<rparr>" trim
        "''v1''" "[''v2'']" "''v2''"]
      pin_trust_on_first_use [of "\<lparr>ps_local = No_File, ps_config = No_File, ps_writable = True\<rparr>" trim
        "''v1''" "[''v2'']" "''v1''"] idem
    by (simp add: Let_def del: starts.simps)
qed

end
