(* ===== verification/Mcp_Gate.thy ===== *)
theory Mcp_Gate
  imports Policy Capabilities Secret_Lease Audit_Chain Tool_Pin
begin

text \<open>
  \<open>crates/raios-surface-mcp/src/mcp/mod.rs\<close> and \<open>tools.rs\<close>: the MCP server. Every tool call passes
  the pin, the policy decision and its audit row, the rate limiter, the quarantine, the secret leases
  and the network capability, in this order, before its body runs; the body asks the file-system gate
  for every path. The bodies (one per tool) are the parameter \<open>bodies\<close>; what the outside answers during
  one call (database opens and writes, clocks, the hash, the text of an error) is a record.
\<close>

section \<open>Server, stores and the outside\<close>

record mcp_server =
  ms_umai :: umai
  ms_limiter :: rate_limiter
  ms_quarantine :: quarantine_config
  ms_egress :: egress_filter
  ms_root :: path
  ms_blocked_paths :: "string list"
  ms_pin_broken :: bool
  ms_active_caps :: "tool_capabilities option"

record mcp_world =
  mw_ledger :: "audit_row list"
  mw_queue :: quarantine_db
  mw_leases :: lease_world

record call_env =
  ce_sha256 :: "string \<Rightarrow> string"
  ce_envelope :: "string \<Rightarrow> string \<Rightarrow> string \<Rightarrow> string"
  ce_url_host :: "string \<Rightarrow> string option"
  ce_actor :: "string option"
  ce_db_error :: string
  ce_show_capability :: "capability_error \<Rightarrow> string"
  ce_audit_open :: bool
  ce_audit_write :: bool
  ce_tail_read :: bool
  ce_timestamp :: string
  ce_instant :: nat
  ce_queue_open :: bool
  ce_nanos :: nat
  ce_secs :: nat
  ce_lease_open :: bool
  ce_now :: "64 word"

type_synonym 'v tool_bodies =
  "string \<Rightarrow> string \<Rightarrow> mcp_server \<Rightarrow> mcp_world \<Rightarrow> (string + 'v) \<times> mcp_world"

definition server_new :: "umai \<Rightarrow> policy_config option \<Rightarrow> path \<Rightarrow> bool \<Rightarrow> mcp_server" where
  "server_new u policy root broken =
     \<lparr>ms_umai = u,
      ms_limiter = (case policy of Some p \<Rightarrow> limiter_from_policy (pc_rate_limits p)
                    | None \<Rightarrow> limiter_disabled),
      ms_quarantine = quarantine_from_policy (Option.bind policy pc_quarantine),
      ms_egress = (case policy of Some p \<Rightarrow> egress_from_policy p | None \<Rightarrow> egress_disabled),
      ms_root = root,
      ms_blocked_paths = (case policy of Some p \<Rightarrow> fp_blocked_paths (pc_filesystem p) | None \<Rightarrow> []),
      ms_pin_broken = broken, ms_active_caps = None\<rparr>"

section \<open>The audit row of a decision\<close>

definition decision_event :: "umai_decision \<Rightarrow> string" where
  "decision_event d = (case d of U_Allow \<Rightarrow> ''tool_allow'' | U_Deny _ \<Rightarrow> ''tool_deny''
     | U_Confirm _ \<Rightarrow> ''tool_confirm'')"

definition record_tool_audit :: "call_env \<Rightarrow> mcp_server \<Rightarrow> audit_row list \<Rightarrow> string \<Rightarrow> string \<Rightarrow>
    umai_decision \<Rightarrow> (string + unit) \<times> audit_row list" where
  "record_tool_audit ce s rows name raw d =
     (if \<not> ce_audit_open ce then (Err (''audit ledger unavailable: '' @ ce_db_error ce), rows)
      else if \<not> ce_audit_write ce then (Err (''audit write failed: '' @ ce_db_error ce), rows)
      else (Ok (), record_tool_decision (ce_sha256 ce) (ce_envelope ce) rows (ce_tail_read ce)
              (ce_timestamp ce) name (ce_sha256 ce raw) (rule_source (ms_umai s) name)
              (decision_event d)
              (case ce_actor ce of Some a \<Rightarrow> a | None \<Rightarrow> ''claude_kaira'')))"

section \<open>The gates\<close>

definition enforce_capability :: "call_env \<Rightarrow> mcp_server \<Rightarrow> string \<Rightarrow> capability_error + tool_capabilities" where
  "enforce_capability ce s name =
     (let caps = resolve_capabilities name (umai_tool_capabilities (ms_umai s) name)
      in and_then (check_network_capability (ce_url_host ce) caps (ms_egress s)) (\<lambda>_. Ok caps))"

datatype path_refusal = No_Active_Call | Path_Refused capability_error

definition authorize_path :: "file_system \<Rightarrow> path option \<Rightarrow> mcp_server \<Rightarrow> path \<Rightarrow> path_refusal + unit" where
  "authorize_path fs home s p =
     (case ms_active_caps s of
        None \<Rightarrow> Err No_Active_Call
      | Some caps \<Rightarrow>
          map_err Path_Refused (check_fs_capability fs home caps (ms_root s) p (ms_blocked_paths s)))"

definition quarantine_gate ::
  "call_env \<Rightarrow> mcp_server \<Rightarrow> mcp_world \<Rightarrow> string \<Rightarrow> string \<Rightarrow> (string + unit) \<times> mcp_world" where
  "quarantine_gate ce s w name raw =
     (if \<not> qc_enabled (ms_quarantine s) then (Ok (), w)
      else if \<not> ce_queue_open ce
        then (Err (''quarantine: store unavailable: '' @ ce_db_error ce), w)
      else (case quarantine_check (ms_quarantine s) (mw_queue w) name raw (ce_nanos ce) (ce_secs ce) of
              (r, q) \<Rightarrow> (map_err show_quarantine_error r, w\<lparr>mw_queue := q\<rparr>)))"

definition tool_gates :: "call_env \<Rightarrow> mcp_server \<Rightarrow> mcp_world \<Rightarrow> string \<Rightarrow> string \<Rightarrow>
    (string + unit) \<times> mcp_server \<times> mcp_world" where
  "tool_gates ce s w name raw =
     (let d = umai_check (ms_umai s) name (Some raw)
      in case record_tool_audit ce s (mw_ledger w) name raw d of (audit, rows) \<Rightarrow>
         (let w1 = w\<lparr>mw_ledger := rows\<rparr>
          in if \<not> is_ok audit \<and> umai_is_allowed d
             then (map_err (append ''audit:'') audit, s, w1)
             else case d of
               U_Deny reason \<Rightarrow> (Err (''umai:'' @ reason), s, w1)
             | U_Confirm reason \<Rightarrow> (Err (''umai_confirm:'' @ reason), s, w1)
             | U_Allow \<Rightarrow>
                 (case limiter_check (ms_limiter s) name (ce_instant ce) of (r, lim) \<Rightarrow>
                    (let s1 = s\<lparr>ms_limiter := lim\<rparr>
                     in case r of
                       Inl e \<Rightarrow> (Err (show_rate_limit_error e), s1, w1)
                     | Inr _ \<Rightarrow>
                         (case quarantine_gate ce s1 w1 name raw of (q, w2) \<Rightarrow> (q, s1, w2))))))"

section \<open>Dispatch\<close>

definition dispatch_names :: "string list" where
  "dispatch_names =
     [''update_state'', ''handover'', ''add_task'', ''get_health'', ''list_projects'',
      ''get_stats'', ''steer_agent'', ''semantic_search'', ''anka_recall'', ''locate_search'',
      ''ask_architect'', ''get_validation_errors'', ''project_info'', ''portfolio_status'',
      ''disk_usage'', ''list_ports'', ''usage_status'', ''agent_doctor'', ''version_info'',
      ''version_bump'', ''env_status'', ''deps_status'', ''run_build'', ''run_tests'',
      ''git_status'', ''git_log'', ''git_diff'', ''git_commit'', ''session_note'',
      ''create_swarm_task'', ''list_swarm_tasks'', ''approve_swarm_task'', ''get_inbox'',
      ''route_capability'', ''list_evolution_candidates'', ''promote_evolution_candidate'',
      ''get_agent_stats'', ''factory_overview'', ''factory_execute'']"

definition static_tools_manifest :: "string list" where
  "static_tools_manifest =
     [''update_state'', ''handover'', ''add_task'', ''get_health'', ''get_inbox'',
      ''list_projects'', ''get_stats'', ''semantic_search'', ''anka_recall'', ''project_info'',
      ''portfolio_status'', ''disk_usage'', ''list_ports'', ''usage_status'', ''version_info'',
      ''version_bump'', ''env_status'', ''deps_status'', ''run_build'', ''run_tests'',
      ''git_status'', ''git_log'', ''git_diff'', ''git_commit'', ''ask_architect'',
      ''get_validation_errors'', ''session_note'', ''create_swarm_task'', ''list_swarm_tasks'',
      ''approve_swarm_task'', ''route_capability'', ''list_evolution_candidates'',
      ''promote_evolution_candidate'', ''get_agent_stats'', ''factory_overview'',
      ''factory_execute'']"

definition dispatch :: "'v tool_bodies \<Rightarrow> mcp_server \<Rightarrow> mcp_world \<Rightarrow> string \<Rightarrow> string \<Rightarrow>
    (string + 'v) \<times> mcp_world" where
  "dispatch bodies s w name raw =
     (if list_ex (\<lambda>t. t = name) dispatch_names then bodies name raw s w
      else (Err (''Unknown tool: '' @ name), w))"

text \<open>
  The leases are injected, the capability is resolved and made active, the body runs, and on every
  way out the active capability is gone and the guard removes what it set.
\<close>

definition run_tool :: "call_env \<Rightarrow> 'v tool_bodies \<Rightarrow> mcp_server \<Rightarrow> mcp_world \<Rightarrow> string \<Rightarrow> string \<Rightarrow>
    (string + 'v) \<times> mcp_server \<times> mcp_world" where
  "run_tool ce bodies s w name raw =
     (let (guard, leases) = (if ce_lease_open ce then inject_active_env (mw_leases w) name (ce_now ce)
                             else ([], mw_leases w));
          w1 = w\<lparr>mw_leases := leases\<rparr>;
          leave = (\<lambda>w. w\<lparr>mw_leases := drop_guard guard (mw_leases w)\<rparr>)
      in case enforce_capability ce s name of
        Inl e \<Rightarrow> (Err (''capability:'' @ ce_show_capability ce e), s, leave w1)
      | Inr caps \<Rightarrow>
          (case dispatch bodies (s\<lparr>ms_active_caps := Some caps\<rparr>) w1 name raw of
             (r, w2) \<Rightarrow> (r, s\<lparr>ms_active_caps := None\<rparr>, leave w2)))"

definition pin_message :: string where
  "pin_message = ''tool_pin: manifest tampered '' @ [CHR 0xE2, CHR 0x80, CHR 0x94] @
     '' all tool calls blocked. Run `raios pin-reset` after verifying the binary.''"

definition handle_tools_call :: "call_env \<Rightarrow> 'v tool_bodies \<Rightarrow> mcp_server \<Rightarrow> mcp_world \<Rightarrow>
    string option \<Rightarrow> string \<Rightarrow> (string + 'v) \<times> mcp_server \<times> mcp_world" where
  "handle_tools_call ce bodies s w nm raw =
     (if ms_pin_broken s then (Err pin_message, s, w)
      else case nm of
        None \<Rightarrow> (Err ''missing tool name'', s, w)
      | Some name \<Rightarrow>
          (case tool_gates ce s w name raw of
             (Inl e, s1, w1) \<Rightarrow> (Err e, s1, w1)
           | (Inr _, s1, w1) \<Rightarrow> run_tool ce bodies s1 w1 name raw))"

section \<open>JSON-RPC\<close>

record 'j rpc_request =
  rq_id :: "'j option"
  rq_method :: string
  rq_tool :: "string option"
  rq_args :: string

datatype ('j, 'v) rpc_response = Rpc_Ok 'j 'v | Rpc_Err 'j int string

definition rpc_code :: "string \<Rightarrow> int" where
  "rpc_code msg =
     (if starts_with msg ''capability:'' then -32024
      else if starts_with msg ''umai:'' then -32026
      else if starts_with msg ''umai_confirm:'' then -32025
      else if starts_with msg ''rate_limit:'' then -32029
      else if starts_with msg ''tool_pin:'' then -32028
      else if starts_with msg ''quarantine:'' then -32027
      else if starts_with msg ''audit:'' then -32030
      else if starts_with msg ''method_not_found:'' then -32601
      else -32603)"

text \<open>
  \<open>queries\<close> answers the methods that only read (initialize, ping, the resources and the tool list);
  \<open>null\<close> is the id of a request that has none.
\<close>

definition handle_request :: "'j \<Rightarrow> (string \<Rightarrow> string + 'v) \<Rightarrow> call_env \<Rightarrow> 'v tool_bodies \<Rightarrow>
    mcp_server \<Rightarrow> mcp_world \<Rightarrow> 'j rpc_request \<Rightarrow> ('j, 'v) rpc_response option \<times> mcp_server \<times> mcp_world" where
  "handle_request null queries ce bodies s w req =
     (let ident = (case rq_id req of Some i \<Rightarrow> i | None \<Rightarrow> null);
          respond = (\<lambda>r. if rq_id req = None then None
                         else Some (case r of Inr v \<Rightarrow> Rpc_Ok ident v
                                    | Inl msg \<Rightarrow> Rpc_Err ident (rpc_code msg) msg))
      in if rq_method req = ''initialized'' then (None, s, w)
         else if List.member [''initialize'', ''ping'', ''resources/list'', ''resources/read'',
              ''tools/list''] (rq_method req)
           then (respond (queries (rq_method req)), s, w)
         else if rq_method req = ''tools/call'' then
           (case handle_tools_call ce bodies s w (rq_tool req) (rq_args req) of
              (r, s1, w1) \<Rightarrow> (respond r, s1, w1))
         else (respond (Err (''method_not_found:'' @ rq_method req)), s, w))"

section \<open>Lemmas\<close>

definition audit_available :: "call_env \<Rightarrow> bool" where
  "audit_available ce \<longleftrightarrow> ce_audit_open ce \<and> ce_audit_write ce"

definition decision_row :: "call_env \<Rightarrow> mcp_server \<Rightarrow> audit_row list \<Rightarrow> string \<Rightarrow> string \<Rightarrow> audit_row" where
  "decision_row ce s rows name raw =
     audit_row_after (ce_sha256 ce) (next_id rows) (tail_hash rows (ce_tail_read ce)) (ce_timestamp ce)
       (decision_event (umai_check (ms_umai s) name (Some raw)))
       (case ce_actor ce of Some a \<Rightarrow> a | None \<Rightarrow> ''claude_kaira'')
       (ce_envelope ce name (ce_sha256 ce raw) (rule_source (ms_umai s) name))"

lemma record_tool_audit_ok:
  "audit_available ce \<Longrightarrow> record_tool_audit ce s rows name raw (umai_check (ms_umai s) name (Some raw)) =
     (Ok (), rows @ [decision_row ce s rows name raw])"
  by (simp add: record_tool_audit_def audit_available_def record_tool_decision_def
      append_audit_event_def decision_row_def)

lemma record_tool_audit_failed:
  "\<not> audit_available ce \<Longrightarrow>
     \<exists>e. record_tool_audit ce s rows name raw d = (Err e, rows)"
  by (auto simp: record_tool_audit_def audit_available_def)

lemma gates_frame:
  "tool_gates ce s w name raw = (r, s1, w1) \<Longrightarrow>
     ms_active_caps s1 = ms_active_caps s \<and> ms_umai s1 = ms_umai s \<and> ms_egress s1 = ms_egress s \<and>
     ms_pin_broken s1 = ms_pin_broken s \<and> mw_leases w1 = mw_leases w \<and>
     mw_ledger w1 = mw_ledger w @ (if audit_available ce then [decision_row ce s (mw_ledger w) name raw] else [])"
  using record_tool_audit_ok [of ce s "mw_ledger w" name raw]
    record_tool_audit_failed [of ce s "mw_ledger w" name raw "umai_check (ms_umai s) name (Some raw)"]
  by (cases "audit_available ce")
    (auto simp: tool_gates_def Let_def quarantine_gate_def
      split: if_splits sum.splits umai_decision.splits prod.splits)

text \<open>What all gates before the network capability ask for.\<close>

definition queue_passes :: "call_env \<Rightarrow> mcp_server \<Rightarrow> mcp_world \<Rightarrow> string \<Rightarrow> string \<Rightarrow> bool" where
  "queue_passes ce s w name raw \<longleftrightarrow> qc_enabled (ms_quarantine s) \<longrightarrow>
     ce_queue_open ce \<and>
     is_ok (fst (quarantine_check (ms_quarantine s) (mw_queue w) name raw (ce_nanos ce) (ce_secs ce)))"

lemma gates_ok_iff:
  "is_ok (fst (tool_gates ce s w name raw)) \<longleftrightarrow>
     umai_check (ms_umai s) name (Some raw) = U_Allow \<and> audit_available ce \<and>
     is_ok (fst (limiter_check (ms_limiter s) name (ce_instant ce))) \<and> queue_passes ce s w name raw"
  using record_tool_audit_ok [of ce s "mw_ledger w" name raw]
    record_tool_audit_failed [of ce s "mw_ledger w" name raw "umai_check (ms_umai s) name (Some raw)"]
  by (cases "audit_available ce")
    (auto simp: tool_gates_def Let_def quarantine_gate_def queue_passes_def umai_is_allowed_def is_ok_iff
      split: if_splits sum.splits umai_decision.splits prod.splits)

definition network_permitted :: "call_env \<Rightarrow> mcp_server \<Rightarrow> string \<Rightarrow> bool" where
  "network_permitted ce s name \<longleftrightarrow>
     (let ds = network (resolve_capabilities name (umai_tool_capabilities (ms_umai s) name))
      in ds \<noteq> [] \<longrightarrow> (\<exists>d\<in>set ds. is_ok (egress_check (ce_url_host ce) (ms_egress s) d)))"

lemma enforce_capability_cases:
  "enforce_capability ce s name =
     (let caps = resolve_capabilities name (umai_tool_capabilities (ms_umai s) name)
      in if network_permitted ce s name then Ok caps else Err (No_Network_Permitted (network caps)))"
  by (auto simp: enforce_capability_def network_permitted_def check_network_capability_def Let_def
      list_ex_iff)

text \<open>The call with its bookkeeping named: leases injected, capability armed, guard dropped.\<close>

definition injected :: "call_env \<Rightarrow> mcp_world \<Rightarrow> string \<Rightarrow> string list \<times> lease_world" where
  "injected ce w name = (if ce_lease_open ce then inject_active_env (mw_leases w) name (ce_now ce)
     else ([], mw_leases w))"

definition entered :: "call_env \<Rightarrow> mcp_world \<Rightarrow> string \<Rightarrow> mcp_world" where
  "entered ce w name = w\<lparr>mw_leases := snd (injected ce w name)\<rparr>"

definition left :: "call_env \<Rightarrow> mcp_world \<Rightarrow> string \<Rightarrow> mcp_world \<Rightarrow> mcp_world" where
  "left ce w name w2 = w2\<lparr>mw_leases := drop_guard (fst (injected ce w name)) (mw_leases w2)\<rparr>"

definition armed :: "mcp_server \<Rightarrow> string \<Rightarrow> mcp_server" where
  "armed s name =
     s\<lparr>ms_active_caps := Some (resolve_capabilities name (umai_tool_capabilities (ms_umai s) name))\<rparr>"

lemma run_tool_eq:
  "run_tool ce bodies s w name raw =
     (if network_permitted ce s name
      then (fst (dispatch bodies (armed s name) (entered ce w name) name raw), s\<lparr>ms_active_caps := None\<rparr>,
        left ce w name (snd (dispatch bodies (armed s name) (entered ce w name) name raw)))
      else (Err (''capability:'' @ ce_show_capability ce (No_Network_Permitted
          (network (resolve_capabilities name (umai_tool_capabilities (ms_umai s) name))))), s,
        left ce w name (entered ce w name)))"
proof -
  obtain g l where inj: "injected ce w name = (g, l)" by (cases "injected ce w name")
  have run: "run_tool ce bodies s w name raw =
     (case enforce_capability ce s name of
        Inl e \<Rightarrow> (Err (''capability:'' @ ce_show_capability ce e), s,
          left ce w name (entered ce w name))
      | Inr caps \<Rightarrow>
          (case dispatch bodies (s\<lparr>ms_active_caps := Some caps\<rparr>) (entered ce w name) name raw of
             (r, w2) \<Rightarrow> (r, s\<lparr>ms_active_caps := None\<rparr>, left ce w name w2)))"
    unfolding run_tool_def injected_def [symmetric] inj entered_def left_def Let_def
    by (simp only: prod.case fst_conv snd_conv)
  show ?thesis
  proof (cases "network_permitted ce s name")
    case True
    then have "enforce_capability ce s name =
        Ok (resolve_capabilities name (umai_tool_capabilities (ms_umai s) name))"
      by (simp only: enforce_capability_cases Let_def if_True)
    with True show ?thesis
      by (simp only: run sum.case armed_def if_True case_prod_beta)
  next
    case False
    then have "enforce_capability ce s name = Err (No_Network_Permitted
        (network (resolve_capabilities name (umai_tool_capabilities (ms_umai s) name))))"
      by (simp only: enforce_capability_cases Let_def if_False)
    with False show ?thesis
      by (simp only: run sum.case if_False)
  qed
qed

lemma dispatch_body:
  "dispatch bodies s w name raw = (if name \<in> set dispatch_names then bodies name raw s w
     else (Err (''Unknown tool: '' @ name), w))"
  by (simp add: dispatch_def list_ex_iff)

lemma dispatch_varies:
  "(\<exists>(b1 :: 'v tool_bodies) b2. run_tool ce b1 s w name raw \<noteq> run_tool ce b2 s w name raw) \<longleftrightarrow>
     network_permitted ce s name \<and> name \<in> set dispatch_names"
proof (cases "network_permitted ce s name \<and> name \<in> set dispatch_names")
  case True
  then have answer: "fst (run_tool ce ((\<lambda>_ _ _ w. (Err m, w)) :: 'v tool_bodies) s w name raw) = Err m" for m
    by (simp add: run_tool_eq dispatch_body)
  have "run_tool ce ((\<lambda>_ _ _ w. (Err ''a'', w)) :: 'v tool_bodies) s w name raw \<noteq>
      run_tool ce (\<lambda>_ _ _ w. (Err ''b'', w)) s w name raw" (is "?a \<noteq> ?b")
  proof
    assume "?a = ?b"
    then have "fst ?a = fst ?b" by (rule arg_cong)
    then show False unfolding answer by simp
  qed
  with True show ?thesis by blast
next
  case False
  then have "run_tool ce b1 s w name raw = run_tool ce b2 s w name raw" for b1 b2 :: "'v tool_bodies"
    by (cases "network_permitted ce s name") (simp_all add: run_tool_eq dispatch_body del: append.simps)
  with False show ?thesis by blast
qed

lemma handle_passed:
  "\<not> ms_pin_broken s \<Longrightarrow> tool_gates ce s w name raw = (Inr u, s1, w1) \<Longrightarrow>
     handle_tools_call ce bodies s w (Some name) raw = run_tool ce bodies s1 w1 name raw"
  by (simp add: handle_tools_call_def)

lemma handle_refused:
  "\<not> ms_pin_broken s \<Longrightarrow> tool_gates ce s w name raw = (Inl e, s1, w1) \<Longrightarrow>
     handle_tools_call ce bodies s w (Some name) raw = (Err e, s1, w1)"
  by (simp add: handle_tools_call_def)

lemma handle_unchanged:
  "ms_pin_broken s \<or> nm = None \<Longrightarrow> handle_tools_call ce bodies s w nm raw =
     (Err (if ms_pin_broken s then pin_message else ''missing tool name''), s, w)"
  by (auto simp: handle_tools_call_def)

text \<open>The three ways a call goes.\<close>

lemma handle_cases:
  obtains (unchanged) "ms_pin_broken s \<or> nm = None"
  | (refused) name e s1 w1 where "nm = Some name" "\<not> ms_pin_broken s"
      "tool_gates ce s w name raw = (Inl e, s1, w1)"
  | (passed) name s1 w1 where "nm = Some name" "\<not> ms_pin_broken s"
      "tool_gates ce s w name raw = (Inr (), s1, w1)"
proof (cases "ms_pin_broken s \<or> nm = None")
  case False
  then obtain name where nm: "nm = Some name" "\<not> ms_pin_broken s" by auto
  obtain r s1 w1 where gates: "tool_gates ce s w name raw = (r, s1, w1)"
    by (cases "tool_gates ce s w name raw")
  then show thesis
    using nm refused passed by (cases r) auto
qed (use unchanged in blast)

lemma enforce_after_gates:
  "tool_gates ce s w name raw = (r, s1, w1) \<Longrightarrow> network_permitted ce s1 name = network_permitted ce s name"
  by (drule gates_frame) (simp add: network_permitted_def)

lemma handle_caps:
  assumes "ms_active_caps s = None"
  shows "ms_active_caps (fst (snd (handle_tools_call ce bodies s w nm raw))) = None"
proof (cases rule: handle_cases [where s = s and nm = nm and ce = ce and w = w and raw = raw])
  case unchanged
  with assms show ?thesis by (simp add: handle_unchanged)
next
  case (refused name e s1 w1)
  with assms show ?thesis
    using gates_frame [OF refused(3)] by (simp add: handle_refused)
next
  case (passed name s1 w1)
  with assms show ?thesis
    using gates_frame [OF passed(3)] by (simp add: handle_passed run_tool_eq)
qed

section \<open>Sessions\<close>

text \<open>One request as it arrives, together with what the outside answers while it is served.\<close>

definition serve :: "'j \<Rightarrow> (string \<Rightarrow> string + 'v) \<Rightarrow> 'v tool_bodies \<Rightarrow> mcp_server \<times> mcp_world \<Rightarrow>
    call_env \<times> 'j rpc_request \<Rightarrow> mcp_server \<times> mcp_world" where
  "serve null queries bodies st ev =
     snd (handle_request null queries (fst ev) bodies (fst st) (snd st) (snd ev))"

lemma serve_caps:
  "ms_active_caps (fst st) = None \<Longrightarrow> ms_active_caps (fst (serve null queries bodies st ev)) = None"
  using handle_caps [of "fst st" "fst ev" bodies "snd st" "rq_tool (snd ev)" "rq_args (snd ev)"]
  by (auto simp: serve_def handle_request_def Let_def split: prod.splits)

interpretation session: machine "serve null queries bodies" "\<lambda>_. True"
    "\<lambda>st. ms_active_caps (fst st) = None" for null queries bodies
  by unfold_locales (simp add: serve_caps)

section \<open>Properties\<close>

text \<open>
  C1: the gates decide whether a tool runs. What a call answers and does depends on the tool's body
  exactly when the manifest pin holds, the call names a known tool, no layer of the policy denies it or
  asks, its decision could be written to the audit ledger, the rate limiter and the quarantine let it
  pass (an enabled quarantine whose store cannot be opened does not), and its network capability is
  permitted.
\<close>

theorem tool_runs_iff_authorised:
  "(\<exists>(b1 :: 'v tool_bodies) b2. handle_tools_call ce b1 s w nm raw \<noteq> handle_tools_call ce b2 s w nm raw) \<longleftrightarrow>
     (\<exists>name. nm = Some name \<and> name \<in> set dispatch_names \<and> \<not> ms_pin_broken s \<and>
        umai_check (ms_umai s) name (Some raw) = U_Allow \<and> ce_audit_open ce \<and> ce_audit_write ce \<and>
        is_ok (fst (limiter_check (ms_limiter s) name (ce_instant ce))) \<and>
        queue_passes ce s w name raw \<and> network_permitted ce s name)"
proof (cases rule: handle_cases [where s = s and nm = nm and ce = ce and w = w and raw = raw])
  case unchanged
  then show ?thesis by (auto simp: handle_unchanged)
next
  case (refused name e s1 w1)
  then show ?thesis
    using gates_ok_iff [of ce s w name raw] by (simp add: handle_refused audit_available_def) blast
next
  case (passed name s1 w1)
  then show ?thesis
    using gates_ok_iff [of ce s w name raw] dispatch_varies [of ce s1 w1 name raw]
      enforce_after_gates [OF passed(3)]
    by (simp add: handle_passed audit_available_def) blast
qed

text \<open>
  every decision is on the ledger before anything happens. When the ledger can be written, a call
  of a named tool adds exactly the row of its decision, whatever becomes of the call, provided the tool
  bodies only append to the ledger; and a ledger that verified before the call still verifies after the
  row is added.
\<close>

theorem every_call_audited:
  assumes "\<not> ms_pin_broken s" and "ce_audit_open ce" and "ce_audit_write ce"
    and "\<And>n r s w. prefix (mw_ledger w) (mw_ledger (snd (bodies n r s w)))"
  shows "prefix (mw_ledger w @ [decision_row ce s (mw_ledger w) name raw])
      (mw_ledger (snd (snd (handle_tools_call ce bodies s w (Some name) raw)))) \<and>
    (ce_tail_read ce \<and> verify_chain (ce_sha256 ce) (mw_ledger w) = Ok n \<longrightarrow>
       verify_chain (ce_sha256 ce) (mw_ledger w @ [decision_row ce s (mw_ledger w) name raw]) = Ok (Suc n))"
proof
  have audit: "audit_available ce"
    using assms(2,3) by (simp add: audit_available_def)
  obtain r s1 w1 where gates: "tool_gates ce s w name raw = (r, s1, w1)"
    by (cases "tool_gates ce s w name raw")
  then have "mw_ledger w1 = mw_ledger w @ [decision_row ce s (mw_ledger w) name raw]"
    using audit gates_frame [OF gates] by simp
  moreover have "prefix (mw_ledger w1) (mw_ledger (snd (snd (run_tool ce bodies s1 w1 name raw))))"
  proof -
    have "mw_ledger (entered ce w1 name) = mw_ledger w1" and "\<And>v. mw_ledger (left ce w1 name v) = mw_ledger v"
      by (simp_all add: entered_def left_def)
    then show ?thesis
      using assms(4) [of "entered ce w1 name" name raw "armed s1 name"]
      by (simp add: run_tool_eq dispatch_body)
  qed
  ultimately show "prefix (mw_ledger w @ [decision_row ce s (mw_ledger w) name raw])
      (mw_ledger (snd (snd (handle_tools_call ce bodies s w (Some name) raw))))"
    using gates assms(1) by (cases r) (simp_all add: handle_passed handle_refused)
  have "decision_row ce s (mw_ledger w) name raw = last (append_audit_event (ce_sha256 ce) (mw_ledger w) (ce_tail_read ce)
      (ce_timestamp ce) (decision_event (umai_check (ms_umai s) name (Some raw)))
      (case ce_actor ce of Some a \<Rightarrow> a | None \<Rightarrow> ''claude_kaira'')
      (ce_envelope ce name (ce_sha256 ce raw) (rule_source (ms_umai s) name)))"
    by (simp add: decision_row_def append_audit_event_def)
  then show "ce_tail_read ce \<and> verify_chain (ce_sha256 ce) (mw_ledger w) = Ok n \<longrightarrow>
       verify_chain (ce_sha256 ce) (mw_ledger w @ [decision_row ce s (mw_ledger w) name raw]) = Ok (Suc n)"
    using chain_append_event [of "ce_sha256 ce" "mw_ledger w"]
    by (auto simp: verify_chain_iff append_audit_event_def)
qed

text \<open>
  nothing of a tool call outlives it. After any call no variable the lease table names is left in
  the process environment if the lease store was open and the tool body changed neither environment nor
  table; and after any sequence of requests no capability is active, so that a path asked for outside a
  tool call is always refused.
\<close>

theorem no_authority_left_behind:
  assumes "ms_active_caps s = None"
  shows "authorize_path fs home (fst (foldl (serve null queries bodies) (s, w) reqs)) p = Err No_Active_Call \<and>
    (ce_lease_open ce \<and> lw_available (mw_leases w) \<and> v \<in> le_env_var ` set (lw_leases (mw_leases w)) \<and>
     (\<forall>n r s w. mw_leases (snd (tool_bodies n r s w)) = mw_leases w) \<and>
     network_permitted ce s name \<longrightarrow>
       lw_env (mw_leases (snd (snd (run_tool ce tool_bodies s w name raw)))) v = None)"
proof
  show "authorize_path fs home (fst (foldl (serve null queries bodies) (s, w) reqs)) p = Err No_Active_Call"
    using session.run_inv [of "(s, w)" reqs null queries bodies] assms
    by (simp add: authorize_path_def list_all_iff)
next
  show "ce_lease_open ce \<and> lw_available (mw_leases w) \<and> v \<in> le_env_var ` set (lw_leases (mw_leases w)) \<and>
     (\<forall>n r s w. mw_leases (snd (tool_bodies n r s w)) = mw_leases w) \<and>
     network_permitted ce s name \<longrightarrow>
       lw_env (mw_leases (snd (snd (run_tool ce tool_bodies s w name raw)))) v = None"
  proof
    assume a: "ce_lease_open ce \<and> lw_available (mw_leases w) \<and>
      v \<in> le_env_var ` set (lw_leases (mw_leases w)) \<and>
      (\<forall>n r s w. mw_leases (snd (tool_bodies n r s w)) = mw_leases w) \<and> network_permitted ce s name"
    have inj: "injected ce w name = inject_active_env (mw_leases w) name (ce_now ce)"
      using a by (simp add: injected_def)
    have "mw_leases (snd (dispatch tool_bodies (armed s name) (entered ce w name) name raw)) =
        snd (inject_active_env (mw_leases w) name (ce_now ce))"
      using a inj by (auto simp: dispatch_body entered_def)
    then have "lw_env (mw_leases (snd (snd (run_tool ce tool_bodies s w name raw)))) v =
        (if v \<in> set (fst (inject_active_env (mw_leases w) name (ce_now ce))) then None
         else lw_env (snd (inject_active_env (mw_leases w) name (ce_now ce))) v)"
      using a by (simp add: run_tool_eq left_def inj drop_guard_env)
    then show "lw_env (mw_leases (snd (snd (run_tool ce tool_bodies s w name raw)))) v = None"
      using a by (simp add: inject_env scrub_env)
  qed
qed

definition gate_code :: "call_env \<Rightarrow> mcp_server \<Rightarrow> mcp_world \<Rightarrow> string \<Rightarrow> string \<Rightarrow> int option" where
  "gate_code ce s w name raw =
     (case umai_check (ms_umai s) name (Some raw) of
        U_Deny _ \<Rightarrow> Some (-32026)
      | U_Confirm _ \<Rightarrow> Some (-32025)
      | U_Allow \<Rightarrow>
          (if \<not> audit_available ce then Some (-32030)
           else if \<not> is_ok (fst (limiter_check (ms_limiter s) name (ce_instant ce))) then Some (-32029)
           else if \<not> queue_passes ce s w name raw then Some (-32027) else None))"

lemma rpc_code_gates:
  "rpc_code (''umai:'' @ e) = -32026" "rpc_code (''umai_confirm:'' @ e) = -32025"
  "rpc_code (''audit:'' @ e) = -32030" "rpc_code (''capability:'' @ e) = -32024"
  "rpc_code (''quarantine: store unavailable: '' @ e) = -32027" "rpc_code pin_message = -32028"
  "rpc_code (show_rate_limit_error r) = -32029" "rpc_code (show_quarantine_error q) = -32027"
  by (simp_all add: rpc_code_def pin_message_def show_rate_limit_error_def)
    (cases q; simp add: show_quarantine_error_def)

lemma tool_gates_code:
  "gate_code ce s w name raw =
     (case fst (tool_gates ce s w name raw) of Inl msg \<Rightarrow> Some (rpc_code msg) | Inr _ \<Rightarrow> None)"
proof (cases "umai_check (ms_umai s) name (Some raw)")
  case U_Allow
  show ?thesis
  proof (cases "audit_available ce")
    case True
    obtain r lim where lim: "limiter_check (ms_limiter s) name (ce_instant ce) = (r, lim)"
      by (cases "limiter_check (ms_limiter s) name (ce_instant ce)")
    obtain q db where check: "quarantine_check (ms_quarantine s) (mw_queue w) name raw (ce_nanos ce)
        (ce_secs ce) = (q, db)"
      by (cases "quarantine_check (ms_quarantine s) (mw_queue w) name raw (ce_nanos ce) (ce_secs ce)")
    show ?thesis
      using U_Allow True lim check record_tool_audit_ok [OF True, of s "mw_ledger w" name raw]
      by (cases r; cases q)
        (simp_all add: tool_gates_def gate_code_def quarantine_gate_def queue_passes_def rpc_code_gates Let_def
          del: append.simps)
  next
    case False
    then show ?thesis
      using U_Allow record_tool_audit_failed [OF False, of s "mw_ledger w" name raw U_Allow]
      by (auto simp: tool_gates_def gate_code_def umai_is_allowed_def rpc_code_gates simp del: append.simps)
  qed
next
  case (U_Deny reason)
  then show ?thesis
    by (simp add: tool_gates_def gate_code_def umai_is_allowed_def rpc_code_gates Let_def del: append.simps
        split: prod.splits)
next
  case (U_Confirm reason)
  then show ?thesis
    by (simp add: tool_gates_def gate_code_def umai_is_allowed_def rpc_code_gates Let_def del: append.simps
        split: prod.splits)
qed

text \<open>
  C2: the error code says which gate refused. The code is computed from the message text, and still a
  tool call with an id is answered with the code of the first gate that refuses it, in the order pin,
  policy, audit, rate limit, quarantine, network capability.
\<close>

theorem refusal_code_names_the_gate:
  assumes "rq_method req = ''tools/call''" and "rq_id req = Some i" and "rq_tool req = Some name"
  shows "(case (if ms_pin_broken s then Some (- 32028)
      else case gate_code ce s w name (rq_args req) of Some c \<Rightarrow> Some c
        | None \<Rightarrow> if network_permitted ce s name then None else Some (- 32024)) of
      Some c \<Rightarrow> \<exists>msg. fst (handle_request null queries ce bodies s w req) = Some (Rpc_Err i c msg)
    | None \<Rightarrow> \<exists>r. fst (handle_request null queries ce bodies s w req) =
        Some (case r of Inr v \<Rightarrow> Rpc_Ok i v | Inl msg \<Rightarrow> Rpc_Err i (rpc_code msg) msg))"
proof -
  let ?h = "handle_tools_call ce bodies s w (Some name) (rq_args req)"
  have response: "fst (handle_request null queries ce bodies s w req) =
      Some (case fst ?h of Inr v \<Rightarrow> Rpc_Ok i v | Inl msg \<Rightarrow> Rpc_Err i (rpc_code msg) msg)"
    using assms by (simp add: handle_request_def Let_def split: prod.splits)
  show ?thesis
  proof (cases rule: handle_cases [where s = s and nm = "Some name" and ce = ce and w = w and raw = "rq_args req"])
    case unchanged
    then show ?thesis
      using handle_unchanged [of s "Some name" ce bodies w "rq_args req"]
      by (simp add: response rpc_code_gates)
  next
    case (refused name' e s1 w1)
    then show ?thesis
      using handle_refused [OF refused(2,3), of bodies] tool_gates_code [of ce s w name "rq_args req"]
      by (simp add: response)
  next
    case (passed name' s1 w1)
    then have "gate_code ce s w name (rq_args req) = None"
      using tool_gates_code [of ce s w name "rq_args req"] by simp
    moreover have "?h = run_tool ce bodies s1 w1 name (rq_args req)"
      using passed handle_passed [OF passed(2,3), of bodies] by simp
    moreover have "network_permitted ce s1 name = network_permitted ce s name"
      using passed enforce_after_gates by simp
    ultimately show ?thesis
      using passed(2)
      by (cases "network_permitted ce s name")
        (auto simp: response run_tool_eq rpc_code_gates simp del: append.simps)
  qed
qed

section \<open>A small server\<close>

text \<open>No policy and no pattern that matches; one lease of \<open>TOKEN\<close> to the tool \<open>run_build\<close>.\<close>

abbreviation plain_server :: "bool \<Rightarrow> mcp_server" where
  "plain_server broken \<equiv> server_new \<lparr>um_policy = None, um_is_match = (\<lambda>_ _. False)\<rparr> None [Root_Dir] broken"

abbreviation quiet_env :: call_env where
  "quiet_env \<equiv> \<lparr>ce_sha256 = id, ce_envelope = (\<lambda>a b c. a), ce_url_host = Some, ce_actor = None, ce_db_error = [],
     ce_show_capability = (\<lambda>_. []), ce_audit_open = True, ce_audit_write = True, ce_tail_read = True,
     ce_timestamp = ''t'', ce_instant = 0, ce_queue_open = True, ce_nanos = 0, ce_secs = 0, ce_lease_open = True,
     ce_now = 5\<rparr>"

abbreviation leased_world :: mcp_world where
  "leased_world \<equiv> \<lparr>mw_ledger = [], mw_queue = \<lparr>q_rows = [], q_readable = True, q_writable = True\<rparr>,
     mw_leases = \<lparr>lw_leases = [\<lparr>le_id = ''1'', le_tool = ''run_build'', le_env_var = ''TOKEN'', le_granted_at = 0,
         le_expires_at = 10, le_status = Active\<rparr>],
       lw_available = True, lw_env = [''TOKEN'' \<mapsto> Utf8 ''s3cret''], lw_vault = Map.empty\<rparr>\<rparr>"

abbreviation idle_bodies :: "nat tool_bodies" where
  "idle_bodies \<equiv> \<lambda>_ _ _ w. (Ok 7, w)"

lemma plain_server_gates:
  "network_permitted quiet_env (plain_server b) ''run_build''" "ms_active_caps (plain_server b) = None"
  "ms_pin_broken (plain_server b) = b"
  by (simp_all add: network_permitted_def server_new_def umai_tool_capabilities_def resolve_capabilities_def
      default_for_def read_write_exec_def no_capabilities_def)

lemma every_call_audited_witness:
  "let row = decision_row quiet_env (plain_server False) [] ''run_build'' ''{}''
   in prefix [row] (mw_ledger (snd (snd (handle_tools_call quiet_env idle_bodies (plain_server False) leased_world
        (Some ''run_build'') ''{}'')))) \<and> verify_chain id [row] = Ok 1"
  using every_call_audited [of "plain_server False" quiet_env idle_bodies leased_world "''run_build''" "''{}''" 0]
  by (simp add: plain_server_gates Let_def verify_chain_def)

lemma no_authority_left_behind_witness:
  "authorize_path plain_fs None (fst (foldl (serve (0 :: int) (\<lambda>_. Ok 0) idle_bodies) (plain_server False, leased_world)
       [(quiet_env, \<lparr>rq_id = Some 1, rq_method = ''tools/call'', rq_tool = Some ''run_build'', rq_args = ''{}''\<rparr>)])) [Root_Dir] =
     Err No_Active_Call \<and>
   lw_env (mw_leases (snd (snd (run_tool quiet_env idle_bodies (plain_server False) leased_world ''run_build'' ''{}''))))
     ''TOKEN'' = None"
  using no_authority_left_behind [where s = "plain_server False" and fs = plain_fs and home = None and null = "0 :: int"
      and queries = "\<lambda>_. Ok 0" and bodies = idle_bodies and w = leased_world and ce = quiet_env and v = "''TOKEN''"
      and tool_bodies = idle_bodies and name = "''run_build''" and raw = "''{}''" and p = "[Root_Dir]"
      and reqs = "[(quiet_env, \<lparr>rq_id = Some 1, rq_method = ''tools/call'', rq_tool = Some ''run_build'', rq_args = ''{}''\<rparr>)]"]
  by (simp add: plain_server_gates del: foldl_Cons)

lemma refusal_code_names_the_gate_witness:
  "\<exists>msg. fst (handle_request 0 (\<lambda>_. Ok 0) quiet_env idle_bodies (plain_server True) leased_world
      \<lparr>rq_id = Some 1, rq_method = ''tools/call'', rq_tool = Some ''run_build'', rq_args = ''{}''\<rparr>) =
    Some (Rpc_Err (1 :: int) (- 32028) msg)"
  using refusal_code_names_the_gate [where req = "\<lparr>rq_id = Some (1 :: int), rq_method = ''tools/call'',
      rq_tool = Some ''run_build'', rq_args = ''{}''\<rparr>" and i = 1 and name = "''run_build''" and s = "plain_server True"
      and ce = quiet_env and w = leased_world and null = 0 and queries = "\<lambda>_. Ok 0" and bodies = idle_bodies]
  by (simp add: plain_server_gates)

end
