(* ===== verification/Policy_Suggest.thy ===== *)
theory Policy_Suggest
  imports Policy Audit_Chain "HOL-Library.List_Lexorder" "HOL-Library.Char_ord"
begin

text \<open>
  \<open>crates/raios-core/src/security/policy_suggest.rs\<close>: rules learned from the audit ledger. The
  JSON parser of the data column is the parameter \<open>decode\<close>: the tool and the matched rule of an
  envelope, when the text is JSON and they are strings.
\<close>

record policy_suggestion =
  ps_tool :: string
  ps_action :: policy_action
  ps_count :: nat
  ps_total :: nat

record review_note =
  rn_tool :: string
  rn_confirm_count :: nat
  rn_total :: nat

record policy_suggestions =
  sug_allow :: "policy_suggestion list"
  sug_deny :: "policy_suggestion list"
  sug_needs_review :: "review_note list"

record tool_stats =
  st_allow :: nat
  st_deny :: nat
  st_confirm :: nat

definition no_stats :: tool_stats where
  "no_stats = \<lparr>st_allow = 0, st_deny = 0, st_confirm = 0\<rparr>"

definition count_decision :: "string \<Rightarrow> tool_stats \<Rightarrow> tool_stats" where
  "count_decision ev s =
     (if ev = ''tool_allow'' then s\<lparr>st_allow := st_allow s + 1\<rparr>
      else if ev = ''tool_deny'' then s\<lparr>st_deny := st_deny s + 1\<rparr>
      else if ev = ''tool_confirm'' then s\<lparr>st_confirm := st_confirm s + 1\<rparr>
      else s)"

type_synonym decoder = "string \<Rightarrow> (string option \<times> string option) option"

text \<open>The tool a decision row counts for: only decisions that fell through to the default.\<close>

definition counted_tool :: "decoder \<Rightarrow> audit_row \<Rightarrow> string option" where
  "counted_tool decode r =
     (if \<not> List.member [''tool_allow'', ''tool_deny'', ''tool_confirm''] (a_event_type r) then None
      else case decode (a_data r) of
        Some (Some tool, Some rule) \<Rightarrow> if rule = ''default'' then Some tool else None
      | _ \<Rightarrow> None)"

fun gather_stats :: "decoder \<Rightarrow> audit_row list \<Rightarrow> (string \<rightharpoonup> tool_stats) \<Rightarrow> (string \<rightharpoonup> tool_stats)" where
  "gather_stats decode [] stats = stats"
| "gather_stats decode (r # rows) stats =
     (case counted_tool decode r of
        None \<Rightarrow> gather_stats decode rows stats
      | Some tool \<Rightarrow>
          gather_stats decode rows (stats(tool \<mapsto> count_decision (a_event_type r)
            (case stats tool of Some s \<Rightarrow> s | None \<Rightarrow> no_stats))))"

definition has_rule :: "policy_config option \<Rightarrow> string \<Rightarrow> bool" where
  "has_rule existing tool =
     (case existing of
        Some p \<Rightarrow> list_ex (\<lambda>r. tr_name r = tool) (tool_rules (pc_tools p))
      | None \<Rightarrow> False)"

definition suggest_one :: "policy_config option \<Rightarrow> nat \<Rightarrow> string \<times> tool_stats \<Rightarrow>
    policy_suggestions \<Rightarrow> policy_suggestions" where
  "suggest_one existing min_count ts out =
     (let (tool, s) = ts; total = st_allow s + st_deny s + st_confirm s
      in if total < min_count then out
         else if has_rule existing tool then out
         else if st_allow s \<le> st_confirm s \<and> st_deny s \<le> st_confirm s then
           out\<lparr>sug_needs_review := sug_needs_review out @
             [\<lparr>rn_tool = tool, rn_confirm_count = st_confirm s, rn_total = total\<rparr>]\<rparr>
         else if st_deny s \<le> st_allow s then
           out\<lparr>sug_allow := sug_allow out @
             [\<lparr>ps_tool = tool, ps_action = Allow, ps_count = st_allow s, ps_total = total\<rparr>]\<rparr>
         else
           out\<lparr>sug_deny := sug_deny out @
             [\<lparr>ps_tool = tool, ps_action = Deny_Action, ps_count = st_deny s, ps_total = total\<rparr>]\<rparr>)"

text \<open>The statistics are a \<open>BTreeMap\<close>: the tools come in increasing order.\<close>

definition suggest_policy_rules ::
  "decoder \<Rightarrow> audit_row list \<Rightarrow> policy_config option \<Rightarrow> nat \<Rightarrow> policy_suggestions" where
  "suggest_policy_rules decode rows existing min_count =
     (let stats = gather_stats decode rows Map.empty;
          tools = sort (remdups (List.map_filter (counted_tool decode) rows))
      in fold (suggest_one existing min_count) (map (\<lambda>t. (t, the (stats t))) tools)
           \<lparr>sug_allow = [], sug_deny = [], sug_needs_review = []\<rparr>)"

definition newline :: string where
  "newline = [CHR 0x0A]"

definition dquote :: string where
  "dquote = [CHR 0x22]"

definition render_rule :: "policy_suggestion \<Rightarrow> string" where
  "render_rule s =
     newline @ ''[[tools.rules]]'' @ newline @
     ''name = '' @ dquote @ ps_tool s @ dquote @ newline @
     ''action = '' @ dquote @ action_as_str (ps_action s) @ dquote @ newline"

definition render_rules_toml :: "policy_suggestion list \<Rightarrow> string" where
  "render_rules_toml suggestions = concat (map render_rule suggestions)"

section \<open>Lemmas\<close>

definition decisions :: "decoder \<Rightarrow> audit_row list \<Rightarrow> string \<Rightarrow> string \<Rightarrow> nat" where
  "decisions decode rows tool ev =
     length (filter (\<lambda>r. counted_tool decode r = Some tool \<and> a_event_type r = ev) rows)"

definition stats_of :: "decoder \<Rightarrow> audit_row list \<Rightarrow> string \<Rightarrow> tool_stats" where
  "stats_of decode rows tool =
     \<lparr>st_allow = decisions decode rows tool ''tool_allow'',
      st_deny = decisions decode rows tool ''tool_deny'',
      st_confirm = decisions decode rows tool ''tool_confirm''\<rparr>"

definition add_stats :: "tool_stats \<Rightarrow> tool_stats \<Rightarrow> tool_stats" where
  "add_stats s t = \<lparr>st_allow = st_allow s + st_allow t, st_deny = st_deny s + st_deny t,
     st_confirm = st_confirm s + st_confirm t\<rparr>"

lemma counted_event:
  "counted_tool decode r = Some tool \<Longrightarrow>
     a_event_type r \<in> {''tool_allow'', ''tool_deny'', ''tool_confirm''}"
  by (auto simp: counted_tool_def split: if_splits)

lemma gather_stats_Some:
  "gather_stats decode rows stats tool =
     (if stats tool = None \<and> tool \<notin> set (List.map_filter (counted_tool decode) rows) then None
      else Some (add_stats (case stats tool of Some s \<Rightarrow> s | None \<Rightarrow> no_stats)
                   (stats_of decode rows tool)))"
proof (induction rows arbitrary: stats)
  case Nil
  then show ?case
    by (auto simp: List.map_filter_def add_stats_def stats_of_def decisions_def split: option.splits)
next
  case (Cons r rows)
  show ?case
  proof (cases "counted_tool decode r")
    case None
    then show ?thesis
      by (simp add: Cons List.map_filter_def stats_of_def decisions_def cong: option.case_cong)
  next
    case (Some other)
    then show ?thesis
      using counted_event [OF Some]
      by (cases "other = tool")
        (auto simp: Cons List.map_filter_def add_stats_def stats_of_def decisions_def
          count_decision_def no_stats_def split: option.splits)
  qed
qed

definition classify :: "tool_stats \<Rightarrow> policy_action" where
  "classify s =
     (if st_allow s \<le> st_confirm s \<and> st_deny s \<le> st_confirm s then Confirm
      else if st_deny s \<le> st_allow s then Allow else Deny_Action)"

definition eligible :: "policy_config option \<Rightarrow> nat \<Rightarrow> string \<times> tool_stats \<Rightarrow> bool" where
  "eligible existing n ts \<longleftrightarrow>
     n \<le> st_allow (snd ts) + st_deny (snd ts) + st_confirm (snd ts) \<and> \<not> has_rule existing (fst ts)"

lemma suggest_one_lists:
  "sug_allow (suggest_one existing n ts out) = sug_allow out @
     (if eligible existing n ts \<and> classify (snd ts) = Allow
      then [\<lparr>ps_tool = fst ts, ps_action = Allow, ps_count = st_allow (snd ts),
             ps_total = st_allow (snd ts) + st_deny (snd ts) + st_confirm (snd ts)\<rparr>] else []) \<and>
   sug_deny (suggest_one existing n ts out) = sug_deny out @
     (if eligible existing n ts \<and> classify (snd ts) = Deny_Action
      then [\<lparr>ps_tool = fst ts, ps_action = Deny_Action, ps_count = st_deny (snd ts),
             ps_total = st_allow (snd ts) + st_deny (snd ts) + st_confirm (snd ts)\<rparr>] else []) \<and>
   sug_needs_review (suggest_one existing n ts out) = sug_needs_review out @
     (if eligible existing n ts \<and> classify (snd ts) = Confirm
      then [\<lparr>rn_tool = fst ts, rn_confirm_count = st_confirm (snd ts),
             rn_total = st_allow (snd ts) + st_deny (snd ts) + st_confirm (snd ts)\<rparr>] else [])"
  by (cases ts) (auto simp: suggest_one_def eligible_def classify_def Let_def)

lemma suggested_allow:
  "ps_tool ` set (sug_allow (fold (suggest_one existing n) tss out)) = ps_tool ` set (sug_allow out) \<union>
     fst ` {ts \<in> set tss. eligible existing n ts \<and> classify (snd ts) = Allow}"
  by (induction tss arbitrary: out) (auto simp: suggest_one_lists image_iff split: if_splits)

lemma suggested_deny:
  "ps_tool ` set (sug_deny (fold (suggest_one existing n) tss out)) = ps_tool ` set (sug_deny out) \<union>
     fst ` {ts \<in> set tss. eligible existing n ts \<and> classify (snd ts) = Deny_Action}"
  by (induction tss arbitrary: out) (auto simp: suggest_one_lists image_iff split: if_splits)

lemma suggested_review:
  "rn_tool ` set (sug_needs_review (fold (suggest_one existing n) tss out)) =
     rn_tool ` set (sug_needs_review out) \<union>
     fst ` {ts \<in> set tss. eligible existing n ts \<and> classify (snd ts) = Confirm}"
  by (induction tss arbitrary: out) (auto simp: suggest_one_lists image_iff split: if_splits)

lemma counted_decisions:
  "tool \<in> set (List.map_filter (counted_tool decode) rows) \<longleftrightarrow>
     0 < decisions decode rows tool ''tool_allow'' + decisions decode rows tool ''tool_deny'' +
         decisions decode rows tool ''tool_confirm''"
proof (induction rows)
  case (Cons r rows)
  then show ?case
    using counted_event [of decode r tool]
    by (auto simp: List.map_filter_def decisions_def)
qed (simp add: decisions_def List.map_filter_def)

lemma stats_of_tool:
  "tool \<in> set (List.map_filter (counted_tool decode) rows) \<Longrightarrow>
     the (gather_stats decode rows Map.empty tool) = stats_of decode rows tool"
  by (simp add: gather_stats_Some add_stats_def stats_of_def no_stats_def)

lemma suggested_pairs:
  "fst ` {ts \<in> set (map (\<lambda>t. (t, the (gather_stats decode rows Map.empty t)))
      (sort (remdups (List.map_filter (counted_tool decode) rows)))). eligible existing n ts \<and> P (snd ts)} =
   {tool \<in> set (List.map_filter (counted_tool decode) rows).
      eligible existing n (tool, stats_of decode rows tool) \<and> P (stats_of decode rows tool)}"
  by (auto simp: stats_of_tool image_iff)

text \<open>
  the suggestions never loosen what the ledger shows. A tool is suggested for allowing exactly
  when it has no rule yet, enough of its calls fell through to the default, strictly more of them
  were allowed than needed confirmation and at least as many as were denied; for denying exactly when
  denials strictly outnumber both other outcomes; and for review when confirmations are not
  outnumbered.
\<close>

theorem suggestions_follow_ledger:
  "let out = suggest_policy_rules decode rows existing n;
       a = decisions decode rows tool ''tool_allow''; d = decisions decode rows tool ''tool_deny'';
       c = decisions decode rows tool ''tool_confirm'';
       candidate = (0 < a + d + c \<and> n \<le> a + d + c \<and> \<not> has_rule existing tool)
   in (tool \<in> ps_tool ` set (sug_allow out) \<longleftrightarrow> candidate \<and> c < a \<and> d \<le> a) \<and>
      (tool \<in> ps_tool ` set (sug_deny out) \<longleftrightarrow> candidate \<and> a < d \<and> c < d) \<and>
      (tool \<in> rn_tool ` set (sug_needs_review out) \<longleftrightarrow> candidate \<and> a \<le> c \<and> d \<le> c)"
  unfolding suggest_policy_rules_def Let_def suggested_allow suggested_deny suggested_review
    suggested_pairs [where P = "\<lambda>s. classify s = Allow"]
    suggested_pairs [where P = "\<lambda>s. classify s = Deny_Action"]
    suggested_pairs [where P = "\<lambda>s. classify s = Confirm"]
  by (auto simp: counted_decisions eligible_def classify_def stats_of_def)

text \<open>
  the rendered rules are not injective. The tool name is copied between the quotes as it is, so
  one suggestion whose recorded tool name holds a quote and line breaks renders to the same text as
  two suggestions, the first of which allows a tool nobody suggested.
\<close>

theorem rendered_rules_ambiguous:
  "render_rules_toml
     [\<lparr>ps_tool = a @ dquote @ newline @ ''action = '' @ dquote @ ''allow'' @ dquote @ newline @
         newline @ ''[[tools.rules]]'' @ newline @ ''name = '' @ dquote @ b,
       ps_action = act, ps_count = k, ps_total = m\<rparr>] =
   render_rules_toml
     [\<lparr>ps_tool = a, ps_action = Allow, ps_count = i, ps_total = j\<rparr>,
      \<lparr>ps_tool = b, ps_action = act, ps_count = k, ps_total = m\<rparr>]"
  by (simp add: render_rules_toml_def render_rule_def action_as_str_def newline_def dquote_def)

end
