(* ===== verification/Lock_Manager.thy ===== *)
theory Lock_Manager
  imports Machines "HOL-Library.AList"
begin

text \<open>
  \<open>crates/raios-core/src/lock_manager.rs\<close>: named locks with owner, priority and timeout. Every
  operation runs under the manager's mutex, so it is one step; instants and durations are nanoseconds.
  The hash map is an association list with one entry per key, in the map's iteration order.
\<close>

section \<open>Data\<close>

datatype lock_priority = Automation | Agent | User

fun priority_rank :: "lock_priority \<Rightarrow> nat" where
  "priority_rank Automation = 0"
| "priority_rank Agent = 1"
| "priority_rank User = 2"

instantiation lock_priority :: linorder
begin

definition "p \<le> q \<longleftrightarrow> priority_rank p \<le> priority_rank q" for p q :: lock_priority

definition "p < q \<longleftrightarrow> priority_rank p < priority_rank q" for p q :: lock_priority

instance
proof
  fix p q r :: lock_priority
  show "p \<le> q \<Longrightarrow> q \<le> p \<Longrightarrow> p = q"
    by (cases p; cases q) (simp_all add: less_eq_lock_priority_def)
qed (auto simp: less_eq_lock_priority_def less_lock_priority_def)

end

datatype lock_key = File string | Task string

record lock_entry =
  le_owner :: string
  le_priority :: lock_priority
  le_acquired_at :: nat
  le_timeout :: nat

record lock_status =
  ls_key :: lock_key
  ls_owner :: string
  ls_priority :: lock_priority
  ls_elapsed_secs :: nat
  ls_timeout_secs :: nat

datatype lock_error =
    Locked_By string lock_priority
  | No_Such_Lock
  | Not_Owner string

type_synonym lock_map = "(lock_key \<times> lock_entry) list"

abbreviation default_timeout :: nat where
  "default_timeout \<equiv> 30 * 1000000000"

definition is_expired :: "nat \<Rightarrow> lock_entry \<Rightarrow> bool" where
  "is_expired now e \<longleftrightarrow> le_timeout e < now - le_acquired_at e"

section \<open>Operations\<close>

definition acquire_lock :: "lock_map \<Rightarrow> lock_key \<Rightarrow> string \<Rightarrow> lock_priority \<Rightarrow> nat option \<Rightarrow> nat \<Rightarrow>
    (lock_error + unit) \<times> lock_map" where
  "acquire_lock m k owner priority timeout now =
     (let entry = \<lparr>le_owner = owner, le_priority = priority, le_acquired_at = now,
            le_timeout = (case timeout of Some d \<Rightarrow> d | None \<Rightarrow> default_timeout)\<rparr>;
          taken = (Ok (), AList.update k entry m)
      in case map_of m k of
        None \<Rightarrow> taken
      | Some existing \<Rightarrow>
          (if is_expired now existing then taken
           else if le_owner existing = owner then taken
           else if priority \<le> le_priority existing
             then (Err (Locked_By (le_owner existing) (le_priority existing)), m)
           else taken))"

definition release_lock :: "lock_map \<Rightarrow> lock_key \<Rightarrow> string \<Rightarrow> lock_priority \<Rightarrow>
    (lock_error + unit) \<times> lock_map" where
  "release_lock m k caller caller_priority =
     (case map_of m k of
        None \<Rightarrow> (Err No_Such_Lock, m)
      | Some e \<Rightarrow>
          (if le_owner e \<noteq> caller \<and> caller_priority < User then (Err (Not_Owner (le_owner e)), m)
           else (Ok (), AList.delete k m)))"

definition is_locked :: "lock_map \<Rightarrow> lock_key \<Rightarrow> nat \<Rightarrow> bool \<times> lock_map" where
  "is_locked m k now =
     (case map_of m k of
        None \<Rightarrow> (False, m)
      | Some e \<Rightarrow> (if is_expired now e then (False, AList.delete k m) else (True, m)))"

definition sweep_expired :: "lock_map \<Rightarrow> nat \<Rightarrow> nat \<times> lock_map" where
  "sweep_expired m now =
     (let kept = filter (\<lambda>(k, e). \<not> is_expired now e) m in (length m - length kept, kept))"

definition list_locks :: "lock_map \<Rightarrow> nat \<Rightarrow> lock_status list \<times> lock_map" where
  "list_locks m now =
     (let expired = map fst (filter (\<lambda>(k, e). is_expired now e) m);
          kept = fold AList.delete expired m
      in (map (\<lambda>(k, e). \<lparr>ls_key = k, ls_owner = le_owner e, ls_priority = le_priority e,
            ls_elapsed_secs = (now - le_acquired_at e) div 1000000000,
            ls_timeout_secs = le_timeout e div 1000000000\<rparr>) kept, kept))"

section \<open>Who holds a key\<close>

definition live :: "lock_map \<Rightarrow> nat \<Rightarrow> lock_key \<Rightarrow> lock_entry option" where
  "live m now k = (case map_of m k of
     Some e \<Rightarrow> if is_expired now e then None else Some e | None \<Rightarrow> None)"

lemma expired_later: "is_expired now e \<Longrightarrow> now \<le> later \<Longrightarrow> is_expired later e"
  by (simp add: is_expired_def)

lemma live_update: "live (AList.update k e m) now k' =
    (if k' = k then (if is_expired now e then None else Some e) else live m now k')"
  by (simp add: live_def update_conv' cong: option.case_cong)

lemma live_delete: "live (AList.delete k m) now k' = (if k' = k then None else live m now k')"
  by (simp add: live_def delete_conv' cong: option.case_cong)

lemma map_of_filter:
  "distinct (map fst m) \<Longrightarrow> map_of (filter (\<lambda>(k, e). P e) m) k =
     (case map_of m k of Some e \<Rightarrow> if P e then Some e else None | None \<Rightarrow> None)"
proof (induction m)
  case (Cons a m)
  obtain j e where a: "a = (j, e)" by (cases a)
  have "map_of m j = None"
    using Cons.prems a by (simp add: map_of_eq_None_iff)
  then show ?case
    using Cons a by (cases "k = j") auto
qed simp

lemma live_sweep:
  assumes "distinct (map fst m)" and "now \<le> later"
  shows "live (snd (sweep_expired m now)) later k = live m later k"
  using map_of_filter [OF assms(1), of "\<lambda>e. \<not> is_expired now e" k] expired_later [OF _ assms(2)]
  by (auto simp: sweep_expired_def live_def Let_def split: option.splits)

lemma fold_delete: "fold AList.delete ks m = filter (\<lambda>p. fst p \<notin> set ks) m"
proof (induction ks arbitrary: m)
  case (Cons k ks)
  then show ?case
    by (simp add: AList.delete_eq case_prod_beta) (metis)
qed simp

lemma list_locks_sweeps:
  assumes "distinct (map fst m)"
  shows "snd (list_locks m now) = snd (sweep_expired m now)"
proof -
  have "fst p \<notin> fst ` {p \<in> set m. is_expired now (snd p)} \<longleftrightarrow> \<not> is_expired now (snd p)"
    if "p \<in> set m" for p
  proof -
    have "q = p" if "q \<in> set m" "fst q = fst p" for q
      using inj_onD [of fst "set m"] that \<open>p \<in> set m\<close> assms unfolding distinct_map by blast
    then show ?thesis
      using that by auto
  qed
  then have "filter (\<lambda>p. fst p \<notin> fst ` {p \<in> set m. is_expired now (snd p)}) m =
      filter (\<lambda>p. \<not> is_expired now (snd p)) m"
    by (intro filter_cong) simp_all
  then show ?thesis
    by (simp add: list_locks_def sweep_expired_def Let_def fold_delete split_def)
qed

section \<open>The manager as a machine\<close>

text \<open>The operations with the clock reading of each; the state keeps the last reading.\<close>

datatype lock_event =
    Acquire lock_key string lock_priority "nat option"
  | Release lock_key string lock_priority
  | Query lock_key
  | Sweep
  | Listing

fun lock_apply :: "lock_map \<Rightarrow> nat \<Rightarrow> lock_event \<Rightarrow> lock_map" where
  "lock_apply m now (Acquire k owner p d) = snd (acquire_lock m k owner p d now)"
| "lock_apply m now (Release k caller p) = snd (release_lock m k caller p)"
| "lock_apply m now (Query k) = snd (is_locked m k now)"
| "lock_apply m now Sweep = snd (sweep_expired m now)"
| "lock_apply m now Listing = snd (list_locks m now)"

definition lock_step :: "lock_map \<Rightarrow> nat \<times> lock_event \<Rightarrow> lock_map" where
  "lock_step m ev = lock_apply m (fst ev) (snd ev)"

definition one_entry_per_key :: "lock_map \<Rightarrow> bool" where
  "one_entry_per_key m \<longleftrightarrow> distinct (map fst m)"

lemma lock_apply_keyed: "one_entry_per_key m \<Longrightarrow> one_entry_per_key (lock_apply m now e)"
proof (cases e)
  case Sweep
  moreover assume "one_entry_per_key m"
  ultimately show ?thesis
    by (simp add: one_entry_per_key_def sweep_expired_def Let_def distinct_map_filter)
next
  case Listing
  moreover assume "one_entry_per_key m"
  ultimately show ?thesis
    by (simp add: one_entry_per_key_def list_locks_sweeps)
      (simp add: sweep_expired_def Let_def distinct_map_filter)
qed (auto simp: one_entry_per_key_def acquire_lock_def release_lock_def is_locked_def Let_def
    distinct_update distinct_delete split: option.splits)

text \<open>
  What may happen while \<open>owner\<close>'s lock on \<open>k\<close> with priority \<open>p\<close> is to survive until \<open>deadline\<close>: no
  operation after the deadline, no acquisition of \<open>k\<close> by the owner or with a higher priority, no release of
  \<open>k\<close> by the owner or with user priority.
\<close>

fun leaves_alone :: "lock_key \<Rightarrow> string \<Rightarrow> lock_priority \<Rightarrow> lock_event \<Rightarrow> bool" where
  "leaves_alone k owner p (Acquire k' other q d) \<longleftrightarrow> k' \<noteq> k \<or> (other \<noteq> owner \<and> q \<le> p)"
| "leaves_alone k owner p (Release k' caller q) \<longleftrightarrow> k' \<noteq> k \<or> (caller \<noteq> owner \<and> q < User)"
| "leaves_alone k owner p _ = True"

definition holds_entry :: "lock_key \<Rightarrow> lock_entry \<Rightarrow> lock_map \<Rightarrow> bool" where
  "holds_entry k e m \<longleftrightarrow> map_of m k = Some e"

lemma holds_apply:
  assumes "one_entry_per_key m" and "holds_entry k e m" and "\<not> is_expired now e"
    and "leaves_alone k (le_owner e) (le_priority e) ev"
  shows "holds_entry k e (lock_apply m now ev)"
proof -
  have sweep: "holds_entry k e (snd (sweep_expired m now))"
    using assms(1-3) map_of_filter [of m "\<lambda>e. \<not> is_expired now e" k]
    by (simp add: holds_entry_def sweep_expired_def Let_def one_entry_per_key_def)
  show ?thesis
  proof (cases ev)
    case Sweep
    then show ?thesis using sweep by simp
  next
    case Listing
    then show ?thesis
      using sweep assms(1) by (simp add: list_locks_sweeps one_entry_per_key_def)
  qed (use assms in \<open>auto simp: holds_entry_def acquire_lock_def release_lock_def is_locked_def Let_def
      update_conv' delete_conv' split: option.splits\<close>)
qed

interpretation holder: terminal_machine
  lock_step
  "\<lambda>ev. fst ev - le_acquired_at e \<le> le_timeout e \<and> leaves_alone k (le_owner e) (le_priority e) (snd ev)"
  one_entry_per_key "holds_entry k e" "\<lambda>m. map_of m k" for k e
  by unfold_locales
    (auto simp: lock_step_def lock_apply_keyed is_expired_def not_less
      intro!: holds_apply [unfolded holds_entry_def] simp: holds_entry_def)

interpretation manager: machine lock_step "\<lambda>_. True" one_entry_per_key
  by unfold_locales (simp add: lock_step_def lock_apply_keyed)

section \<open>Properties\<close>

text \<open>
  C35: an acquisition succeeds exactly when nobody else holds the key with the same or a higher priority
  (an expired lock is nobody's), the key then belongs to the new owner until its timeout, no other key
  changes hands, and a refused acquisition changes nothing.
\<close>

theorem acquire_lock_decides:
  "(is_ok (fst (acquire_lock m k owner p d now)) \<longleftrightarrow>
      (case live m now k of None \<Rightarrow> True
       | Some e \<Rightarrow> le_owner e = owner \<or> le_priority e < p)) \<and>
   (if is_ok (fst (acquire_lock m k owner p d now))
    then map_of (snd (acquire_lock m k owner p d now)) k =
           Some \<lparr>le_owner = owner, le_priority = p, le_acquired_at = now,
             le_timeout = (case d of Some t \<Rightarrow> t | None \<Rightarrow> default_timeout)\<rparr> \<and>
         (k' = k \<or> map_of (snd (acquire_lock m k owner p d now)) k' = map_of m k')
    else snd (acquire_lock m k owner p d now) = m)"
  by (auto simp: acquire_lock_def live_def Let_def update_conv' split: option.splits)

text \<open>
  a lock is safe for its whole term. From the moment of a successful acquisition until the timeout,
  no sequence of operations takes the key from its owner, except an acquisition of higher priority or by
  the owner, or a release by the owner or with user priority.
\<close>

theorem lock_held_for_its_term:
  assumes "one_entry_per_key m" and "acquire_lock m k owner p d now = (Ok (), m')"
    and "list_all (\<lambda>ev. fst ev - now \<le> (case d of Some t \<Rightarrow> t | None \<Rightarrow> default_timeout) \<and>
        leaves_alone k owner p (snd ev)) events"
  shows "\<exists>e. map_of (foldl lock_step m' events) k = Some e \<and> le_owner e = owner \<and> le_priority e = p"
proof -
  let ?e = "\<lparr>le_owner = owner, le_priority = p, le_acquired_at = now,
             le_timeout = (case d of Some t \<Rightarrow> t | None \<Rightarrow> default_timeout)\<rparr>"
  have "one_entry_per_key m'"
    using lock_apply_keyed [OF assms(1), of now "Acquire k owner p d"] assms(2) by simp
  moreover have "holds_entry k ?e m'"
    using assms(2)
    by (auto simp: acquire_lock_def Let_def update_conv' holds_entry_def split: option.splits if_splits)
  ultimately have "map_of (foldl lock_step m' events) k = Some ?e"
    using holder.final_run [of m' k ?e events] assms(3) by (simp add: holds_entry_def)
  then show ?thesis by simp
qed

text \<open>
  C36: sweeping and listing are invisible: after any run, who holds a key at any later time is the same
  whether or not expired locks are evicted (also by a listing) in between, and the sweep's count is the
  number of entries it dropped.
\<close>

theorem eviction_unobservable:
  assumes "now \<le> later"
  shows "live (snd (sweep_expired (foldl lock_step [] events) now)) later k =
      live (foldl lock_step [] events) later k \<and>
    live (snd (list_locks (foldl lock_step [] events) now)) later k =
      live (foldl lock_step [] events) later k \<and>
    fst (sweep_expired (foldl lock_step [] events) now) + length (snd (sweep_expired (foldl lock_step [] events) now)) =
      length (foldl lock_step [] events)"
proof -
  have "distinct (map fst (foldl lock_step [] events))"
    using manager.run_inv [of "[]" events] by (simp add: one_entry_per_key_def list_all_iff)
  then show ?thesis
    using assms by (simp add: live_sweep list_locks_sweeps) (simp add: sweep_expired_def Let_def)
qed

section \<open>One lock\<close>

lemma lock_held_for_its_term_witness:
  "\<exists>e. map_of (foldl lock_step (snd (acquire_lock [] (File ''f'') ''a'' Agent (Some 9) 1))
       [(3, Acquire (File ''f'') ''b'' Agent None), (5, Sweep), (7, Release (File ''f'') ''b'' Agent)]) (File ''f'') = Some e \<and>
     le_owner e = ''a''"
  using lock_held_for_its_term [of "[]" "File ''f''" "''a''" Agent "Some 9" 1
      "snd (acquire_lock [] (File ''f'') ''a'' Agent (Some 9) 1)"
      "[(3, Acquire (File ''f'') ''b'' Agent None), (5, Sweep), (7, Release (File ''f'') ''b'' Agent)]"]
  by (auto simp: one_entry_per_key_def acquire_lock_def less_lock_priority_def less_eq_lock_priority_def
      simp del: foldl_Cons)

lemma eviction_unobservable_witness:
  "live (snd (sweep_expired (foldl lock_step [] [(1, Acquire (Task ''t'') ''a'' User (Some 9))]) 5)) 7 (Task ''t'') \<noteq> None"
  using eviction_unobservable [of 5 7 "[(1, Acquire (Task ''t'') ''a'' User (Some 9))]" "Task ''t''"]
  by (simp add: live_def lock_step_def acquire_lock_def is_expired_def)

end
