(* ===== verification/Task_Dag.thy ===== *)
theory Task_Dag
  imports Prelude
begin

text \<open>
  \<open>crates/raios-core/src/task_graph/types.rs\<close> and \<open>dag.rs\<close>: the nodes of a task graph and the check
  that their dependencies form an acyclic graph. The depth-first search threads its two hash sets
  (\<open>visited\<close> and \<open>in_stack\<close>) through the recursion; they are lists here, read as sets.
\<close>

section \<open>Data\<close>

record node_spec =
  ns_id :: string
  ns_description :: string
  ns_shell_cmd :: string
  ns_deps :: "string list"

datatype node_status = Node_Pending | Node_Running | Node_Completed | Node_Failed

record graph_node =
  gn_id :: string
  gn_graph_id :: string
  gn_task_id :: "string option"
  gn_agent_run_id :: "string option"
  gn_description :: string
  gn_shell_cmd :: string
  gn_deps :: "string list"
  gn_status :: node_status
  gn_factory_job_id :: "string option"
  gn_result :: "string option"
  gn_error :: "string option"

record task_graph =
  tg_id :: string
  tg_goal :: string
  tg_agent :: string
  tg_status :: string
  tg_created_at :: string
  tg_completed_at :: "string option"
  tg_nodes :: "graph_node list"

definition show_node_status :: "node_status \<Rightarrow> string" where
  "show_node_status st = (case st of Node_Pending \<Rightarrow> ''pending'' | Node_Running \<Rightarrow> ''running''
     | Node_Completed \<Rightarrow> ''completed'' | Node_Failed \<Rightarrow> ''failed'')"

definition legacy_status_to_node_status :: "string \<Rightarrow> node_status" where
  "legacy_status_to_node_status st =
     (if st = ''running'' then Node_Running
      else if st = ''completed'' then Node_Completed
      else if st = ''failed'' then Node_Failed
      else Node_Pending)"

definition control_status_to_node_status :: "string \<Rightarrow> node_status" where
  "control_status_to_node_status st =
     (if st = ''running'' then Node_Running
      else if st = ''completed'' then Node_Completed
      else if st = ''failed'' \<or> st = ''cancelled'' then Node_Failed
      else Node_Pending)"

section \<open>The search\<close>

type_synonym adjacency = "(string \<times> string list) list"

type_synonym search_state = "string list \<times> string list"

text \<open>\<open>any_cycle\<close> is the loop over the dependencies inside \<open>has_cycle\<close>.\<close>

function has_cycle :: "adjacency \<Rightarrow> string \<Rightarrow> string list \<Rightarrow> string list \<Rightarrow> bool \<times> search_state"
  and any_cycle :: "adjacency \<Rightarrow> string list \<Rightarrow> string list \<Rightarrow> string list \<Rightarrow> bool \<times> search_state" where
  "has_cycle adj node visited in_stack =
     (if node \<in> set in_stack then (True, visited, in_stack)
      else if node \<in> set visited then (False, visited, in_stack)
      else case any_cycle adj (case map_of adj node of Some deps \<Rightarrow> deps | None \<Rightarrow> [])
             (node # visited) (node # in_stack) of
        (True, st) \<Rightarrow> (True, st)
      | (False, visited', in_stack') \<Rightarrow> (False, visited', removeAll node in_stack'))"
| "any_cycle adj [] visited in_stack = (False, visited, in_stack)"
| "any_cycle adj (dep # deps) visited in_stack =
     (case has_cycle adj dep visited in_stack of
        (True, st) \<Rightarrow> (True, st)
      | (False, visited', in_stack') \<Rightarrow> any_cycle adj deps visited' in_stack')"
  by pat_completeness auto

lemma visited_grows:
  "has_cycle_any_cycle_dom (Inl (adj, node, vs, st)) \<Longrightarrow> set vs \<subseteq> set (fst (snd (has_cycle adj node vs st)))"
  "has_cycle_any_cycle_dom (Inr (adj, deps, vs, st)) \<Longrightarrow> set vs \<subseteq> set (fst (snd (any_cycle adj deps vs st)))"
proof (induction rule: has_cycle_any_cycle.pinduct)
  case (1 adj node vs st)
  obtain b vs' st' where inner: "any_cycle adj (case map_of adj node of Some deps \<Rightarrow> deps | None \<Rightarrow> [])
      (node # vs) (node # st) = (b, vs', st')"
    by (rule prod_cases3)
  show ?case
  proof (cases "node \<in> set st \<or> node \<in> set vs")
    case True
    then show ?thesis
      using 1(1) by (auto simp only: has_cycle.psimps if_True if_False fst_conv snd_conv subset_refl split: if_split)
  next
    case False
    then have "set (node # vs) \<subseteq> set vs'"
      using 1(2) inner by simp
    then show ?thesis
      using False inner by (cases b) (simp_all add: has_cycle.psimps [OF 1(1)])
  qed
next
  case (2 adj vs st)
  then show ?case by (simp add: any_cycle.psimps)
next
  case (3 adj dep deps vs st)
  obtain b vs' st' where inner: "has_cycle adj dep vs st = (b, vs', st')"
    by (rule prod_cases3)
  then have "set vs \<subseteq> set vs'"
    using 3(2) by simp
  moreover have "\<not> b \<Longrightarrow> set vs' \<subseteq> set (fst (snd (any_cycle adj deps vs' st')))"
    using 3(3) [of b "(vs', st')" vs' st'] inner by simp
  ultimately show ?case
    using inner by (cases b) (auto simp: any_cycle.psimps(2) [OF 3(1)])
qed

text \<open>Every entered node leaves the set of keys not visited yet; a node without an entry has no loop.\<close>

definition unvisited :: "adjacency \<Rightarrow> string list \<Rightarrow> nat" where
  "unvisited adj vs = card (fst ` set adj - set vs)"

lemma unvisited_mono: "set vs \<subseteq> set vs' \<Longrightarrow> unvisited adj vs' \<le> unvisited adj vs"
  by (auto simp: unvisited_def intro!: card_mono)

lemma unvisited_enter: "map_of adj node = Some deps \<Longrightarrow> node \<notin> set vs \<Longrightarrow>
    unvisited adj (node # vs) < unvisited adj vs"
  by (auto simp: unvisited_def map_of_SomeD image_iff intro!: psubset_card_mono dest!: map_of_SomeD) force

termination has_cycle
proof (relation "measures [case_sum (\<lambda>(adj, node, vs, st). unvisited adj vs) (\<lambda>(adj, deps, vs, st). unvisited adj vs),
    case_sum (\<lambda>_. 1) (\<lambda>(adj, deps, vs, st). 2 * length deps)]", goal_cases)
  case 1
  then show ?case by simp
next
  case (2 adj node vs st)
  then show ?case
    using unvisited_enter [of adj node _ vs] unvisited_mono [of vs "node # vs" adj]
    by (cases "map_of adj node") (auto simp: le_less)
next
  case (3 adj dep deps vs st)
  then show ?case by simp
next
  case (4 adj dep deps vs st a b c d)
  then have "set vs \<subseteq> set c"
    using visited_grows(1) [of adj dep vs st] by (metis fst_conv snd_conv)
  then show ?case
    using unvisited_mono [of vs c adj] by (auto simp: le_less)
qed

section \<open>Validation\<close>

datatype dag_error =
    Unknown_Dependency string string
  | Self_Dependency string
  | Cycle_Involving string

fun check_deps :: "string set \<Rightarrow> string \<Rightarrow> string list \<Rightarrow> dag_error + unit" where
  "check_deps ids node [] = Ok ()"
| "check_deps ids node (dep # deps) =
     (if dep \<notin> ids then Err (Unknown_Dependency node dep)
      else if dep = node then Err (Self_Dependency node)
      else check_deps ids node deps)"

fun check_all_deps :: "string set \<Rightarrow> node_spec list \<Rightarrow> dag_error + unit" where
  "check_all_deps ids [] = Ok ()"
| "check_all_deps ids (n # ns) = and_then (check_deps ids (ns_id n) (ns_deps n)) (\<lambda>_. check_all_deps ids ns)"

fun check_cycles :: "adjacency \<Rightarrow> node_spec list \<Rightarrow> string list \<Rightarrow> string list \<Rightarrow> dag_error + unit" where
  "check_cycles adj [] vs st = Ok ()"
| "check_cycles adj (n # ns) vs st =
     (case has_cycle adj (ns_id n) vs st of
        (True, _) \<Rightarrow> Err (Cycle_Involving (ns_id n))
      | (False, vs', st') \<Rightarrow> check_cycles adj ns vs' st')"

text \<open>A hash map collected from pairs keeps the last one for a key.\<close>

definition adjacency_of :: "node_spec list \<Rightarrow> adjacency" where
  "adjacency_of nodes = rev (map (\<lambda>n. (ns_id n, ns_deps n)) nodes)"

definition validate_dag :: "node_spec list \<Rightarrow> dag_error + unit" where
  "validate_dag nodes =
     and_then (check_all_deps (set (map ns_id nodes)) nodes) (\<lambda>_.
       check_cycles (adjacency_of nodes) nodes [] [])"

section \<open>What the search decides\<close>

definition edges :: "adjacency \<Rightarrow> (string \<times> string) set" where
  "edges adj = {(n, d). \<exists>deps. map_of adj n = Some deps \<and> d \<in> set deps}"

text \<open>The nodes that are done: no edge leaves them, and none of them is on a cycle.\<close>

definition finished :: "adjacency \<Rightarrow> string set \<Rightarrow> bool" where
  "finished adj B \<longleftrightarrow> (\<forall>x\<in>B. \<forall>y. (x, y) \<in> edges adj \<longrightarrow> y \<in> B) \<and> (\<forall>x\<in>B. (x, x) \<notin> (edges adj)\<^sup>+)"

lemma finished_closed: "finished adj B \<Longrightarrow> x \<in> B \<Longrightarrow> (x, y) \<in> (edges adj)\<^sup>+ \<Longrightarrow> y \<in> B"
  by (rotate_tac 2, induction rule: trancl_induct) (auto simp: finished_def)

lemma finished_insert:
  assumes "finished adj B" and "n \<notin> B" and "\<And>y. (n, y) \<in> edges adj \<Longrightarrow> y \<in> B"
  shows "finished adj (insert n B)"
proof -
  have "(n, n) \<notin> (edges adj)\<^sup>+"
  proof
    assume "(n, n) \<in> (edges adj)\<^sup>+"
    then obtain y where "(n, y) \<in> edges adj" "(y, n) \<in> (edges adj)\<^sup>*"
      by (meson tranclD)
    then have "y \<in> B" and "y = n \<or> (y, n) \<in> (edges adj)\<^sup>+"
      using assms(3) by (auto simp: rtrancl_eq_or_trancl)
    then show False
      using assms(1,2) finished_closed by blast
  qed
  then show ?thesis
    using assms by (auto simp: finished_def)
qed

definition deps_of :: "adjacency \<Rightarrow> string \<Rightarrow> string list" where
  "deps_of adj n = (case map_of adj n of Some deps \<Rightarrow> deps | None \<Rightarrow> [])"

lemma edges_deps: "(n, d) \<in> edges adj \<longleftrightarrow> d \<in> set (deps_of adj n)"
  by (cases "map_of adj n") (simp_all add: edges_def deps_of_def)

lemmas search_unfold = has_cycle.simps [folded deps_of_def]

lemmas search_induct = has_cycle_any_cycle.induct [folded deps_of_def]

declare has_cycle.simps [simp del]

text \<open>The results of the two functions, by the ways they go.\<close>

lemma has_cycle_cases:
  assumes "has_cycle adj node vs st = (b, vs', st')"
  obtains (on_stack) "node \<in> set st" "b" "vs' = vs" "st' = st"
  | (seen) "node \<notin> set st" "node \<in> set vs" "\<not> b" "vs' = vs" "st' = st"
  | (cyclic) st1 where "node \<notin> set st" "node \<notin> set vs" "b"
      "any_cycle adj (deps_of adj node) (node # vs) (node # st) = (True, vs', st1)"
  | (clear) st1 where "node \<notin> set st" "node \<notin> set vs" "\<not> b" "st' = removeAll node st1"
      "any_cycle adj (deps_of adj node) (node # vs) (node # st) = (False, vs', st1)"
proof -
  obtain c vs1 st1 where inner:
    "any_cycle adj (deps_of adj node) (node # vs) (node # st) = (c, vs1, st1)"
    by (rule prod_cases3)
  show thesis
    using assms inner on_stack seen cyclic clear
    by (cases c) (auto simp: search_unfold [of adj node vs st] split: if_splits)
qed

lemma any_cycle_cases:
  assumes "any_cycle adj (dep # deps) vs st = (b, vs', st')"
  obtains (cyclic) "has_cycle adj dep vs st = (True, vs', st')" "b"
  | (clear) vs1 st1 where "has_cycle adj dep vs st = (False, vs1, st1)"
      "any_cycle adj deps vs1 st1 = (b, vs', st')"
  using assms by (auto split: prod.splits bool.splits)

text \<open>A search that finds no cycle leaves the stack as it found it.\<close>

lemma search_restores:
  "has_cycle adj node vs st = (False, vs', st') \<Longrightarrow> st' = st"
  "any_cycle adj deps vs st = (False, vs', st') \<Longrightarrow> st' = st"
proof (induction adj node vs st and adj deps vs st arbitrary: vs' st' and vs' st' rule: search_induct)
  case (1 adj node vs st)
  from 1(2) show ?case
  proof (cases rule: has_cycle_cases)
    case (clear st1)
    then have "st1 = node # st"
      using 1(1) by blast
    then show ?thesis
      using clear by simp
  qed simp_all
next
  case (3 adj dep deps vs st)
  from 3(3) show ?case
  proof (cases rule: any_cycle_cases)
    case (clear vs1 st1)
    then show ?thesis
      using 3(1) [of vs1 st1] 3(2) [of False "(vs1, st1)" vs1 st1] by auto
  qed simp
qed simp

text \<open>A search that reports a cycle has found one, when every node on the stack leads to where it is.\<close>

lemma search_sound:
  "has_cycle adj node vs st = (True, vs', st') \<Longrightarrow> (\<forall>x\<in>set st. (x, node) \<in> (edges adj)\<^sup>+) \<Longrightarrow>
     \<exists>x. (x, x) \<in> (edges adj)\<^sup>+"
  "any_cycle adj deps vs st = (True, vs', st') \<Longrightarrow> (\<forall>d\<in>set deps. \<forall>x\<in>set st. (x, d) \<in> (edges adj)\<^sup>+) \<Longrightarrow>
     \<exists>x. (x, x) \<in> (edges adj)\<^sup>+"
proof (induction adj node vs st and adj deps vs st arbitrary: vs' st' and vs' st' rule: search_induct)
  case (1 adj node vs st)
  from 1(2) show ?case
  proof (cases rule: has_cycle_cases)
    case on_stack
    then show ?thesis using 1(3) by blast
  next
    case (cyclic st1)
    have "(x, d) \<in> (edges adj)\<^sup>+" if "d \<in> set (deps_of adj node)" "x \<in> set (node # st)" for d x
    proof -
      have "(node, d) \<in> edges adj"
        using that(1) by (simp add: edges_deps)
      then show ?thesis
        using that(2) 1(3) by (auto intro: trancl_into_trancl)
    qed
    then show ?thesis
      using 1(1) cyclic by blast
  qed simp_all
next
  case (3 adj dep deps vs st)
  from 3(3) show ?case
  proof (cases rule: any_cycle_cases)
    case cyclic
    then show ?thesis using 3(1) 3(4) by (metis list.set_intros(1))
  next
    case (clear vs1 st1)
    then have "st1 = st" using search_restores(1) by blast
    then show ?thesis
      using 3(2) [of False "(vs1, st1)" vs1 st1] clear 3(4) by auto
  qed
qed simp

text \<open>A search that finds none finishes the node: all it reaches is finished.\<close>

lemma search_complete:
  "has_cycle adj node vs st = (False, vs', st') \<Longrightarrow> set st \<subseteq> set vs \<Longrightarrow>
     finished adj (set vs - set st) \<Longrightarrow>
     set vs \<subseteq> set vs' \<and> finished adj (set vs' - set st) \<and> node \<in> set vs' - set st"
  "any_cycle adj deps vs st = (False, vs', st') \<Longrightarrow> set st \<subseteq> set vs \<Longrightarrow>
     finished adj (set vs - set st) \<Longrightarrow>
     set vs \<subseteq> set vs' \<and> finished adj (set vs' - set st) \<and> set deps \<subseteq> set vs' - set st"
proof (induction adj node vs st and adj deps vs st arbitrary: vs' st' and vs' st' rule: search_induct)
  case (1 adj node vs st)
  from 1(2) show ?case
  proof (cases rule: has_cycle_cases)
    case seen
    then show ?thesis using 1 by simp
  next
    case (clear st1)
    have "set (node # vs) - set (node # st) = set vs - set st"
      using clear(2) by auto
    then have inner: "set (node # vs) \<subseteq> set vs'" "finished adj (set vs' - set (node # st))"
        "set (deps_of adj node) \<subseteq> set vs' - set (node # st)"
      using 1(1) [of vs' st1] clear 1(3,4) by auto
    then have "finished adj (insert node (set vs' - set (node # st)))"
      by (intro finished_insert) (auto simp: edges_deps)
    moreover have "insert node (set vs' - set (node # st)) = set vs' - set st"
      using inner(1) clear(1) by auto
    ultimately show ?thesis
      using inner(1) clear(1) by auto
  qed simp_all
next
  case (3 adj dep deps vs st)
  from 3(3) show ?case
  proof (cases rule: any_cycle_cases)
    case (clear vs1 st1)
    then have "st1 = st" using search_restores(1) by blast
    moreover have "set vs \<subseteq> set vs1 \<and> finished adj (set vs1 - set st) \<and> dep \<in> set vs1 - set st"
      using 3(1) clear 3(4,5) by blast
    ultimately show ?thesis
      using 3(2) [of False "(vs1, st1)" vs1 st1] clear 3(4) by auto
  qed simp
qed simp

lemma check_deps_Ok_iff:
  "check_deps ids node deps = Ok () \<longleftrightarrow> (\<forall>d\<in>set deps. d \<in> ids \<and> d \<noteq> node)"
  by (induction ids node deps rule: check_deps.induct) auto

lemma check_all_deps_Ok_iff:
  "check_all_deps ids nodes = Ok () \<longleftrightarrow>
     (\<forall>n\<in>set nodes. \<forall>d\<in>set (ns_deps n). d \<in> ids \<and> d \<noteq> ns_id n)"
  by (induction ids nodes rule: check_all_deps.induct) (auto simp: and_then_Inr_iff check_deps_Ok_iff)

lemma check_cycles_Ok:
  "check_cycles adj ns vs [] = Ok () \<Longrightarrow> finished adj (set vs) \<Longrightarrow>
     \<exists>B. finished adj B \<and> set vs \<union> ns_id ` set ns \<subseteq> B"
proof (induction ns arbitrary: vs)
  case Nil
  then show ?case by auto
next
  case (Cons n ns)
  obtain b vs' st' where run: "has_cycle adj (ns_id n) vs [] = (b, vs', st')"
    by (rule prod_cases3)
  then have "\<not> b"
    using Cons.prems(1) by (auto split: bool.splits)
  then have "st' = []" "set vs \<subseteq> set vs' \<and> finished adj (set vs') \<and> ns_id n \<in> set vs'"
    using run search_restores(1) search_complete(1) [of adj "ns_id n" vs "[]" vs' st'] Cons.prems(2)
    by auto
  moreover have "check_cycles adj ns vs' [] = Ok ()"
    using Cons.prems(1) run \<open>\<not> b\<close> \<open>st' = []\<close> by simp
  ultimately obtain B where "finished adj B" "set vs' \<union> ns_id ` set ns \<subseteq> B"
    using Cons.IH by blast
  then show ?case
    using \<open>set vs \<subseteq> set vs' \<and> finished adj (set vs') \<and> ns_id n \<in> set vs'\<close>
    by (intro exI [of _ B]) auto
qed

lemma check_cycles_Err:
  "check_cycles adj ns vs [] \<noteq> Ok () \<Longrightarrow> \<exists>x. (x, x) \<in> (edges adj)\<^sup>+"
proof (induction ns arbitrary: vs)
  case (Cons n ns)
  obtain b vs' st' where run: "has_cycle adj (ns_id n) vs [] = (b, vs', st')"
    by (rule prod_cases3)
  show ?case
  proof (cases b)
    case True
    then show ?thesis
      using run search_sound(1) by fastforce
  next
    case False
    then show ?thesis
      using run Cons search_restores(1) by fastforce
  qed
qed simp

lemma edges_source: "(x, y) \<in> edges (adjacency_of nodes) \<Longrightarrow> x \<in> ns_id ` set nodes"
  by (force simp: edges_def adjacency_of_def dest: map_of_SomeD)

lemma check_cycles_acyclic:
  "check_cycles (adjacency_of nodes) nodes [] [] = Ok () \<longleftrightarrow> acyclic (edges (adjacency_of nodes))"
proof
  assume "check_cycles (adjacency_of nodes) nodes [] [] = Ok ()"
  then obtain B where B: "finished (adjacency_of nodes) B" "ns_id ` set nodes \<subseteq> B"
    using check_cycles_Ok [of "adjacency_of nodes" nodes "[]"] by (auto simp: finished_def)
  have "(x, x) \<notin> (edges (adjacency_of nodes))\<^sup>+" for x
  proof
    assume "(x, x) \<in> (edges (adjacency_of nodes))\<^sup>+"
    moreover from this have "x \<in> B"
      using B(2) edges_source by (meson tranclD subsetD)
    ultimately show False
      using B(1) by (auto simp: finished_def)
  qed
  then show "acyclic (edges (adjacency_of nodes))"
    by (simp add: acyclic_def)
next
  assume "acyclic (edges (adjacency_of nodes))"
  then show "check_cycles (adjacency_of nodes) nodes [] [] = Ok ()"
    using check_cycles_Err by (metis acyclic_def)
qed

definition dependency_edges :: "node_spec list \<Rightarrow> (string \<times> string) set" where
  "dependency_edges nodes = {(ns_id n, d) |n d. n \<in> set nodes \<and> d \<in> set (ns_deps n)}"

lemma edges_adjacency:
  assumes "distinct (map ns_id nodes)"
  shows "edges (adjacency_of nodes) = dependency_edges nodes"
proof -
  have "map_of (adjacency_of nodes) x = Some deps \<longleftrightarrow> (\<exists>n\<in>set nodes. ns_id n = x \<and> ns_deps n = deps)"
    for x deps
  proof -
    have "distinct (map fst (adjacency_of nodes))"
      using assms by (simp add: adjacency_of_def rev_map [symmetric] comp_def)
    then have "map_of (adjacency_of nodes) x = Some deps \<longleftrightarrow> (x, deps) \<in> set (adjacency_of nodes)"
      by (rule map_of_eq_Some_iff)
    then show ?thesis
      by (auto simp: adjacency_of_def)
  qed
  then show ?thesis
    by (auto simp: edges_def dependency_edges_def)
qed

lemma validate_dag_acyclic:
  assumes "distinct (map ns_id nodes)"
  shows "validate_dag nodes = Ok () \<longleftrightarrow>
    (\<forall>n\<in>set nodes. \<forall>d\<in>set (ns_deps n). d \<in> ns_id ` set nodes \<and> d \<noteq> ns_id n) \<and>
    acyclic (dependency_edges nodes)"
  using check_cycles_acyclic [of nodes] edges_adjacency [OF assms]
  by (auto simp: validate_dag_def and_then_Inr_iff check_all_deps_Ok_iff)

section \<open>Properties\<close>

text \<open>
  C30: for nodes with distinct ids the validation is exact: it terminates, and accepts precisely the
  graphs in which every dependency is a node and no chain of dependencies leads back to its start.
\<close>

theorem validate_dag_exact:
  assumes "distinct (map ns_id nodes)"
  shows "is_ok (validate_dag nodes) \<longleftrightarrow>
    dependency_edges nodes \<subseteq> UNIV \<times> ns_id ` set nodes \<and>
    (\<forall>x. (x, x) \<notin> (dependency_edges nodes)\<^sup>+)"
proof -
  have "is_ok (validate_dag nodes) \<longleftrightarrow> validate_dag nodes = Ok ()"
    by (cases "validate_dag nodes") auto
  moreover have "(ns_id n, ns_id n) \<in> (dependency_edges nodes)\<^sup>+"
    if "n \<in> set nodes" "ns_id n \<in> set (ns_deps n)" for n
    using that by (intro r_into_trancl) (auto simp: dependency_edges_def)
  moreover have "dependency_edges nodes \<subseteq> UNIV \<times> ns_id ` set nodes \<longleftrightarrow>
      (\<forall>n\<in>set nodes. \<forall>d\<in>set (ns_deps n). d \<in> ns_id ` set nodes)"
    by (auto simp: dependency_edges_def)
  ultimately show ?thesis
    unfolding validate_dag_acyclic [OF assms] acyclic_def by blast
qed

text \<open>
  with a repeated id the validation misses cycles: only the dependencies of the last node of that
  id are searched, so two nodes that depend on each other pass when a third one repeats an id.
\<close>

theorem duplicate_ids_hide_cycle:
  "let node = (\<lambda>i deps. \<lparr>ns_id = i, ns_description = [], ns_shell_cmd = [], ns_deps = deps\<rparr>);
       nodes = [node ''a'' [''b''], node ''b'' [''a''], node ''a'' []]
   in validate_dag nodes = Ok () \<and> (''a'', ''a'') \<in> (dependency_edges nodes)\<^sup>+"
proof -
  let ?node = "\<lambda>i deps. \<lparr>ns_id = i, ns_description = [], ns_shell_cmd = [], ns_deps = deps\<rparr>"
  let ?nodes = "[?node ''a'' [''b''], ?node ''b'' [''a''], ?node ''a'' []]"
  have "(''a'', ''b'') \<in> dependency_edges ?nodes" "(''b'', ''a'') \<in> dependency_edges ?nodes"
    by (force simp: dependency_edges_def)+
  then have "(''a'', ''a'') \<in> (dependency_edges ?nodes)\<^sup>+"
    by (meson r_into_trancl trancl_into_trancl)
  moreover have "validate_dag ?nodes = Ok ()"
    by (simp add: validate_dag_def adjacency_of_def has_cycle.simps)
  ultimately show ?thesis by simp
qed

section \<open>A chain of two nodes\<close>

lemma validate_dag_exact_witness:
  "let node = (\<lambda>i deps. \<lparr>ns_id = i, ns_description = [], ns_shell_cmd = [], ns_deps = deps\<rparr>)
   in is_ok (validate_dag [node ''a'' [], node ''b'' [''a'']]) \<and>
      \<not> is_ok (validate_dag [node ''a'' [''a'']]) \<and> \<not> is_ok (validate_dag [node ''b'' [''a'']])"
proof -
  have edges: "dependency_edges (n # ns) = Pair (ns_id n) ` set (ns_deps n) \<union> dependency_edges ns"
      "dependency_edges [] = {}" for n ns
    by (auto simp: dependency_edges_def)
  have "(x, x) \<notin> {(''b'', ''a'')}\<^sup>+" for x
    by (auto dest!: tranclD elim: converse_rtranclE)
  moreover have "(''a'', ''a'') \<in> {(''a'', ''a'')}\<^sup>+"
    by blast
  ultimately show ?thesis
    by (auto simp: Let_def validate_dag_exact edges)
qed

end
