(* ===== verification/Task_Store.thy ===== *)
theory Task_Store
  imports Machines Sql_Table Task_Dag "HOL-Library.List_Lexorder" "HOL-Library.Char_ord"
begin

text \<open>
  \<open>crates/raios-core/src/task_graph/store.rs\<close>, \<open>crates/raios-core/src/db/wf_task_graph.rs\<close>, the ready
  list of \<open>db/control_plane.rs\<close> and the executor of
  \<open>crates/raios-runtime/src/daemon/cmd/task_graph.rs\<close>: task graphs in the control-plane tables.
  Identifiers that the code draws at random are arguments, and so are the clock readings. The compatibility
  cache (\<open>task_graphs\<close>, \<open>task_graph_nodes\<close>), which is rebuilt from these tables after every change and is
  read only for graphs that are not in them, is left out.
\<close>

section \<open>Tables\<close>

record cp_task =
  ct_id :: string
  ct_plan :: "string option"
  ct_title :: string
  ct_description :: string
  ct_priority :: int
  ct_status :: string
  ct_assignee :: string
  ct_acceptance :: string
  ct_created_at :: string

record cp_run =
  cr_id :: string
  cr_task :: string
  cr_agent :: string
  cr_contract :: string
  cr_status :: string
  cr_started_at :: "string option"
  cr_ended_at :: "string option"
  cr_exit_reason :: "string option"
  cr_summary :: "string option"

record graph_meta =
  gm_graph :: string
  gm_node :: string
  gm_task :: string
  gm_run :: string
  gm_shell :: string

record task_edge =
  te_graph :: string
  te_task :: string
  te_depends_on :: string

record graph_row =
  gr_id :: string
  gr_goal :: string
  gr_agent :: string
  gr_created_at :: string
  gr_completed_at :: "string option"

record graph_db =
  gd_graphs :: "graph_row list"
  gd_tasks :: "cp_task list"
  gd_runs :: "cp_run list"
  gd_meta :: "graph_meta list"
  gd_edges :: "task_edge list"

datatype create_error = Too_Many_Nodes nat | Invalid_Graph dag_error | Db_Conflict

record fresh_ids =
  fi_task :: string
  fi_contract :: string
  fi_run :: string

section \<open>Creating a graph\<close>

abbreviation max_nodes :: nat where
  "max_nodes \<equiv> 50"

text \<open>The rows of one node, inserted one after the other; a primary key that is taken stops it there.\<close>

definition create_task_graph_node_workflow :: "graph_db \<Rightarrow> string \<Rightarrow> fresh_ids \<Rightarrow> node_spec \<Rightarrow> string \<Rightarrow>
    bool \<Rightarrow> string \<Rightarrow> (create_error + string) \<times> graph_db" where
  "create_task_graph_node_workflow db gid ids n agent ready now =
     (if list_ex (\<lambda>t. ct_id t = fi_task ids) (gd_tasks db) then (Err Db_Conflict, db)
      else let db1 = db\<lparr>gd_tasks := gd_tasks db @ [\<lparr>ct_id = fi_task ids, ct_plan = Some gid,
             ct_title = ''Graph node '' @ ns_id n @ '': '' @ ns_description n,
             ct_description = ns_description n, ct_priority = 40,
             ct_status = (if ready then ''ready'' else ''queued''), ct_assignee = agent,
             ct_acceptance = ''execute shell command: '' @ ns_shell_cmd n, ct_created_at = now\<rparr>]\<rparr>
      in if list_ex (\<lambda>r. cr_id r = fi_run ids) (gd_runs db1) then (Err Db_Conflict, db1)
      else let db2 = db1\<lparr>gd_runs := gd_runs db1 @ [\<lparr>cr_id = fi_run ids, cr_task = fi_task ids,
             cr_agent = agent, cr_contract = fi_contract ids, cr_status = ''pending'',
             cr_started_at = None, cr_ended_at = None, cr_exit_reason = None,
             cr_summary = Some (ns_shell_cmd n)\<rparr>]\<rparr>
      in if list_ex (\<lambda>m. gm_graph m = gid \<and> (gm_node m = ns_id n \<or> gm_task m = fi_task ids)) (gd_meta db2)
         then (Err Db_Conflict, db2)
      else (Ok (fi_task ids), db2\<lparr>gd_meta := gd_meta db2 @ [\<lparr>gm_graph = gid, gm_node = ns_id n,
             gm_task = fi_task ids, gm_run = fi_run ids, gm_shell = ns_shell_cmd n\<rparr>]\<rparr>))"

text \<open>The loop over the nodes, which also collects each node's task id.\<close>

fun create_nodes :: "graph_db \<Rightarrow> string \<Rightarrow> string \<Rightarrow> string \<Rightarrow> (node_spec \<times> fresh_ids) list \<Rightarrow>
    (string \<times> string) list \<Rightarrow> (create_error + (string \<times> string) list) \<times> graph_db" where
  "create_nodes db gid agent now [] ids = (Ok ids, db)"
| "create_nodes db gid agent now ((n, fi) # rest) ids =
     (case create_task_graph_node_workflow db gid fi n agent (ns_deps n = []) now of
        (Inl e, db') \<Rightarrow> (Err e, db')
      | (Inr tid, db') \<Rightarrow> create_nodes db' gid agent now rest ((ns_id n, tid) # ids))"

text \<open>\<open>INSERT OR IGNORE\<close> for every dependency whose node and target have a task.\<close>

definition insert_edge :: "task_edge \<Rightarrow> task_edge list \<Rightarrow> task_edge list" where
  "insert_edge e es = (if e \<in> set es then es else es @ [e])"

definition create_task_graph_edges :: "graph_db \<Rightarrow> string \<Rightarrow> (string \<times> string) list \<Rightarrow> node_spec list \<Rightarrow> graph_db" where
  "create_task_graph_edges db gid ids nodes =
     db\<lparr>gd_edges := fold (\<lambda>n es. case map_of ids (ns_id n) of
         None \<Rightarrow> es
       | Some tid \<Rightarrow> fold (\<lambda>d es. case map_of ids d of
             None \<Rightarrow> es
           | Some dep \<Rightarrow> insert_edge \<lparr>te_graph = gid, te_task = tid, te_depends_on = dep\<rparr> es)
           (ns_deps n) es) nodes (gd_edges db)\<rparr>"

definition create_graph :: "graph_db \<Rightarrow> string \<Rightarrow> fresh_ids list \<Rightarrow> string \<Rightarrow> string \<Rightarrow> node_spec list \<Rightarrow> string \<Rightarrow>
    (create_error + string) \<times> graph_db" where
  "create_graph db gid fresh goal agent nodes now =
     (if max_nodes < length nodes then (Err (Too_Many_Nodes (length nodes)), db)
      else case validate_dag nodes of
        Inl e \<Rightarrow> (Err (Invalid_Graph e), db)
      | Inr _ \<Rightarrow>
          (if list_ex (\<lambda>g. gr_id g = gid) (gd_graphs db) then (Err Db_Conflict, db)
           else let db1 = db\<lparr>gd_graphs := gd_graphs db @ [\<lparr>gr_id = gid, gr_goal = goal,
                  gr_agent = agent, gr_created_at = now, gr_completed_at = None\<rparr>]\<rparr>
           in case create_nodes db1 gid agent now (zip nodes fresh) [] of
             (Inl e, db2) \<Rightarrow> (Err e, db2)
           | (Inr ids, db2) \<Rightarrow> (Ok gid, create_task_graph_edges db2 gid ids nodes)))"

section \<open>Reading a graph\<close>

definition find_task :: "graph_db \<Rightarrow> string \<Rightarrow> cp_task option" where
  "find_task db tid = List.find (\<lambda>t. ct_id t = tid) (gd_tasks db)"

definition find_run :: "graph_db \<Rightarrow> string \<Rightarrow> cp_run option" where
  "find_run db rid = List.find (\<lambda>r. cr_id r = rid) (gd_runs db)"

definition graph_metas :: "graph_db \<Rightarrow> string \<Rightarrow> graph_meta list" where
  "graph_metas db gid = select_where (\<lambda>m. gm_graph m = gid) (gd_meta db)"

text \<open>The two joins, ordered by node.\<close>

definition load_graph_node_dependencies :: "graph_db \<Rightarrow> string \<Rightarrow> string \<Rightarrow> string list" where
  "load_graph_node_dependencies db gid node =
     sort (concat (map (\<lambda>e. concat (map (\<lambda>m. if gm_node m = node \<and> gm_task m = te_task e
           then map gm_node (select_where (\<lambda>d. gm_task d = te_depends_on e) (graph_metas db gid)) else [])
         (graph_metas db gid))) (select_where (\<lambda>e. te_graph e = gid) (gd_edges db))))"

definition load_control_graph_nodes :: "graph_db \<Rightarrow> string \<Rightarrow> (graph_meta \<times> cp_task \<times> cp_run) list" where
  "load_control_graph_nodes db gid =
     List.map_filter (\<lambda>m. case find_task db (gm_task m) of
         None \<Rightarrow> None
       | Some t \<Rightarrow> map_option (\<lambda>r. (m, t, r)) (find_run db (gm_run m)))
       (sort_key gm_node (graph_metas db gid))"

definition load_nodes :: "graph_db \<Rightarrow> string \<Rightarrow> graph_node list" where
  "load_nodes db gid =
     map (\<lambda>(m, t, r).
       \<lparr>gn_id = gm_node m, gn_graph_id = gid, gn_task_id = Some (gm_task m),
        gn_agent_run_id = Some (gm_run m), gn_description = ct_description t, gn_shell_cmd = gm_shell m,
        gn_deps = load_graph_node_dependencies db gid (gm_node m),
        gn_status = control_status_to_node_status (ct_status t),
        gn_factory_job_id =
          (if List.member [''running'', ''succeeded'', ''failed'', ''cancelled''] (cr_status r) \<and> cr_contract r \<noteq> []
           then Some (cr_contract r) else None),
        gn_result = (if cr_status r = ''succeeded'' then cr_summary r else None),
        gn_error = (if List.member [''failed'', ''cancelled''] (cr_status r) then cr_exit_reason r else None)\<rparr>)
     (load_control_graph_nodes db gid)"

definition load_control_task_statuses :: "graph_db \<Rightarrow> string \<Rightarrow> string list" where
  "load_control_task_statuses db gid =
     List.map_filter (\<lambda>tid. map_option ct_status (find_task db tid))
       (remdups (map gm_task (graph_metas db gid)))"

definition derived_graph_status :: "graph_db \<Rightarrow> string \<Rightarrow> string" where
  "derived_graph_status db gid =
     (let statuses = load_control_task_statuses db gid;
          total = length statuses;
          completed = length (filter (\<lambda>s. s = ''completed'') statuses);
          failed = length (filter (\<lambda>s. s = ''failed'' \<or> s = ''cancelled'') statuses);
          running = length (filter (\<lambda>s. s = ''running'') statuses)
      in if statuses = [] then ''pending''
         else if 0 < failed then ''failed''
         else if completed = total then ''completed''
         else if 0 < running then ''running''
         else ''pending'')"

definition get_graph :: "graph_db \<Rightarrow> string \<Rightarrow> task_graph option" where
  "get_graph db gid =
     map_option (\<lambda>g. \<lparr>tg_id = gr_id g, tg_goal = gr_goal g, tg_agent = gr_agent g,
         tg_status = derived_graph_status db gid, tg_created_at = gr_created_at g,
         tg_completed_at = gr_completed_at g, tg_nodes = load_nodes db gid\<rparr>)
       (List.find (\<lambda>g. gr_id g = gid) (gd_graphs db))"

section \<open>Progress\<close>

definition set_task_status :: "(cp_task \<Rightarrow> bool) \<Rightarrow> string \<Rightarrow> graph_db \<Rightarrow> graph_db" where
  "set_task_status p st db = db\<lparr>gd_tasks := update_where p (\<lambda>t. t\<lparr>ct_status := st\<rparr>) (gd_tasks db)\<rparr>"

definition mark_control_task_ready :: "string \<Rightarrow> graph_db \<Rightarrow> graph_db" where
  "mark_control_task_ready tid = set_task_status (\<lambda>t. ct_id t = tid \<and> ct_status t = ''queued'') ''ready''"

definition mark_control_task_running :: "string \<Rightarrow> string \<Rightarrow> string \<Rightarrow> string \<Rightarrow> graph_db \<Rightarrow> graph_db" where
  "mark_control_task_running tid rid job now db =
     (set_task_status (\<lambda>t. ct_id t = tid) ''running'' db)
       \<lparr>gd_runs := update_where (\<lambda>r. cr_id r = rid)
          (\<lambda>r. r\<lparr>cr_status := ''running'',
             cr_started_at := (case cr_started_at r of Some s \<Rightarrow> Some s | None \<Rightarrow> Some now),
             cr_contract := job\<rparr>) (gd_runs db)\<rparr>"

definition mark_control_task_completed :: "string \<Rightarrow> string \<Rightarrow> string \<Rightarrow> string \<Rightarrow> graph_db \<Rightarrow> graph_db" where
  "mark_control_task_completed tid rid result now db =
     (set_task_status (\<lambda>t. ct_id t = tid) ''completed'' db)
       \<lparr>gd_runs := update_where (\<lambda>r. cr_id r = rid)
          (\<lambda>r. r\<lparr>cr_status := ''succeeded'', cr_ended_at := Some now,
             cr_exit_reason := Some ''completed'', cr_summary := Some result\<rparr>) (gd_runs db)\<rparr>"

definition mark_control_task_failed :: "string \<Rightarrow> string \<Rightarrow> string \<Rightarrow> string \<Rightarrow> graph_db \<Rightarrow> graph_db" where
  "mark_control_task_failed tid rid error now db =
     (set_task_status (\<lambda>t. ct_id t = tid) ''failed'' db)
       \<lparr>gd_runs := update_where (\<lambda>r. cr_id r = rid)
          (\<lambda>r. r\<lparr>cr_status := ''failed'', cr_ended_at := Some now,
             cr_exit_reason := Some error\<rparr>) (gd_runs db)\<rparr>"

definition control_workflow_ids :: "graph_db \<Rightarrow> string \<Rightarrow> string \<Rightarrow> (string \<times> string) option" where
  "control_workflow_ids db gid node =
     map_option (\<lambda>m. (gm_task m, gm_run m))
       (List.find (\<lambda>m. gm_graph m = gid \<and> gm_node m = node) (gd_meta db))"

definition sync_graph_status :: "string \<Rightarrow> string \<Rightarrow> graph_db \<Rightarrow> graph_db" where
  "sync_graph_status gid now db =
     (let st = derived_graph_status db gid
      in if st = ''pending'' \<and> graph_metas db gid = [] then db
         else db\<lparr>gd_graphs := update_where (\<lambda>g. gr_id g = gid)
           (\<lambda>g. g\<lparr>gr_completed_at := (if st = ''completed'' then Some now else None)\<rparr>) (gd_graphs db)\<rparr>)"

definition mark_node_running :: "string \<Rightarrow> string \<Rightarrow> string \<Rightarrow> string \<Rightarrow> graph_db \<Rightarrow> graph_db" where
  "mark_node_running gid node job now db =
     sync_graph_status gid now (case control_workflow_ids db gid node of
         Some (tid, rid) \<Rightarrow> mark_control_task_running tid rid job now db
       | None \<Rightarrow> db)"

definition mark_node_complete :: "string \<Rightarrow> string \<Rightarrow> string \<Rightarrow> string \<Rightarrow> graph_db \<Rightarrow> graph_db" where
  "mark_node_complete gid node result now db =
     sync_graph_status gid now (case control_workflow_ids db gid node of
         Some (tid, rid) \<Rightarrow> mark_control_task_completed tid rid result now db
       | None \<Rightarrow> db)"

definition mark_node_failed :: "string \<Rightarrow> string \<Rightarrow> string \<Rightarrow> string \<Rightarrow> graph_db \<Rightarrow> graph_db" where
  "mark_node_failed gid node error now db =
     sync_graph_status gid now (case control_workflow_ids db gid node of
         Some (tid, rid) \<Rightarrow> mark_control_task_failed tid rid error now db
       | None \<Rightarrow> db)"

definition node_ready :: "graph_node list \<Rightarrow> graph_node \<Rightarrow> bool" where
  "node_ready all n \<longleftrightarrow>
     (let completed = map gn_id (filter (\<lambda>m. gn_status m = Node_Completed) all)
      in gn_status n = Node_Pending \<and> list_all (\<lambda>d. List.member completed d) (gn_deps n))"

definition ready_nodes :: "graph_db \<Rightarrow> string \<Rightarrow> graph_node list \<times> graph_db" where
  "ready_nodes db gid =
     (let all = load_nodes db gid; ready = filter (node_ready all) all
      in (ready, fold (\<lambda>n db. case gn_task_id n of Some tid \<Rightarrow> mark_control_task_ready tid db | None \<Rightarrow> db)
            ready db))"

end
