(* ===== verification/Task_Executor.thy ===== *)
theory Task_Executor
  imports Task_Store
begin

text \<open>
  The executor of a task graph (\<open>execute_graph_async\<close> in
  \<open>crates/raios-runtime/src/daemon/cmd/task_graph.rs\<close>) over the store, with the scheduler's ready list
  (\<open>cp_scheduler_list_ready\<close> in \<open>crates/raios-core/src/db/control_plane.rs\<close>). One poll starts every runnable
  task of the graph; the jobs end in any order.
\<close>

section \<open>The scheduler's ready list\<close>

text \<open>What the gates say of a candidate: pending approvals, provider budget and provider capabilities.\<close>

datatype gate_verdict = Run_It | Needs_Approval | Budget_Blocked | Not_Capable

definition cp_scheduler_list_ready :: "(cp_task \<Rightarrow> gate_verdict) \<Rightarrow> graph_db \<Rightarrow> cp_task list \<times> graph_db" where
  "cp_scheduler_list_ready verdict db =
     (let candidates = sort_key (\<lambda>t. - ct_priority t) (sort_key ct_created_at
            (select_where (\<lambda>t. ct_status t = ''ready'' \<and> verdict t \<noteq> Needs_Approval) (gd_tasks db)))
      in (filter (\<lambda>t. verdict t = Run_It) candidates,
          set_task_status (\<lambda>t. ct_status t = ''ready'' \<and> verdict t = Budget_Blocked) ''blocked'' db))"

definition cp_task_graph_node_ids :: "graph_db \<Rightarrow> string \<Rightarrow> (string \<times> string) option" where
  "cp_task_graph_node_ids db tid =
     map_option (\<lambda>m. (gm_graph m, gm_node m)) (List.find (\<lambda>m. gm_task m = tid) (gd_meta db))"

section \<open>The executor\<close>

record executor =
  ex_db :: graph_db
  ex_in_flight :: "string list"

datatype executor_event =
    Poll "cp_task \<Rightarrow> gate_verdict" "string \<Rightarrow> string" string
  | Job_Succeeded string string string
  | Job_Failed string string string

definition runnable_nodes :: "graph_db \<Rightarrow> string \<Rightarrow> cp_task list \<Rightarrow> string list" where
  "runnable_nodes db gid tasks =
     List.map_filter (\<lambda>t. map_option snd (cp_task_graph_node_ids db (ct_id t)))
       (filter (\<lambda>t. ct_plan t = Some gid) tasks)"

fun executor_step :: "string \<Rightarrow> executor \<Rightarrow> executor_event \<Rightarrow> executor" where
  "executor_step gid ex (Poll verdict job now) =
     (let db1 = snd (ready_nodes (ex_db ex) gid);
          (tasks, db2) = cp_scheduler_list_ready verdict db1;
          nodes = runnable_nodes db2 gid tasks
      in \<lparr>ex_db = fold (\<lambda>n. mark_node_running gid n (job n) now) nodes db2,
          ex_in_flight = ex_in_flight ex @ nodes\<rparr>)"
| "executor_step gid ex (Job_Succeeded n result now) =
     (if n \<in> set (ex_in_flight ex)
      then \<lparr>ex_db = mark_node_complete gid n result now (ex_db ex),
            ex_in_flight = removeAll n (ex_in_flight ex)\<rparr>
      else ex)"
| "executor_step gid ex (Job_Failed n error now) =
     (if n \<in> set (ex_in_flight ex)
      then \<lparr>ex_db = mark_node_failed gid n error now (ex_db ex),
            ex_in_flight = removeAll n (ex_in_flight ex)\<rparr>
      else ex)"

section \<open>Task statuses\<close>

definition tstat :: "graph_db \<Rightarrow> string \<Rightarrow> string option" where
  "tstat db tid = map_option ct_status (find_task db tid)"

lemma find_task_set_status:
  "find_task (set_task_status p st db) tid =
     map_option (\<lambda>t. if p t then t\<lparr>ct_status := st\<rparr> else t) (find_task db tid)"
  by (simp add: find_task_def set_task_status_def find_update_where)

lemma tstat_set_status:
  "tstat (set_task_status p st db) tid =
     map_option (\<lambda>t. if p t then st else ct_status t) (find_task db tid)"
  by (cases "find_task db tid") (auto simp: tstat_def find_task_set_status)

lemma find_task_id: "find_task db tid = Some t \<Longrightarrow> ct_id t = tid"
  by (auto simp: find_task_def dest: find_Some_in)

lemma tstat_runs [simp]: "tstat (db\<lparr>gd_runs := r\<rparr>) = tstat db" "tstat (db\<lparr>gd_graphs := g\<rparr>) = tstat db"
  by (simp_all add: tstat_def find_task_def fun_eq_iff)

text \<open>What no progress operation touches.\<close>

definition same_shape :: "graph_db \<Rightarrow> graph_db \<Rightarrow> bool" where
  "same_shape db db' \<longleftrightarrow> gd_meta db' = gd_meta db \<and> gd_edges db' = gd_edges db \<and>
     map (\<lambda>t. (ct_id t, ct_plan t)) (gd_tasks db') = map (\<lambda>t. (ct_id t, ct_plan t)) (gd_tasks db)"

lemma same_shape_refl [simp]: "same_shape db db"
  by (simp add: same_shape_def)

lemma same_shape_trans: "same_shape a b \<Longrightarrow> same_shape b c \<Longrightarrow> same_shape a c"
  by (simp add: same_shape_def)

lemma shape_set_status [simp]: "same_shape db (set_task_status p st db)"
  by (simp add: same_shape_def set_task_status_def update_where_def)

lemma tstat_sync [simp]: "tstat (sync_graph_status gid now db) = tstat db"
  by (simp add: sync_graph_status_def Let_def)

lemma shape_sync [simp]: "same_shape db (sync_graph_status gid now db') = same_shape db db'"
  by (simp add: same_shape_def sync_graph_status_def Let_def)

text \<open>One node's mark sets its task's status, when the node is there.\<close>

definition set_node_status :: "string \<Rightarrow> string \<Rightarrow> string \<Rightarrow> graph_db \<Rightarrow> graph_db \<Rightarrow> bool" where
  "set_node_status gid n st db db' \<longleftrightarrow> same_shape db db' \<and>
     (\<forall>tid. tstat db' tid =
        (if map_option fst (control_workflow_ids db gid n) = Some tid \<and> tstat db tid \<noteq> None
         then Some st else tstat db tid))"

lemma tstat_set_id:
  "tstat (set_task_status (\<lambda>t. ct_id t = i) st db) tid =
     (if tid = i \<and> tstat db tid \<noteq> None then Some st else tstat db tid)"
  unfolding tstat_set_status unfolding tstat_def
  using find_task_id [of db tid] by (cases "find_task db tid") auto

lemma set_node_statusI:
  assumes "\<And>tid rid. control_workflow_ids db gid n = Some (tid, rid) \<Longrightarrow>
      same_shape db db' \<and> tstat db' = tstat (set_task_status (\<lambda>t. ct_id t = tid) st db)"
    and "control_workflow_ids db gid n = None \<Longrightarrow> db' = db"
  shows "set_node_status gid n st db (sync_graph_status gid now db')"
proof (cases "control_workflow_ids db gid n")
  case (Some ids)
  obtain tid rid where "ids = (tid, rid)" by (cases ids)
  then show ?thesis
    using assms(1) Some by (auto simp: set_node_status_def tstat_set_id)
qed (simp add: assms(2) set_node_status_def)

lemma mark_node_sets:
  "set_node_status gid n ''running'' db (mark_node_running gid n job now db)"
  "set_node_status gid n ''completed'' db (mark_node_complete gid n result now db)"
  "set_node_status gid n ''failed'' db (mark_node_failed gid n result now db)"
  unfolding mark_node_running_def mark_node_complete_def mark_node_failed_def
  by (rule set_node_statusI; simp add: mark_control_task_running_def mark_control_task_completed_def
      mark_control_task_failed_def; simp add: same_shape_def set_task_status_def update_where_def comp_def
      cong: map_cong if_cong)+

section \<open>Dependencies\<close>

lemma graph_metas_shape: "same_shape db db' \<Longrightarrow> graph_metas db' = graph_metas db"
  by (simp add: same_shape_def graph_metas_def fun_eq_iff)

lemma dependencies_shape:
  "same_shape db db' \<Longrightarrow> load_graph_node_dependencies db' = load_graph_node_dependencies db"
  using graph_metas_shape [of db db']
  by (intro ext) (simp only: load_graph_node_dependencies_def, simp add: same_shape_def)

lemma dependencies_iff:
  "d \<in> set (load_graph_node_dependencies db gid n) \<longleftrightarrow>
     (\<exists>e\<in>set (gd_edges db). te_graph e = gid \<and> (\<exists>m\<in>set (graph_metas db gid). gm_node m = n \<and>
        gm_task m = te_task e \<and> (\<exists>k\<in>set (graph_metas db gid). gm_task k = te_depends_on e \<and> gm_node k = d)))"
  by (auto simp: load_graph_node_dependencies_def select_where_def split: if_splits)

text \<open>Every dependency of a node has a row, and its task is completed.\<close>

definition deps_completed :: "graph_db \<Rightarrow> string \<Rightarrow> string \<Rightarrow> bool" where
  "deps_completed db gid n \<longleftrightarrow>
     (\<forall>d\<in>set (load_graph_node_dependencies db gid n). \<exists>m\<in>set (graph_metas db gid).
        gm_node m = d \<and> tstat db (gm_task m) = Some ''completed'')"

definition started :: "graph_db \<Rightarrow> graph_meta \<Rightarrow> bool" where
  "started db m \<longleftrightarrow> tstat db (gm_task m) \<noteq> None \<and> tstat db (gm_task m) \<noteq> Some ''queued''"

definition ordered :: "string \<Rightarrow> graph_db \<Rightarrow> bool" where
  "ordered gid db \<longleftrightarrow> (\<forall>m\<in>set (graph_metas db gid). started db m \<longrightarrow> deps_completed db gid (gm_node m))"

text \<open>
  A change of statuses keeps the order when completed tasks stay completed and only tasks of nodes whose
  dependencies are completed change.
\<close>

definition progresses :: "string \<Rightarrow> graph_db \<Rightarrow> graph_db \<Rightarrow> bool" where
  "progresses gid db db' \<longleftrightarrow> same_shape db db' \<and>
     (\<forall>tid. tstat db tid = Some ''completed'' \<longrightarrow> tstat db' tid = Some ''completed'') \<and>
     (\<forall>m\<in>set (graph_metas db gid). tstat db' (gm_task m) \<noteq> tstat db (gm_task m) \<longrightarrow>
        deps_completed db gid (gm_node m))"

lemma deps_completed_mono:
  assumes "same_shape db db'" and "\<And>tid. tstat db tid = Some ''completed'' \<Longrightarrow> tstat db' tid = Some ''completed''"
    and "deps_completed db gid n"
  shows "deps_completed db' gid n"
  using assms by (fastforce simp: deps_completed_def graph_metas_shape dependencies_shape)

lemma progresses_ordered: "progresses gid db db' \<Longrightarrow> ordered gid db \<Longrightarrow> ordered gid db'"
  unfolding ordered_def
proof
  fix m assume a: "progresses gid db db'" "\<forall>m\<in>set (graph_metas db gid). started db m \<longrightarrow> deps_completed db gid (gm_node m)"
    "m \<in> set (graph_metas db' gid)"
  then have m: "m \<in> set (graph_metas db gid)"
    using graph_metas_shape [of db db'] by (simp add: progresses_def)
  show "started db' m \<longrightarrow> deps_completed db' gid (gm_node m)"
  proof
    assume "started db' m"
    then have "deps_completed db gid (gm_node m)"
      using a m by (metis progresses_def started_def)
    then show "deps_completed db' gid (gm_node m)"
      using a(1) deps_completed_mono unfolding progresses_def by blast
  qed
qed

section \<open>The three parts of a poll\<close>

lemma tstat_mark_ready:
  "tstat (mark_control_task_ready i db) tid =
     (if tid = i \<and> tstat db tid = Some ''queued'' then Some ''ready'' else tstat db tid)"
  unfolding mark_control_task_ready_def tstat_set_status unfolding tstat_def
  using find_task_id [of db tid] by (cases "find_task db tid") auto

lemma fold_mark_ready:
  "same_shape db (fold mark_control_task_ready ids db) \<and>
   tstat (fold mark_control_task_ready ids db) tid =
     (if tid \<in> set ids \<and> tstat db tid = Some ''queued'' then Some ''ready'' else tstat db tid)"
proof (induction ids arbitrary: db)
  case (Cons i ids)
  have "same_shape db (mark_control_task_ready i db)"
    by (simp add: mark_control_task_ready_def)
  then show ?case
    using Cons.IH [of "mark_control_task_ready i db"] same_shape_trans
    by (auto simp: tstat_mark_ready)
qed simp

lemma load_nodes_cases:
  assumes "n \<in> set (load_nodes db gid)"
  obtains m t where "m \<in> set (graph_metas db gid)" "find_task db (gm_task m) = Some t"
    "gn_id n = gm_node m" "gn_task_id n = Some (gm_task m)"
    "gn_deps n = load_graph_node_dependencies db gid (gm_node m)"
    "gn_status n = control_status_to_node_status (ct_status t)"
  using assms
  by (auto simp: load_nodes_def load_control_graph_nodes_def List.map_filter_def split: option.splits)

lemma node_completed_status: "control_status_to_node_status st = Node_Completed \<longleftrightarrow> st = ''completed''"
  by (simp add: control_status_to_node_status_def)

lemma ready_deps_completed:
  assumes "n \<in> set (load_nodes db gid)" and "node_ready (load_nodes db gid) n"
  shows "deps_completed db gid (gn_id n)"
proof -
  have deps: "gn_deps n = load_graph_node_dependencies db gid (gn_id n)"
    using assms(1) by (auto elim: load_nodes_cases)
  have "\<exists>m\<in>set (graph_metas db gid). gm_node m = d \<and> tstat db (gm_task m) = Some ''completed''"
    if "d \<in> set (gn_deps n)" for d
  proof -
    have "d \<in> gn_id ` {k \<in> set (load_nodes db gid). gn_status k = Node_Completed}"
      using assms(2) that by (auto simp: node_ready_def list_all_iff)
    then obtain k where k: "k \<in> set (load_nodes db gid)" "gn_id k = d" "gn_status k = Node_Completed"
      by blast
    then show ?thesis
      by (auto simp: node_completed_status tstat_def elim!: load_nodes_cases)
  qed
  then show ?thesis
    by (simp add: deps_completed_def deps)
qed

lemma ready_nodes_fold:
  "snd (ready_nodes db gid) =
     fold mark_control_task_ready
       (List.map_filter gn_task_id (filter (node_ready (load_nodes db gid)) (load_nodes db gid))) db"
proof -
  have "fold (\<lambda>n db. case gn_task_id n of Some tid \<Rightarrow> mark_control_task_ready tid db | None \<Rightarrow> db) ns db =
      fold mark_control_task_ready (List.map_filter gn_task_id ns) db" for ns db
    by (induction ns arbitrary: db) (auto simp: List.map_filter_def split: option.splits)
  then show ?thesis
    by (simp add: ready_nodes_def Let_def)
qed

definition distinct_tasks :: "graph_db \<Rightarrow> string \<Rightarrow> bool" where
  "distinct_tasks db gid \<longleftrightarrow> distinct (map gm_task (gd_meta db)) \<and> distinct (map gm_node (graph_metas db gid))"

lemma graph_metas_subset: "m \<in> set (graph_metas db gid) \<Longrightarrow> m \<in> set (gd_meta db) \<and> gm_graph m = gid"
  by (simp add: graph_metas_def select_where_def)

lemma same_task:
  "distinct_tasks db gid \<Longrightarrow> m \<in> set (gd_meta db) \<Longrightarrow> m' \<in> set (gd_meta db) \<Longrightarrow> gm_task m = gm_task m' \<Longrightarrow> m = m'"
  by (auto simp: distinct_tasks_def distinct_map dest: inj_onD)

lemma same_node:
  "distinct_tasks db gid \<Longrightarrow> m \<in> set (graph_metas db gid) \<Longrightarrow> m' \<in> set (graph_metas db gid) \<Longrightarrow>
     gm_node m = gm_node m' \<Longrightarrow> m = m'"
  by (auto simp: distinct_tasks_def distinct_map dest: inj_onD)

lemma ready_progresses:
  assumes "distinct_tasks db gid"
  shows "progresses gid db (snd (ready_nodes db gid))"
proof -
  let ?ids = "List.map_filter gn_task_id (filter (node_ready (load_nodes db gid)) (load_nodes db gid))"
  have "deps_completed db gid (gm_node m)"
    if m: "m \<in> set (graph_metas db gid)" and tid: "gm_task m \<in> set ?ids" for m
  proof -
    obtain n where n: "n \<in> set (load_nodes db gid)" "node_ready (load_nodes db gid) n"
        "gn_task_id n = Some (gm_task m)"
      using tid by (auto simp: List.map_filter_def)
    then obtain m' where "m' \<in> set (graph_metas db gid)" "gn_id n = gm_node m'" "gm_task m' = gm_task m"
      by (auto elim!: load_nodes_cases)
    then have "gn_id n = gm_node m"
      using same_task [OF assms, of m m'] m graph_metas_subset by metis
    then show ?thesis
      using ready_deps_completed [OF n(1,2)] by simp
  qed
  then show ?thesis
    unfolding ready_nodes_fold progresses_def using fold_mark_ready [of db ?ids] by auto
qed

lemma list_ready_db:
  "same_shape db (snd (cp_scheduler_list_ready verdict db)) \<and>
   (tstat (snd (cp_scheduler_list_ready verdict db)) tid = tstat db tid \<or>
     (tstat db tid = Some ''ready'' \<and> tstat (snd (cp_scheduler_list_ready verdict db)) tid = Some ''blocked''))"
proof -
  have "snd (cp_scheduler_list_ready verdict db) =
      set_task_status (\<lambda>t. ct_status t = ''ready'' \<and> verdict t = Budget_Blocked) ''blocked'' db"
    by (simp add: cp_scheduler_list_ready_def Let_def)
  then show ?thesis
    unfolding tstat_set_status tstat_def
    by (cases "find_task db tid") (auto simp: find_task_set_status)
qed

lemma list_ready_progresses:
  assumes "ordered gid db"
  shows "progresses gid db (snd (cp_scheduler_list_ready verdict db))"
proof -
  have "deps_completed db gid (gm_node m)" if "m \<in> set (graph_metas db gid)"
    "tstat (snd (cp_scheduler_list_ready verdict db)) (gm_task m) \<noteq> tstat db (gm_task m)" for m
    using that assms list_ready_db [of db verdict "gm_task m"] by (auto simp: ordered_def started_def)
  moreover have "tstat (snd (cp_scheduler_list_ready verdict db)) tid = Some ''completed''"
    if "tstat db tid = Some ''completed''" for tid
    using that list_ready_db [of db verdict tid] by auto
  ultimately show ?thesis
    using list_ready_db [of db verdict] by (auto simp: progresses_def)
qed

section \<open>The invariant\<close>

definition node_status_is :: "graph_db \<Rightarrow> string \<Rightarrow> string \<Rightarrow> string set \<Rightarrow> bool" where
  "node_status_is db gid n sts \<longleftrightarrow>
     (\<exists>m\<in>set (graph_metas db gid). gm_node m = n \<and> (\<exists>st\<in>sts. tstat db (gm_task m) = Some st))"

lemma workflow_of_meta:
  assumes "distinct_tasks db gid" and "m \<in> set (graph_metas db gid)"
  shows "map_option fst (control_workflow_ids db gid (gm_node m)) = Some (gm_task m)"
proof -
  obtain m' where m': "List.find (\<lambda>k. gm_graph k = gid \<and> gm_node k = gm_node m) (gd_meta db) = Some m'"
    using assms(2) by (cases "List.find (\<lambda>k. gm_graph k = gid \<and> gm_node k = gm_node m) (gd_meta db)")
      (auto simp: find_None_iff graph_metas_def select_where_def)
  then have "m' \<in> set (graph_metas db gid)" "gm_node m' = gm_node m"
    by (auto simp: graph_metas_def select_where_def dest: find_Some_in)
  then show ?thesis
    using m' same_node [OF assms(1)] assms(2) by (auto simp: control_workflow_ids_def)
qed

text \<open>A mark on a node that is ready or running is progress, and touches no other node.\<close>

lemma mark_progress:
  assumes "set_node_status gid n st db db'" and "distinct_tasks db gid" and "ordered gid db"
    and "node_status_is db gid n {''ready'', ''running''}"
  shows "progresses gid db db' \<and> node_status_is db' gid n {st} \<and>
    (\<forall>k sts. k \<noteq> n \<longrightarrow> node_status_is db gid k sts \<longrightarrow> node_status_is db' gid k sts)"
proof -
  obtain m where m: "m \<in> set (graph_metas db gid)" "gm_node m = n"
      "tstat db (gm_task m) \<in> {Some ''ready'', Some ''running''}"
    using assms(4) by (auto simp: node_status_is_def)
  have metas: "graph_metas db' gid = graph_metas db gid" and shape: "same_shape db db'"
    using assms(1) graph_metas_shape by (auto simp: set_node_status_def)
  have status: "tstat db' tid = (if tid = gm_task m then Some st else tstat db tid)" for tid
    using assms(1) workflow_of_meta [OF assms(2) m(1)] m(2,3) by (auto simp: set_node_status_def)
  have "deps_completed db gid (gm_node k)"
    if "k \<in> set (graph_metas db gid)" "tstat db' (gm_task k) \<noteq> tstat db (gm_task k)" for k
  proof -
    have "gm_task k = gm_task m"
      using that(2) by (simp add: status split: if_splits)
    then have "k = m"
      using same_task [OF assms(2)] that(1) m(1) graph_metas_subset by blast
    then show ?thesis
      using assms(3) m by (auto simp: ordered_def started_def)
  qed
  moreover have "tstat db' tid = Some ''completed''" if "tstat db tid = Some ''completed''" for tid
    using that m(3) by (auto simp: status)
  moreover have "node_status_is db' gid k sts" if other: "k \<noteq> n" "node_status_is db gid k sts" for k sts
  proof -
    obtain m' where "m' \<in> set (graph_metas db gid)" "gm_node m' = k" "\<exists>st\<in>sts. tstat db (gm_task m') = Some st"
      using other(2) by (auto simp: node_status_is_def)
    moreover from this have "gm_task m' \<noteq> gm_task m"
      using same_task [OF assms(2), of m' m] other(1) m graph_metas_subset by blast
    ultimately show ?thesis
      by (auto simp: node_status_is_def metas status)
  qed
  ultimately show ?thesis
    using shape m by (auto simp: progresses_def node_status_is_def metas status)
qed

lemma progress_shape: "progresses gid db db' \<Longrightarrow> distinct_tasks db gid \<Longrightarrow> distinct_tasks db' gid"
  using graph_metas_shape [of db db'] by (simp add: progresses_def distinct_tasks_def same_shape_def)

lemma node_status_mono: "node_status_is db gid n sts \<Longrightarrow> sts \<subseteq> sts' \<Longrightarrow> node_status_is db gid n sts'"
  by (auto simp: node_status_is_def)

lemma start_nodes:
  assumes "distinct_tasks db gid" and "ordered gid db"
    and "\<forall>n\<in>set ns. node_status_is db gid n {''ready'', ''running''}"
    and "\<forall>n\<in>set fl. node_status_is db gid n {''running''}"
  shows "distinct_tasks (fold (\<lambda>n. mark_node_running gid n (job n) now) ns db) gid \<and>
    ordered gid (fold (\<lambda>n. mark_node_running gid n (job n) now) ns db) \<and>
    (\<forall>n\<in>set fl \<union> set ns. node_status_is (fold (\<lambda>n. mark_node_running gid n (job n) now) ns db) gid n {''running''})"
  using assms
proof (induction ns arbitrary: db fl)
  case (Cons n ns)
  let ?db = "mark_node_running gid n (job n) now db"
  have step: "progresses gid db ?db" "node_status_is ?db gid n {''running''}"
      "\<And>k sts. k \<noteq> n \<Longrightarrow> node_status_is db gid k sts \<Longrightarrow> node_status_is ?db gid k sts"
    using mark_progress [OF mark_node_sets(1) [of gid n db "job n" now]] Cons.prems(1-3) by auto
  have "\<forall>k\<in>set ns. node_status_is ?db gid k {''ready'', ''running''}"
    using node_status_mono [OF step(2), of "{''ready'', ''running''}"] step(3) Cons.prems(3)
    by (metis insertCI list.set_intros(2) empty_subsetI insert_subset)
  moreover have "\<forall>k\<in>set (n # fl). node_status_is ?db gid k {''running''}"
    using step(2,3) Cons.prems(4) by (metis set_ConsD)
  ultimately show ?case
    using Cons.IH [of ?db "n # fl"] progress_shape [OF step(1)] progresses_ordered [OF step(1)] Cons.prems(1,2)
    by simp
qed simp

lemma status_kept:
  assumes "node_status_is db gid n {st}" and "same_shape db db'"
    and "\<And>tid. tstat db tid = Some st \<Longrightarrow> tstat db' tid = Some st"
  shows "node_status_is db' gid n {st}"
  using assms graph_metas_shape [OF assms(2)] by (auto simp: node_status_is_def)

lemma ready_keeps_running:
  assumes "node_status_is db gid n {''running''}"
  shows "node_status_is (snd (ready_nodes db gid)) gid n {''running''}"
proof (rule status_kept [OF assms])
  show "same_shape db (snd (ready_nodes db gid))"
    unfolding ready_nodes_fold using fold_mark_ready by blast
  show "tstat db tid = Some ''running'' \<Longrightarrow> tstat (snd (ready_nodes db gid)) tid = Some ''running''" for tid
    by (simp add: ready_nodes_fold fold_mark_ready)
qed

lemma list_ready_keeps_running:
  assumes "node_status_is db gid n {''running''}"
  shows "node_status_is (snd (cp_scheduler_list_ready verdict db)) gid n {''running''}"
proof (rule status_kept [OF assms])
  show "same_shape db (snd (cp_scheduler_list_ready verdict db))"
    using list_ready_db by blast
  show "tstat db tid = Some ''running'' \<Longrightarrow>
      tstat (snd (cp_scheduler_list_ready verdict db)) tid = Some ''running''" for tid
    using list_ready_db [of db verdict tid] by auto
qed

text \<open>A listed task of the graph is still ready after the listing, and it belongs to the node named.\<close>

definition plans_agree :: "graph_db \<Rightarrow> bool" where
  "plans_agree db \<longleftrightarrow> distinct (map ct_id (gd_tasks db)) \<and>
     (\<forall>m\<in>set (gd_meta db). \<forall>(i, p)\<in>set (map (\<lambda>t. (ct_id t, ct_plan t)) (gd_tasks db)).
        i = gm_task m \<longrightarrow> p = Some (gm_graph m))"

interpretation task_table: keyed_table ct_id .

lemma plans_agree_shape: "same_shape db db' \<Longrightarrow> plans_agree db \<Longrightarrow> plans_agree db'"
proof -
  assume a: "same_shape db db'" "plans_agree db"
  have "map fst (map (\<lambda>t. (ct_id t, ct_plan t)) (gd_tasks db')) =
      map fst (map (\<lambda>t. (ct_id t, ct_plan t)) (gd_tasks db))"
    using a(1) by (simp only: same_shape_def)
  then have "map ct_id (gd_tasks db') = map ct_id (gd_tasks db)"
    by (simp add: comp_def)
  then show ?thesis
    using a unfolding plans_agree_def same_shape_def by simp
qed

lemma listed_ready:
  assumes "t \<in> set (fst (cp_scheduler_list_ready verdict db))" and "distinct (map ct_id (gd_tasks db))"
  shows "t \<in> set (gd_tasks db) \<and> tstat (snd (cp_scheduler_list_ready verdict db)) (ct_id t) = Some ''ready''"
proof -
  have t: "t \<in> set (gd_tasks db)" "ct_status t = ''ready''" "verdict t = Run_It"
    using assms(1) by (auto simp: cp_scheduler_list_ready_def Let_def select_where_def)
  have "find_task db (ct_id t) = Some t"
    unfolding find_task_def using task_table.find_key assms(2) t(1) .
  then show ?thesis
    using t by (simp add: cp_scheduler_list_ready_def Let_def tstat_set_status)
qed

lemma runnable_are_ready:
  assumes "plans_agree db" and "n \<in> set (runnable_nodes (snd (cp_scheduler_list_ready verdict db)) gid
      (fst (cp_scheduler_list_ready verdict db)))"
  shows "node_status_is (snd (cp_scheduler_list_ready verdict db)) gid n {''ready''}"
proof -
  let ?db = "snd (cp_scheduler_list_ready verdict db)"
  have shape: "same_shape db ?db"
    using list_ready_db by blast
  obtain t m where t: "t \<in> set (fst (cp_scheduler_list_ready verdict db))" "ct_plan t = Some gid"
    and m: "List.find (\<lambda>m. gm_task m = ct_id t) (gd_meta ?db) = Some m" "n = gm_node m"
    using assms(2) by (auto simp: runnable_nodes_def List.map_filter_def cp_task_graph_node_ids_def)
  have ready: "t \<in> set (gd_tasks db)" "tstat ?db (ct_id t) = Some ''ready''"
    using listed_ready [OF t(1)] assms(1) by (auto simp: plans_agree_def)
  have "m \<in> set (gd_meta db)" "gm_task m = ct_id t"
    using find_Some_in [OF m(1)] shape by (auto simp: same_shape_def)
  then have "m \<in> set (graph_metas ?db gid)"
    using assms(1) ready(1) t(2) shape graph_metas_shape [OF shape]
    by (force simp: plans_agree_def graph_metas_def select_where_def)
  then show ?thesis
    using m(2) ready(2) \<open>gm_task m = ct_id t\<close> by (auto simp: node_status_is_def)
qed

definition executor_inv :: "string \<Rightarrow> executor \<Rightarrow> bool" where
  "executor_inv gid ex \<longleftrightarrow> distinct_tasks (ex_db ex) gid \<and> plans_agree (ex_db ex) \<and> ordered gid (ex_db ex) \<and>
     (\<forall>n\<in>set (ex_in_flight ex). node_status_is (ex_db ex) gid n {''running''})"

lemma poll_inv:
  assumes "executor_inv gid ex"
  shows "executor_inv gid (executor_step gid ex (Poll verdict job now))"
proof -
  let ?db = "ex_db ex"
  let ?db1 = "snd (ready_nodes ?db gid)"
  let ?db2 = "snd (cp_scheduler_list_ready verdict ?db1)"
  let ?ns = "runnable_nodes ?db2 gid (fst (cp_scheduler_list_ready verdict ?db1))"
  have inv: "distinct_tasks ?db gid" "plans_agree ?db" "ordered gid ?db"
      "\<forall>n\<in>set (ex_in_flight ex). node_status_is ?db gid n {''running''}"
    using assms by (simp_all add: executor_inv_def)
  have p1: "progresses gid ?db ?db1"
    by (rule ready_progresses [OF inv(1)])
  have o1: "ordered gid ?db1" and a1: "plans_agree ?db1" and d1: "distinct_tasks ?db1 gid"
    using progresses_ordered [OF p1 inv(3)] plans_agree_shape inv(2) progress_shape [OF p1 inv(1)] p1
    by (auto simp: progresses_def)
  have p2: "progresses gid ?db1 ?db2"
    by (rule list_ready_progresses [OF o1])
  have o2: "ordered gid ?db2" and a2: "plans_agree ?db2" and d2: "distinct_tasks ?db2 gid"
    using progresses_ordered [OF p2 o1] plans_agree_shape a1 progress_shape [OF p2 d1] p2
    by (auto simp: progresses_def)
  have "\<forall>n\<in>set (ex_in_flight ex). node_status_is ?db2 gid n {''running''}"
    using inv(4) ready_keeps_running list_ready_keeps_running by blast
  moreover have "\<forall>n\<in>set ?ns. node_status_is ?db2 gid n {''ready'', ''running''}"
    using runnable_are_ready [OF a1] node_status_mono by blast
  ultimately have started: "distinct_tasks (fold (\<lambda>n. mark_node_running gid n (job n) now) ?ns ?db2) gid"
      "ordered gid (fold (\<lambda>n. mark_node_running gid n (job n) now) ?ns ?db2)"
      "\<forall>n\<in>set (ex_in_flight ex) \<union> set ?ns.
         node_status_is (fold (\<lambda>n. mark_node_running gid n (job n) now) ?ns ?db2) gid n {''running''}"
    using start_nodes [OF d2 o2] by blast+
  have "same_shape db (fold (\<lambda>n. mark_node_running gid n (job n) now) ns db)" for ns db
  proof (induction ns arbitrary: db)
    case (Cons n ns)
    then show ?case
      using mark_node_sets(1) [of gid n db "job n" now] same_shape_trans by (auto simp: set_node_status_def)
  qed simp
  then have "plans_agree (fold (\<lambda>n. mark_node_running gid n (job n) now) ?ns ?db2)"
    using plans_agree_shape a2 by blast
  then show ?thesis
    using started by (simp add: executor_inv_def Let_def case_prod_beta)
qed

lemma finish_inv:
  assumes "executor_inv gid ex" and "n \<in> set (ex_in_flight ex)"
    and "set_node_status gid n st (ex_db ex) db'"
  shows "executor_inv gid \<lparr>ex_db = db', ex_in_flight = removeAll n (ex_in_flight ex)\<rparr>"
proof -
  have inv: "distinct_tasks (ex_db ex) gid" "plans_agree (ex_db ex)" "ordered gid (ex_db ex)"
      "\<forall>n\<in>set (ex_in_flight ex). node_status_is (ex_db ex) gid n {''running''}"
    using assms(1) by (simp_all add: executor_inv_def)
  have "node_status_is (ex_db ex) gid n {''ready'', ''running''}"
    using inv(4) assms(2) node_status_mono by blast
  from mark_progress [OF assms(3) inv(1,3) this]
  have step: "progresses gid (ex_db ex) db'"
      "\<And>k sts. k \<noteq> n \<Longrightarrow> node_status_is (ex_db ex) gid k sts \<Longrightarrow> node_status_is db' gid k sts"
    by auto
  then show ?thesis
    using progresses_ordered [OF step(1) inv(3)] progress_shape [OF step(1) inv(1)] inv(2,4)
      plans_agree_shape [of "ex_db ex" db'] assms(3)
    by (simp add: executor_inv_def set_node_status_def)
qed

lemma executor_step_inv: "executor_inv gid ex \<Longrightarrow> executor_inv gid (executor_step gid ex ev)"
proof (cases ev)
  case (Poll verdict job now)
  then show "executor_inv gid ex \<Longrightarrow> ?thesis"
    using poll_inv by blast
next
  case (Job_Succeeded n result now)
  then show "executor_inv gid ex \<Longrightarrow> ?thesis"
    using finish_inv [OF _ _ mark_node_sets(2)] by simp
next
  case (Job_Failed n error now)
  then show "executor_inv gid ex \<Longrightarrow> ?thesis"
    using finish_inv [OF _ _ mark_node_sets(3)] by simp
qed

interpretation execution: machine "executor_step gid" "\<lambda>_. True" "executor_inv gid" for gid
  by unfold_locales (simp add: executor_step_inv)

section \<open>A created graph\<close>

definition store_wf :: "graph_db \<Rightarrow> bool" where
  "store_wf db \<longleftrightarrow> distinct (map ct_id (gd_tasks db)) \<and> distinct (map gm_task (gd_meta db)) \<and>
     (\<forall>m\<in>set (gd_meta db). \<exists>t\<in>set (gd_tasks db). ct_id t = gm_task m \<and> ct_plan t = Some (gm_graph m))"

definition node_rows :: "graph_db \<Rightarrow> string \<Rightarrow> node_spec list \<Rightarrow> (string \<times> string) list \<Rightarrow> bool" where
  "node_rows db gid done ids \<longleftrightarrow> distinct (map gm_node (graph_metas db gid)) \<and>
     (\<forall>n\<in>set done. \<exists>m\<in>set (graph_metas db gid). gm_node m = ns_id n \<and>
        (ns_deps n \<noteq> [] \<longrightarrow> tstat db (gm_task m) = Some ''queued'')) \<and>
     (\<forall>i t. (i, t) \<in> set ids \<longrightarrow> (\<exists>m\<in>set (graph_metas db gid). gm_node m = i \<and> gm_task m = t))"

lemma store_wf_plans: "store_wf db \<Longrightarrow> plans_agree db"
proof -
  assume wf: "store_wf db"
  have "ct_plan t = Some (gm_graph m)"
    if row: "m \<in> set (gd_meta db)" "t \<in> set (gd_tasks db)" "ct_id t = gm_task m" for m t
  proof -
    obtain t' where "t' \<in> set (gd_tasks db)" "ct_id t' = gm_task m" "ct_plan t' = Some (gm_graph m)"
      using wf row(1) unfolding store_wf_def by blast
    then show ?thesis
      using task_table.row_unique [of "gd_tasks db" t t'] wf row by (simp add: store_wf_def)
  qed
  then show ?thesis
    using wf by (auto simp: store_wf_def plans_agree_def)
qed

text \<open>What a successful insertion of one node did.\<close>

lemma workflow_Ok:
  assumes "create_task_graph_node_workflow db gid fi n agent ready now = (Inr tid, db')"
  obtains t r m where "tid = fi_task fi" "ct_id t = tid" "ct_plan t = Some gid"
    "ct_status t = (if ready then ''ready'' else ''queued'')" "tid \<notin> ct_id ` set (gd_tasks db)"
    "gm_graph m = gid" "gm_node m = ns_id n" "gm_task m = tid"
    "ns_id n \<notin> gm_node ` set (graph_metas db gid)"
    "db' = db\<lparr>gd_tasks := gd_tasks db @ [t], gd_runs := gd_runs db @ [r], gd_meta := gd_meta db @ [m]\<rparr>"
proof -
  let ?t = "\<lparr>ct_id = fi_task fi, ct_plan = Some gid,
      ct_title = ''Graph node '' @ ns_id n @ '': '' @ ns_description n,
      ct_description = ns_description n, ct_priority = 40,
      ct_status = (if ready then ''ready'' else ''queued''), ct_assignee = agent,
      ct_acceptance = ''execute shell command: '' @ ns_shell_cmd n, ct_created_at = now\<rparr>"
  let ?r = "\<lparr>cr_id = fi_run fi, cr_task = fi_task fi, cr_agent = agent, cr_contract = fi_contract fi,
      cr_status = ''pending'', cr_started_at = None, cr_ended_at = None, cr_exit_reason = None,
      cr_summary = Some (ns_shell_cmd n)\<rparr>"
  let ?m = "\<lparr>gm_graph = gid, gm_node = ns_id n, gm_task = fi_task fi, gm_run = fi_run fi,
      gm_shell = ns_shell_cmd n\<rparr>"
  have "tid = fi_task fi \<and> \<not> list_ex (\<lambda>t. ct_id t = fi_task fi) (gd_tasks db) \<and>
      \<not> list_ex (\<lambda>m. gm_graph m = gid \<and> (gm_node m = ns_id n \<or> gm_task m = fi_task fi)) (gd_meta db) \<and>
      db' = db\<lparr>gd_tasks := gd_tasks db @ [?t], gd_runs := gd_runs db @ [?r], gd_meta := gd_meta db @ [?m]\<rparr>"
    using assms unfolding create_task_graph_node_workflow_def Let_def
    by (auto simp del: append.simps split: if_split_asm)
  then show thesis
    by (intro that [of ?t ?m ?r]) (auto simp: list_ex_iff graph_metas_def select_where_def simp del: append.simps)
qed

lemma tstat_append:
  assumes "gd_tasks db' = gd_tasks db @ [t]" and "ct_id t \<notin> ct_id ` set (gd_tasks db)"
  shows "tstat db' tid = (if tid = ct_id t then Some (ct_status t) else tstat db tid)"
proof -
  have "List.find p (xs @ [y]) = (case List.find p xs of Some x \<Rightarrow> Some x | None \<Rightarrow> if p y then Some y else None)"
    for p and xs :: "cp_task list" and y
    by (induction xs) auto
  moreover have "List.find (\<lambda>q. ct_id q = ct_id t) (gd_tasks db) = None"
    using assms(2) by (force simp: find_None_iff image_iff)
  ultimately show ?thesis
    by (auto simp: tstat_def find_task_def assms(1) split: option.splits)
qed

lemma workflow_rows:
  assumes "create_task_graph_node_workflow db gid fi n agent (ns_deps n = []) now = (Inr tid, db')"
    and "store_wf db" and "node_rows db gid done ids"
  shows "store_wf db' \<and> node_rows db' gid (done @ [n]) ((ns_id n, tid) # ids) \<and> gd_edges db' = gd_edges db"
  using assms(1)
proof (cases rule: workflow_Ok)
  case (1 t r m)
  have metas: "graph_metas db' gid = graph_metas db gid @ [m]"
    using 1 by (simp add: graph_metas_def select_where_def)
  have status: "tstat db' k = (if k = tid then Some (ct_status t) else tstat db k)" for k
    using tstat_append [of db' db t k] 1 by simp
  have old: "gm_task k \<noteq> tid" if "k \<in> set (gd_meta db)" for k
    using that 1(5) assms(2) by (force simp: store_wf_def)
  have "store_wf db'"
    using assms(2) 1 old by (fastforce simp: store_wf_def)
  moreover have "distinct (map gm_node (graph_metas db' gid))"
    using assms(3) 1(7,9) by (simp add: metas node_rows_def)
  moreover have "\<exists>k\<in>set (graph_metas db' gid). gm_node k = ns_id q \<and>
      (ns_deps q \<noteq> [] \<longrightarrow> tstat db' (gm_task k) = Some ''queued'')" if "q \<in> set (done @ [n])" for q
  proof (cases "q = n")
    case True
    then show ?thesis
      using 1(4,7,8) by (intro bexI [of _ m]) (simp_all add: metas status)
  next
    case False
    then have "q \<in> set done"
      using \<open>q \<in> set (done @ [n])\<close> by simp
    then obtain k where "k \<in> set (graph_metas db gid)" "gm_node k = ns_id q"
        "ns_deps q \<noteq> [] \<longrightarrow> tstat db (gm_task k) = Some ''queued''"
      using assms(3) unfolding node_rows_def by blast
    then show ?thesis
      using old graph_metas_subset by (intro bexI [of _ k]) (auto simp: metas status)
  qed
  moreover have "\<exists>k\<in>set (graph_metas db' gid). gm_node k = i \<and> gm_task k = j"
    if "(i, j) \<in> set ((ns_id n, tid) # ids)" for i j
    using that assms(3) 1(7,8) by (fastforce simp: metas node_rows_def)
  ultimately show ?thesis
    using 1(10) by (simp add: node_rows_def)
qed

lemma create_nodes_rows:
  "create_nodes db gid agent now pairs ids = (Inr ids', db') \<Longrightarrow> store_wf db \<Longrightarrow> node_rows db gid done ids \<Longrightarrow>
     store_wf db' \<and> node_rows db' gid (done @ map fst pairs) ids' \<and> gd_edges db' = gd_edges db"
proof (induction db gid agent now pairs ids arbitrary: ids' db' "done" rule: create_nodes.induct)
  case (2 db gid agent now n fi rest ids)
  obtain r db1 where step: "create_task_graph_node_workflow db gid fi n agent (ns_deps n = []) now = (r, db1)"
    by (cases "create_task_graph_node_workflow db gid fi n agent (ns_deps n = []) now")
  show ?case
  proof (cases r)
    case (Inl e)
    then show ?thesis using 2(2) step by simp
  next
    case (Inr tid)
    then have "store_wf db1 \<and> node_rows db1 gid (done @ [n]) ((ns_id n, tid) # ids) \<and> gd_edges db1 = gd_edges db"
      using workflow_rows step 2(3,4) by blast
    then show ?thesis
      using 2(1) [of r db1 tid ids' db' "done @ [n]"] 2(2) step Inr by simp
  qed
qed simp

lemma created_edges:
  "e \<in> set (gd_edges (create_task_graph_edges db gid ids nodes)) \<Longrightarrow> e \<in> set (gd_edges db) \<or>
     (te_graph e = gid \<and> (\<exists>n\<in>set nodes. map_of ids (ns_id n) = Some (te_task e) \<and> ns_deps n \<noteq> []))"
proof -
  have inner: "e \<in> set (fold (\<lambda>d es. case map_of ids d of None \<Rightarrow> es
           | Some dep \<Rightarrow> insert_edge \<lparr>te_graph = gid, te_task = tid, te_depends_on = dep\<rparr> es) ds es) \<Longrightarrow>
      e \<in> set es \<or> (te_graph e = gid \<and> te_task e = tid \<and> ds \<noteq> [])" for e tid ds es
    by (induction ds arbitrary: es) (fastforce simp: insert_edge_def split: option.splits if_splits)+
  have "e \<in> set (fold (\<lambda>n es. case map_of ids (ns_id n) of None \<Rightarrow> es
       | Some tid \<Rightarrow> fold (\<lambda>d es. case map_of ids d of None \<Rightarrow> es
             | Some dep \<Rightarrow> insert_edge \<lparr>te_graph = gid, te_task = tid, te_depends_on = dep\<rparr> es)
           (ns_deps n) es) ns es) \<Longrightarrow>
      e \<in> set es \<or> (te_graph e = gid \<and> (\<exists>n\<in>set ns. map_of ids (ns_id n) = Some (te_task e) \<and> ns_deps n \<noteq> []))"
    for e ns es
    by (induction ns arbitrary: es) (fastforce dest: inner split: option.splits)+
  then show "e \<in> set (gd_edges (create_task_graph_edges db gid ids nodes)) \<Longrightarrow> ?thesis"
    by (auto simp: create_task_graph_edges_def)
qed

definition unused_graph :: "graph_db \<Rightarrow> string \<Rightarrow> bool" where
  "unused_graph db gid \<longleftrightarrow> graph_metas db gid = [] \<and> (\<forall>e\<in>set (gd_edges db). te_graph e \<noteq> gid)"

lemma create_graph_Ok:
  assumes "create_graph db gid fresh goal agent nodes now = (Inr g, db')"
  obtains db1 ids db2 where "gd_tasks db1 = gd_tasks db" "gd_meta db1 = gd_meta db" "gd_edges db1 = gd_edges db"
    "create_nodes db1 gid agent now (zip nodes fresh) [] = (Inr ids, db2)"
    "db' = create_task_graph_edges db2 gid ids nodes"
proof -
  let ?db1 = "db\<lparr>gd_graphs := gd_graphs db @ [\<lparr>gr_id = gid, gr_goal = goal, gr_agent = agent,
      gr_created_at = now, gr_completed_at = None\<rparr>]\<rparr>"
  obtain r db2 where run: "create_nodes ?db1 gid agent now (zip nodes fresh) [] = (r, db2)"
    by (cases "create_nodes ?db1 gid agent now (zip nodes fresh) []")
  have "(case r of Inl e \<Rightarrow> (Inl e, db2) | Inr ids \<Rightarrow> (Inr gid, create_task_graph_edges db2 gid ids nodes)) = (Inr g, db')"
    using assms run by (simp add: create_graph_def Let_def split: if_split_asm sum.split_asm)
  then show thesis
    using run by (cases r) (auto intro: that [of ?db1])
qed

lemma created_inv:
  assumes "store_wf db" and "unused_graph db gid" and "length fresh = length nodes"
    and "create_graph db gid fresh goal agent nodes now = (Inr g, db')"
  shows "executor_inv gid \<lparr>ex_db = db', ex_in_flight = []\<rparr>"
proof -
  obtain db1 ids db2 where create: "gd_tasks db1 = gd_tasks db" "gd_meta db1 = gd_meta db" "gd_edges db1 = gd_edges db"
      "create_nodes db1 gid agent now (zip nodes fresh) [] = (Inr ids, db2)"
      "db' = create_task_graph_edges db2 gid ids nodes"
    using create_graph_Ok [OF assms(4)] .
  have "store_wf db1" "node_rows db1 gid [] []"
    using assms(1,2) create(1-3)
    by (simp_all add: store_wf_def node_rows_def unused_graph_def graph_metas_def)
  then have rows: "store_wf db2" "node_rows db2 gid nodes ids" and edges: "gd_edges db2 = gd_edges db"
    using create_nodes_rows [OF create(4), of "[]"] create(3) assms(3) by simp_all
  have db': "gd_tasks db' = gd_tasks db2" "gd_meta db' = gd_meta db2"
    by (simp_all add: create(5) create_task_graph_edges_def)
  have metas: "graph_metas db' gid = graph_metas db2 gid" and tstat: "tstat db' = tstat db2"
    by (simp_all add: graph_metas_def db' tstat_def find_task_def fun_eq_iff)
  have wf: "distinct_tasks db' gid" "plans_agree db'"
    using rows store_wf_plans [OF rows(1)]
    by (simp_all add: distinct_tasks_def store_wf_def node_rows_def metas db' plans_agree_def)
  have "load_graph_node_dependencies db' gid (gm_node m) = []"
    if m: "m \<in> set (graph_metas db' gid)" "started db' m" for m
  proof -
    have "\<not> (te_graph e = gid \<and> te_task e = gm_task k \<and> gm_node k = gm_node m)"
      if "e \<in> set (gd_edges db')" "k \<in> set (graph_metas db' gid)" for e k
    proof
      assume e: "te_graph e = gid \<and> te_task e = gm_task k \<and> gm_node k = gm_node m"
      then have "k = m"
        using same_node [OF wf(1) \<open>k \<in> set (graph_metas db' gid)\<close> m(1)] by simp
      obtain n where n: "n \<in> set nodes" "map_of ids (ns_id n) = Some (gm_task m)" "ns_deps n \<noteq> []"
        using created_edges [of e db2 gid ids nodes] \<open>e \<in> set (gd_edges db')\<close> create(5) e \<open>k = m\<close>
          assms(2) edges by (auto simp: unused_graph_def)
      obtain m1 where "m1 \<in> set (graph_metas db2 gid)" "gm_node m1 = ns_id n" "gm_task m1 = gm_task m"
        using rows(2) map_of_SomeD [OF n(2)] unfolding node_rows_def by blast
      then have "gm_node m = ns_id n"
        using same_task [OF wf(1), of m1 m] m(1) graph_metas_subset metas by metis
      moreover obtain m2 where "m2 \<in> set (graph_metas db2 gid)" "gm_node m2 = ns_id n"
          "tstat db2 (gm_task m2) = Some ''queued''"
        using rows(2) n unfolding node_rows_def by blast
      ultimately have "tstat db' (gm_task m) = Some ''queued''"
        using same_node [OF wf(1), of m2 m] m(1) metas tstat by metis
      then show False
        using m(2) by (simp add: started_def)
    qed
    then have "set (load_graph_node_dependencies db' gid (gm_node m)) = {}"
      unfolding set_eq_iff dependencies_iff by fastforce
    then show ?thesis by simp
  qed
  then have "ordered gid db'"
    by (simp add: ordered_def deps_completed_def)
  then show ?thesis
    using wf by (simp add: executor_inv_def)
qed

section \<open>Properties\<close>

text \<open>
  no node starts before its dependencies are done. For a graph created in a consistent store under
  an unused id, whatever polls, job ends and gate decisions follow and in whatever order, every node that
  is running, completed or failed (or was held back by the budget gate after becoming ready) depends
  only on nodes whose task is completed.
\<close>

theorem executor_respects_dependencies:
  assumes "store_wf db" and "unused_graph db gid" and "length fresh = length nodes"
    and "create_graph db gid fresh goal agent nodes now = (Ok g, db')"
  shows "let dbn = ex_db (foldl (executor_step gid) \<lparr>ex_db = db', ex_in_flight = []\<rparr> events)
    in \<forall>n\<in>set (load_nodes dbn gid). gn_status n \<noteq> Node_Pending \<longrightarrow>
         (\<forall>d\<in>set (gn_deps n). \<exists>m\<in>set (graph_metas dbn gid).
            gm_node m = d \<and> map_option ct_status (find_task dbn (gm_task m)) = Some ''completed'')"
proof -
  let ?ex = "foldl (executor_step gid) \<lparr>ex_db = db', ex_in_flight = []\<rparr> events"
  have inv: "ordered gid (ex_db ?ex)"
    using execution.run_inv [of gid _ events] created_inv [OF assms]
    by (simp add: executor_inv_def list_all_iff)
  have "\<exists>m\<in>set (graph_metas (ex_db ?ex) gid). gm_node m = d \<and> tstat (ex_db ?ex) (gm_task m) = Some ''completed''"
    if n: "n \<in> set (load_nodes (ex_db ?ex) gid)" "gn_status n \<noteq> Node_Pending" "d \<in> set (gn_deps n)" for n d
    using n(1)
  proof (cases rule: load_nodes_cases)
    case (1 m t)
    then have "started (ex_db ?ex) m"
      using n(2) by (auto simp: started_def tstat_def control_status_to_node_status_def)
    then show ?thesis
      using inv 1 n(3) by (simp add: ordered_def deps_completed_def)
  qed
  then show ?thesis
    by (simp add: Let_def tstat_def)
qed

text \<open>
  an acyclic graph does not get stuck. While no node is running and none has failed, and one is still
  pending, some node is ready, provided that node ids are distinct and the dependencies are known and
  acyclic (which is what \<open>validate_dag\<close> checks).
\<close>

theorem pending_graph_has_ready_node:
  assumes "distinct (map gn_id (load_nodes db gid))"
    and "\<And>n d. n \<in> set (load_nodes db gid) \<Longrightarrow> d \<in> set (gn_deps n) \<Longrightarrow> d \<in> gn_id ` set (load_nodes db gid)"
    and "acyclic {(gn_id n, d) |n d. n \<in> set (load_nodes db gid) \<and> d \<in> set (gn_deps n)}"
    and "\<And>n. n \<in> set (load_nodes db gid) \<Longrightarrow> gn_status n \<in> {Node_Pending, Node_Completed}"
    and "k \<in> set (load_nodes db gid)" and "gn_status k = Node_Pending"
  shows "fst (ready_nodes db gid) \<noteq> []"
proof -
  let ?all = "load_nodes db gid"
  let ?dep = "{(gn_id n, d) |n d. n \<in> set ?all \<and> d \<in> set (gn_deps n)}"
  have "finite ?dep"
  proof -
    have "?dep \<subseteq> gn_id ` set ?all \<times> (\<Union>n\<in>set ?all. set (gn_deps n))" by auto
    then show ?thesis by (rule finite_subset) simp
  qed
  then have "wf (?dep\<inverse>)"
    using assms(3) by (rule finite_acyclic_wf_converse)
  moreover have "gn_id k \<in> gn_id ` {n \<in> set ?all. gn_status n = Node_Pending}"
    using assms(5,6) by blast
  ultimately obtain i where i: "i \<in> gn_id ` {n \<in> set ?all. gn_status n = Node_Pending}"
      and least: "\<And>j. (j, i) \<in> ?dep\<inverse> \<Longrightarrow> j \<notin> gn_id ` {n \<in> set ?all. gn_status n = Node_Pending}"
    by (rule wfE_min) blast
  obtain n where n: "n \<in> set ?all" "gn_id n = i" "gn_status n = Node_Pending"
    using i by blast
  have "d \<in> gn_id ` {m \<in> set ?all. gn_status m = Node_Completed}" if d: "d \<in> set (gn_deps n)" for d
  proof -
    obtain m where m: "m \<in> set ?all" "gn_id m = d"
      using assms(2) [OF n(1) d] by blast
    have "(d, i) \<in> ?dep\<inverse>"
      using n d by blast
    then have "gn_status m \<noteq> Node_Pending"
      using least m by blast
    then show ?thesis
      using assms(4) [OF m(1)] m by blast
  qed
  then have "node_ready ?all n"
    using n by (simp add: node_ready_def list_all_iff)
  then show ?thesis
    using n(1) by (auto simp: ready_nodes_def Let_def filter_empty_conv)
qed

text \<open>
  creating a graph is not atomic. A repeated node id passes the validation, the second insertion of
  the id fails, and the error leaves the graph, its first node and a task without a node behind.
\<close>

theorem create_graph_not_atomic:
  "let node = \<lparr>ns_id = ''a'', ns_description = [], ns_shell_cmd = [], ns_deps = []\<rparr>;
       fresh = (\<lambda>i. \<lparr>fi_task = ''t'' @ i, fi_contract = ''c'' @ i, fi_run = ''r'' @ i\<rparr>);
       result = create_graph \<lparr>gd_graphs = [], gd_tasks = [], gd_runs = [], gd_meta = [], gd_edges = []\<rparr>
         ''g'' [fresh ''1'', fresh ''2''] ''goal'' ''claude'' [node, node] now
   in fst result = Err Db_Conflict \<and> map gr_id (gd_graphs (snd result)) = [''g''] \<and>
      map ct_id (gd_tasks (snd result)) = [''t1'', ''t2''] \<and> map gm_task (gd_meta (snd result)) = [''t1'']"
proof -
  let ?node = "\<lparr>ns_id = ''a'', ns_description = [], ns_shell_cmd = [], ns_deps = []\<rparr>"
  have "validate_dag [?node, ?node] = Ok ()"
    by (simp add: validate_dag_def adjacency_of_def has_cycle.simps)
  then show ?thesis
    by (simp add: create_graph_def create_task_graph_node_workflow_def)
qed

section \<open>A graph of two nodes\<close>

abbreviation empty_store :: graph_db where
  "empty_store \<equiv> \<lparr>gd_graphs = [], gd_tasks = [], gd_runs = [], gd_meta = [], gd_edges = []\<rparr>"

abbreviation chain_nodes :: "node_spec list" where
  "chain_nodes \<equiv> [\<lparr>ns_id = ''a'', ns_description = [], ns_shell_cmd = [], ns_deps = []\<rparr>,
     \<lparr>ns_id = ''b'', ns_description = [], ns_shell_cmd = [], ns_deps = [''a'']\<rparr>]"

abbreviation chain_fresh :: "fresh_ids list" where
  "chain_fresh \<equiv> [\<lparr>fi_task = ''t1'', fi_contract = ''c1'', fi_run = ''r1''\<rparr>,
     \<lparr>fi_task = ''t2'', fi_contract = ''c2'', fi_run = ''r2''\<rparr>]"

abbreviation chain_created :: "(create_error + string) \<times> graph_db" where
  "chain_created \<equiv> create_graph empty_store ''g'' chain_fresh ''goal'' ''claude'' chain_nodes ''now''"

lemma chain_accepted: "fst chain_created = Ok ''g''"
  by (simp add: create_graph_def create_task_graph_node_workflow_def validate_dag_def adjacency_of_def
      has_cycle.simps)

end
