(* ===== verification/Task_Lifecycle.thy ===== *)
theory Task_Lifecycle
  imports Task_Executor
begin

text \<open>
  The life of one task graph, from its creation (\<open>GraphStore::create\<close>) through the executor's polls to its
  completion: what is stored is what was given, no node starts before the dependencies it was given are done,
  and an accepted graph whose jobs succeed is completed after as many polls as it has nodes.
\<close>

section \<open>The rows of a created graph\<close>

definition node_task :: "string \<Rightarrow> string \<Rightarrow> string \<Rightarrow> node_spec \<times> fresh_ids \<Rightarrow> cp_task" where
  "node_task gid agent now p =
     \<lparr>ct_id = fi_task (snd p), ct_plan = Some gid,
      ct_title = ''Graph node '' @ ns_id (fst p) @ '': '' @ ns_description (fst p),
      ct_description = ns_description (fst p), ct_priority = 40,
      ct_status = (if ns_deps (fst p) = [] then ''ready'' else ''queued''), ct_assignee = agent,
      ct_acceptance = ''execute shell command: '' @ ns_shell_cmd (fst p), ct_created_at = now\<rparr>"

definition node_run :: "string \<Rightarrow> node_spec \<times> fresh_ids \<Rightarrow> cp_run" where
  "node_run agent p =
     \<lparr>cr_id = fi_run (snd p), cr_task = fi_task (snd p), cr_agent = agent, cr_contract = fi_contract (snd p),
      cr_status = ''pending'', cr_started_at = None, cr_ended_at = None, cr_exit_reason = None,
      cr_summary = Some (ns_shell_cmd (fst p))\<rparr>"

definition node_meta :: "string \<Rightarrow> node_spec \<times> fresh_ids \<Rightarrow> graph_meta" where
  "node_meta gid p =
     \<lparr>gm_graph = gid, gm_node = ns_id (fst p), gm_task = fi_task (snd p), gm_run = fi_run (snd p),
      gm_shell = ns_shell_cmd (fst p)\<rparr>"

lemma node_row_simps [simp]:
  "ct_id (node_task gid agent now p) = fi_task (snd p)" "ct_plan (node_task gid agent now p) = Some gid"
  "ct_description (node_task gid agent now p) = ns_description (fst p)"
  "ct_status (node_task gid agent now p) = (if ns_deps (fst p) = [] then ''ready'' else ''queued'')"
  "cr_id (node_run agent p) = fi_run (snd p)" "cr_status (node_run agent p) = ''pending''"
  "gm_graph (node_meta gid p) = gid" "gm_node (node_meta gid p) = ns_id (fst p)"
  "gm_task (node_meta gid p) = fi_task (snd p)" "gm_run (node_meta gid p) = fi_run (snd p)"
  "gm_shell (node_meta gid p) = ns_shell_cmd (fst p)"
  by (simp_all add: node_task_def node_run_def node_meta_def)

lemma workflow_exact:
  assumes "create_task_graph_node_workflow db gid fi n agent (ns_deps n = []) now = (Inr tid, db')"
  shows "tid = fi_task fi \<and> fi_run fi \<notin> cr_id ` set (gd_runs db) \<and>
    db' = db\<lparr>gd_tasks := gd_tasks db @ [node_task gid agent now (n, fi)],
             gd_runs := gd_runs db @ [node_run agent (n, fi)],
             gd_meta := gd_meta db @ [node_meta gid (n, fi)]\<rparr>"
  using assms unfolding create_task_graph_node_workflow_def Let_def node_task_def node_run_def node_meta_def
  by (force simp: list_ex_iff simp del: append.simps split: if_split_asm)

lemma create_nodes_exact:
  "create_nodes db gid agent now ps ids = (Inr ids', db') \<Longrightarrow>
     ids' = rev (map (\<lambda>p. (ns_id (fst p), fi_task (snd p))) ps) @ ids \<and>
     db' = db\<lparr>gd_tasks := gd_tasks db @ map (node_task gid agent now) ps,
              gd_runs := gd_runs db @ map (node_run agent) ps,
              gd_meta := gd_meta db @ map (node_meta gid) ps\<rparr> \<and>
     (distinct (map cr_id (gd_runs db)) \<longrightarrow> distinct (map cr_id (gd_runs db')))"
proof (induction db gid agent now ps ids arbitrary: ids' db' rule: create_nodes.induct)
  case (2 db gid agent now n fi rest ids)
  obtain r db1 where step: "create_task_graph_node_workflow db gid fi n agent (ns_deps n = []) now = (r, db1)"
    by (cases "create_task_graph_node_workflow db gid fi n agent (ns_deps n = []) now")
  show ?case
  proof (cases r)
    case (Inl e)
    then show ?thesis using 2(2) step by simp
  next
    case (Inr tid)
    from step this have row: "tid = fi_task fi" "fi_run fi \<notin> cr_id ` set (gd_runs db)"
      "db1 = db\<lparr>gd_tasks := gd_tasks db @ [node_task gid agent now (n, fi)],
         gd_runs := gd_runs db @ [node_run agent (n, fi)], gd_meta := gd_meta db @ [node_meta gid (n, fi)]\<rparr>"
      using workflow_exact by blast+
    have run: "create_nodes db1 gid agent now rest ((ns_id n, tid) # ids) = (Inr ids', db')"
      using 2(2) step Inr by simp
    have "ids' = rev (map (\<lambda>p. (ns_id (fst p), fi_task (snd p))) rest) @ (ns_id n, tid) # ids \<and>
      db' = db1\<lparr>gd_tasks := gd_tasks db1 @ map (node_task gid agent now) rest,
         gd_runs := gd_runs db1 @ map (node_run agent) rest, gd_meta := gd_meta db1 @ map (node_meta gid) rest\<rparr> \<and>
      (distinct (map cr_id (gd_runs db1)) \<longrightarrow> distinct (map cr_id (gd_runs db')))"
      by (rule 2(1) [OF step [symmetric] Inr run])
    note rest = this [THEN conjunct1] this [THEN conjunct2, THEN conjunct1] this [THEN conjunct2, THEN conjunct2]
    have "distinct (map cr_id (gd_runs db)) \<longrightarrow> distinct (map cr_id (gd_runs db1))"
      using row(2) by (simp add: row(3))
    then show ?thesis
      using rest(3) by (intro conjI) (simp add: rest(1) row(1), simp add: rest(2) row(3), blast)
  qed
qed simp

lemma created_edges_exact:
  "set (gd_edges (create_task_graph_edges db gid ids nodes)) = set (gd_edges db) \<union>
     {\<lparr>te_graph = gid, te_task = tid, te_depends_on = dep\<rparr> |tid dep. \<exists>n\<in>set nodes. \<exists>d\<in>set (ns_deps n).
        map_of ids (ns_id n) = Some tid \<and> map_of ids d = Some dep}"
proof -
  have inner: "set (fold (\<lambda>d es. case map_of ids d of None \<Rightarrow> es
           | Some dep \<Rightarrow> insert_edge \<lparr>te_graph = gid, te_task = tid, te_depends_on = dep\<rparr> es) ds es) =
      set es \<union> {\<lparr>te_graph = gid, te_task = tid, te_depends_on = dep\<rparr> |dep. \<exists>d\<in>set ds. map_of ids d = Some dep}"
    for tid ds es
    by (induction ds arbitrary: es) (auto simp: insert_edge_def split: option.splits)
  have "set (fold (\<lambda>n es. case map_of ids (ns_id n) of None \<Rightarrow> es
       | Some tid \<Rightarrow> fold (\<lambda>d es. case map_of ids d of None \<Rightarrow> es
             | Some dep \<Rightarrow> insert_edge \<lparr>te_graph = gid, te_task = tid, te_depends_on = dep\<rparr> es)
           (ns_deps n) es) ns es) = set es \<union>
      {\<lparr>te_graph = gid, te_task = tid, te_depends_on = dep\<rparr> |tid dep. \<exists>n\<in>set ns. \<exists>d\<in>set (ns_deps n).
        map_of ids (ns_id n) = Some tid \<and> map_of ids d = Some dep}" for ns es
    by (induction ns arbitrary: es) (auto simp: inner split: option.splits)
  then show ?thesis
    by (simp add: create_task_graph_edges_def)
qed

section \<open>What is stored of a graph\<close>

text \<open>Nodes with their identifiers, one row of each kind per node, and one edge per dependency.\<close>

definition run_ids :: "graph_db \<Rightarrow> string list" where
  "run_ids db = map cr_id (gd_runs db)"

definition stores_graph :: "graph_db \<Rightarrow> string \<Rightarrow> (node_spec \<times> fresh_ids) list \<Rightarrow> bool" where
  "stores_graph db gid ps \<longleftrightarrow>
     graph_metas db gid = map (node_meta gid) ps \<and> distinct_tasks db gid \<and>
     (\<forall>p\<in>set ps. fi_task (snd p) \<in> ct_id ` set (gd_tasks db) \<and> fi_run (snd p) \<in> set (run_ids db)) \<and>
     (\<forall>e\<in>set (gd_edges db). te_graph e = gid \<longrightarrow> (\<exists>p\<in>set ps. \<exists>q\<in>set ps. ns_id (fst q) \<in> set (ns_deps (fst p)) \<and>
        te_task e = fi_task (snd p) \<and> te_depends_on e = fi_task (snd q))) \<and>
     (\<forall>p\<in>set ps. \<forall>q\<in>set ps. ns_id (fst q) \<in> set (ns_deps (fst p)) \<longrightarrow>
        \<lparr>te_graph = gid, te_task = fi_task (snd p), te_depends_on = fi_task (snd q)\<rparr> \<in> set (gd_edges db))"

lemma stores_graph_kept:
  assumes "stores_graph db gid ps" and "same_shape db db'" and "run_ids db' = run_ids db"
  shows "stores_graph db' gid ps"
proof -
  have "map fst (map (\<lambda>t. (ct_id t, ct_plan t)) (gd_tasks db')) =
      map fst (map (\<lambda>t. (ct_id t, ct_plan t)) (gd_tasks db))"
    using assms(2) by (simp only: same_shape_def)
  then have "set (map ct_id (gd_tasks db')) = set (map ct_id (gd_tasks db))"
    by (simp add: comp_def)
  then have "ct_id ` set (gd_tasks db') = ct_id ` set (gd_tasks db)"
    by (simp only: set_map)
  moreover have "distinct_tasks db' gid = distinct_tasks db gid"
    using graph_metas_shape [OF assms(2)] assms(2) by (simp add: distinct_tasks_def same_shape_def)
  ultimately show ?thesis
    using assms graph_metas_shape [OF assms(2)] by (simp add: stores_graph_def same_shape_def)
qed

lemma stored_distinct:
  assumes "stores_graph db gid ps"
  shows "distinct (map (\<lambda>p. ns_id (fst p)) ps)" and "distinct (map (\<lambda>p. fi_task (snd p)) ps)"
proof -
  have metas: "graph_metas db gid = map (node_meta gid) ps" and d: "distinct_tasks db gid"
    using assms by (simp_all add: stores_graph_def)
  from d have "distinct (map gm_task (graph_metas db gid))"
    by (simp add: distinct_tasks_def graph_metas_def select_where_def distinct_map_filter)
  moreover from d have "distinct (map gm_node (graph_metas db gid))"
    by (simp add: distinct_tasks_def)
  ultimately show "distinct (map (\<lambda>p. ns_id (fst p)) ps)" "distinct (map (\<lambda>p. fi_task (snd p)) ps)"
    by (simp_all add: metas comp_def)
qed

lemma stored_dependencies:
  assumes "stores_graph db gid ps" and "p \<in> set ps"
  shows "set (load_graph_node_dependencies db gid (ns_id (fst p))) =
    set (ns_deps (fst p)) \<inter> (\<lambda>q. ns_id (fst q)) ` set ps"
proof -
  have metas: "graph_metas db gid = map (node_meta gid) ps"
    using assms(1) by (simp add: stores_graph_def)
  have node: "q = r" if "q \<in> set ps" "r \<in> set ps" "ns_id (fst q) = ns_id (fst r)" for q r
    using stored_distinct(1) [OF assms(1)] that by (auto simp: distinct_map dest: inj_onD)
  have task: "q = r" if "q \<in> set ps" "r \<in> set ps" "fi_task (snd q) = fi_task (snd r)" for q r
    using stored_distinct(2) [OF assms(1)] that by (auto simp: distinct_map dest: inj_onD)
  show ?thesis
  proof (intro set_eqI iffI)
    fix d assume "d \<in> set (load_graph_node_dependencies db gid (ns_id (fst p)))"
    then obtain e q r where e: "e \<in> set (gd_edges db)" "te_graph e = gid" "q \<in> set ps" "ns_id (fst q) = ns_id (fst p)"
        "fi_task (snd q) = te_task e" "r \<in> set ps" "fi_task (snd r) = te_depends_on e" "ns_id (fst r) = d"
      unfolding dependencies_iff metas by auto
    then obtain p' q' where "p' \<in> set ps" "q' \<in> set ps" "ns_id (fst q') \<in> set (ns_deps (fst p'))"
        "te_task e = fi_task (snd p')" "te_depends_on e = fi_task (snd q')"
      using assms(1) unfolding stores_graph_def by blast
    moreover from this have "p' = p" "q' = r"
      using node [of q p] task [of p' q] task [of q' r] e assms(2) by auto
    ultimately show "d \<in> set (ns_deps (fst p)) \<inter> (\<lambda>q. ns_id (fst q)) ` set ps"
      using e by auto
  next
    fix d assume "d \<in> set (ns_deps (fst p)) \<inter> (\<lambda>q. ns_id (fst q)) ` set ps"
    then obtain q where q: "q \<in> set ps" "d = ns_id (fst q)" "d \<in> set (ns_deps (fst p))"
      by auto
    then have "\<lparr>te_graph = gid, te_task = fi_task (snd p), te_depends_on = fi_task (snd q)\<rparr> \<in> set (gd_edges db)"
      using assms unfolding stores_graph_def by blast
    then show "d \<in> set (load_graph_node_dependencies db gid (ns_id (fst p)))"
      unfolding dependencies_iff metas using q assms(2) by force
  qed
qed

text \<open>The loaded nodes are the stored ones, with the status of their task.\<close>

lemma loaded_node:
  assumes "stores_graph db gid ps" and "n \<in> set (load_nodes db gid)"
  obtains p where "p \<in> set ps" "gn_id n = ns_id (fst p)" "gn_task_id n = Some (fi_task (snd p))"
    "set (gn_deps n) = set (ns_deps (fst p)) \<inter> (\<lambda>q. ns_id (fst q)) ` set ps"
    "tstat db (fi_task (snd p)) \<noteq> None"
    "gn_status n = control_status_to_node_status (the (tstat db (fi_task (snd p))))"
proof -
  have metas: "graph_metas db gid = map (node_meta gid) ps"
    using assms(1) by (simp add: stores_graph_def)
  from assms(2) show thesis
  proof (cases rule: load_nodes_cases)
    case (1 m t)
    then obtain p where "p \<in> set ps" "m = node_meta gid p"
      using metas by auto
    then show thesis
      using 1 stored_dependencies [OF assms(1), of p] by (intro that [of p]) (simp_all add: tstat_def)
  qed
qed

lemma node_loaded:
  assumes "stores_graph db gid ps" and "p \<in> set ps"
  obtains n where "n \<in> set (load_nodes db gid)" "gn_id n = ns_id (fst p)" "gn_task_id n = Some (fi_task (snd p))"
    "set (gn_deps n) = set (ns_deps (fst p)) \<inter> (\<lambda>q. ns_id (fst q)) ` set ps"
    "gn_status n = control_status_to_node_status (the (tstat db (fi_task (snd p))))"
proof -
  have metas: "graph_metas db gid = map (node_meta gid) ps"
    using assms(1) by (simp add: stores_graph_def)
  have "fi_task (snd p) \<in> ct_id ` set (gd_tasks db)" "fi_run (snd p) \<in> cr_id ` set (gd_runs db)"
    using assms by (simp_all add: stores_graph_def run_ids_def)
  then obtain t r where "find_task db (fi_task (snd p)) = Some t" "find_run db (fi_run (snd p)) = Some r"
    by (fastforce simp: find_task_def find_run_def find_None_iff dest: find_None_iff [THEN iffD1]
        elim!: option.exhaust)
  moreover have "node_meta gid p \<in> set (sort_key gm_node (graph_metas db gid))"
    using metas assms(2) by simp
  ultimately have "(node_meta gid p, t, r) \<in> set (load_control_graph_nodes db gid)"
    unfolding load_control_graph_nodes_def List.map_filter_def by (force simp: image_iff)
  then have "\<exists>n\<in>set (load_nodes db gid). gn_id n = ns_id (fst p) \<and> gn_task_id n = Some (fi_task (snd p)) \<and>
      gn_deps n = load_graph_node_dependencies db gid (ns_id (fst p)) \<and>
      gn_status n = control_status_to_node_status (ct_status t)"
    unfolding load_nodes_def by (force simp: image_iff)
  then show thesis
    using that stored_dependencies [OF assms] \<open>find_task db (fi_task (snd p)) = Some t\<close>
    by (auto simp: tstat_def)
qed

section \<open>Creation\<close>

interpretation run_table: keyed_table cr_id .

definition store_keyed :: "graph_db \<Rightarrow> bool" where
  "store_keyed db \<longleftrightarrow> store_wf db \<and> distinct (run_ids db)"

text \<open>What a successful creation wrote, with the nodes paired with their fresh identifiers.\<close>

lemma created_exact:
  assumes "create_graph db gid fresh goal agent nodes now = (Inr g, db')"
  shows "g = gid" and "validate_dag nodes = Ok ()" and "gid \<notin> gr_id ` set (gd_graphs db)"
    and "gd_graphs db' = gd_graphs db @ [\<lparr>gr_id = gid, gr_goal = goal, gr_agent = agent, gr_created_at = now,
      gr_completed_at = None\<rparr>]"
    and "gd_tasks db' = gd_tasks db @ map (node_task gid agent now) (zip nodes fresh)"
    and "gd_runs db' = gd_runs db @ map (node_run agent) (zip nodes fresh)"
    and "gd_meta db' = gd_meta db @ map (node_meta gid) (zip nodes fresh)"
    and "distinct (run_ids db) \<Longrightarrow> distinct (run_ids db')"
    and "ids = rev (map (\<lambda>p. (ns_id (fst p), fi_task (snd p))) (zip nodes fresh)) \<Longrightarrow>
      e \<in> set (gd_edges db') \<longleftrightarrow> e \<in> set (gd_edges db) \<or> (\<exists>n\<in>set nodes. \<exists>d\<in>set (ns_deps n). \<exists>tid dep.
       map_of ids (ns_id n) = Some tid \<and> map_of ids d = Some dep \<and>
       e = \<lparr>te_graph = gid, te_task = tid, te_depends_on = dep\<rparr>)"
proof -
  let ?db1 = "db\<lparr>gd_graphs := gd_graphs db @ [\<lparr>gr_id = gid, gr_goal = goal, gr_agent = agent,
      gr_created_at = now, gr_completed_at = None\<rparr>]\<rparr>"
  obtain r db2 where run: "create_nodes ?db1 gid agent now (zip nodes fresh) [] = (r, db2)"
    by (cases "create_nodes ?db1 gid agent now (zip nodes fresh) []")
  have ok: "validate_dag nodes = Ok ()" "gid \<notin> gr_id ` set (gd_graphs db)"
      "(case r of Inl e \<Rightarrow> (Inl e, db2) | Inr ids \<Rightarrow> (Inr gid, create_task_graph_edges db2 gid ids nodes)) = (Inr g, db')"
    using assms run
    by (auto simp: create_graph_def Let_def list_ex_iff split: if_split_asm sum.split_asm)
  then obtain stored where r: "r = Inr stored" "g = gid" "db' = create_task_graph_edges db2 gid stored nodes"
    by (cases r) auto
  note rows = create_nodes_exact [OF run [unfolded r(1)]]
  have same: "gd_graphs db' = gd_graphs db2" "gd_tasks db' = gd_tasks db2" "gd_runs db' = gd_runs db2"
      "gd_meta db' = gd_meta db2"
    by (simp_all add: r(3) create_task_graph_edges_def)
  show "g = gid" "validate_dag nodes = Ok ()" "gid \<notin> gr_id ` set (gd_graphs db)"
    using ok r by simp_all
  show "gd_graphs db' = gd_graphs db @ [\<lparr>gr_id = gid, gr_goal = goal, gr_agent = agent, gr_created_at = now,
      gr_completed_at = None\<rparr>]"
    and "gd_tasks db' = gd_tasks db @ map (node_task gid agent now) (zip nodes fresh)"
    and "gd_runs db' = gd_runs db @ map (node_run agent) (zip nodes fresh)"
    and "gd_meta db' = gd_meta db @ map (node_meta gid) (zip nodes fresh)"
    using rows by (simp_all add: same)
  show "distinct (run_ids db) \<Longrightarrow> distinct (run_ids db')"
    unfolding run_ids_def same using rows [THEN conjunct2, THEN conjunct2] by simp
  assume "ids = rev (map (\<lambda>p. (ns_id (fst p), fi_task (snd p))) (zip nodes fresh))"
  then have "stored = ids" and "gd_edges db2 = gd_edges db"
    using rows by simp_all
  then show "e \<in> set (gd_edges db') \<longleftrightarrow> e \<in> set (gd_edges db) \<or> (\<exists>n\<in>set nodes. \<exists>d\<in>set (ns_deps n). \<exists>tid dep.
       map_of ids (ns_id n) = Some tid \<and> map_of ids d = Some dep \<and>
       e = \<lparr>te_graph = gid, te_task = tid, te_depends_on = dep\<rparr>)"
    unfolding r(3) created_edges_exact by auto
qed

lemma created_stores:
  assumes "store_wf db" and "unused_graph db gid" and "length fresh = length nodes"
    and "create_graph db gid fresh goal agent nodes now = (Inr g, db')"
  shows "stores_graph db' gid (zip nodes fresh)"
proof -
  let ?ps = "zip nodes fresh"
  let ?ids = "rev (map (\<lambda>p. (ns_id (fst p), fi_task (snd p))) ?ps)"
  note exact = created_exact [OF assms(4)]
  have inv: "distinct_tasks db' gid"
    using created_inv [OF assms] by (simp add: executor_inv_def)
  have metas: "graph_metas db' gid = map (node_meta gid) ?ps"
    using assms(2) by (simp add: exact(7) unused_graph_def graph_metas_def select_where_def filter_id_conv)
  then have "distinct (map (\<lambda>p. ns_id (fst p)) ?ps)"
    using inv by (simp add: distinct_tasks_def comp_def)
  then have keys: "distinct (map fst ?ids)"
    by (simp add: rev_map [symmetric] comp_def)
  have lookup: "map_of ?ids i = Some t \<longleftrightarrow> (\<exists>p\<in>set ?ps. ns_id (fst p) = i \<and> fi_task (snd p) = t)" for i t
    unfolding map_of_eq_Some_iff [OF keys] by auto
  have node: "n \<in> set nodes \<longleftrightarrow> (\<exists>p\<in>set ?ps. fst p = n)" for n
    using map_fst_zip [OF assms(3) [symmetric]] by (metis (no_types, lifting) image_iff list.set_map)
  have same: "p = q" if "p \<in> set ?ps" "q \<in> set ?ps" "ns_id (fst p) = ns_id (fst q)" for p q
    using that \<open>distinct (map (\<lambda>p. ns_id (fst p)) ?ps)\<close> by (auto simp: distinct_map dest: inj_onD)
  have edge: "e \<in> set (gd_edges db') \<longleftrightarrow> (\<exists>p\<in>set ?ps. \<exists>q\<in>set ?ps. ns_id (fst q) \<in> set (ns_deps (fst p)) \<and>
      e = \<lparr>te_graph = gid, te_task = fi_task (snd p), te_depends_on = fi_task (snd q)\<rparr>)" if "te_graph e = gid" for e
  proof -
    have "e \<notin> set (gd_edges db)"
      using that assms(2) by (auto simp: unused_graph_def)
    then have "e \<in> set (gd_edges db') \<longleftrightarrow> (\<exists>n\<in>set nodes. \<exists>d\<in>set (ns_deps n). \<exists>tid dep. map_of ?ids (ns_id n) = Some tid \<and>
        map_of ?ids d = Some dep \<and> e = \<lparr>te_graph = gid, te_task = tid, te_depends_on = dep\<rparr>)"
      using exact(9) [OF refl] by blast
    also have "\<dots> \<longleftrightarrow> (\<exists>p\<in>set ?ps. \<exists>q\<in>set ?ps. ns_id (fst q) \<in> set (ns_deps (fst p)) \<and>
        e = \<lparr>te_graph = gid, te_task = fi_task (snd p), te_depends_on = fi_task (snd q)\<rparr>)"
      (is "?L \<longleftrightarrow> ?R")
    proof
      assume ?L
      then obtain n d p q where "n \<in> set nodes" "d \<in> set (ns_deps n)" "p \<in> set ?ps" "ns_id (fst p) = ns_id n"
          "q \<in> set ?ps" "ns_id (fst q) = d" "e = \<lparr>te_graph = gid, te_task = fi_task (snd p), te_depends_on = fi_task (snd q)\<rparr>"
        unfolding lookup by auto
      moreover from this obtain p' where "p' \<in> set ?ps" "fst p' = n"
        using node by blast
      ultimately show ?R
        using same [of p p'] by blast
    next
      assume ?R
      then show ?L
        unfolding lookup using node by blast
    qed
    finally show ?thesis .
  qed
  show ?thesis
    unfolding stores_graph_def
  proof (intro conjI ballI impI)
    fix e assume "e \<in> set (gd_edges db')" "te_graph e = gid"
    then show "\<exists>p\<in>set ?ps. \<exists>q\<in>set ?ps. ns_id (fst q) \<in> set (ns_deps (fst p)) \<and>
        te_task e = fi_task (snd p) \<and> te_depends_on e = fi_task (snd q)"
      using edge by (metis task_edge.select_convs(2,3))
  next
    fix p q assume "p \<in> set ?ps" "q \<in> set ?ps" "ns_id (fst q) \<in> set (ns_deps (fst p))"
    then show "\<lparr>te_graph = gid, te_task = fi_task (snd p), te_depends_on = fi_task (snd q)\<rparr> \<in> set (gd_edges db')"
      using edge by (metis task_edge.select_convs(1))
  next
    fix p assume "p \<in> set ?ps"
    then show "fi_task (snd p) \<in> ct_id ` set (gd_tasks db')"
      unfolding exact(5) by (force simp: image_iff)
  qed (use metas inv in \<open>auto simp: run_ids_def exact(6)\<close>)
qed

text \<open>An accepted graph: distinct ids, known dependencies, no cycle.\<close>

definition accepted :: "node_spec list \<Rightarrow> bool" where
  "accepted nodes \<longleftrightarrow> distinct (map ns_id nodes) \<and> dependency_edges nodes \<subseteq> UNIV \<times> ns_id ` set nodes \<and>
     acyclic (dependency_edges nodes)"

lemma created_accepted:
  assumes "store_wf db" and "unused_graph db gid" and "length fresh = length nodes"
    and "create_graph db gid fresh goal agent nodes now = (Inr g, db')"
  shows "accepted nodes"
proof -
  have "map (\<lambda>p. ns_id (fst p)) (zip nodes fresh) = map ns_id (map fst (zip nodes fresh))"
    by simp
  then have "map (\<lambda>p. ns_id (fst p)) (zip nodes fresh) = map ns_id nodes"
    by (simp only: map_fst_zip [OF assms(3) [symmetric]])
  then have "distinct (map ns_id nodes)"
    using stored_distinct(1) [OF created_stores [OF assms]] by simp
  then show ?thesis
    using created_exact(2) [OF assms(4)] by (auto simp: accepted_def validate_dag_acyclic dependency_edges_def)
qed

lemma sort_key_map: "sort_key g (map f xs) = map f (sort_key (\<lambda>x. g (f x)) xs)"
proof -
  have "insort_key g (f x) (map f ys) = map f (insort_key (\<lambda>x. g (f x)) x ys)" for x ys
    by (induction ys) simp_all
  then show ?thesis
    by (induction xs) simp_all
qed

lemma created_rows:
  assumes "store_keyed db" and "unused_graph db gid" and "length fresh = length nodes"
    and "create_graph db gid fresh goal agent nodes now = (Inr g, db')" and "p \<in> set (zip nodes fresh)"
  shows "find_task db' (fi_task (snd p)) = Some (node_task gid agent now p)"
    and "find_run db' (fi_run (snd p)) = Some (node_run agent p)"
    and "set (load_graph_node_dependencies db' gid (ns_id (fst p))) = set (ns_deps (fst p))"
proof -
  have wf: "store_wf db" and runs: "distinct (run_ids db)"
    using assms(1) by (simp_all add: store_keyed_def)
  note exact = created_exact [OF assms(4)]
  have "distinct (map ct_id (gd_tasks db'))"
    using created_inv [OF wf assms(2-4)] by (simp add: executor_inv_def plans_agree_def)
  moreover have "node_task gid agent now p \<in> set (gd_tasks db')"
    using assms(5) by (simp add: exact(5))
  ultimately show "find_task db' (fi_task (snd p)) = Some (node_task gid agent now p)"
    using task_table.find_key [of "gd_tasks db'" "node_task gid agent now p"] by (simp add: find_task_def)
  have "node_run agent p \<in> set (gd_runs db')"
    using assms(5) by (simp add: exact(6))
  then show "find_run db' (fi_run (snd p)) = Some (node_run agent p)"
    using run_table.find_key [of "gd_runs db'" "node_run agent p"] exact(8) [OF runs]
    by (simp add: find_run_def run_ids_def)
  have nodes: "set nodes = fst ` set (zip nodes fresh)"
    by (simp only: map_fst_zip [OF assms(3) [symmetric]] flip: set_map)
  then have "ns_id ` set nodes = (\<lambda>q. ns_id (fst q)) ` set (zip nodes fresh)"
    by (simp only: image_image)
  moreover have "fst p \<in> set nodes"
    unfolding nodes using assms(5) by (rule imageI)
  moreover have "(ns_id (fst p), d) \<in> dependency_edges nodes" if "d \<in> set (ns_deps (fst p))" "fst p \<in> set nodes" for d
    using that by (auto simp: dependency_edges_def)
  moreover have "dependency_edges nodes \<subseteq> UNIV \<times> ns_id ` set nodes"
    using created_accepted [OF wf assms(2-4)] by (simp add: accepted_def)
  ultimately have "set (ns_deps (fst p)) \<subseteq> (\<lambda>q. ns_id (fst q)) ` set (zip nodes fresh)"
    by blast
  then show "set (load_graph_node_dependencies db' gid (ns_id (fst p))) = set (ns_deps (fst p))"
    using stored_dependencies [OF created_stores [OF wf assms(2-4)] assms(5)] by blast
qed

lemma created_load:
  assumes "store_keyed db" and "unused_graph db gid" and "length fresh = length nodes"
    and "create_graph db gid fresh goal agent nodes now = (Inr g, db')"
  shows "load_control_graph_nodes db' gid =
    map (\<lambda>p. (node_meta gid p, node_task gid agent now p, node_run agent p))
      (sort_key (\<lambda>p. ns_id (fst p)) (zip nodes fresh))"
proof -
  have "graph_metas db' gid = map (node_meta gid) (zip nodes fresh)"
    using created_stores [OF _ assms(2-4)] assms(1) by (simp add: store_keyed_def stores_graph_def)
  then have "sort_key gm_node (graph_metas db' gid) =
      map (node_meta gid) (sort_key (\<lambda>p. ns_id (fst p)) (zip nodes fresh))"
    by (simp add: sort_key_map)
  moreover have map_filter_all: "List.map_filter f (map h xs) = map k xs"
    if "\<And>x. x \<in> set xs \<Longrightarrow> f (h x) = Some (k x)"
    for f :: "graph_meta \<Rightarrow> (graph_meta \<times> cp_task \<times> cp_run) option" and h k and xs :: "(node_spec \<times> fresh_ids) list"
    using that by (induction xs) (simp_all add: map_filter_simps)
  ultimately show ?thesis
    unfolding load_control_graph_nodes_def
    by (simp only:) (rule map_filter_all, simp add: created_rows [OF assms])
qed

lemma created_status:
  assumes "store_keyed db" and "unused_graph db gid" and "length fresh = length nodes"
    and "create_graph db gid fresh goal agent nodes now = (Inr g, db')"
  shows "derived_graph_status db' gid = ''pending''"
proof -
  have metas: "graph_metas db' gid = map (node_meta gid) (zip nodes fresh)"
    using created_stores [OF _ assms(2-4)] assms(1) by (simp add: store_keyed_def stores_graph_def)
  have "set (load_control_task_statuses db' gid) \<subseteq> {''ready'', ''queued''}"
    using created_rows(1) [OF assms] by (auto simp: load_control_task_statuses_def List.map_filter_def metas)
  then have none: "filter p (load_control_task_statuses db' gid) = []"
    if "\<not> p ''ready''" "\<not> p ''queued''" for p
    using that by (fastforce simp: filter_empty_conv)
  show ?thesis
    unfolding derived_graph_status_def Let_def
    using none [of "\<lambda>s. s = ''completed''"] none [of "\<lambda>s. s = ''failed'' \<or> s = ''cancelled''"]
      none [of "\<lambda>s. s = ''running''"]
    by simp
qed

section \<open>The executor and what is stored\<close>

lemma mark_runs [simp]:
  "run_ids (mark_node_running gid n job now db) = run_ids db"
  "run_ids (mark_node_complete gid n result now db) = run_ids db"
  "run_ids (mark_node_failed gid n err now db) = run_ids db"
  by (auto simp: run_ids_def mark_node_running_def mark_node_complete_def mark_node_failed_def
      mark_control_task_running_def mark_control_task_completed_def mark_control_task_failed_def
      sync_graph_status_def set_task_status_def Let_def run_table.keys_update split: option.split)

lemma fold_runs: "(\<And>x db. run_ids (f x db) = run_ids db) \<Longrightarrow> run_ids (fold f xs db) = run_ids db"
  by (induction xs arbitrary: db) simp_all

lemma ready_runs [simp]:
  "run_ids (snd (ready_nodes db gid)) = run_ids db"
  "run_ids (snd (cp_scheduler_list_ready verdict db)) = run_ids db"
  unfolding ready_nodes_fold
  by (auto simp: mark_control_task_ready_def set_task_status_def run_ids_def cp_scheduler_list_ready_def Let_def
      intro!: fold_runs [unfolded run_ids_def])

lemma fold_shape: "(\<And>x db. same_shape db (f x db)) \<Longrightarrow> same_shape db (fold f xs db)"
proof (induction xs arbitrary: db)
  case (Cons x xs)
  have "same_shape db (f x db)" and "same_shape (f x db) (fold f xs (f x db))"
    using Cons by blast+
  then show ?case
    using same_shape_trans by auto
qed simp

lemma mark_shapes:
  "same_shape db (mark_node_running gid n job now db)" "same_shape db (mark_node_complete gid n result now db)"
  "same_shape db (mark_node_failed gid n err now db)"
  using mark_node_sets(1) [of gid n db job now] mark_node_sets(2) [of gid n db result now]
    mark_node_sets(3) [of gid n db err now]
  by (simp_all add: set_node_status_def)

lemma executor_step_keeps:
  "same_shape (ex_db ex) (ex_db (executor_step gid ex ev)) \<and> run_ids (ex_db (executor_step gid ex ev)) = run_ids (ex_db ex)"
proof (cases ev)
  case (Poll verdict job now)
  have s1: "same_shape (ex_db ex) (snd (ready_nodes (ex_db ex) gid))"
    unfolding ready_nodes_fold using fold_mark_ready by blast
  have s2: "same_shape db (snd (cp_scheduler_list_ready verdict db))" for db
    using list_ready_db by blast
  have s3: "same_shape db (fold (\<lambda>n. mark_node_running gid n (job n) now) ns db)" for db ns
    by (rule fold_shape) (rule mark_shapes)
  have "same_shape (ex_db ex) (ex_db (executor_step gid ex ev))"
    by (simp add: Poll Let_def case_prod_beta)
      (rule same_shape_trans [OF s1], rule same_shape_trans [OF s2], rule s3)
  then show ?thesis
    by (simp add: Poll Let_def case_prod_beta fold_runs)
qed (simp_all add: mark_shapes)

interpretation stored: machine "executor_step gid" "\<lambda>_. True" "\<lambda>ex. stores_graph (ex_db ex) gid ps" for gid ps
  by unfold_locales (use executor_step_keeps stores_graph_kept in blast)

section \<open>Liveness\<close>

text \<open>Every task of the graph has one of the executor's own statuses, and what runs is in flight.\<close>

definition alive :: "string \<Rightarrow> executor \<Rightarrow> bool" where
  "alive gid ex \<longleftrightarrow> executor_inv gid ex \<and>
     (\<forall>m\<in>set (graph_metas (ex_db ex) gid).
        tstat (ex_db ex) (gm_task m) \<in> Some ` {''queued'', ''ready'', ''running'', ''completed'', ''failed''} \<and>
        (tstat (ex_db ex) (gm_task m) = Some ''running'' \<longrightarrow> gm_node m \<in> set (ex_in_flight ex)))"

text \<open>No gate holds a task back for its budget.\<close>

fun budget_open :: "executor_event \<Rightarrow> bool" where
  "budget_open (Poll verdict job now) \<longleftrightarrow> (\<forall>t. verdict t \<noteq> Budget_Blocked)"
| "budget_open _ \<longleftrightarrow> True"

lemma set_node_tstat:
  assumes "set_node_status gid n st db db'" and "distinct_tasks db gid" and "m \<in> set (graph_metas db gid)"
    and "tstat db (gm_task m) \<noteq> None"
  shows "tstat db' (gm_task m) = (if gm_node m = n then Some st else tstat db (gm_task m))"
proof -
  have "map_option fst (control_workflow_ids db gid n) = Some (gm_task m) \<longleftrightarrow> gm_node m = n"
  proof
    assume "map_option fst (control_workflow_ids db gid n) = Some (gm_task m)"
    then obtain k where k: "List.find (\<lambda>k. gm_graph k = gid \<and> gm_node k = n) (gd_meta db) = Some k" "gm_task k = gm_task m"
      by (auto simp: control_workflow_ids_def)
    then have "k = m"
      using same_task [OF assms(2), of k m] find_Some_in [OF k(1)] assms(3) graph_metas_subset by blast
    then show "gm_node m = n"
      using find_Some_in [OF k(1)] by simp
  next
    assume "gm_node m = n"
    then show "map_option fst (control_workflow_ids db gid n) = Some (gm_task m)"
      using workflow_of_meta [OF assms(2,3)] by simp
  qed
  then show ?thesis
    using assms(1,4) by (simp add: set_node_status_def)
qed

lemma fold_running_tstat:
  assumes "distinct_tasks db gid" and "m \<in> set (graph_metas db gid)" and "tstat db (gm_task m) \<noteq> None"
  shows "tstat (fold (\<lambda>n. mark_node_running gid n (job n) now) ns db) (gm_task m) =
    (if gm_node m \<in> set ns then Some ''running'' else tstat db (gm_task m))"
  using assms
proof (induction ns arbitrary: db)
  case (Cons n ns)
  let ?db = "mark_node_running gid n (job n) now db"
  have shape: "same_shape db ?db" by (rule mark_shapes)
  have "distinct_tasks ?db gid"
    using Cons.prems(1) graph_metas_shape [OF shape] shape by (simp add: distinct_tasks_def same_shape_def)
  moreover have "m \<in> set (graph_metas ?db gid)"
    using Cons.prems(2) graph_metas_shape [OF shape] by simp
  moreover have "tstat ?db (gm_task m) = (if gm_node m = n then Some ''running'' else tstat db (gm_task m))"
    using set_node_tstat [OF mark_node_sets(1) Cons.prems] .
  ultimately show ?case
    using Cons.IH [of ?db] Cons.prems(3) by simp
qed simp

text \<open>The statuses after a poll none of whose gates blocks for the budget.\<close>

lemma poll_parts:
  assumes "\<forall>t. verdict t \<noteq> Budget_Blocked"
  shows "snd (cp_scheduler_list_ready verdict db) = db"
  using assms by (cases db) (simp add: cp_scheduler_list_ready_def Let_def set_task_status_def update_where_none)

lemma poll_tstat:
  assumes "distinct_tasks (ex_db ex) gid" and "m \<in> set (graph_metas (ex_db ex) gid)"
    and "tstat (ex_db ex) (gm_task m) \<noteq> None" and "\<forall>t. verdict t \<noteq> Budget_Blocked"
  obtains ns where "ex_in_flight (executor_step gid ex (Poll verdict job now)) = ex_in_flight ex @ ns"
    and "tstat (ex_db (executor_step gid ex (Poll verdict job now))) (gm_task m) =
      (if gm_node m \<in> set ns then Some ''running'' else tstat (snd (ready_nodes (ex_db ex) gid)) (gm_task m))"
proof -
  let ?db1 = "snd (ready_nodes (ex_db ex) gid)"
  let ?ns = "runnable_nodes ?db1 gid (fst (cp_scheduler_list_ready verdict ?db1))"
  have shape: "same_shape (ex_db ex) ?db1" and some: "tstat ?db1 (gm_task m) \<noteq> None"
    unfolding ready_nodes_fold using fold_mark_ready assms(3) by auto
  then have "distinct_tasks ?db1 gid" "m \<in> set (graph_metas ?db1 gid)"
    using assms(1,2) graph_metas_shape [OF shape] by (simp_all add: distinct_tasks_def same_shape_def)
  then have "tstat (fold (\<lambda>n. mark_node_running gid n (job n) now) ?ns ?db1) (gm_task m) =
      (if gm_node m \<in> set ?ns then Some ''running'' else tstat ?db1 (gm_task m))"
    using some by (rule fold_running_tstat)
  then show thesis
    using that [of ?ns] by (simp add: Let_def case_prod_beta poll_parts [OF assms(4)])
qed

lemma ready_tstat:
  "tstat (snd (ready_nodes db gid)) tid = tstat db tid \<or>
     (tstat db tid = Some ''queued'' \<and> tstat (snd (ready_nodes db gid)) tid = Some ''ready'')"
  by (simp add: ready_nodes_fold fold_mark_ready)

lemma alive_step:
  assumes "alive gid ex" and "budget_open ev"
  shows "alive gid (executor_step gid ex ev)"
proof -
  let ?st = "Some ` {''queued'', ''ready'', ''running'', ''completed'', ''failed''}"
  let ?ex = "executor_step gid ex ev"
  have inv: "executor_inv gid ex" and d: "distinct_tasks (ex_db ex) gid"
    using assms(1) by (simp_all add: alive_def executor_inv_def)
  have ok: "tstat (ex_db ?ex) (gm_task m) \<in> ?st \<and>
      (tstat (ex_db ?ex) (gm_task m) = Some ''running'' \<longrightarrow> gm_node m \<in> set (ex_in_flight ?ex))"
    if m: "m \<in> set (graph_metas (ex_db ex) gid)" for m
  proof -
    have old: "tstat (ex_db ex) (gm_task m) \<in> ?st"
        "tstat (ex_db ex) (gm_task m) = Some ''running'' \<Longrightarrow> gm_node m \<in> set (ex_in_flight ex)"
      using assms(1) m by (auto simp: alive_def)
    then have some: "tstat (ex_db ex) (gm_task m) \<noteq> None" by auto
    show ?thesis
    proof (cases ev)
      case (Poll verdict job now)
      then obtain ns where "ex_in_flight ?ex = ex_in_flight ex @ ns"
          "tstat (ex_db ?ex) (gm_task m) = (if gm_node m \<in> set ns then Some ''running''
             else tstat (snd (ready_nodes (ex_db ex) gid)) (gm_task m))"
        using poll_tstat [OF d m some, of verdict job now] assms(2) by auto
      then show ?thesis
        using old ready_tstat [of "ex_db ex" gid "gm_task m"] by auto
    next
      case (Job_Succeeded n result now)
      then show ?thesis
        using old set_node_tstat [OF mark_node_sets(2) [of gid n "ex_db ex" result now] d m some] by auto
    next
      case (Job_Failed n err now)
      then show ?thesis
        using old set_node_tstat [OF mark_node_sets(3) [of gid n "ex_db ex" err now] d m some] by auto
    qed
  qed
  have "graph_metas (ex_db ?ex) gid = graph_metas (ex_db ex) gid"
    using graph_metas_shape executor_step_keeps by metis
  then show ?thesis
    unfolding alive_def using executor_step_inv [OF inv] ok by simp
qed

interpretation living: machine "executor_step gid" budget_open "alive gid" for gid
  by unfold_locales (rule alive_step)

lemma created_alive:
  assumes "store_keyed db" and "unused_graph db gid" and "length fresh = length nodes"
    and "create_graph db gid fresh goal agent nodes now = (Inr g, db')"
  shows "alive gid \<lparr>ex_db = db', ex_in_flight = []\<rparr>"
proof -
  have wf: "store_wf db"
    using assms(1) by (simp add: store_keyed_def)
  have "graph_metas db' gid = map (node_meta gid) (zip nodes fresh)"
    using created_stores [OF wf assms(2-4)] by (simp add: stores_graph_def)
  then have "tstat db' (gm_task m) \<in> {Some ''queued'', Some ''ready''}" if "m \<in> set (graph_metas db' gid)" for m
    using that created_rows(1) [OF assms] by (auto simp: tstat_def)
  then show ?thesis
    using created_inv [OF wf assms(2-4)] by (force simp: alive_def)
qed

lemma loaded_distinct:
  assumes "distinct_tasks db gid"
  shows "distinct (map gn_id (load_nodes db gid))"
proof -
  let ?f = "\<lambda>m. case find_task db (gm_task m) of None \<Rightarrow> None | Some t \<Rightarrow> map_option (\<lambda>r. (m, t, r)) (find_run db (gm_run m))"
  have keep: "map fst (List.map_filter ?f ms) = filter (\<lambda>m. ?f m \<noteq> None) ms" for ms
    by (induction ms) (auto simp: map_filter_simps split: option.splits)
  have "map gn_id (load_nodes db gid) = map gm_node (map fst (load_control_graph_nodes db gid))"
    by (simp add: load_nodes_def case_prod_beta comp_def)
  then have "map gn_id (load_nodes db gid) = map gm_node (filter (\<lambda>m. ?f m \<noteq> None) (sort_key gm_node (graph_metas db gid)))"
    by (simp only: load_control_graph_nodes_def keep)
  moreover have "distinct (map gm_node (sort_key gm_node (graph_metas db gid)))"
    using assms by (simp add: distinct_tasks_def distinct_map)
  ultimately show ?thesis
    by (simp add: distinct_map_filter)
qed

text \<open>With nothing in flight and nothing failed, a poll through open gates starts something.\<close>

lemma idle_node:
  assumes "alive gid ex" and "stores_graph (ex_db ex) gid ps" and "accepted (map fst ps)"
    and "ex_in_flight ex = []" and "\<forall>m\<in>set (graph_metas (ex_db ex) gid). tstat (ex_db ex) (gm_task m) \<noteq> Some ''failed''"
    and "\<exists>m\<in>set (graph_metas (ex_db ex) gid). tstat (ex_db ex) (gm_task m) \<noteq> Some ''completed''"
  obtains m where "m \<in> set (graph_metas (ex_db ex) gid)"
    and "tstat (snd (ready_nodes (ex_db ex) gid)) (gm_task m) = Some ''ready''"
proof -
  let ?db = "ex_db ex"
  let ?all = "load_nodes ?db gid"
  let ?ids = "(\<lambda>q. ns_id (fst q)) ` set ps"
  have d: "distinct_tasks ?db gid" and metas: "graph_metas ?db gid = map (node_meta gid) ps"
    using assms(2) by (simp_all add: stores_graph_def)
  have status: "tstat ?db (fi_task (snd p)) \<in> Some ` {''queued'', ''ready'', ''completed''}" if "p \<in> set ps" for p
  proof -
    have "node_meta gid p \<in> set (graph_metas ?db gid)"
      using metas that by simp
    then show ?thesis
      using assms(1,4,5) unfolding alive_def by fastforce
  qed
  have node: "gn_status n \<in> {Node_Pending, Node_Completed} \<and> set (gn_deps n) \<subseteq> ?ids \<and>
      (\<forall>d\<in>set (gn_deps n). (gn_id n, d) \<in> dependency_edges (map fst ps))" if "n \<in> set ?all" for n
    using assms(2) that
  proof (cases rule: loaded_node)
    case (1 p)
    then show ?thesis
      using status [OF 1(1)] by (auto simp: control_status_to_node_status_def dependency_edges_def)
  qed
  have known: "?ids \<subseteq> gn_id ` set ?all"
    by (rule image_subsetI, erule node_loaded [OF assms(2)]) (metis image_eqI)
  obtain p where p: "p \<in> set ps" "tstat ?db (fi_task (snd p)) \<noteq> Some ''completed''"
    using assms(6) metas by auto
  obtain k where k: "k \<in> set ?all" "gn_status k = control_status_to_node_status (the (tstat ?db (fi_task (snd p))))"
    by (rule node_loaded [OF assms(2) p(1)])
  have "gn_status k = Node_Pending"
    using k(2) p(2) status [OF p(1)] by (auto simp: control_status_to_node_status_def)
  moreover have "{(gn_id n, d) |n d. n \<in> set ?all \<and> d \<in> set (gn_deps n)} \<subseteq> dependency_edges (map fst ps)"
    using node by blast
  then have "acyclic {(gn_id n, d) |n d. n \<in> set ?all \<and> d \<in> set (gn_deps n)}"
    using assms(3) acyclic_subset unfolding accepted_def by blast
  moreover have "d \<in> gn_id ` set ?all" if "n \<in> set ?all" "d \<in> set (gn_deps n)" for n d
    using node [OF that(1)] that(2) known by blast
  ultimately have "fst (ready_nodes ?db gid) \<noteq> []"
    using pending_graph_has_ready_node [OF loaded_distinct [OF d], of k] node k(1) by blast
  then obtain n where n: "n \<in> set ?all" "node_ready ?all n"
    by (auto simp: ready_nodes_def Let_def filter_empty_conv)
  from assms(2) n(1) obtain q where q: "q \<in> set ps" "gn_task_id n = Some (fi_task (snd q))"
      "gn_status n = control_status_to_node_status (the (tstat ?db (fi_task (snd q))))"
    by (rule loaded_node)
  have "tstat ?db (fi_task (snd q)) \<in> {Some ''queued'', Some ''ready''}"
    using n(2) q(3) status [OF q(1)] by (auto simp: node_ready_def Let_def control_status_to_node_status_def)
  moreover have "fi_task (snd q) \<in> set (List.map_filter gn_task_id (filter (node_ready ?all) ?all))"
    using n q(2) by (force simp: List.map_filter_def)
  ultimately have "tstat (snd (ready_nodes ?db gid)) (fi_task (snd q)) = Some ''ready''"
    unfolding ready_nodes_fold using fold_mark_ready by auto
  then show thesis
    using that [of "node_meta gid q"] q(1) metas by simp
qed

lemma ready_is_runnable:
  assumes "plans_agree db" and "distinct_tasks db gid" and "m \<in> set (graph_metas db gid)"
    and "tstat db (gm_task m) = Some ''ready''"
  shows "gm_node m \<in> set (runnable_nodes db gid (fst (cp_scheduler_list_ready (\<lambda>_. Run_It) db)))"
proof -
  have m: "m \<in> set (gd_meta db)" "gm_graph m = gid"
    using graph_metas_subset [OF assms(3)] by simp_all
  obtain t where t: "find_task db (gm_task m) = Some t" "ct_status t = ''ready''"
    using assms(4) by (auto simp: tstat_def)
  then have row: "t \<in> set (gd_tasks db)" "ct_id t = gm_task m"
    by (auto simp: find_task_def dest: find_Some_in)
  then have "ct_plan t = Some gid"
    using assms(1) m by (force simp: plans_agree_def)
  moreover have "t \<in> set (fst (cp_scheduler_list_ready (\<lambda>_. Run_It) db))"
    using row(1) t(2) by (simp add: cp_scheduler_list_ready_def Let_def select_where_def)
  moreover have "cp_task_graph_node_ids db (ct_id t) = Some (gid, gm_node m)"
  proof (cases "List.find (\<lambda>k. gm_task k = ct_id t) (gd_meta db)")
    case None
    then show ?thesis using m(1) row(2) by (auto simp: find_None_iff)
  next
    case (Some k)
    then have "k = m"
      using find_Some_in [OF Some] same_task [OF assms(2) _ m(1)] row(2) by simp
    then show ?thesis
      using Some m(2) by (simp add: cp_task_graph_node_ids_def)
  qed
  ultimately show ?thesis
    by (force simp: runnable_nodes_def List.map_filter_def)
qed

lemma poll_starts:
  assumes "alive gid ex" and "stores_graph (ex_db ex) gid ps" and "accepted (map fst ps)"
    and "ex_in_flight ex = []" and "\<forall>m\<in>set (graph_metas (ex_db ex) gid). tstat (ex_db ex) (gm_task m) \<noteq> Some ''failed''"
    and "\<exists>m\<in>set (graph_metas (ex_db ex) gid). tstat (ex_db ex) (gm_task m) \<noteq> Some ''completed''"
  shows "\<exists>m\<in>set (graph_metas (ex_db ex) gid). tstat (ex_db ex) (gm_task m) \<noteq> Some ''completed'' \<and>
    gm_node m \<in> set (ex_in_flight (executor_step gid ex (Poll (\<lambda>_. Run_It) job now)))"
proof -
  let ?db1 = "snd (ready_nodes (ex_db ex) gid)"
  obtain m where m: "m \<in> set (graph_metas (ex_db ex) gid)" "tstat ?db1 (gm_task m) = Some ''ready''"
    using idle_node [OF assms] .
  have inv: "distinct_tasks (ex_db ex) gid" "plans_agree (ex_db ex)"
    using assms(1) by (simp_all add: alive_def executor_inv_def)
  have shape: "same_shape (ex_db ex) ?db1"
    unfolding ready_nodes_fold using fold_mark_ready by blast
  have "plans_agree ?db1" "distinct_tasks ?db1 gid" "m \<in> set (graph_metas ?db1 gid)"
    using plans_agree_shape [OF shape inv(2)] inv(1) graph_metas_shape [OF shape] m(1) shape
    by (simp_all add: distinct_tasks_def same_shape_def)
  then have "gm_node m \<in> set (ex_in_flight (executor_step gid ex (Poll (\<lambda>_. Run_It) job now)))"
    using ready_is_runnable [OF _ _ _ m(2)] by (simp add: Let_def case_prod_beta poll_parts assms(4))
  moreover have "tstat (ex_db ex) (gm_task m) \<noteq> Some ''completed''"
    using ready_tstat [of "ex_db ex" gid "gm_task m"] m(2) by auto
  ultimately show ?thesis
    using m(1) by blast
qed

section \<open>Rounds\<close>

text \<open>One round: a poll with all gates open, after which every job in flight succeeds.\<close>

definition succeed_all :: "string \<Rightarrow> string \<Rightarrow> string \<Rightarrow> executor \<Rightarrow> executor" where
  "succeed_all gid result now ex =
     foldl (\<lambda>ex n. executor_step gid ex (Job_Succeeded n result now)) ex (ex_in_flight ex)"

definition executor_round :: "string \<Rightarrow> (string \<Rightarrow> string) \<Rightarrow> string \<Rightarrow> string \<Rightarrow> executor \<Rightarrow> executor" where
  "executor_round gid job result now ex =
     succeed_all gid result now (executor_step gid ex (Poll (\<lambda>_. Run_It) job now))"

lemma succeed_idle:
  "set (ex_in_flight ex) \<subseteq> set ns \<Longrightarrow>
     ex_in_flight (foldl (\<lambda>ex n. executor_step gid ex (Job_Succeeded n result now)) ex ns) = []"
proof (induction ns arbitrary: ex)
  case (Cons n ns)
  have "set (ex_in_flight (executor_step gid ex (Job_Succeeded n result now))) \<subseteq> set ns"
    using Cons.prems by auto
  then show ?case
    using Cons.IH by simp
qed simp

lemma succeed_run:
  assumes "distinct_tasks (ex_db ex) gid" and "m \<in> set (graph_metas (ex_db ex) gid)"
    and "tstat (ex_db ex) (gm_task m) \<noteq> None"
  shows "tstat (ex_db (foldl (\<lambda>ex n. executor_step gid ex (Job_Succeeded n result now)) ex ns)) (gm_task m) =
      (if gm_node m \<in> set (ex_in_flight ex) \<inter> set ns then Some ''completed'' else tstat (ex_db ex) (gm_task m))"
  using assms
proof (induction ns arbitrary: ex)
  case (Cons n ns)
  let ?ex = "executor_step gid ex (Job_Succeeded n result now)"
  have shape: "same_shape (ex_db ex) (ex_db ?ex)"
    using executor_step_keeps by blast
  have d: "distinct_tasks (ex_db ?ex) gid" "m \<in> set (graph_metas (ex_db ?ex) gid)"
    using Cons.prems(1,2) graph_metas_shape [OF shape] shape by (simp_all add: distinct_tasks_def same_shape_def)
  have st: "tstat (ex_db ?ex) (gm_task m) =
      (if gm_node m = n \<and> n \<in> set (ex_in_flight ex) then Some ''completed'' else tstat (ex_db ex) (gm_task m))"
    using set_node_tstat [OF mark_node_sets(2) Cons.prems] by simp
  have fl: "set (ex_in_flight ?ex) = set (ex_in_flight ex) - {n}"
    by auto
  show ?case
    using Cons.IH [OF d] Cons.prems(3) unfolding st fl by auto
qed simp

definition unfinished :: "string \<Rightarrow> executor \<Rightarrow> nat" where
  "unfinished gid ex =
     length (filter (\<lambda>m. tstat (ex_db ex) (gm_task m) \<noteq> Some ''completed'') (graph_metas (ex_db ex) gid))"

text \<open>Between rounds: nothing runs and nothing has failed.\<close>

definition resting :: "string \<Rightarrow> (node_spec \<times> fresh_ids) list \<Rightarrow> executor \<Rightarrow> bool" where
  "resting gid ps ex \<longleftrightarrow> alive gid ex \<and> stores_graph (ex_db ex) gid ps \<and> ex_in_flight ex = [] \<and>
     (\<forall>m\<in>set (graph_metas (ex_db ex) gid). tstat (ex_db ex) (gm_task m) \<noteq> Some ''failed'')"

lemma filter_shrinks:
  assumes "\<And>x. x \<in> set xs \<Longrightarrow> P x \<Longrightarrow> Q x" and "x \<in> set xs" and "Q x" and "\<not> P x"
  shows "length (filter P xs) < length (filter Q xs)"
proof -
  have "filter P xs = filter P (filter Q xs)"
    using assms(1) by (auto intro!: filter_cong)
  moreover have "length (filter P (filter Q xs)) < length (filter Q xs)"
    by (rule length_filter_less) (use assms in auto)
  ultimately show ?thesis by simp
qed

lemma round_step:
  assumes "resting gid ps ex" and "accepted (map fst ps)"
  shows "resting gid ps (executor_round gid job result now ex)"
    and "unfinished gid (executor_round gid job result now ex) \<le> unfinished gid ex - 1"
proof -
  let ?poll = "executor_step gid ex (Poll (\<lambda>_. Run_It) job now)"
  let ?ex = "executor_round gid job result now ex"
  have rest: "alive gid ex" "stores_graph (ex_db ex) gid ps" "ex_in_flight ex = []"
      "\<forall>m\<in>set (graph_metas (ex_db ex) gid). tstat (ex_db ex) (gm_task m) \<noteq> Some ''failed''"
    using assms(1) by (simp_all add: resting_def)
  have ex: "?ex = foldl (executor_step gid) ex
      (Poll (\<lambda>_. Run_It) job now # map (\<lambda>n. Job_Succeeded n result now) (ex_in_flight ?poll))"
    by (simp add: executor_round_def succeed_all_def foldl_map)
  have alive: "alive gid ?ex"
    unfolding ex by (rule living.run_inv [OF rest(1)]) (simp add: list_all_iff)
  have rows: "stores_graph (ex_db ?ex) gid ps"
    unfolding ex by (rule stored.run_inv [OF rest(2)]) (simp add: list_all_iff)
  have polled: "stores_graph (ex_db ?poll) gid ps"
    by (rule stored.step_inv [OF rest(2)]) (rule TrueI)
  have metas: "graph_metas (ex_db ?ex) gid = graph_metas (ex_db ex) gid"
      "graph_metas (ex_db ?poll) gid = graph_metas (ex_db ex) gid"
    using rest(2) rows polled by (simp_all only: stores_graph_def)
  have idle: "ex_in_flight ?ex = []"
    unfolding executor_round_def succeed_all_def by (rule succeed_idle) (rule subset_refl)
  have status: "tstat (ex_db ?ex) (gm_task m) = (if gm_node m \<in> set (ex_in_flight ?poll) then Some ''completed''
      else tstat (snd (ready_nodes (ex_db ex) gid)) (gm_task m))" if m: "m \<in> set (graph_metas (ex_db ex) gid)" for m
  proof -
    have d: "distinct_tasks (ex_db ex) gid" "distinct_tasks (ex_db ?poll) gid"
      using rest(2) polled by (simp_all only: stores_graph_def)
    have some: "tstat (ex_db ex) (gm_task m) \<noteq> None"
      using rest(1) m unfolding alive_def by fastforce
    obtain ns where ns: "ex_in_flight ?poll = ex_in_flight ex @ ns"
        "tstat (ex_db ?poll) (gm_task m) = (if gm_node m \<in> set ns then Some ''running''
           else tstat (snd (ready_nodes (ex_db ex) gid)) (gm_task m))"
      by (rule poll_tstat [OF d(1) m some, of "\<lambda>_. Run_It" job now]) simp
    then have "tstat (ex_db ?poll) (gm_task m) \<noteq> None"
      using some ready_tstat [of "ex_db ex" gid "gm_task m"] by auto
    then show ?thesis
      using succeed_run [OF d(2), of m] m metas(2) ns rest(3)
      unfolding executor_round_def succeed_all_def by (simp del: executor_step.simps)
  qed
  have "tstat (ex_db ?ex) (gm_task m) \<noteq> Some ''failed''" if "m \<in> set (graph_metas (ex_db ex) gid)" for m
    using status [OF that] rest(4) that ready_tstat [of "ex_db ex" gid "gm_task m"] by (auto split: if_split_asm)
  then show "resting gid ps ?ex"
    unfolding resting_def metas(1) using alive rows idle by blast
  have kept: "tstat (ex_db ?ex) (gm_task m) = Some ''completed''"
    if "m \<in> set (graph_metas (ex_db ex) gid)" "tstat (ex_db ex) (gm_task m) = Some ''completed''" for m
    using status [OF that(1)] that(2) ready_tstat [of "ex_db ex" gid "gm_task m"] by auto
  show "unfinished gid ?ex \<le> unfinished gid ex - 1"
  proof (cases "\<exists>m\<in>set (graph_metas (ex_db ex) gid). tstat (ex_db ex) (gm_task m) \<noteq> Some ''completed''")
    case True
    then obtain m where m: "m \<in> set (graph_metas (ex_db ex) gid)" "tstat (ex_db ex) (gm_task m) \<noteq> Some ''completed''"
        "gm_node m \<in> set (ex_in_flight ?poll)"
      using poll_starts [OF rest(1,2) assms(2) rest(3,4)] by blast
    then have "unfinished gid ?ex < unfinished gid ex"
      unfolding unfinished_def metas(1) by (intro filter_shrinks [of _ _ _ m]) (use kept status in \<open>auto simp del: executor_step.simps\<close>)
    then show ?thesis by simp
  next
    case False
    then have "unfinished gid ?ex = 0"
      unfolding unfinished_def metas(1) using kept by (auto simp: filter_empty_conv)
    then show ?thesis by simp
  qed
qed

lemma rounds_run:
  assumes "resting gid ps ex" and "accepted (map fst ps)"
  shows "resting gid ps ((executor_round gid job result now ^^ k) ex) \<and>
    unfinished gid ((executor_round gid job result now ^^ k) ex) \<le> unfinished gid ex - k"
proof (induction k)
  case 0
  show ?case using assms(1) by simp
next
  case (Suc k)
  then show ?case
    using round_step [OF _ assms(2), of gid "(executor_round gid job result now ^^ k) ex" job result now]
    by fastforce
qed

lemma loaded_status:
  assumes "stores_graph db gid ps"
  shows "gn_status ` set (load_nodes db gid) =
    (\<lambda>m. control_status_to_node_status (the (tstat db (gm_task m)))) ` set (graph_metas db gid)"
proof (intro equalityI subsetI)
  fix st assume "st \<in> gn_status ` set (load_nodes db gid)"
  then obtain n where n: "n \<in> set (load_nodes db gid)" "st = gn_status n" by blast
  from assms n(1) obtain p where "p \<in> set ps" "gn_status n = control_status_to_node_status (the (tstat db (fi_task (snd p))))"
    by (rule loaded_node)
  moreover have "graph_metas db gid = map (node_meta gid) ps"
    using assms by (simp add: stores_graph_def)
  ultimately show "st \<in> (\<lambda>m. control_status_to_node_status (the (tstat db (gm_task m)))) ` set (graph_metas db gid)"
    using n(2) by (auto intro!: image_eqI)
next
  fix st assume "st \<in> (\<lambda>m. control_status_to_node_status (the (tstat db (gm_task m)))) ` set (graph_metas db gid)"
  then obtain p where p: "p \<in> set ps" "st = control_status_to_node_status (the (tstat db (fi_task (snd p))))"
    using assms by (auto simp: stores_graph_def)
  show "st \<in> gn_status ` set (load_nodes db gid)"
    by (rule node_loaded [OF assms p(1)]) (simp add: p(2) rev_image_eqI)
qed

section \<open>Properties\<close>

text \<open>
  C29: what is created is what is read back. A graph created in a keyed store under an unused id loads with
  the given goal and agent and status pending, and its nodes, ordered by id, have the ids, descriptions,
  commands and dependencies they were given, all pending.
\<close>

theorem graph_reads_back:
  assumes "store_keyed db" and "unused_graph db gid" and "length fresh = length nodes"
    and "create_graph db gid fresh goal agent nodes now = (Ok g, db')"
  shows "map (\<lambda>n. (gn_id n, gn_description n, gn_shell_cmd n, set (gn_deps n), gn_status n)) (load_nodes db' gid) =
      map (\<lambda>s. (ns_id s, ns_description s, ns_shell_cmd s, set (ns_deps s), Node_Pending)) (sort_key ns_id nodes) \<and>
    map_option (\<lambda>t. (tg_id t, tg_goal t, tg_agent t, tg_status t)) (get_graph db' gid) =
      Some (gid, goal, agent, ''pending'')"
proof
  let ?ps = "sort_key (\<lambda>p. ns_id (fst p)) (zip nodes fresh)"
  have "map fst ?ps = sort_key ns_id nodes"
    using sort_key_map [of ns_id fst "zip nodes fresh"] map_fst_zip [OF assms(3) [symmetric]] by simp
  then have "map (\<lambda>s. (ns_id s, ns_description s, ns_shell_cmd s, set (ns_deps s), Node_Pending)) (sort_key ns_id nodes) =
      map (\<lambda>p. (ns_id (fst p), ns_description (fst p), ns_shell_cmd (fst p), set (ns_deps (fst p)), Node_Pending)) ?ps"
    by (metis (no_types, lifting) map_map comp_apply map_eq_conv)
  then show "map (\<lambda>n. (gn_id n, gn_description n, gn_shell_cmd n, set (gn_deps n), gn_status n)) (load_nodes db' gid) =
      map (\<lambda>s. (ns_id s, ns_description s, ns_shell_cmd s, set (ns_deps s), Node_Pending)) (sort_key ns_id nodes)"
    using created_rows(3) [OF assms]
    by (simp add: load_nodes_def created_load [OF assms] control_status_to_node_status_def)
  have "List.find (\<lambda>r. gr_id r = gid) (xs @ [x]) = Some x" if "gid \<notin> gr_id ` set xs" "gr_id x = gid"
    for xs and x :: graph_row
    using that by (induction xs) auto
  then have "List.find (\<lambda>r. gr_id r = gid) (gd_graphs db') = Some \<lparr>gr_id = gid, gr_goal = goal, gr_agent = agent,
      gr_created_at = now, gr_completed_at = None\<rparr>"
    unfolding created_exact(4) [OF assms(4)] using created_exact(3) [OF assms(4)] by simp
  then show "map_option (\<lambda>t. (tg_id t, tg_goal t, tg_agent t, tg_status t)) (get_graph db' gid) =
      Some (gid, goal, agent, ''pending'')"
    using created_status [OF assms] by (simp add: get_graph_def)
qed

text \<open>
  no node starts before the dependencies it was given are done. After a graph was created, whatever
  polls, job ends and gate decisions follow and in whatever order, a given dependency of a node that is
  running, completed or failed is a completed node of the graph.
\<close>

theorem given_dependencies_respected:
  assumes "store_keyed db" and "unused_graph db gid" and "length fresh = length nodes"
    and "create_graph db gid fresh goal agent nodes now = (Ok g, db')"
    and "dbn = ex_db (foldl (executor_step gid) \<lparr>ex_db = db', ex_in_flight = []\<rparr> events)"
    and "s \<in> set nodes" and "d \<in> set (ns_deps s)"
    and "n \<in> set (load_nodes dbn gid)" and "gn_id n = ns_id s" and "gn_status n \<noteq> Node_Pending"
  shows "\<exists>k. k \<in> set (load_nodes dbn gid) \<and> gn_id k = d \<and> gn_status k = Node_Completed"
proof -
  let ?ps = "zip nodes fresh"
  have wf: "store_wf db" using assms(1) by (simp add: store_keyed_def)
  have "stores_graph (ex_db (foldl (executor_step gid) \<lparr>ex_db = db', ex_in_flight = []\<rparr> events)) gid ?ps"
    by (rule stored.run_inv) (simp_all add: created_stores [OF wf assms(2-4)] list_all_iff)
  then have stored: "stores_graph dbn gid ?ps"
    by (simp only: assms(5))
  have nodes: "map fst ?ps = nodes"
    by (rule map_fst_zip [OF assms(3) [symmetric]])
  then obtain p where p: "p \<in> set ?ps" "fst p = s"
    using assms(6) by (metis (no_types, lifting) imageE list.set_map)
  have acc: "accepted nodes"
    by (rule created_accepted [OF wf assms(2-4)])
  have "d \<in> ns_id ` set (map fst ?ps)"
    using acc assms(6,7) unfolding nodes accepted_def dependency_edges_def by blast
  then obtain q where q: "q \<in> set ?ps" "ns_id (fst q) = d" by auto
  from stored assms(8) obtain p' where p': "p' \<in> set ?ps" "gn_id n = ns_id (fst p')"
      "set (gn_deps n) = set (ns_deps (fst p')) \<inter> (\<lambda>q. ns_id (fst q)) ` set ?ps"
    by (rule loaded_node)
  have "p' = p"
    using stored_distinct(1) [OF stored] p p' assms(9) by (auto simp: distinct_map dest: inj_onD)
  then have "d \<in> set (gn_deps n)"
    using p' p q assms(7) by auto
  then obtain m where m: "m \<in> set (graph_metas dbn gid)" "gm_node m = d" "tstat dbn (gm_task m) = Some ''completed''"
    using executor_respects_dependencies [OF wf assms(2-4), of events] assms(8,10)
    unfolding Let_def assms(5) [symmetric] tstat_def by blast
  moreover have "m = node_meta gid q"
    using m(1,2) q stored same_node [of dbn gid m "node_meta gid q"] by (simp add: stores_graph_def)
  ultimately have "tstat dbn (fi_task (snd q)) = Some ''completed''" by simp
  then have finished: "control_status_to_node_status (the (tstat dbn (fi_task (snd q)))) = Node_Completed"
    by (simp add: node_completed_status)
  obtain k where "k \<in> set (load_nodes dbn gid)" "gn_id k = ns_id (fst q)"
      "gn_status k = control_status_to_node_status (the (tstat dbn (fi_task (snd q))))"
    by (rule node_loaded [OF stored q(1)])
  then show ?thesis
    unfolding finished q(2) by blast
qed

lemma resting_start:
  assumes "store_keyed db" and "unused_graph db gid" and "length fresh = length nodes"
    and "create_graph db gid fresh goal agent nodes now = (Ok g, db')"
  shows "resting gid (zip nodes fresh) \<lparr>ex_db = db', ex_in_flight = []\<rparr>" and "accepted (map fst (zip nodes fresh))"
proof -
  have wf: "store_wf db" using assms(1) by (simp add: store_keyed_def)
  have stored: "stores_graph db' gid (zip nodes fresh)"
    by (rule created_stores [OF wf assms(2-4)])
  have "graph_metas db' gid = map (node_meta gid) (zip nodes fresh)"
    using stored by (simp add: stores_graph_def)
  then have "tstat db' (gm_task m) \<noteq> Some ''failed''" if "m \<in> set (graph_metas db' gid)" for m
    using that created_rows(1) [OF assms] by (auto simp: tstat_def split: if_split_asm)
  then show "resting gid (zip nodes fresh) \<lparr>ex_db = db', ex_in_flight = []\<rparr>"
    using created_alive [OF assms] stored by (simp add: resting_def)
  show "accepted (map fst (zip nodes fresh))"
    unfolding map_fst_zip [OF assms(3) [symmetric]] by (rule created_accepted [OF wf assms(2-4)])
qed

text \<open>
  the executor is never stuck. After any history of an accepted graph in which no task was held back for
  its budget, if no job is in flight, no node has failed and some node is not completed, then the next poll
  whose gates are open starts a job.
\<close>

theorem executor_never_stuck:
  assumes "store_keyed db" and "unused_graph db gid" and "length fresh = length nodes"
    and "create_graph db gid fresh goal agent nodes now = (Ok g, db')" and "list_all budget_open events"
    and "ex = foldl (executor_step gid) \<lparr>ex_db = db', ex_in_flight = []\<rparr> events"
    and "ex_in_flight ex = []" and "Node_Failed \<notin> gn_status ` set (load_nodes (ex_db ex) gid)"
    and "n \<in> set (load_nodes (ex_db ex) gid)" and "gn_status n \<noteq> Node_Completed"
  shows "ex_in_flight (executor_step gid ex (Poll (\<lambda>_. Run_It) job t)) \<noteq> []"
proof -
  note start = resting_start [OF assms(1-4)]
  have alive: "alive gid ex"
    unfolding assms(6) by (rule living.run_inv [OF _ assms(5)]) (use start(1) in \<open>simp add: resting_def\<close>)
  have stored: "stores_graph (ex_db ex) gid (zip nodes fresh)"
    unfolding assms(6) by (rule stored.run_inv) (use start(1) in \<open>simp_all add: resting_def list_all_iff\<close>)
  note status = loaded_status [OF stored]
  have "tstat (ex_db ex) (gm_task m) \<noteq> Some ''failed''" if "m \<in> set (graph_metas (ex_db ex) gid)" for m
    using assms(8) that unfolding status by (force simp: image_iff control_status_to_node_status_def)
  moreover have "gn_status n \<in> gn_status ` set (load_nodes (ex_db ex) gid)"
    using assms(9) by blast
  then have "\<exists>m\<in>set (graph_metas (ex_db ex) gid). tstat (ex_db ex) (gm_task m) \<noteq> Some ''completed''"
    using assms(10) unfolding status by (force simp: node_completed_status)
  ultimately show ?thesis
    using poll_starts [OF alive stored start(2) assms(7), of job t] by auto
qed

text \<open>
  an accepted graph is completed. If all gates are open and every job succeeds, then after as many rounds
  of polling as the graph has nodes all its nodes are completed, nothing is in flight, and its derived status is
  completed (a graph without nodes stays pending).
\<close>

theorem executor_completes:
  assumes "store_keyed db" and "unused_graph db gid" and "length fresh = length nodes"
    and "create_graph db gid fresh goal agent nodes now = (Ok g, db')"
    and "ex = (executor_round gid job result t ^^ length nodes) \<lparr>ex_db = db', ex_in_flight = []\<rparr>"
  shows "list_all (\<lambda>n. gn_status n = Node_Completed) (load_nodes (ex_db ex) gid) \<and> ex_in_flight ex = [] \<and>
    derived_graph_status (ex_db ex) gid = (if nodes = [] then ''pending'' else ''completed'')"
proof -
  let ?ps = "zip nodes fresh"
  note start = resting_start [OF assms(1-4)]
  let ?ex0 = "\<lparr>ex_db = db', ex_in_flight = []\<rparr>"
  have metas: "graph_metas db' gid = map (node_meta gid) ?ps"
    using start(1) by (simp add: resting_def stores_graph_def)
  then have "unfinished gid ?ex0 \<le> length nodes"
    using length_filter_le [of _ "graph_metas db' gid"] assms(3) by (simp add: unfinished_def)
  then have end_state: "resting gid ?ps ex" "unfinished gid ex = 0"
    using rounds_run [OF start, where k = "length nodes" and job = job and result = result and now = t] unfolding assms(5) by auto
  then have stored: "stores_graph (ex_db ex) gid ?ps" and idle: "ex_in_flight ex = []"
    by (simp_all add: resting_def)
  have metas: "graph_metas (ex_db ex) gid = map (node_meta gid) ?ps"
    using stored by (simp add: stores_graph_def)
  have completed: "tstat (ex_db ex) (gm_task m) = Some ''completed''" if "m \<in> set (graph_metas (ex_db ex) gid)" for m
    using end_state(2) that by (auto simp: unfinished_def filter_empty_conv)
  then have "gn_status ` set (load_nodes (ex_db ex) gid) \<subseteq> {Node_Completed}"
    unfolding loaded_status [OF stored] by (auto simp: node_completed_status)
  moreover have statuses: "load_control_task_statuses (ex_db ex) gid = replicate (length (remdups (map gm_task (graph_metas (ex_db ex) gid)))) ''completed''"
  proof -
    have "List.map_filter (\<lambda>tid. map_option ct_status (find_task (ex_db ex) tid)) tids = replicate (length tids) ''completed''"
      if "set tids \<subseteq> gm_task ` set (graph_metas (ex_db ex) gid)" for tids
      using that by (induction tids) (auto simp: map_filter_simps dest!: completed simp: tstat_def)
    then show ?thesis
      by (simp add: load_control_task_statuses_def)
  qed
  moreover have "(length (remdups (map gm_task (graph_metas (ex_db ex) gid))) = 0) = (nodes = [])"
    using assms(3) by (auto simp: metas)
  ultimately show ?thesis
    using idle by (auto simp: list_all_iff derived_graph_status_def Let_def)
qed

section \<open>A graph of two nodes\<close>

lemma chain_store: "store_keyed empty_store" "unused_graph empty_store ''g''" "length chain_fresh = length chain_nodes"
    "chain_created = (Ok ''g'', snd chain_created)"
  using chain_accepted
  by (simp_all add: store_keyed_def store_wf_def run_ids_def unused_graph_def graph_metas_def select_where_def prod_eq_iff)

lemma graph_reads_back_witness:
  "map (\<lambda>n. (gn_id n, set (gn_deps n))) (load_nodes (snd chain_created) ''g'') = [(''a'', {}), (''b'', {''a''})]"
proof -
  have "map (\<lambda>n. (gn_id n, gn_description n, gn_shell_cmd n, set (gn_deps n), gn_status n))
      (load_nodes (snd chain_created) ''g'') = [(''a'', [], [], {}, Node_Pending), (''b'', [], [], {''a''}, Node_Pending)]"
    using graph_reads_back [OF chain_store] by simp
  from arg_cong [OF this, of "map (\<lambda>x. (fst x, fst (snd (snd (snd x)))))"] show ?thesis
    by (simp add: comp_def)
qed

lemma executor_completes_witness:
  "derived_graph_status (ex_db ((executor_round ''g'' (\<lambda>n. n) ''r'' ''t'' ^^ 2)
     \<lparr>ex_db = snd chain_created, ex_in_flight = []\<rparr>)) ''g'' = ''completed''"
  using executor_completes [OF chain_store refl, of "\<lambda>n. n" "''r''" "''t''"] by (simp add: numeral_2_eq_2)

lemmas chain_run = create_graph_def create_task_graph_node_workflow_def validate_dag_def adjacency_of_def
  has_cycle.simps load_nodes_def load_control_graph_nodes_def graph_metas_def select_where_def
  create_task_graph_edges_def insert_edge_def map_filter_simps find_task_def find_run_def
  control_status_to_node_status_def load_graph_node_dependencies_def

lemma executor_never_stuck_witness:
  "ex_in_flight (executor_step ''g'' \<lparr>ex_db = snd chain_created, ex_in_flight = []\<rparr> (Poll (\<lambda>_. Run_It) (\<lambda>n. n) ''t'')) \<noteq> []"
proof -
  have status: "gn_status ` set (load_nodes (snd chain_created) ''g'') = {Node_Pending}"
    by (simp add: chain_run)
  then obtain n where "n \<in> set (load_nodes (snd chain_created) ''g'')" "gn_status n = Node_Pending"
    by blast
  then show ?thesis
    using executor_never_stuck [OF chain_store, of "[]" "\<lparr>ex_db = snd chain_created, ex_in_flight = []\<rparr>" n] status
    by simp
qed

abbreviation chain_after_a :: graph_db where
  "chain_after_a \<equiv> ex_db (foldl (executor_step ''g'') \<lparr>ex_db = snd chain_created, ex_in_flight = []\<rparr>
     [Poll (\<lambda>_. Run_It) (\<lambda>n. n) ''t'', Job_Succeeded ''a'' ''r'' ''t'', Poll (\<lambda>_. Run_It) (\<lambda>n. n) ''t''])"

lemma given_dependencies_respected_witness:
  "\<exists>k. k \<in> set (load_nodes chain_after_a ''g'') \<and> gn_id k = ''a'' \<and> gn_status k = Node_Completed"
proof -
  have "(''b'', Node_Running) \<in> (\<lambda>n. (gn_id n, gn_status n)) ` set (load_nodes chain_after_a ''g'')"
    by (simp add: chain_run ready_nodes_def node_ready_def mark_control_task_ready_def set_task_status_def
      cp_scheduler_list_ready_def runnable_nodes_def cp_task_graph_node_ids_def mark_node_running_def
      mark_control_task_running_def mark_node_complete_def mark_control_task_completed_def control_workflow_ids_def
      sync_graph_status_def update_where_def derived_graph_status_def load_control_task_statuses_def Let_def)
  then obtain n where n: "n \<in> set (load_nodes chain_after_a ''g'')" "gn_id n = ''b''" "gn_status n = Node_Running"
    by (auto simp del: executor_step.simps foldl_Cons)
  show ?thesis
    by (rule given_dependencies_respected [OF chain_store refl, of "chain_nodes ! 1" "''a''" n])
      (simp_all add: n del: executor_step.simps foldl_Cons)
qed

end
