(* ===== verification/Scheduled_Jobs.thy ===== *)
theory Scheduled_Jobs
  imports Machines Sql_Table
begin

text \<open>
  \<open>crates/raios-core/src/db/scheduler.rs\<close> and the worker of
  \<open>crates/raios-runtime/src/daemon/scheduler.rs\<close>: recurring jobs in the table \<open>cp_scheduled_jobs\<close>. A due job
  is claimed by one atomic update, then either fires or is reverted by the task spawned for it. Times are
  seconds; the textual timestamps compare as they do.
\<close>

section \<open>Table\<close>

datatype job_status = Job_Active | Job_Firing | Job_Paused | Job_Deleted

record scheduled_job =
  sj_id :: string
  sj_title :: string
  sj_agent :: string
  sj_description :: string
  sj_interval :: int
  sj_status :: job_status
  sj_last_run_at :: "int option"
  sj_next_run_at :: int
  sj_created_at :: int
  sj_run_count :: nat

definition cp_scheduled_job_create ::
  "scheduled_job list \<Rightarrow> string \<Rightarrow> string \<Rightarrow> string \<Rightarrow> string \<Rightarrow> int \<Rightarrow> int \<Rightarrow> (unit + string) \<times> scheduled_job list" where
  "cp_scheduled_job_create rows ident title agent description interval now =
     (if list_ex (\<lambda>j. sj_id j = ident) rows then (Err (), rows)
      else (Ok ident, rows @ [\<lparr>sj_id = ident, sj_title = title, sj_agent = agent,
        sj_description = description, sj_interval = interval, sj_status = Job_Active,
        sj_last_run_at = None, sj_next_run_at = now + interval, sj_created_at = now, sj_run_count = 0\<rparr>]))"

definition cp_scheduled_jobs_list :: "scheduled_job list \<Rightarrow> scheduled_job list" where
  "cp_scheduled_jobs_list rows =
     sort_key (\<lambda>j. - sj_created_at j) (select_where (\<lambda>j. sj_status j \<noteq> Job_Deleted) rows)"

definition job_due :: "int \<Rightarrow> scheduled_job \<Rightarrow> bool" where
  "job_due now j \<longleftrightarrow> sj_status j = Job_Active \<and> sj_next_run_at j \<le> now"

text \<open>\<open>UPDATE ... RETURNING\<close>: the rows it touched, as they are afterwards.\<close>

definition cp_scheduled_jobs_claim_due :: "scheduled_job list \<Rightarrow> int \<Rightarrow> scheduled_job list \<times> scheduled_job list" where
  "cp_scheduled_jobs_claim_due rows now =
     (map (\<lambda>j. j\<lparr>sj_status := Job_Firing\<rparr>) (select_where (job_due now) rows),
      update_where (job_due now) (\<lambda>j. j\<lparr>sj_status := Job_Firing\<rparr>) rows)"

definition cp_scheduled_job_mark_fired :: "scheduled_job list \<Rightarrow> string \<Rightarrow> int \<Rightarrow> int \<Rightarrow> scheduled_job list" where
  "cp_scheduled_job_mark_fired rows ident interval now =
     update_where (\<lambda>j. sj_id j = ident)
       (\<lambda>j. j\<lparr>sj_status := Job_Active, sj_last_run_at := Some now, sj_next_run_at := now + interval,
          sj_run_count := sj_run_count j + 1\<rparr>) rows"

definition cp_scheduled_job_revert_firing :: "scheduled_job list \<Rightarrow> string \<Rightarrow> int \<Rightarrow> int \<Rightarrow> scheduled_job list" where
  "cp_scheduled_job_revert_firing rows ident interval now =
     update_where (\<lambda>j. sj_id j = ident \<and> sj_status j = Job_Firing)
       (\<lambda>j. j\<lparr>sj_status := Job_Active, sj_next_run_at := now + interval\<rparr>) rows"

definition cp_scheduled_jobs_reset_firing :: "scheduled_job list \<Rightarrow> scheduled_job list" where
  "cp_scheduled_jobs_reset_firing rows =
     update_where (\<lambda>j. sj_status j = Job_Firing) (\<lambda>j. j\<lparr>sj_status := Job_Active\<rparr>) rows"

definition cp_scheduled_job_delete :: "scheduled_job list \<Rightarrow> string \<Rightarrow> scheduled_job list" where
  "cp_scheduled_job_delete rows ident =
     update_where (\<lambda>j. sj_id j = ident) (\<lambda>j. j\<lparr>sj_status := Job_Deleted\<rparr>) rows"

definition cp_scheduled_job_set_status ::
  "scheduled_job list \<Rightarrow> string \<Rightarrow> string \<Rightarrow> (string + unit) \<times> scheduled_job list" where
  "cp_scheduled_job_set_status rows ident status =
     (if status \<noteq> ''active'' \<and> status \<noteq> ''paused'' then (Err ''Status must be active or paused'', rows)
      else (Ok (), update_where (\<lambda>j. sj_id j = ident \<and> sj_status j \<noteq> Job_Deleted)
        (\<lambda>j. j\<lparr>sj_status := (if status = ''active'' then Job_Active else Job_Paused)\<rparr>) rows))"

definition cp_scheduled_job_trigger_now :: "scheduled_job list \<Rightarrow> string \<Rightarrow> int \<Rightarrow> scheduled_job list" where
  "cp_scheduled_job_trigger_now rows ident now =
     update_where (\<lambda>j. sj_id j = ident \<and> sj_status j \<noteq> Job_Deleted) (\<lambda>j. j\<lparr>sj_next_run_at := now\<rparr>) rows"

section \<open>The table as a machine\<close>

text \<open>
  The worker claims; the task it spawned for a job reports that the agent was started or not; the user
  creates, deletes, pauses, resumes and triggers; a restart resets what was firing.
\<close>

datatype job_event =
    Create_Job string string string string int int
  | Claim int
  | Fired string int int
  | Spawn_Failed string int int
  | Restart
  | Delete_Job string
  | Set_Status string string
  | Trigger string int

fun job_step :: "scheduled_job list \<Rightarrow> job_event \<Rightarrow> scheduled_job list" where
  "job_step rows (Create_Job i t a d n now) = snd (cp_scheduled_job_create rows i t a d n now)"
| "job_step rows (Claim now) = snd (cp_scheduled_jobs_claim_due rows now)"
| "job_step rows (Fired i n now) = cp_scheduled_job_mark_fired rows i n now"
| "job_step rows (Spawn_Failed i n now) = cp_scheduled_job_revert_firing rows i n now"
| "job_step rows Restart = cp_scheduled_jobs_reset_firing rows"
| "job_step rows (Delete_Job i) = cp_scheduled_job_delete rows i"
| "job_step rows (Set_Status i st) = snd (cp_scheduled_job_set_status rows i st)"
| "job_step rows (Trigger i now) = cp_scheduled_job_trigger_now rows i now"

interpretation job_table: keyed_table sj_id .

definition jobs_keyed :: "scheduled_job list \<Rightarrow> bool" where
  "jobs_keyed rows \<longleftrightarrow> distinct (map sj_id rows)"

lemma job_step_keyed: "jobs_keyed rows \<Longrightarrow> jobs_keyed (job_step rows e)"
  by (cases e) (auto simp: jobs_keyed_def cp_scheduled_job_create_def cp_scheduled_jobs_claim_due_def
      cp_scheduled_job_mark_fired_def cp_scheduled_job_revert_firing_def cp_scheduled_jobs_reset_firing_def
      cp_scheduled_job_delete_def cp_scheduled_job_set_status_def cp_scheduled_job_trigger_now_def
      job_table.keys_update list_ex_iff)

text \<open>The status of the job with an id.\<close>

definition job_status_of :: "scheduled_job list \<Rightarrow> string \<Rightarrow> job_status option" where
  "job_status_of rows i = map_option sj_status (List.find (\<lambda>j. sj_id j = i) rows)"

lemma status_of_update:
  assumes "\<And>j. sj_id (f j) = sj_id j"
  shows "job_status_of (update_where p f rows) i =
    map_option (\<lambda>j. if p j then sj_status (f j) else sj_status j) (List.find (\<lambda>j. sj_id j = i) rows)"
  by (induction rows) (auto simp: job_status_of_def update_where_def assms)

lemmas job_operations = cp_scheduled_jobs_claim_due_def cp_scheduled_job_mark_fired_def
  cp_scheduled_job_revert_firing_def cp_scheduled_jobs_reset_firing_def cp_scheduled_job_delete_def
  cp_scheduled_job_set_status_def cp_scheduled_job_trigger_now_def cp_scheduled_job_create_def

text \<open>What each event does to the status of one job that is there.\<close>

fun status_after :: "string \<Rightarrow> job_event \<Rightarrow> int \<Rightarrow> job_status \<Rightarrow> job_status" where
  "status_after i (Claim now) next_run st = (if st = Job_Active \<and> next_run \<le> now then Job_Firing else st)"
| "status_after i (Fired k n now) next_run st = (if k = i then Job_Active else st)"
| "status_after i (Spawn_Failed k n now) next_run st = (if k = i \<and> st = Job_Firing then Job_Active else st)"
| "status_after i Restart next_run st = (if st = Job_Firing then Job_Active else st)"
| "status_after i (Delete_Job k) next_run st = (if k = i then Job_Deleted else st)"
| "status_after i (Set_Status k s) next_run st =
     (if k = i \<and> st \<noteq> Job_Deleted then (if s = ''active'' then Job_Active else if s = ''paused'' then Job_Paused else st) else st)"
| "status_after i _ next_run st = st"

lemma job_status_step:
  assumes "List.find (\<lambda>j. sj_id j = i) rows = Some j"
  shows "job_status_of (job_step rows e) i = Some (status_after i e (sj_next_run_at j) (sj_status j))"
  using assms find_Some_in [OF assms]
  by (cases e) (auto simp: job_operations status_of_update job_due_def, auto simp: job_status_of_def find_append)

text \<open>Only a report that the agent was started, or the user, takes a job out of paused or deleted.\<close>

fun leaves_inactive :: "string \<Rightarrow> job_event \<Rightarrow> bool" where
  "leaves_inactive i (Fired k n now) \<longleftrightarrow> k \<noteq> i"
| "leaves_inactive i (Set_Status k s) \<longleftrightarrow> k \<noteq> i"
| "leaves_inactive i (Delete_Job k) \<longleftrightarrow> k \<noteq> i"
| "leaves_inactive i _ \<longleftrightarrow> True"

definition inactive_job :: "string \<Rightarrow> scheduled_job list \<Rightarrow> bool" where
  "inactive_job i rows \<longleftrightarrow> job_status_of rows i \<in> {Some Job_Paused, Some Job_Deleted}"

lemma inactive_step:
  assumes "inactive_job i rows" and "leaves_inactive i e"
  shows "job_status_of (job_step rows e) i = job_status_of rows i"
proof -
  obtain j where j: "List.find (\<lambda>j. sj_id j = i) rows = Some j" "sj_status j \<in> {Job_Paused, Job_Deleted}"
    using assms(1) by (auto simp: inactive_job_def job_status_of_def)
  then show ?thesis
    using assms(2) job_status_step [OF j(1), of e]
    by (cases e) (auto simp: job_status_of_def)
qed

interpretation inactive: terminal_machine job_step "leaves_inactive i" jobs_keyed "inactive_job i"
  "\<lambda>rows. job_status_of rows i" for i
  by unfold_locales (simp_all add: job_step_keyed inactive_step inactive_job_def [of i "job_step _ _"],
      simp add: inactive_job_def)

text \<open>A firing job stays so until its own report, a restart, or the user changes it.\<close>

fun leaves_firing :: "string \<Rightarrow> job_event \<Rightarrow> bool" where
  "leaves_firing i (Spawn_Failed k n now) \<longleftrightarrow> k \<noteq> i"
| "leaves_firing i Restart \<longleftrightarrow> False"
| "leaves_firing i e \<longleftrightarrow> leaves_inactive i e"

lemma firing_step:
  assumes "job_status_of rows i = Some Job_Firing" and "leaves_firing i e"
  shows "job_status_of (job_step rows e) i = Some Job_Firing"
proof -
  obtain j where j: "List.find (\<lambda>j. sj_id j = i) rows = Some j" "sj_status j = Job_Firing"
    using assms(1) by (auto simp: job_status_of_def)
  then show ?thesis
    using assms(2) job_status_step [OF j(1), of e] by (cases e) auto
qed

interpretation firing: terminal_machine job_step "leaves_firing i" jobs_keyed
  "\<lambda>rows. job_status_of rows i = Some Job_Firing" "\<lambda>rows. job_status_of rows i" for i
  by unfold_locales (simp_all add: job_step_keyed firing_step)

lemma claimed_iff:
  "i \<in> sj_id ` set (fst (cp_scheduled_jobs_claim_due rows now)) \<longleftrightarrow> (\<exists>j\<in>set rows. sj_id j = i \<and> job_due now j)"
  by (auto simp: cp_scheduled_jobs_claim_due_def select_where_def image_iff)

lemma status_of_row:
  "jobs_keyed rows \<Longrightarrow> j \<in> set rows \<Longrightarrow> job_status_of rows (sj_id j) = Some (sj_status j)"
  by (simp add: jobs_keyed_def job_status_of_def job_table.find_key)

section \<open>Properties\<close>

text \<open>
  C23: a due job is claimed exactly once. A claim takes precisely the active jobs that are due, and what
  it took is not claimed again, by whoever and whenever, until the task spawned for it reports, the worker
  restarts, or the user changes its status or deletes it.
\<close>

theorem claim_is_exclusive:
  assumes "jobs_keyed rows" and "list_all (leaves_firing i) events"
  shows "let claimed = (\<lambda>rs t. sj_id ` set (fst (cp_scheduled_jobs_claim_due rs t)))
    in (i \<in> claimed rows now \<longleftrightarrow> (\<exists>j. j \<in> set rows \<and> sj_id j = i \<and> sj_status j = Job_Active \<and> sj_next_run_at j \<le> now)) \<and>
       (i \<in> claimed rows now \<longrightarrow> i \<notin> claimed (foldl job_step (snd (cp_scheduled_jobs_claim_due rows now)) events) later)"
proof -
  let ?rows = "snd (cp_scheduled_jobs_claim_due rows now)"
  have "i \<notin> sj_id ` set (fst (cp_scheduled_jobs_claim_due (foldl job_step ?rows events) later))"
    if claimed: "i \<in> sj_id ` set (fst (cp_scheduled_jobs_claim_due rows now))"
  proof -
    obtain j where j: "j \<in> set rows" "sj_id j = i" "job_due now j"
      using claimed claimed_iff by blast
    have "List.find (\<lambda>k. sj_id k = i) rows = Some j"
      using assms(1) j job_table.find_key [of rows j] by (simp add: jobs_keyed_def)
    then have "job_status_of ?rows i = Some Job_Firing"
      using job_status_step [of i rows j "Claim now"] j(3) by (simp add: job_due_def)
    moreover have keyed: "jobs_keyed ?rows"
      using job_step_keyed [OF assms(1), of "Claim now"] by simp
    ultimately have "job_status_of (foldl job_step ?rows events) i = Some Job_Firing"
      and "jobs_keyed (foldl job_step ?rows events)"
      using firing.final_run [of ?rows i events] firing.run_inv [of ?rows i events] assms(2) by simp_all
    then show ?thesis
      unfolding claimed_iff using status_of_row by (force simp: job_due_def)
  qed
  then show ?thesis
    unfolding Let_def claimed_iff by (auto simp: job_due_def)
qed

text \<open>
  a paused or deleted job stays so through claims, failed spawns, triggers and restarts: without a
  report that its agent was started, only the user brings it back, and a deleted one not even the user.
\<close>

theorem inactive_job_stays:
  assumes "jobs_keyed rows" and "job_status_of rows i = Some st" and "st = Job_Paused \<or> st = Job_Deleted"
    and "list_all (leaves_inactive i) events"
  shows "job_status_of (foldl job_step rows events) i = Some st \<and>
    job_status_of (job_step (foldl job_step rows events) (Set_Status i ''active'')) i =
      Some (if st = Job_Deleted then Job_Deleted else Job_Active)"
proof -
  have stays: "job_status_of (foldl job_step rows events) i = Some st"
    using inactive.final_run [of rows i events] assms by (auto simp: inactive_job_def)
  then obtain j where "List.find (\<lambda>j. sj_id j = i) (foldl job_step rows events) = Some j" "sj_status j = st"
    by (auto simp: job_status_of_def)
  then show ?thesis
    using stays job_status_step [of i "foldl job_step rows events" j "Set_Status i ''active''"] assms(3) by auto
qed

text \<open>
  the report of a started agent brings a deleted job back. \<open>mark_fired\<close> sets the job active whatever
  its status is, so a job deleted (or paused) between its claim and the report is active again and due
  after its interval.
\<close>

theorem fired_report_revives_deleted_job:
  "let rows = foldl job_step [] [Create_Job i t a d n now, Claim (now + n), Delete_Job i, Fired i n (now + n)]
   in job_status_of rows i = Some Job_Active \<and>
      i \<in> sj_id ` set (fst (cp_scheduled_jobs_claim_due rows (now + n + n)))"
  unfolding Let_def claimed_iff
  by (simp add: job_operations job_status_of_def update_where_def select_where_def job_due_def)

section \<open>One job\<close>

abbreviation hourly :: "job_status \<Rightarrow> scheduled_job" where
  "hourly st \<equiv> \<lparr>sj_id = ''j'', sj_title = ''t'', sj_agent = ''a'', sj_description = ''d'', sj_interval = 3600,
     sj_status = st, sj_last_run_at = None, sj_next_run_at = 10, sj_created_at = 0, sj_run_count = 0\<rparr>"

lemma claim_is_exclusive_witness:
  "''j'' \<in> sj_id ` set (fst (cp_scheduled_jobs_claim_due [hourly Job_Active] 12)) \<and>
   ''j'' \<notin> sj_id ` set (fst (cp_scheduled_jobs_claim_due
      (foldl job_step (snd (cp_scheduled_jobs_claim_due [hourly Job_Active] 12)) [Trigger ''j'' 13]) 14))"
  using claim_is_exclusive [of "[hourly Job_Active]" "''j''" "[Trigger ''j'' 13]" 12 14]
  by (simp add: jobs_keyed_def Let_def del: foldl_Cons)

lemma inactive_job_stays_witness:
  "job_status_of (foldl job_step [hourly Job_Paused] [Claim 20, Restart, Trigger ''j'' 30]) ''j'' = Some Job_Paused"
  using inactive_job_stays [of "[hourly Job_Paused]" "''j''" Job_Paused "[Claim 20, Restart, Trigger ''j'' 30]"]
  by (simp add: jobs_keyed_def job_status_of_def del: foldl_Cons)

end
