(* ===== verification/Float32.thy ===== *)
theory Float32
  imports Complex_Main "HOL-Library.Log_Nat"
begin

text \<open>
  IEEE 754 single precision, as far as the modelled code uses \<open>f32\<close>: a number is a rational, an infinity
  or not a number, and every operation rounds its exact result to the nearest representable number, ties to
  even. (The sign of zero is left out; no modelled comparison sees it.)
\<close>

datatype f32 = NaN | Infinite bool | Fin rat

text \<open>The exponent \<open>k\<close> with \<open>2 ^ k \<le> a / b < 2 ^ (k + 1)\<close>, for positive integers.\<close>

definition floor_log2 :: "int \<Rightarrow> int \<Rightarrow> int" where
  "floor_log2 a b =
     (let k = bitlen a - bitlen b
      in if (if 0 \<le> k then a < b * 2 ^ nat k else a * 2 ^ nat (- k) < b) then k - 1 else k)"

definition pow2 :: "int \<Rightarrow> rat" where
  "pow2 k = (if 0 \<le> k then 2 ^ nat k else 1 / 2 ^ nat (- k))"

definition round_even :: "rat \<Rightarrow> int" where
  "round_even q =
     (let n = \<lfloor>q\<rfloor>; r = q - of_int n
      in if r < 1 / 2 then n else if 1 / 2 < r then n + 1 else if even n then n else n + 1)"

definition round32 :: "rat \<Rightarrow> f32" where
  "round32 q =
     (if q = 0 then Fin 0
      else let (a, b) = quotient_of \<bar>q\<bar>;
               e = max (floor_log2 a b - 23) (- 149);
               r = of_int (round_even (q / pow2 e)) * pow2 e
           in if 2 ^ 128 \<le> r then Infinite False else if r \<le> - (2 ^ 128) then Infinite True else Fin r)"

fun f_is_finite :: "f32 \<Rightarrow> bool" where
  "f_is_finite (Fin q) = True"
| "f_is_finite _ = False"

fun f_add :: "f32 \<Rightarrow> f32 \<Rightarrow> f32" where
  "f_add (Fin p) (Fin q) = round32 (p + q)"
| "f_add NaN y = NaN"
| "f_add x NaN = NaN"
| "f_add (Infinite s) (Infinite t) = (if s = t then Infinite s else NaN)"
| "f_add (Infinite s) (Fin q) = Infinite s"
| "f_add (Fin p) (Infinite t) = Infinite t"

fun f_neg :: "f32 \<Rightarrow> f32" where
  "f_neg (Fin q) = Fin (- q)"
| "f_neg (Infinite s) = Infinite (\<not> s)"
| "f_neg NaN = NaN"

definition f_sub :: "f32 \<Rightarrow> f32 \<Rightarrow> f32" where
  "f_sub x y = f_add x (f_neg y)"

fun f_abs :: "f32 \<Rightarrow> f32" where
  "f_abs (Fin q) = Fin \<bar>q\<bar>"
| "f_abs (Infinite s) = Infinite False"
| "f_abs NaN = NaN"

fun f_mul :: "f32 \<Rightarrow> f32 \<Rightarrow> f32" where
  "f_mul (Fin p) (Fin q) = round32 (p * q)"
| "f_mul NaN y = NaN"
| "f_mul x NaN = NaN"
| "f_mul (Infinite s) (Infinite t) = Infinite (s \<noteq> t)"
| "f_mul (Infinite s) (Fin q) = (if q = 0 then NaN else Infinite (s \<noteq> (q < 0)))"
| "f_mul (Fin p) (Infinite t) = (if p = 0 then NaN else Infinite ((p < 0) \<noteq> t))"

text \<open>Division by zero is by a positive zero here, as in all modelled divisions.\<close>

fun f_div :: "f32 \<Rightarrow> f32 \<Rightarrow> f32" where
  "f_div (Fin p) (Fin q) =
     (if q = 0 then (if p = 0 then NaN else Infinite (p < 0)) else round32 (p / q))"
| "f_div NaN y = NaN"
| "f_div x NaN = NaN"
| "f_div (Infinite s) (Infinite t) = NaN"
| "f_div (Infinite s) (Fin q) = Infinite (s \<noteq> (q < 0))"
| "f_div (Fin p) (Infinite t) = Fin 0"

text \<open>Comparison: false whenever an operand is not a number.\<close>

fun f_less :: "f32 \<Rightarrow> f32 \<Rightarrow> bool" where
  "f_less (Fin p) (Fin q) = (p < q)"
| "f_less NaN y = False"
| "f_less x NaN = False"
| "f_less (Infinite s) (Infinite t) = (s \<and> \<not> t)"
| "f_less (Infinite s) (Fin q) = s"
| "f_less (Fin p) (Infinite t) = (\<not> t)"

definition f_sum :: "f32 list \<Rightarrow> f32" where
  "f_sum xs = foldl f_add (Fin 0) xs"

text \<open>\<open>f32::clamp\<close> panics unless the bounds are in order.\<close>

definition f_clamp :: "f32 \<Rightarrow> f32 \<Rightarrow> f32 \<Rightarrow> f32 option" where
  "f_clamp lo hi x =
     (if lo = NaN \<or> hi = NaN \<or> f_less hi lo then None
      else Some (if f_less x lo then lo else if f_less hi x then hi else x))"

end
