(* ===== verification/Dock.thy ===== *)
theory Dock
  imports Machines Float32
begin

text \<open>
  \<open>tools/raios-workspace-native/crates/rwk-core/src/workbench/dock.rs\<close>: the arrangement of the terminal
  dock, a tree of tab groups and splits. A child of a split is the pair of its weight and its node; the
  mutable traversals of the code return the changed tree.
\<close>

section \<open>Data\<close>

datatype axis = Horizontal | Vertical

datatype edge = Left_Edge | Right_Edge | Top_Edge | Bottom_Edge

datatype drop_zone = Center | At_Edge edge

datatype dock_error = Dock_Error string | Clamp_Panic

datatype 'a node =
    Tabs "'a list" nat
  | Split axis "(f32 \<times> 'a node) list"

type_synonym 'a layout = "'a node option"

abbreviation max_depth :: nat where
  "max_depth \<equiv> 4"

abbreviation max_sessions :: nat where
  "max_sessions \<equiv> 12"

definition min_share :: f32 where
  "min_share = round32 (1 / 20)"

definition edge_band :: f32 where
  "edge_band = Fin (1 / 4)"

fun edge_axis :: "edge \<Rightarrow> axis" where
  "edge_axis Left_Edge = Horizontal"
| "edge_axis Right_Edge = Horizontal"
| "edge_axis Top_Edge = Vertical"
| "edge_axis Bottom_Edge = Vertical"

fun new_pane_first :: "edge \<Rightarrow> bool" where
  "new_pane_first Left_Edge = True"
| "new_pane_first Top_Edge = True"
| "new_pane_first _ = False"

text \<open>The zone under a pointer; the clamp to the unit interval cannot panic.\<close>

definition unit_clamp :: "f32 \<Rightarrow> f32" where
  "unit_clamp x =
     (if \<not> f_is_finite x then Fin (1 / 2)
      else if f_less x (Fin 0) then Fin 0 else if f_less (Fin 1) x then Fin 1 else x)"

definition f32_max :: f32 where
  "f32_max = Fin ((2 - 1 / 2 ^ 23) * 2 ^ 127)"

definition zone_at :: "f32 \<Rightarrow> f32 \<Rightarrow> drop_zone" where
  "zone_at fx0 fy0 =
     (let fx = unit_clamp fx0; fy = unit_clamp fy0;
          candidates = [(fx, Left_Edge), (f_sub (Fin 1) fx, Right_Edge),
                        (fy, Top_Edge), (f_sub (Fin 1) fy, Bottom_Edge)];
          (distance, edge) = foldl (\<lambda>best next. if f_less (fst next) (fst best) then next else best)
             (f32_max, Left_Edge) candidates
      in if f_less distance edge_band then At_Edge edge else Center)"

section \<open>The tree\<close>

fun node_depth :: "'a node \<Rightarrow> nat" where
  "node_depth (Tabs ss a) = 1"
| "node_depth (Split ax cs) = 1 + fold max (map (\<lambda>(w, n). node_depth n) cs) 0"

fun collect :: "'a node \<Rightarrow> 'a list" where
  "collect (Tabs ss a) = ss"
| "collect (Split ax cs) = concat (map (\<lambda>(w, n). collect n) cs)"

definition single :: "'a \<Rightarrow> 'a node" where
  "single i = Tabs [i] 0"

definition usable_weight :: "f32 \<Rightarrow> f32" where
  "usable_weight w = (if f_is_finite w \<and> f_less (Fin 0) w then w else Fin 1)"

text \<open>What a normalized child adds to the flattened children of its split.\<close>

fun flatten_child :: "axis \<Rightarrow> f32 \<Rightarrow> 'a node option \<Rightarrow> (f32 \<times> 'a node) list" where
  "flatten_child ax w None = []"
| "flatten_child ax w (Some (Split inner cs)) =
     (if inner = ax then map (\<lambda>(g, n). (f_mul w g, n)) cs else [(w, Split inner cs)])"
| "flatten_child ax w (Some (Tabs ss a)) = [(w, Tabs ss a)]"

definition scale_children :: "(f32 \<times> 'a node) list \<Rightarrow> (f32 \<times> 'a node) list" where
  "scale_children cs = (let tot = f_sum (map fst cs) in map (\<lambda>(w, n). (f_div w tot, n)) cs)"

fun normalize_node :: "'a node \<Rightarrow> 'a node option" where
  "normalize_node (Tabs ss a) = (if ss = [] then None else Some (Tabs ss (min a (length ss - 1))))"
| "normalize_node (Split ax cs) =
     (case concat (map (\<lambda>(w, n). flatten_child ax (usable_weight w) (normalize_node n)) cs) of
        [] \<Rightarrow> None
      | [(w, n)] \<Rightarrow> Some n
      | flat \<Rightarrow> Some (Split ax (scale_children flat)))"

fun validate_node :: "'a node \<Rightarrow> axis option \<Rightarrow> string + unit"
  and validate_children :: "axis \<Rightarrow> f32 \<Rightarrow> (f32 \<times> 'a node) list \<Rightarrow> string + f32" where
  "validate_node (Tabs ss a) parent =
     (if ss = [] then Err ''a group has no panes''
      else if length ss \<le> a then Err ''the active tab is out of range''
      else Ok ())"
| "validate_node (Split ax cs) parent =
     (if length cs < 2 then Err ''a split has fewer than two children''
      else if parent = Some ax then Err ''a split sits directly inside a split of its axis''
      else and_then (validate_children ax (Fin 0) cs) (\<lambda>tot.
        if f_less (round32 (1 / 1000)) (f_abs (f_sub tot (Fin 1)))
        then Err ''the weights of a split do not sum to one'' else Ok ()))"
| "validate_children ax tot [] = Ok tot"
| "validate_children ax tot ((w, n) # cs) =
     (if \<not> (f_is_finite w \<and> f_less (Fin 0) w) then Err ''a split weight is not a positive number''
      else and_then (validate_node n (Some ax)) (\<lambda>_. validate_children ax (f_add tot w) cs))"

fun path_of_group :: "'a node \<Rightarrow> 'a \<Rightarrow> nat list option"
  and path_in_children :: "(f32 \<times> 'a node) list \<Rightarrow> 'a \<Rightarrow> nat \<Rightarrow> nat list option" where
  "path_of_group (Tabs ss a) i = (if List.member ss i then Some [] else None)"
| "path_of_group (Split ax cs) i = path_in_children cs i 0"
| "path_in_children [] i k = None"
| "path_in_children ((w, n) # cs) i k =
     (case path_of_group n i of Some p \<Rightarrow> Some (k # p) | None \<Rightarrow> path_in_children cs i (Suc k))"

fun node_at :: "'a node \<Rightarrow> nat list \<Rightarrow> 'a node option" where
  "node_at n [] = Some n"
| "node_at (Split ax cs) (k # p) = (if k < length cs then node_at (snd (cs ! k)) p else None)"
| "node_at (Tabs ss a) (k # p) = None"

text \<open>\<open>node_at_mut\<close> followed by an assignment to the node it found.\<close>

fun set_node_at :: "'a node \<Rightarrow> nat list \<Rightarrow> 'a node \<Rightarrow> 'a node" where
  "set_node_at n [] m = m"
| "set_node_at (Split ax cs) (k # p) m =
     (if k < length cs then Split ax (cs[k := (fst (cs ! k), set_node_at (snd (cs ! k)) p m)])
      else Split ax cs)"
| "set_node_at (Tabs ss a) (k # p) m = Tabs ss a"

fun last_group_path :: "'a node \<Rightarrow> nat list" where
  "last_group_path (Tabs ss a) = []"
| "last_group_path (Split ax cs) =
     (length cs - 1) # (case map (\<lambda>(w, n). last_group_path n) cs of [] \<Rightarrow> [] | ps \<Rightarrow> last ps)"

fun take_out :: "'a node \<Rightarrow> 'a \<Rightarrow> bool \<times> 'a node"
  and take_out_children :: "(f32 \<times> 'a node) list \<Rightarrow> 'a \<Rightarrow> bool \<times> (f32 \<times> 'a node) list" where
  "take_out (Tabs ss a) i =
     (case position (\<lambda>other. other = i) ss of
        None \<Rightarrow> (False, Tabs ss a)
      | Some p \<Rightarrow>
          (let ss' = remove_at p ss
           in (True, Tabs ss' (if length ss' \<le> a then length ss' - 1 else if p < a then a - 1 else a))))"
| "take_out (Split ax cs) i = (case take_out_children cs i of (b, cs') \<Rightarrow> (b, Split ax cs'))"
| "take_out_children [] i = (False, [])"
| "take_out_children ((w, n) # cs) i =
     (case take_out n i of
        (True, n') \<Rightarrow> (True, (w, n') # cs)
      | (False, n') \<Rightarrow> (case take_out_children cs i of (b, cs') \<Rightarrow> (b, (w, n') # cs')))"

section \<open>The layout\<close>

definition sessions :: "'a layout \<Rightarrow> 'a list" where
  "sessions l = (case l of None \<Rightarrow> [] | Some tree \<Rightarrow> collect tree)"

definition dock_contains :: "'a layout \<Rightarrow> 'a \<Rightarrow> bool" where
  "dock_contains l i = (case l of None \<Rightarrow> False | Some tree \<Rightarrow> path_of_group tree i \<noteq> None)"

text \<open>A pane that repeats an earlier one.\<close>

fun has_repeat :: "'a list \<Rightarrow> 'a list \<Rightarrow> bool" where
  "has_repeat seen [] = False"
| "has_repeat seen (x # xs) = (List.member seen x \<or> has_repeat (seen @ [x]) xs)"

definition validate :: "'a layout \<Rightarrow> string + unit" where
  "validate l =
     (case l of
        None \<Rightarrow> Ok ()
      | Some tree \<Rightarrow>
          and_then (validate_node tree None) (\<lambda>_.
            if max_depth < node_depth tree then Err ''the layout is nested too deeply''
            else if max_sessions < length (sessions l) then Err ''too many panes''
            else if has_repeat [] (sessions l) then Err ''a pane appears twice''
            else Ok ()))"

definition transact ::
  "('a layout \<Rightarrow> dock_error + 'a layout) \<Rightarrow> 'a layout \<Rightarrow> (dock_error + unit) \<times> 'a layout" where
  "transact change l =
     (case change l of
        Inl e \<Rightarrow> (Err e, l)
      | Inr copy \<Rightarrow>
          (let next = Option.bind copy normalize_node
           in case validate next of
                Inl e \<Rightarrow> (Err (Dock_Error e), l)
              | Inr _ \<Rightarrow> (Ok (), next)))"

section \<open>Operations\<close>

abbreviation dock_err :: "string \<Rightarrow> dock_error + 'b" where
  "dock_err msg \<equiv> Err (Dock_Error msg)"

definition push_as_group :: "'a \<Rightarrow> 'a layout \<Rightarrow> dock_error + 'a layout" where
  "push_as_group i l =
     Ok (case l of
           None \<Rightarrow> Some (single i)
         | Some tree \<Rightarrow>
             (case tree of
                Split ax cs \<Rightarrow>
                  (if ax = Vertical
                   then Some (Split Vertical (cs @ [(f_div (Fin 1) (round32 (of_nat (length cs))), single i)]))
                   else Some (Split Vertical [(Fin 1, tree), (Fin 1, single i)]))
              | Tabs ss a \<Rightarrow> Some (Split Vertical [(Fin 1, tree), (Fin 1, single i)])))"

definition push_as_tab :: "'a \<Rightarrow> 'a layout \<Rightarrow> dock_error + 'a layout" where
  "push_as_tab i l =
     (case l of
        None \<Rightarrow> dock_err ''no group to join''
      | Some tree \<Rightarrow>
          (let path = last_group_path tree
           in case node_at tree path of
                Some (Tabs ss a) \<Rightarrow> Ok (Some (set_node_at tree path (Tabs (ss @ [i]) (length ss))))
              | _ \<Rightarrow> dock_err ''no group to join''))"

definition push_default :: "'a \<Rightarrow> 'a layout \<Rightarrow> (dock_error + unit) \<times> 'a layout" where
  "push_default i l =
     (if dock_contains l i then (dock_err ''the pane is already arranged'', l)
      else if max_sessions \<le> length (sessions l) then (dock_err ''too many panes'', l)
      else case transact (push_as_group i) l of
        (Inr u, l') \<Rightarrow> (Ok u, l')
      | (Inl e, l') \<Rightarrow> transact (push_as_tab i) l')"

definition stacked :: "'a list \<Rightarrow> 'a layout" where
  "stacked ids = foldl (\<lambda>l i. snd (push_default i l)) None ids"

definition remove_change :: "'a \<Rightarrow> 'a layout \<Rightarrow> dock_error + 'a layout" where
  "remove_change i l =
     (case l of None \<Rightarrow> dock_err ''empty'' | Some tree \<Rightarrow> Ok (Some (snd (take_out tree i))))"

definition remove_pane :: "'a \<Rightarrow> 'a layout \<Rightarrow> bool \<times> 'a layout" where
  "remove_pane i l =
     (if \<not> dock_contains l i then (False, l)
      else case transact (remove_change i) l of (r, l') \<Rightarrow> (is_ok r, l'))"

definition retain :: "('a \<Rightarrow> bool) \<Rightarrow> 'a layout \<Rightarrow> 'a layout" where
  "retain keep l = foldl (\<lambda>l i. if keep i then l else snd (remove_pane i l)) l (sessions l)"

definition activate_change :: "'a \<Rightarrow> 'a layout \<Rightarrow> dock_error + 'a layout" where
  "activate_change i l =
     (case l of
        None \<Rightarrow> dock_err ''empty''
      | Some tree \<Rightarrow>
          (case path_of_group tree i of
             None \<Rightarrow> dock_err ''unknown pane''
           | Some path \<Rightarrow>
               (case node_at tree path of
                  Some (Tabs ss a) \<Rightarrow> Ok (Some (set_node_at tree path
                    (Tabs ss (case position (\<lambda>other. other = i) ss of Some p \<Rightarrow> p | None \<Rightarrow> 0))))
                | _ \<Rightarrow> Ok (Some tree))))"

definition activate :: "'a \<Rightarrow> 'a layout \<Rightarrow> bool \<times> 'a layout" where
  "activate i l = (case transact (activate_change i) l of (r, l') \<Rightarrow> (is_ok r, l'))"

definition move_change :: "'a \<Rightarrow> 'a \<Rightarrow> nat \<Rightarrow> 'a layout \<Rightarrow> dock_error + 'a layout" where
  "move_change i into k l =
     (case l of
        None \<Rightarrow> dock_err ''empty''
      | Some tree \<Rightarrow>
          (if path_of_group tree i = None then dock_err ''unknown pane''
           else case path_of_group tree into of
             None \<Rightarrow> dock_err ''unknown target''
           | Some target \<Rightarrow>
               (let tree' = snd (take_out tree i)
                in case node_at tree' target of
                     Some (Tabs ss a) \<Rightarrow>
                       (let pos = min k (length ss)
                        in Ok (Some (set_node_at tree' target (Tabs (insert_at pos i ss) pos))))
                   | _ \<Rightarrow> dock_err ''unknown target'')))"

definition move_tab :: "'a \<Rightarrow> 'a \<Rightarrow> nat \<Rightarrow> 'a layout \<Rightarrow> (dock_error + unit) \<times> 'a layout" where
  "move_tab i into k = transact (move_change i into k)"

definition split_change :: "'a \<Rightarrow> 'a \<Rightarrow> edge \<Rightarrow> 'a layout \<Rightarrow> dock_error + 'a layout" where
  "split_change i target edge l =
     (case l of
        None \<Rightarrow> dock_err ''empty''
      | Some tree \<Rightarrow>
          (case path_of_group tree i of
             None \<Rightarrow> dock_err ''unknown pane''
           | Some source \<Rightarrow>
               (case path_of_group tree target of
                  None \<Rightarrow> dock_err ''unknown target''
                | Some target_path \<Rightarrow>
                    (if source = target_path \<and>
                        (case node_at tree source of Some (Tabs ss a) \<Rightarrow> length ss = 1 | _ \<Rightarrow> False)
                     then dock_err ''a lone pane cannot be split from itself''
                     else let tree' = snd (take_out tree i)
                       in case node_at tree' target_path of
                            None \<Rightarrow> dock_err ''unknown target''
                          | Some existing \<Rightarrow>
                              (let added = (Fin 1, single i); kept = (Fin 1, existing)
                               in Ok (Some (set_node_at tree' target_path
                                    (Split (edge_axis edge)
                                      (if new_pane_first edge then [added, kept] else [kept, added])))))))))"

definition split_pane :: "'a \<Rightarrow> 'a \<Rightarrow> edge \<Rightarrow> 'a layout \<Rightarrow> (dock_error + unit) \<times> 'a layout" where
  "split_pane i target edge = transact (split_change i target edge)"

definition resize_change :: "nat list \<Rightarrow> nat \<Rightarrow> f32 \<Rightarrow> 'a layout \<Rightarrow> dock_error + 'a layout" where
  "resize_change path boundary delta l =
     (case l of
        None \<Rightarrow> dock_err ''empty''
      | Some tree \<Rightarrow>
          (case node_at tree path of
             Some (Split ax cs) \<Rightarrow>
               (if length cs \<le> boundary + 1 then dock_err ''no such boundary''
                else let pair = f_add (fst (cs ! boundary)) (fst (cs ! (boundary + 1)))
                  in if f_less pair (f_mul (Fin 2) min_share)
                     then dock_err ''the neighbours are already at their minimum''
                     else case f_clamp min_share (f_sub pair min_share) (f_add (fst (cs ! boundary)) delta) of
                       None \<Rightarrow> Err Clamp_Panic
                     | Some first \<Rightarrow>
                         Ok (Some (set_node_at tree path (Split ax
                           (cs[boundary := (first, snd (cs ! boundary)),
                               boundary + 1 := (f_sub pair first, snd (cs ! (boundary + 1)))])))))
           | _ \<Rightarrow> dock_err ''no split at that path''))"

definition resize :: "nat list \<Rightarrow> nat \<Rightarrow> f32 \<Rightarrow> 'a layout \<Rightarrow> (dock_error + unit) \<times> 'a layout" where
  "resize path boundary delta l =
     (if \<not> f_is_finite delta then (dock_err ''the resize amount is not a number'', l)
      else transact (resize_change path boundary delta) l)"

definition neighbor :: "'a \<Rightarrow> int \<Rightarrow> 'a layout \<Rightarrow> 'a option" where
  "neighbor i delta l =
     (case position (\<lambda>other. other = i) (sessions l) of
        None \<Rightarrow> None
      | Some pos \<Rightarrow>
          (let target = int pos + delta
           in if 0 \<le> target \<and> nat target < length (sessions l) then Some (sessions l ! nat target) else None))"

definition group_of :: "'a \<Rightarrow> 'a layout \<Rightarrow> ('a list \<times> nat) option" where
  "group_of i l =
     (case l of None \<Rightarrow> None
      | Some tree \<Rightarrow>
          (case path_of_group tree i of None \<Rightarrow> None
           | Some path \<Rightarrow>
               (case node_at tree path of Some (Tabs ss a) \<Rightarrow> Some (ss, a) | _ \<Rightarrow> None)))"

definition group_mate :: "'a \<Rightarrow> 'a layout \<Rightarrow> 'a option" where
  "group_mate i l = Option.bind (group_of i l) (\<lambda>(ss, a). List.find (\<lambda>other. other \<noteq> i) ss)"

definition is_shown :: "'a \<Rightarrow> 'a layout \<Rightarrow> bool" where
  "is_shown i l = (case group_of i l of Some (ss, a) \<Rightarrow> a < length ss \<and> ss ! a = i | None \<Rightarrow> False)"

definition tab_position :: "'a \<Rightarrow> 'a layout \<Rightarrow> nat option" where
  "tab_position i l = Option.bind (group_of i l) (\<lambda>(ss, a). position (\<lambda>other. other = i) ss)"

fun swap_node :: "'a \<Rightarrow> 'a \<Rightarrow> 'a node \<Rightarrow> 'a node" where
  "swap_node x y (Tabs ss a) = Tabs (map (\<lambda>i. if i = x then y else if i = y then x else i) ss) a"
| "swap_node x y (Split ax cs) = Split ax (map (\<lambda>(w, n). (w, swap_node x y n)) cs)"

definition swap_change :: "'a \<Rightarrow> 'a \<Rightarrow> 'a layout \<Rightarrow> dock_error + 'a layout" where
  "swap_change x y l =
     (case l of None \<Rightarrow> dock_err ''empty'' | Some tree \<Rightarrow> Ok (Some (swap_node x y tree)))"

definition swap :: "'a \<Rightarrow> 'a \<Rightarrow> 'a layout \<Rightarrow> (dock_error + unit) \<times> 'a layout" where
  "swap x y l =
     (if x = y \<or> \<not> dock_contains l x \<or> \<not> dock_contains l y
      then (dock_err ''two different arranged panes are needed'', l)
      else transact (swap_change x y) l)"

definition ungroup :: "'a \<Rightarrow> 'a layout \<Rightarrow> (dock_error + unit) \<times> 'a layout" where
  "ungroup i l =
     (case group_mate i l of
        None \<Rightarrow> (dock_err ''the pane is not in a group of several'', l)
      | Some mate \<Rightarrow> split_pane i mate Bottom_Edge l)"

definition enclosing_split :: "'a \<Rightarrow> 'a layout \<Rightarrow> (nat list \<times> nat) option" where
  "enclosing_split i l =
     (case l of None \<Rightarrow> None
      | Some tree \<Rightarrow>
          (case path_of_group tree i of
             None \<Rightarrow> None
           | Some path \<Rightarrow> (if path = [] then None else Some (butlast path, last path))))"

definition grow :: "'a \<Rightarrow> f32 \<Rightarrow> 'a layout \<Rightarrow> (dock_error + unit) \<times> 'a layout" where
  "grow i delta l =
     (case enclosing_split i l of
        None \<Rightarrow> (dock_err ''the pane fills the dock'', l)
      | Some (path, child) \<Rightarrow>
          (case Option.bind l (\<lambda>tree. node_at tree path) of
             Some (Split ax cs) \<Rightarrow>
               (if child + 1 < length cs then resize path child delta l
                else resize path (child - 1) (f_neg delta) l)
           | _ \<Rightarrow> (dock_err ''no split at that path'', l)))"

definition set_boundary :: "nat list \<Rightarrow> nat \<Rightarrow> f32 \<Rightarrow> 'a layout \<Rightarrow> (dock_error + unit) \<times> 'a layout" where
  "set_boundary path boundary place l =
     (case Option.bind l (\<lambda>tree. node_at tree path) of
        Some (Split ax cs) \<Rightarrow>
          (if boundary + 1 < length cs
           then resize path boundary (f_sub place (f_sum (map fst (take (boundary + 1) cs)))) l
           else (dock_err ''no such boundary'', l))
      | _ \<Rightarrow> (dock_err ''no such boundary'', l))"

fun map_sessions :: "('a list \<Rightarrow> 'b list) \<Rightarrow> 'a node \<Rightarrow> 'b node" where
  "map_sessions f (Tabs ss a) = Tabs (f ss) a"
| "map_sessions f (Split ax cs) = Split ax (map (\<lambda>(w, n). (w, map_sessions f n)) cs)"

definition map_layout :: "('a \<Rightarrow> 'b) \<Rightarrow> 'a layout \<Rightarrow> 'b layout" where
  "map_layout convert = map_option (map_sessions (map convert))"

fun retain_new :: "'a list \<Rightarrow> 'a list \<Rightarrow> 'a list \<times> 'a list" where
  "retain_new seen [] = ([], seen)"
| "retain_new seen (i # ids) =
     (if List.member seen i \<or> max_sessions \<le> length seen then retain_new seen ids
      else case retain_new (seen @ [i]) ids of (kept, seen') \<Rightarrow> (i # kept, seen'))"

fun dedupe :: "'a node \<Rightarrow> 'a list \<Rightarrow> 'a node \<times> 'a list"
  and dedupe_children :: "(f32 \<times> 'a node) list \<Rightarrow> 'a list \<Rightarrow> (f32 \<times> 'a node) list \<times> 'a list" where
  "dedupe (Tabs ss a) seen = (case retain_new seen ss of (kept, seen') \<Rightarrow> (Tabs kept a, seen'))"
| "dedupe (Split ax cs) seen = (case dedupe_children cs seen of (cs', seen') \<Rightarrow> (Split ax cs', seen'))"
| "dedupe_children [] seen = ([], seen)"
| "dedupe_children ((w, n) # cs) seen =
     (case dedupe n seen of (n', seen1) \<Rightarrow>
        (case dedupe_children cs seen1 of (cs', seen2) \<Rightarrow> ((w, n') # cs', seen2)))"

definition sanitized :: "'a layout \<Rightarrow> 'a layout option" where
  "sanitized l =
     (let tree = Option.bind (map_option (\<lambda>n. fst (dedupe n [])) l) normalize_node
      in if is_ok (validate tree) then Some tree else None)"

definition filter_map_layout :: "('a \<Rightarrow> 'b option) \<Rightarrow> 'a layout \<Rightarrow> 'b layout" where
  "filter_map_layout convert l =
     (case sanitized (Option.bind l (\<lambda>n. normalize_node (map_sessions (List.map_filter convert) n))) of
        Some l' \<Rightarrow> l' | None \<Rightarrow> None)"

end
