(* ===== verification/Dock_Props.thy ===== *)
theory Dock_Props
  imports Dock
begin

text \<open>
  What the operations of \<open>Dock\<close> keep: the invariants that \<open>validate\<close> checks, and the panes.
\<close>

section \<open>Normalizing\<close>

definition collect_children :: "(f32 \<times> 'a node) list \<Rightarrow> 'a list" where
  "collect_children cs = concat (map (\<lambda>(w, n). collect n) cs)"

lemma collect_children_simps [simp]:
  "collect_children [] = []"
  "collect_children ((w, n) # cs) = collect n @ collect_children cs"
  "collect_children (xs @ ys) = collect_children xs @ collect_children ys"
  by (simp_all add: collect_children_def)

lemma collect_split: "collect (Split ax cs) = collect_children cs"
  by (simp add: collect_children_def)

declare collect.simps(2) [simp del] collect_split [simp]

lemma collect_children_reweigh: "collect_children (map (\<lambda>(w, n). (f w, n)) cs) = collect_children cs"
  by (induction cs) auto

lemma sessions_simps [simp]: "sessions None = []" "sessions (Some n) = collect n"
  by (simp_all add: sessions_def)

lemma collect_flatten: "collect_children (flatten_child ax w m) = sessions m"
  by (induction ax w m rule: flatten_child.induct) (auto simp: collect_children_reweigh)

definition flat_children :: "axis \<Rightarrow> (f32 \<times> 'a node) list \<Rightarrow> (f32 \<times> 'a node) list" where
  "flat_children ax cs = concat (map (\<lambda>(w, n). flatten_child ax (usable_weight w) (normalize_node n)) cs)"

lemma normalize_split:
  "normalize_node (Split ax cs) = (case flat_children ax cs of [] \<Rightarrow> None | [(w, n)] \<Rightarrow> Some n
     | flat \<Rightarrow> Some (Split ax (scale_children flat)))"
  by (simp add: flat_children_def)

declare normalize_node.simps(2) [simp del]

lemma normalize_split_cases:
  obtains (empty) "flat_children ax cs = []" "normalize_node (Split ax cs) = None"
  | (one) w n where "flat_children ax cs = [(w, n)]" "normalize_node (Split ax cs) = Some n"
  | (more) "2 \<le> length (flat_children ax cs)"
    "normalize_node (Split ax cs) = Some (Split ax (scale_children (flat_children ax cs)))"
proof (cases "flat_children ax cs")
  case Nil
  then show thesis using empty by (simp add: normalize_split)
next
  case (Cons c rest)
  obtain w n where c: "c = (w, n)" by (cases c)
  show thesis
  proof (cases rest)
    case Nil
    then show thesis using Cons c one by (simp add: normalize_split)
  next
    case (Cons d ds)
    then show thesis using \<open>flat_children ax cs = c # rest\<close> c more by (simp add: normalize_split)
  qed
qed

lemma collect_flat_children:
  "(\<And>w n. (w, n) \<in> set cs \<Longrightarrow> sessions (normalize_node n) = collect n) \<Longrightarrow>
     collect_children (flat_children ax cs) = collect_children cs"
proof (induction cs)
  case (Cons c cs)
  obtain w n where c: "c = (w, n)" by (cases c)
  have "sessions (normalize_node n) = collect n" and "collect_children (flat_children ax cs) = collect_children cs"
    using Cons c by auto
  then show ?case
    by (simp add: c flat_children_def collect_flatten)
qed (simp add: flat_children_def)

lemma collect_normalize: "sessions (normalize_node n) = collect n"
proof (induction n rule: normalize_node.induct)
  case (2 ax cs)
  have flat: "collect_children (flat_children ax cs) = collect_children cs"
    by (rule collect_flat_children) (use 2 in blast)
  show ?case
  proof (cases rule: normalize_split_cases [of ax cs])
    case empty
    then show ?thesis using flat by simp
  next
    case (one w n)
    then show ?thesis using flat by simp
  next
    case more
    then show ?thesis
      using flat by (simp add: scale_children_def Let_def collect_children_reweigh)
  qed
qed simp

text \<open>The shape that \<open>validate_node\<close> asks for, weights aside.\<close>

fun well_shaped :: "axis option \<Rightarrow> 'a node \<Rightarrow> bool" where
  "well_shaped parent (Tabs ss a) \<longleftrightarrow> a < length ss"
| "well_shaped parent (Split ax cs) \<longleftrightarrow>
     2 \<le> length cs \<and> parent \<noteq> Some ax \<and> (\<forall>(w, n)\<in>set cs. well_shaped (Some ax) n)"

lemma flatten_shaped:
  assumes "\<And>m. r = Some m \<Longrightarrow> well_shaped None m"
  shows "\<forall>(v, n)\<in>set (flatten_child ax w r). well_shaped (Some ax) n"
  using assms by (cases "(ax, w, r)" rule: flatten_child.cases) auto

lemma well_shaped_any: "well_shaped p n \<Longrightarrow> well_shaped None n"
  by (cases n) auto

lemma normalize_shaped: "normalize_node n = Some m \<Longrightarrow> well_shaped None m"
proof (induction n arbitrary: m rule: normalize_node.induct)
  case (1 ss a)
  then show ?case by (cases ss) (auto split: if_splits)
next
  case (2 ax cs)
  have flat: "\<forall>(v, n)\<in>set (flat_children ax cs). well_shaped (Some ax) n"
  proof -
    have "\<forall>(v, n)\<in>set (flatten_child ax (usable_weight w) (normalize_node n)). well_shaped (Some ax) n"
      if "(w, n) \<in> set cs" for w n
      using 2(1) that by (intro flatten_shaped) blast
    then show ?thesis
      by (fastforce simp: flat_children_def)
  qed
  show ?case
  proof (cases rule: normalize_split_cases [of ax cs])
    case empty
    then show ?thesis using 2(2) by simp
  next
    case (one w n)
    then show ?thesis
      using flat 2(2) well_shaped_any by auto
  next
    case more
    then show ?thesis
      using flat 2(2) by (fastforce simp: scale_children_def Let_def)
  qed
qed

section \<open>Transactions\<close>

lemma sessions_bind_normalize: "sessions (Option.bind copy normalize_node) = sessions copy"
  by (cases copy) (simp_all add: collect_normalize)

lemma transact_Ok:
  assumes "transact change l = (Inr u, l')"
  obtains copy where "change l = Inr copy" "validate l' = Ok ()" "sessions l' = sessions copy"
    "l' = Option.bind copy normalize_node"
  using assms by (auto simp: transact_def Let_def sessions_bind_normalize split: sum.splits)

lemma transact_Err: "transact change l = (Inl e, l') \<Longrightarrow> l' = l"
  by (auto simp: transact_def Let_def split: sum.splits)

lemma transact_valid: "validate l = Ok () \<Longrightarrow> validate (snd (transact change l)) = Ok ()"
  by (auto simp: transact_def Let_def split: sum.splits)

section \<open>Taking panes out and putting them back\<close>

lemma position_iff: "position (\<lambda>other. other = i) ss = None \<longleftrightarrow> i \<notin> set ss"
  by (auto simp: position_None_iff)

lemma take_out_panes:
  "fst (take_out n i) = (i \<in> set (collect n)) \<and>
     mset (collect n) = (if i \<in> set (collect n) then add_mset i (mset (collect (snd (take_out n i))))
       else mset (collect (snd (take_out n i))))"
  "fst (take_out_children cs i) = (i \<in> set (collect_children cs)) \<and>
     mset (collect_children cs) = (if i \<in> set (collect_children cs)
       then add_mset i (mset (collect_children (snd (take_out_children cs i))))
       else mset (collect_children (snd (take_out_children cs i))))"
proof (induction n i and cs i rule: take_out_take_out_children.induct)
  case (1 ss a i)
  show ?case
  proof (cases "position (\<lambda>other. other = i) ss")
    case None
    then show ?thesis using position_iff [of i ss] by simp
  next
    case (Some p)
    then have "i \<in> set ss" "p < length ss" "ss ! p = i"
      using position_iff [of i ss] position_Some [of _ ss p] by auto
    then show ?thesis
      using Some mset_remove_at [of p ss] by (simp add: Let_def)
  qed
next
  case (2 ax cs i)
  then show ?case by (simp add: case_prod_beta)
next
  case (4 w n cs i)
  then show ?case by (auto split: prod.splits bool.splits if_splits)
qed simp

lemma take_out_children_nth:
  "length (snd (take_out_children cs i)) = length cs \<and>
   (\<forall>j<length cs. snd (snd (take_out_children cs i) ! j) = snd (cs ! j) \<or>
      snd (snd (take_out_children cs i) ! j) = snd (take_out (snd (cs ! j)) i))"
proof (induction cs)
  case (Cons c cs)
  obtain w n where c: "c = (w, n)" by (cases c)
  show ?case
  proof -
    have "snd (snd (take_out_children (c # cs) i) ! j) = snd ((c # cs) ! j) \<or>
        snd (snd (take_out_children (c # cs) i) ! j) = snd (take_out (snd ((c # cs) ! j)) i)"
      if "j < length (c # cs)" for j
      using that Cons.IH by (cases j) (auto simp: c split: prod.splits bool.splits)
    then show ?thesis
      using Cons.IH by (auto simp: c split: prod.splits bool.splits)
  qed
qed simp

text \<open>A group stays where it is when a pane is taken out somewhere.\<close>

lemma take_out_group:
  "node_at n p = Some (Tabs ss a) \<Longrightarrow> \<exists>ss' a'. node_at (snd (take_out n i)) p = Some (Tabs ss' a')"
proof (induction n p arbitrary: ss a rule: node_at.induct)
  case (1 n)
  then show ?case by (auto simp: Let_def split: option.splits)
next
  case (2 ax cs k p)
  then have k: "k < length cs" and inner: "node_at (snd (cs ! k)) p = Some (Tabs ss a)"
    by (auto split: if_splits)
  obtain b cs' where out: "take_out_children cs i = (b, cs')"
    by (cases "take_out_children cs i")
  have "snd (cs' ! k) = snd (cs ! k) \<or> snd (cs' ! k) = snd (take_out (snd (cs ! k)) i)" "length cs' = length cs"
    using take_out_children_nth [of cs i] k out by auto
  then show ?case
    using 2(1) [OF k inner] inner k out by auto
qed simp

lemma collect_children_update:
  "k < length cs \<Longrightarrow> mset (collect_children (cs[k := (w, m)])) + mset (collect (snd (cs ! k))) =
     mset (collect_children cs) + mset (collect m)"
proof (induction cs arbitrary: k)
  case (Cons c cs)
  obtain v n where "c = (v, n)" by (cases c)
  then show ?case
    using Cons by (cases k) (simp_all add: ac_simps)
qed simp

lemma multiset_exchange:
  fixes a b c d m m' :: "'x multiset"
  assumes "a + b = c + d" and "d + m = b + m'"
  shows "a + m = c + m'"
proof -
  have "(a + m) + b = (a + b) + m" by (simp add: ac_simps)
  also have "\<dots> = c + (d + m)" by (simp add: assms(1) ac_simps)
  also have "\<dots> = (c + m') + b" by (simp add: assms(2) ac_simps)
  finally show ?thesis by simp
qed

lemma collect_set_node_at:
  "node_at n p = Some m \<Longrightarrow> mset (collect (set_node_at n p m')) + mset (collect m) = mset (collect n) + mset (collect m')"
proof (induction n p rule: node_at.induct)
  case (2 ax cs k p)
  then have k: "k < length cs" and inner: "node_at (snd (cs ! k)) p = Some m"
    by (auto split: if_splits)
  have "mset (collect_children (cs[k := (fst (cs ! k), set_node_at (snd (cs ! k)) p m')])) + mset (collect (snd (cs ! k))) =
      mset (collect_children cs) + mset (collect (set_node_at (snd (cs ! k)) p m'))"
    by (rule collect_children_update [OF k])
  moreover have "mset (collect (set_node_at (snd (cs ! k)) p m')) + mset (collect m) =
      mset (collect (snd (cs ! k))) + mset (collect m')"
    by (rule 2(1) [OF k inner])
  ultimately have "mset (collect_children (cs[k := (fst (cs ! k), set_node_at (snd (cs ! k)) p m')])) + mset (collect m) =
      mset (collect_children cs) + mset (collect m')"
    by (rule multiset_exchange)
  then show ?case
    using k by simp
qed simp_all

lemma path_found:
  "(path_of_group n i = None \<longleftrightarrow> i \<notin> set (collect n)) \<and>
     (\<forall>p. path_of_group n i = Some p \<longrightarrow> (\<exists>ss a. node_at n p = Some (Tabs ss a) \<and> i \<in> set ss))"
  "(path_in_children cs i k = None \<longleftrightarrow> i \<notin> set (collect_children cs)) \<and>
     (\<forall>p. path_in_children cs i k = Some p \<longrightarrow>
        (\<exists>j q ss a. p = (k + j) # q \<and> j < length cs \<and> node_at (snd (cs ! j)) q = Some (Tabs ss a) \<and> i \<in> set ss))"
proof (induction n i and cs i k rule: path_of_group_path_in_children.induct)
  case (2 ax cs i)
  then show ?case by fastforce
next
  case (4 w n cs i k)
  show ?case
  proof (cases "path_of_group n i")
    case None
    then show ?thesis
      using 4 by (fastforce simp: nth_Cons')
  next
    case (Some q)
    then show ?thesis
      using 4(1) by fastforce
  qed
qed auto

section \<open>What each operation does to the panes\<close>

lemma path_None: "path_of_group n i = None \<longleftrightarrow> i \<notin> set (collect n)"
  using path_found(1) [of n i] by simp

lemma path_Some_in: "path_of_group n i = Some p \<Longrightarrow> i \<in> set (collect n)"
  using path_None [of n i] by auto

lemma contains_iff: "dock_contains l i \<longleftrightarrow> i \<in> set (sessions l)"
proof (cases l)
  case (Some t)
  then show ?thesis
    using path_None [of t i] by (simp add: dock_contains_def)
qed (simp add: dock_contains_def)

lemma push_as_group_panes: "push_as_group i l = Inr copy \<Longrightarrow> mset (sessions copy) = add_mset i (mset (sessions l))"
  by (auto simp: push_as_group_def single_def split: option.splits node.splits if_splits)

lemma push_as_tab_panes: "push_as_tab i l = Inr copy \<Longrightarrow> mset (sessions copy) = add_mset i (mset (sessions l))"
proof (cases l)
  case (Some t)
  assume "push_as_tab i l = Inr copy"
  then obtain ss a where at: "node_at t (last_group_path t) = Some (Tabs ss a)"
      "copy = Some (set_node_at t (last_group_path t) (Tabs (ss @ [i]) (length ss)))"
    by (auto simp: push_as_tab_def Some Let_def split: option.splits node.splits)
  then show ?thesis
    using collect_set_node_at [OF at(1), of "Tabs (ss @ [i]) (length ss)"] by (simp add: Some)
qed (simp add: push_as_tab_def)

lemma push_default_panes:
  "push_default i l = (Inr u, l') \<Longrightarrow> i \<notin> set (sessions l) \<and> mset (sessions l') = add_mset i (mset (sessions l))"
  using push_as_group_panes push_as_tab_panes
  by (auto simp: push_default_def contains_iff elim!: transact_Ok dest!: transact_Err
      split: if_splits prod.splits sum.splits)

lemma push_default_refused: "push_default i l = (Inl e, l') \<Longrightarrow> l' = l"
  by (auto simp: push_default_def dest!: transact_Err split: if_splits prod.splits sum.splits)

lemma remove_panes:
  "remove_pane i l = (True, l') \<Longrightarrow> mset (sessions l) = add_mset i (mset (sessions l'))"
proof -
  assume a: "remove_pane i l = (True, l')"
  then have i: "i \<in> set (sessions l)" and ok: "transact (remove_change i) l = (Inr (), l')"
    by (auto simp: remove_pane_def contains_iff is_ok_iff split: if_splits prod.splits)
  from ok obtain copy where "remove_change i l = Inr copy" "sessions l' = sessions copy"
    by (rule transact_Ok)
  moreover from this obtain t where "l = Some t" "copy = Some (snd (take_out t i))"
    by (auto simp: remove_change_def split: option.splits)
  ultimately show ?thesis
    using i take_out_panes(1) [of t i] by simp
qed

lemma remove_refused: "remove_pane i l = (False, l') \<Longrightarrow> l' = l"
  by (auto simp: remove_pane_def not_is_ok_iff dest!: transact_Err split: if_splits prod.splits)

text \<open>A change that keeps the panes.\<close>

definition keeps_panes :: "('a layout \<Rightarrow> dock_error + 'a layout) \<Rightarrow> 'a layout \<Rightarrow> bool" where
  "keeps_panes change l \<longleftrightarrow> (\<forall>copy. change l = Inr copy \<longrightarrow> mset (sessions copy) = mset (sessions l))"

lemma transact_keeps: "keeps_panes change l \<Longrightarrow> mset (sessions (snd (transact change l))) = mset (sessions l)"
  by (auto simp: keeps_panes_def transact_def Let_def sessions_bind_normalize split: sum.splits)

lemma activate_keeps: "keeps_panes (activate_change i) l"
proof -
  have "mset (collect (set_node_at t p (Tabs ss b))) = mset (collect t)"
    if "node_at t p = Some (Tabs ss a)" for t :: "'a node" and p ss a b
    using collect_set_node_at [OF that, of "Tabs ss b"] by simp
  then show ?thesis
    by (auto simp: keeps_panes_def activate_change_def split: option.splits node.splits)
qed

lemma resize_keeps: "keeps_panes (resize_change p k d) l"
proof -
  have "collect_children (cs[i := (v, snd (cs ! i)), Suc i := (w, snd (cs ! Suc i))]) = collect_children cs"
    if "Suc i < length cs" for cs :: "(f32 \<times> 'a node) list" and i v w
    using that
  proof (induction cs arbitrary: i)
    case (Cons c cs)
    then show ?case
      by (cases c; cases i; cases cs) (auto simp: collect_children_def split: prod.splits)
  qed simp
  then have "mset (collect (set_node_at t p (Split ax (cs[i := (v, snd (cs ! i)), Suc i := (w, snd (cs ! Suc i))])))) =
      mset (collect t)" if "node_at t p = Some (Split ax cs)" "Suc i < length cs" for t :: "'a node" and ax cs i v w
    using that collect_set_node_at [OF that(1), of "Split ax (cs[i := (v, snd (cs ! i)), Suc i := (w, snd (cs ! Suc i))])"]
    by simp
  then show ?thesis
    by (auto simp: keeps_panes_def resize_change_def Let_def not_le split: option.splits node.splits if_splits)
qed

lemma move_change_Ok:
  assumes "move_change i into k l = Inr copy"
  obtains t p ss a j where "l = Some t" "i \<in> set (collect t)" "node_at (snd (take_out t i)) p = Some (Tabs ss a)"
    "copy = Some (set_node_at (snd (take_out t i)) p (Tabs (insert_at j i ss) j))"
  using assms unfolding move_change_def Let_def
  by (force dest: path_Some_in split: option.splits node.splits if_splits)

lemma move_keeps: "keeps_panes (move_change i into k) l"
  unfolding keeps_panes_def
proof (intro allI impI)
  fix copy assume "move_change i into k l = Inr copy"
  then obtain t p ss a j where "l = Some t" "i \<in> set (collect t)"
      and at: "node_at (snd (take_out t i)) p = Some (Tabs ss a)"
      and "copy = Some (set_node_at (snd (take_out t i)) p (Tabs (insert_at j i ss) j))"
    by (rule move_change_Ok)
  then show "mset (sessions copy) = mset (sessions l)"
    using collect_set_node_at [OF at, of "Tabs (insert_at j i ss) j"] take_out_panes(1) [of t i] by simp
qed

lemma split_keeps: "keeps_panes (split_change i target e) l"
proof -
  have "mset (collect (set_node_at (snd (take_out t i)) p (Split ax (if b then [(v, single i), (w, m)] else [(w, m), (v, single i)])))) =
      mset (collect t)"
    if "node_at (snd (take_out t i)) p = Some m" "i \<in> set (collect t)" for t p m ax b v w
    using collect_set_node_at [OF that(1), of "Split ax (if b then [(v, single i), (w, m)] else [(w, m), (v, single i)])"]
      take_out_panes(1) [of t i] that(2)
    by (simp add: single_def split: if_splits)
  moreover have "path_of_group t i = Some q \<Longrightarrow> i \<in> set (collect t)" for t q
    using path_Some_in .
  ultimately show ?thesis
    by (auto simp: keeps_panes_def split_change_def Let_def split: option.splits if_splits)
qed

lemma collect_swap: "collect (swap_node x y n) = map (\<lambda>i. if i = x then y else if i = y then x else i) (collect n)"
proof (induction n rule: swap_node.induct)
  case (2 x y ax cs)
  then show ?case
    by (simp add: collect_children_def map_concat comp_def case_prod_beta cong: map_cong) (metis (no_types, lifting) map_cong prod.collapse)
qed simp

section \<open>The dock as a machine\<close>

datatype 'a dock_event =
    Push 'a
  | Remove 'a
  | Retain "'a \<Rightarrow> bool"
  | Activate 'a
  | Move 'a 'a nat
  | Split_Off 'a 'a edge
  | Resize "nat list" nat f32
  | Swap 'a 'a
  | Ungroup 'a
  | Grow 'a f32
  | Set_Boundary "nat list" nat f32

fun dock_step :: "'a layout \<Rightarrow> 'a dock_event \<Rightarrow> 'a layout" where
  "dock_step l (Push i) = snd (push_default i l)"
| "dock_step l (Remove i) = snd (remove_pane i l)"
| "dock_step l (Retain keep) = retain keep l"
| "dock_step l (Activate i) = snd (activate i l)"
| "dock_step l (Move i into k) = snd (move_tab i into k l)"
| "dock_step l (Split_Off i target e) = snd (split_pane i target e l)"
| "dock_step l (Resize p k d) = snd (resize p k d l)"
| "dock_step l (Swap x y) = snd (swap x y l)"
| "dock_step l (Ungroup i) = snd (ungroup i l)"
| "dock_step l (Grow i d) = snd (grow i d l)"
| "dock_step l (Set_Boundary p k d) = snd (set_boundary p k d l)"

definition valid_layout :: "'a layout \<Rightarrow> bool" where
  "valid_layout l \<longleftrightarrow> validate l = Ok ()"

lemma valid_transact: "valid_layout l \<Longrightarrow> valid_layout (snd (transact change l))"
  by (simp add: valid_layout_def transact_valid)

lemma valid_push: "valid_layout l \<Longrightarrow> valid_layout (snd (push_default i l))"
  using valid_transact [of l "push_as_group i"] valid_transact [of l "push_as_tab i"] transact_Err [of "push_as_group i" l]
  by (auto simp: push_default_def split: prod.splits sum.splits)

lemma valid_remove: "valid_layout l \<Longrightarrow> valid_layout (snd (remove_pane i l))"
  using valid_transact [of l "remove_change i"] by (auto simp: remove_pane_def split: prod.splits)

lemma valid_retain: "valid_layout l \<Longrightarrow> valid_layout (retain keep l)"
proof -
  have "valid_layout l \<Longrightarrow> valid_layout (foldl (\<lambda>l i. if keep i then l else snd (remove_pane i l)) l is)" for "is"
    by (induction "is" arbitrary: l) (simp_all add: valid_remove)
  then show "valid_layout l \<Longrightarrow> valid_layout (retain keep l)"
    by (simp add: retain_def)
qed

lemma valid_resize: "valid_layout l \<Longrightarrow> valid_layout (snd (resize p k d l))"
  by (simp add: resize_def valid_transact)

lemma dock_step_valid: "valid_layout l \<Longrightarrow> valid_layout (dock_step l e)"
proof (cases e)
  case (Activate i)
  then show "valid_layout l \<Longrightarrow> ?thesis"
    using valid_transact [of l "activate_change i"] by (auto simp: activate_def split: prod.splits)
qed (auto simp: valid_push valid_remove valid_retain valid_resize valid_transact move_tab_def split_pane_def
    swap_def ungroup_def grow_def set_boundary_def split: option.splits node.splits prod.splits)

interpretation dock: machine dock_step "\<lambda>_. True" valid_layout
  by unfold_locales (rule dock_step_valid)

lemma has_repeat_iff: "\<not> has_repeat seen xs \<longleftrightarrow> distinct xs \<and> set seen \<inter> set xs = {}"
  by (induction seen xs rule: has_repeat.induct) auto

lemma validate_shaped:
  fixes n :: "'a node" and cs :: "(f32 \<times> 'a node) list"
  shows "validate_node n parent = Ok () \<Longrightarrow> well_shaped parent n"
  "validate_children ax tot cs = Ok t \<Longrightarrow> \<forall>(w, n)\<in>set cs. well_shaped (Some ax) n"
proof (induction n parent and ax tot cs arbitrary: and t rule: validate_node_validate_children.induct)
  case (2 ax cs parent)
  then show ?case by (auto simp: and_then_Inr_iff split: if_splits)
next
  case (4 ax tot w n cs)
  then show ?case by (auto simp: and_then_Inr_iff split: if_splits)
qed (auto split: if_splits)

lemma valid_iff_checks:
  "valid_layout l \<Longrightarrow> distinct (sessions l) \<and> length (sessions l) \<le> max_sessions \<and>
     (\<forall>t. l = Some t \<longrightarrow> well_shaped None t \<and> node_depth t \<le> max_depth)"
  by (cases l) (auto simp: valid_layout_def validate_def and_then_Inr_iff has_repeat_iff
      dest: validate_shaped(1) split: if_splits)

section \<open>Properties\<close>

text \<open>
  C22: whatever the gestures, the dock stays well formed. After any sequence of operations on an empty dock,
  refused ones included, the panes are distinct and at most twelve, the tree is nested at most four deep,
  every group has a pane and its active tab is one of them, and every split has at least two children, none
  of them a split of the same axis.
\<close>

theorem dock_always_well_formed:
  "let l = foldl dock_step None events
   in validate l = Ok () \<and> distinct (sessions l) \<and> length (sessions l) \<le> 12 \<and>
      (case l of None \<Rightarrow> True | Some t \<Rightarrow> well_shaped None t \<and> node_depth t \<le> 4)"
proof -
  have "valid_layout (foldl dock_step None events)"
    using dock.run_inv [of None events] by (simp add: valid_layout_def validate_def list_all_iff)
  then show ?thesis
    using valid_iff_checks [of "foldl dock_step None events"]
    by (auto simp: Let_def valid_layout_def split: option.splits)
qed

text \<open>
  no pane is lost or duplicated by rearranging. Adding a pane that is accepted adds exactly that pane,
  removing takes exactly that pane, a refused operation changes nothing, and moving, splitting off,
  activating, resizing, growing, ungrouping and dragging a divider keep the panes (as a multiset).
\<close>

theorem dock_conserves_panes:
  "(case push_default i l of (Inr _, l') \<Rightarrow> mset (sessions l') = add_mset i (mset (sessions l))
      | (Inl _, l') \<Rightarrow> l' = l) \<and>
   (case remove_pane i l of (True, l') \<Rightarrow> mset (sessions l) = add_mset i (mset (sessions l'))
      | (False, l') \<Rightarrow> l' = l) \<and>
   mset (sessions (snd (move_tab i j k l))) = mset (sessions l) \<and>
   mset (sessions (snd (split_pane i j e l))) = mset (sessions l) \<and>
   mset (sessions (snd (ungroup i l))) = mset (sessions l) \<and>
   mset (sessions (snd (activate i l))) = mset (sessions l) \<and>
   mset (sessions (snd (resize p k d l))) = mset (sessions l) \<and>
   mset (sessions (snd (grow i d l))) = mset (sessions l) \<and>
   mset (sessions (snd (set_boundary p k d l))) = mset (sessions l)"
proof (intro conjI)
  have split: "mset (sessions (snd (split_pane i j e l))) = mset (sessions l)" for i j e
    by (simp add: split_pane_def transact_keeps split_keeps)
  have resize: "mset (sessions (snd (resize p k d l))) = mset (sessions l)" for p k d
    by (simp add: resize_def transact_keeps resize_keeps)
  show "mset (sessions (snd (split_pane i j e l))) = mset (sessions l)"
    by (rule split)
  show "mset (sessions (snd (ungroup i l))) = mset (sessions l)"
    by (simp add: ungroup_def split split: option.splits)
  show "mset (sessions (snd (resize p k d l))) = mset (sessions l)"
    by (rule resize)
  show "mset (sessions (snd (grow i d l))) = mset (sessions l)"
    by (simp add: grow_def resize split: option.splits node.splits prod.splits)
  show "mset (sessions (snd (set_boundary p k d l))) = mset (sessions l)"
    by (simp add: set_boundary_def resize split: option.splits node.splits)
  show "mset (sessions (snd (move_tab i j k l))) = mset (sessions l)"
    by (simp add: move_tab_def transact_keeps move_keeps)
  show "mset (sessions (snd (activate i l))) = mset (sessions l)"
    using transact_keeps [OF activate_keeps, of i l] by (simp add: activate_def case_prod_beta)
  show "case push_default i l of (Inr _, l') \<Rightarrow> mset (sessions l') = add_mset i (mset (sessions l))
      | (Inl _, l') \<Rightarrow> l' = l"
    using push_default_panes [of i l] push_default_refused [of i l] by (auto split: prod.splits sum.splits)
  show "case remove_pane i l of (True, l') \<Rightarrow> mset (sessions l) = add_mset i (mset (sessions l'))
      | (False, l') \<Rightarrow> l' = l"
    using remove_panes [of i l] remove_refused [of i l] by (auto split: prod.splits bool.splits)
qed

text \<open>
  normalizing repairs the shape and nothing else. The result has the same panes in the same order, no
  empty group, no active tab out of range, no split of fewer than two children and none directly inside a
  split of its axis; there is no result exactly when there is no pane.
\<close>

theorem normalize_repairs_shape:
  "case normalize_node n of
     None \<Rightarrow> collect n = []
   | Some m \<Rightarrow> collect m = collect n \<and> well_shaped None m"
  using collect_normalize [of n] normalize_shaped [of n] by (cases "normalize_node n") auto

lemma retain_new_append:
  "retain_new seen (xs @ ys) =
     (case retain_new seen xs of (a, s1) \<Rightarrow> (case retain_new s1 ys of (b, s2) \<Rightarrow> (a @ b, s2)))"
  by (induction seen xs rule: retain_new.induct) (auto split: prod.splits)

lemma dedupe_collect:
  "(collect (fst (dedupe n seen)), snd (dedupe n seen)) = retain_new seen (collect n)"
  "(collect_children (fst (dedupe_children cs seen)), snd (dedupe_children cs seen)) =
     retain_new seen (collect_children cs)"
  for n :: "'a node" and cs :: "(f32 \<times> 'a node) list"
proof (induction n seen and cs seen rule: dedupe_dedupe_children.induct)
  case (4 w n cs seen)
  obtain n' seen1 where d: "dedupe n seen = (n', seen1)" by (cases "dedupe n seen")
  obtain cs' seen2 where ds: "dedupe_children cs seen1 = (cs', seen2)" by (cases "dedupe_children cs seen1")
  have "retain_new seen (collect n) = (collect n', seen1)"
    using 4(1) d by simp
  moreover have "retain_new seen1 (collect_children cs) = (collect_children cs', seen2)"
    using 4(2) [OF d [symmetric]] ds by simp
  ultimately show ?case
    by (simp add: d ds retain_new_append)
qed (auto split: prod.splits)

lemma retain_new_props:
  "retain_new seen xs = (kept, seen') \<Longrightarrow> subseq kept xs \<and> seen' = seen @ kept \<and>
     (length seen \<le> max_sessions \<longrightarrow> length seen' \<le> max_sessions) \<and>
     (distinct seen \<longrightarrow> distinct seen') \<and> (length seen' < max_sessions \<longrightarrow> set xs \<subseteq> set seen')"
proof (induction seen xs arbitrary: kept seen' rule: retain_new.induct)
  case (2 seen i ids)
  show ?case
  proof (cases "List.member seen i \<or> max_sessions \<le> length seen")
    case True
    then show ?thesis
      using 2(1,3) by auto
  next
    case False
    obtain k s where r: "retain_new (seen @ [i]) ids = (k, s)"
      by (cases "retain_new (seen @ [i]) ids")
    then show ?thesis
      using False 2(2) [OF False r] 2(3) by auto
  qed
qed simp

text \<open>
  a layout read from a file is safe to use once sanitized: it passes every check, its panes are the first
  occurrences of the stored ones in their order, and a pane is missing only if twelve others are there.
\<close>

theorem sanitized_layout_safe:
  assumes "sanitized l = Some l'"
  shows "validate l' = Ok () \<and> subseq (sessions l') (sessions l) \<and> distinct (sessions l') \<and>
    (length (sessions l') < 12 \<longrightarrow> set (sessions l') = set (sessions l))"
proof -
  have l': "l' = Option.bind (map_option (\<lambda>n. fst (dedupe n [])) l) normalize_node" and ok: "is_ok (validate l')"
    using assms by (auto simp: sanitized_def Let_def split: if_splits)
  have "sessions l' = fst (retain_new [] (sessions l))"
    using dedupe_collect(1) [of "the l" "[]"] unfolding l' sessions_bind_normalize
    by (cases l) (auto dest: arg_cong [of _ _ fst])
  then obtain seen where r: "retain_new [] (sessions l) = (sessions l', seen)"
    by (cases "retain_new [] (sessions l)") auto
  have "subseq (sessions l') (sessions l)" "seen = sessions l'" "distinct seen"
      "length seen < max_sessions \<Longrightarrow> set (sessions l) \<subseteq> set seen"
    using retain_new_props [OF r] by auto
  moreover have "set (sessions l') \<subseteq> set (sessions l)"
    using \<open>subseq (sessions l') (sessions l)\<close> by (auto dest: list_emb_set)
  ultimately show ?thesis
    using ok by (auto simp: is_ok_iff)
qed

section \<open>A stored layout with a repeated pane\<close>

lemma sanitized_layout_safe_witness:
  "case sanitized (Some (Tabs [1, 2, 1 :: nat] 7)) of
     Some l' \<Rightarrow> validate l' = Ok () \<and> sessions l' = [1, 2] | None \<Rightarrow> False"
  using sanitized_layout_safe [of "Some (Tabs [1, 2, 1 :: nat] 7)" "Some (Tabs [1, 2] 1)"]
  by (simp add: sanitized_def validate_def sessions_def)

end
