(* ===== verification/Text_Lines.thy ===== *)
theory Text_Lines
  imports Prelude
begin

text \<open>
  The line and slice operations of Rust's \<open>str\<close> and \<open>slice\<close> the editor code calls:
  \<open>split_inclusive('\n')\<close>, \<open>lines\<close>, \<open>join\<close> and indexing with a range, which panics when the
  range does not fit (\<open>None\<close> here).
\<close>

abbreviation newline :: char where
  "newline \<equiv> CHR 0x0A"

abbreviation carriage_return :: char where
  "carriage_return \<equiv> CHR 0x0D"

section \<open>Lines\<close>

fun split_inclusive :: "string \<Rightarrow> string list" where
  "split_inclusive [] = []"
| "split_inclusive (c # cs) =
     (if c = newline then [c] # split_inclusive cs
      else (case split_inclusive cs of [] \<Rightarrow> [[c]] | l # ls \<Rightarrow> (c # l) # ls))"

text \<open>\<open>str::lines\<close> drops the line break, a carriage return before it included.\<close>

definition strip_line_break :: "string \<Rightarrow> string" where
  "strip_line_break l =
     (case strip_suffix l [newline] of
        None \<Rightarrow> l
      | Some b \<Rightarrow> (case strip_suffix b [carriage_return] of None \<Rightarrow> b | Some a \<Rightarrow> a))"

definition str_lines :: "string \<Rightarrow> string list" where
  "str_lines s = map strip_line_break (split_inclusive s)"

fun join_with :: "string \<Rightarrow> string list \<Rightarrow> string" where
  "join_with sep [] = []"
| "join_with sep [l] = l"
| "join_with sep (l # k # ls) = l @ sep @ join_with sep (k # ls)"

definition full_line :: "string \<Rightarrow> bool" where
  "full_line l \<longleftrightarrow> l \<noteq> [] \<and> last l = newline \<and> newline \<notin> set (butlast l)"

lemma concat_split_inclusive [simp]: "concat (split_inclusive s) = s"
  by (induction s) (auto split: list.splits)

lemma split_inclusive_body:
  "newline \<notin> set b \<Longrightarrow> split_inclusive (b @ newline # s) = (b @ [newline]) # split_inclusive s"
  by (induction b) auto

lemma full_line_iff: "full_line l \<longleftrightarrow> (\<exists>b. l = b @ [newline] \<and> newline \<notin> set b)"
  by (metis append_butlast_last_id butlast_snoc full_line_def last_snoc snoc_eq_iff_butlast)

lemma split_inclusive_full_lines:
  "list_all full_line ls \<Longrightarrow> split_inclusive (concat ls @ s) = ls @ split_inclusive s"
proof (induction ls)
  case (Cons l ls)
  then obtain b where "l = b @ [newline]" "newline \<notin> set b"
    by (auto simp: full_line_iff)
  then show ?case
    using Cons by (simp add: split_inclusive_body)
qed simp

lemma split_inclusive_no_break: "newline \<notin> set l \<Longrightarrow> l \<noteq> [] \<Longrightarrow> split_inclusive l = [l]"
proof (induction l)
  case (Cons c cs)
  then show ?case
    by (cases "cs = []") auto
qed simp

lemma split_inclusive_join:
  "\<forall>l\<in>set ls. newline \<notin> set l \<and> l \<noteq> [] \<Longrightarrow>
   length (split_inclusive (join_with [newline] ls)) = length ls"
proof (induction "[newline]" ls rule: join_with.induct)
  case (3 l k ls)
  then show ?case
    by (simp add: split_inclusive_body)
qed (simp_all add: split_inclusive_no_break)

lemma split_inclusive_pieces:
  "l \<in> set (split_inclusive s) \<Longrightarrow> l \<noteq> [] \<and> newline \<notin> set (butlast l)"
proof (induction s arbitrary: l)
  case (Cons c cs)
  show ?case
  proof (cases "split_inclusive cs")
    case Nil
    then show ?thesis
      using Cons.prems by (auto split: if_splits)
  next
    case (Cons k ks)
    then have "k \<noteq> [] \<and> newline \<notin> set (butlast k)" "\<And>j. j \<in> set ks \<Longrightarrow> j \<noteq> [] \<and> newline \<notin> set (butlast j)"
      using Cons.IH by auto
    then show ?thesis
      using Cons Cons.prems by (auto split: if_splits)
  qed
qed simp

lemma strip_suffix_snoc: "strip_suffix (b @ [c]) [d] = (if c = d then Some b else None)"
  by (simp add: strip_suffix_def ends_with_def)

lemma strip_suffix_Nil: "strip_suffix [] [d] = None"
  by (simp add: strip_suffix_def ends_with_def)

lemma set_strip_suffix: "strip_suffix l p = Some b \<Longrightarrow> set b \<subseteq> set l"
  by (auto simp: strip_suffix_def split: if_splits dest: in_set_takeD)

lemma strip_line_break_no_newline:
  assumes "newline \<notin> set (butlast l)"
  shows "newline \<notin> set (strip_line_break l)"
proof (cases l rule: rev_cases)
  case Nil
  then show ?thesis
    by (simp add: strip_line_break_def strip_suffix_Nil)
next
  case (snoc b c)
  then show ?thesis
    using assms set_strip_suffix [of b "[carriage_return]"]
    by (auto simp: strip_line_break_def strip_suffix_snoc split: option.split)
qed

lemma str_lines_no_newline: "l \<in> set (str_lines s) \<Longrightarrow> newline \<notin> set l"
  using split_inclusive_pieces strip_line_break_no_newline by (fastforce simp: str_lines_def)

lemma length_str_lines_join:
  "\<forall>l\<in>set ls. newline \<notin> set l \<and> l \<noteq> [] \<Longrightarrow> length (str_lines (join_with [newline] ls)) = length ls"
  by (simp add: str_lines_def split_inclusive_join)

section \<open>Slices\<close>

definition slice :: "nat \<Rightarrow> nat \<Rightarrow> 'a list \<Rightarrow> 'a list option" where
  "slice a b xs = (if a \<le> b \<and> b \<le> length xs then Some (take (b - a) (drop a xs)) else None)"

lemma slice_from_start [simp]: "b \<le> length xs \<Longrightarrow> slice 0 b xs = Some (take b xs)"
  by (simp add: slice_def)

lemma slice_to_end [simp]: "a \<le> length xs \<Longrightarrow> slice a (length xs) xs = Some (drop a xs)"
  by (simp add: slice_def)

lemma slice_middle: "slice (length xs) (length xs + length ys) (xs @ ys @ zs) = Some ys"
  by (simp add: slice_def)

end
