(* ===== verification/Conflicts.thy ===== *)
theory Conflicts
  imports Text_Lines "HOL-Library.Monad_Syntax"
begin

text \<open>
  Git merge-conflict blocks of a file (\<open>rwk-core/src/workbench/conflicts.rs\<close>): finding the
  blocks, the block around a line, the next block, and replacing a block by the chosen side.
  The reference definition \<open>is_block\<close> says which lines form a block without scanning; the
  scanner is shown to find exactly these. An out-of-range slice would panic: \<open>resolve\<close> is
  \<open>None\<close> then, and \<open>Some None\<close> where the code returns \<open>None\<close>.
\<close>

section \<open>The code\<close>

record conflict =
  c_start :: nat
  c_base :: "nat option"
  c_middle :: nat
  c_end :: nat

datatype side = Ours | Theirs | Both

definition is_marker :: "string \<Rightarrow> char \<Rightarrow> bool" where
  "is_marker line mark =
     (let line = trim_end_by (\<lambda>c. c = newline \<or> c = carriage_return) line;
          run = length (takeWhile (\<lambda>c. c = mark) line)
      in run = 7 \<and> (length line = 7 \<or> (mark \<noteq> CHR ''='' \<and> starts_with (drop 7 line) '' '')))"

type_synonym open_block = "nat \<times> nat option \<times> nat option"

fun find_step :: "nat \<times> string \<Rightarrow> open_block option \<times> conflict list \<Rightarrow> open_block option \<times> conflict list" where
  "find_step (index, line) (None, found) =
     (if is_marker line (CHR ''<'') then Some (index, None, None) else None, found)"
| "find_step (index, line) (Some (start, base, middle), found) =
     (if is_marker line (CHR ''<'') then (Some (index, None, None), found)
      else if middle = None \<and> base = None \<and> is_marker line (CHR ''|'')
      then (Some (start, Some index, middle), found)
      else if middle = None \<and> is_marker line (CHR ''='')
      then (Some (start, base, Some index), found)
      else (case middle of
              Some mid \<Rightarrow>
                if is_marker line (CHR ''>'')
                then (None, found @ [\<lparr>c_start = start, c_base = base, c_middle = mid, c_end = index\<rparr>])
                else (Some (start, base, middle), found)
            | None \<Rightarrow> (Some (start, base, middle), found)))"

definition find_conflicts :: "string \<Rightarrow> conflict list" where
  "find_conflicts text =
     snd (fold find_step (enumerate 0 (split_inclusive text)) (None, []))"

definition conflict_at :: "string \<Rightarrow> nat \<Rightarrow> conflict option" where
  "conflict_at text line =
     List.find (\<lambda>c. c_start c \<le> line \<and> line \<le> c_end c) (find_conflicts text)"

definition next_after :: "string \<Rightarrow> nat \<Rightarrow> nat option" where
  "next_after text line =
     (let all = find_conflicts text
      in map_option c_start
           (case List.find (\<lambda>c. line < c_start c) all of
              Some c \<Rightarrow> Some c
            | None \<Rightarrow> (case all of [] \<Rightarrow> None | c # cs \<Rightarrow> Some c)))"

definition resolve_conflict :: "string \<Rightarrow> nat \<Rightarrow> side \<Rightarrow> string option option" where
  "resolve_conflict text line s =
     (case conflict_at text line of
        None \<Rightarrow> Some None
      | Some c \<Rightarrow>
          (let lines = split_inclusive text;
               ours_end = (case c_base c of Some b \<Rightarrow> b | None \<Rightarrow> c_middle c)
           in do {
                ours \<leftarrow> slice (c_start c + 1) ours_end lines;
                theirs \<leftarrow> slice (c_middle c + 1) (c_end c) lines;
                let kept = (if s = Ours \<or> s = Both then ours else [])
                         @ (if s = Theirs \<or> s = Both then theirs else []);
                before \<leftarrow> slice 0 (c_start c) lines;
                after \<leftarrow> slice (c_end c + 1) (length lines) lines;
                Some (Some (concat before @ concat kept @ concat after))
              }))"

section \<open>The reference: what a block is\<close>

definition marks :: "string list \<Rightarrow> nat \<Rightarrow> char \<Rightarrow> bool" where
  "marks ls i c \<longleftrightarrow> is_marker (ls ! i) c"

definition is_block :: "string list \<Rightarrow> conflict \<Rightarrow> bool" where
  "is_block ls c \<longleftrightarrow>
     c_start c < c_middle c \<and> c_middle c < c_end c \<and> c_end c < length ls \<and>
     marks ls (c_start c) (CHR ''<'') \<and>
     (\<forall>i\<in>{c_start c <.. c_end c}. \<not> marks ls i (CHR ''<'')) \<and>
     c_base c = List.find (\<lambda>i. marks ls i (CHR ''|'')) [Suc (c_start c)..<c_middle c] \<and>
     marks ls (c_middle c) (CHR ''='') \<and>
     (\<forall>i\<in>{c_start c <..< c_middle c}. \<not> marks ls i (CHR ''='')) \<and>
     marks ls (c_end c) (CHR ''>'') \<and>
     (\<forall>i\<in>{c_middle c <..< c_end c}. \<not> marks ls i (CHR ''>''))"

lemma is_marker_char:
  assumes "is_marker l a" and "is_marker l b"
  shows "a = b"
proof -
  let ?t = "trim_end_by (\<lambda>c. c = newline \<or> c = carriage_return) l"
  have "hd ?t = m \<and> ?t \<noteq> []" if "is_marker l m" for m
    using that by (cases ?t) (auto simp: is_marker_def Let_def split: if_splits)
  then show ?thesis
    using assms by metis
qed

lemma is_marker_other: "is_marker l a \<Longrightarrow> a \<noteq> b \<Longrightarrow> \<not> is_marker l b"
  using is_marker_char by blast

lemma marks_char: "marks ls i a \<Longrightarrow> marks ls i b \<Longrightarrow> a = b"
  using is_marker_char by (auto simp: marks_def)

lemma find_upt_snoc:
  "a \<le> n \<Longrightarrow> List.find p [a..<Suc n] =
    (case List.find p [a..<n] of Some x \<Rightarrow> Some x | None \<Rightarrow> if p n then Some n else None)"
  by (simp add: find_append split: option.split)

lemma find_upt_Some:
  "List.find p [a..<b] = Some x \<Longrightarrow> a \<le> x \<and> x < b \<and> p x \<and> (\<forall>i\<in>{a..<x}. \<not> p i)"
  by (auto simp: find_Some_iff) (metis add_diff_inverse_nat atLeastLessThan_iff le_add_diff_inverse less_diff_conv2 linorder_not_less nat_add_left_cancel_less nth_upt)

lemma find_upt_None: "List.find p [a..<b] = None \<longleftrightarrow> (\<forall>i\<in>{a..<b}. \<not> p i)"
  by (auto simp: find_None_iff)

lemma find_upt_first:
  assumes "p x" and "a \<le> x" and "x < b" and "\<forall>i\<in>{a..<x}. \<not> p i"
  shows "List.find p [a..<b] = Some x"
proof (cases "List.find p [a..<b]")
  case None
  then show ?thesis
    using assms by (auto simp: find_upt_None)
next
  case (Some y)
  then have "a \<le> y" "p y" "\<forall>i\<in>{a..<y}. \<not> p i"
    by (auto dest: find_upt_Some)
  then have "\<not> y < x" "\<not> x < y"
    using assms by auto
  then show ?thesis
    using Some by simp
qed

lemma block_determined:
  assumes "is_block ls c" and "is_block ls d" and "c_start c = c_start d"
  shows "c = d"
proof -
  have m: "c_middle c = c_middle d"
    using assms unfolding is_block_def by (metis greaterThanLessThan_iff linorder_neqE_nat)
  then have "c_end c = c_end d"
    using assms unfolding is_block_def by (metis greaterThanLessThan_iff linorder_neqE_nat)
  with m show ?thesis
    using assms by (simp add: is_block_def)
qed

lemma blocks_apart:
  assumes "is_block ls c" and "is_block ls d" and "c_start c < c_start d"
  shows "c_end c < c_start d"
  using assms unfolding is_block_def by (metis greaterThanAtMost_iff linorder_not_less)

section \<open>The scanner finds exactly the blocks\<close>

text \<open>What the scanner knows after the first \<open>n\<close> lines.\<close>

definition closed_before :: "string list \<Rightarrow> nat \<Rightarrow> bool" where
  "closed_before ls n \<longleftrightarrow>
     (\<forall>s<n. marks ls s (CHR ''<'') \<longrightarrow>
        (\<exists>i\<in>{s<..<n}. marks ls i (CHR ''<'')) \<or> (\<exists>c. is_block ls c \<and> c_start c = s \<and> c_end c < n))"

definition open_at :: "string list \<Rightarrow> nat \<Rightarrow> open_block \<Rightarrow> bool" where
  "open_at ls n ob \<longleftrightarrow>
     (case ob of (s, b, m) \<Rightarrow>
        s < n \<and> marks ls s (CHR ''<'') \<and> (\<forall>i\<in>{s<..<n}. \<not> marks ls i (CHR ''<'')) \<and>
        m = List.find (\<lambda>i. marks ls i (CHR ''='')) [Suc s..<n] \<and>
        b = List.find (\<lambda>i. marks ls i (CHR ''|'')) [Suc s..<(case m of Some x \<Rightarrow> x | None \<Rightarrow> n)] \<and>
        (\<forall>x. m = Some x \<longrightarrow> (\<forall>i\<in>{x<..<n}. \<not> marks ls i (CHR ''>''))))"

definition scanned :: "string list \<Rightarrow> nat \<Rightarrow> open_block option \<times> conflict list \<Rightarrow> bool" where
  "scanned ls n st \<longleftrightarrow>
     (case fst st of None \<Rightarrow> closed_before ls n | Some ob \<Rightarrow> open_at ls n ob) \<and>
     sorted_wrt (\<lambda>c d. c_end c < c_start d) (snd st) \<and>
     set (snd st) = {c. is_block ls c \<and> c_end c < n}"

lemma block_ends_open:
  assumes "is_block ls c" and "c_end c = n" and "closed_before ls n"
  shows False
proof -
  have s: "c_start c < n" "marks ls (c_start c) (CHR ''<'')"
    and none: "\<forall>i\<in>{c_start c <.. n}. \<not> marks ls i (CHR ''<'')"
    using assms by (auto simp: is_block_def)
  then obtain d where "is_block ls d" "c_start d = c_start c" "c_end d < n"
    using assms(3) unfolding closed_before_def by (metis greaterThanAtMost_iff greaterThanLessThan_iff less_imp_le_nat)
  then show False
    using block_determined [of ls d c] assms by simp
qed

lemma open_block_start:
  assumes "open_at ls n (s, b, m)" and "is_block ls c" and "c_end c = n"
  shows "c_start c = s" and "m = Some (c_middle c)" and "b = c_base c"
proof -
  have s: "s < n" "marks ls s (CHR ''<'')" "\<forall>i\<in>{s<..<n}. \<not> marks ls i (CHR ''<'')"
    using assms(1) by (auto simp: open_at_def)
  have c: "c_start c < n" "marks ls (c_start c) (CHR ''<'')" "\<forall>i\<in>{c_start c <.. n}. \<not> marks ls i (CHR ''<'')"
    using assms by (auto simp: is_block_def)
  show st: "c_start c = s"
    using s c by (metis greaterThanAtMost_iff greaterThanLessThan_iff less_imp_le_nat linorder_neqE_nat)
  have "List.find (\<lambda>i. marks ls i (CHR ''='')) [Suc s..<n] = Some (c_middle c)"
    using assms st by (intro find_upt_first) (auto simp: is_block_def)
  then show m: "m = Some (c_middle c)"
    using assms(1) by (simp add: open_at_def)
  show "b = c_base c"
    using assms(1,2) st m by (simp add: open_at_def is_block_def)
qed

lemma open_not_closed:
  assumes "open_at ls n (s, b, m)" and "is_block ls c" and "c_end c < n"
  shows "c_end c < s"
proof -
  have s: "s < n" "marks ls s (CHR ''<'')" "\<forall>i\<in>{s<..<n}. \<not> marks ls i (CHR ''<'')"
    using assms(1) by (auto simp: open_at_def)
  have "c_start c \<noteq> s"
  proof
    assume st: "c_start c = s"
    have "List.find (\<lambda>i. marks ls i (CHR ''='')) [Suc s..<n] = Some (c_middle c)"
      using assms st by (intro find_upt_first) (auto simp: is_block_def)
    then have "\<forall>i\<in>{c_middle c<..<n}. \<not> marks ls i (CHR ''>'')"
      using assms(1) by (simp add: open_at_def)
    then show False
      using assms(2,3) by (auto simp: is_block_def)
  qed
  moreover have "\<not> s < c_start c"
    using s assms(2,3) by (auto simp: is_block_def)
  ultimately show ?thesis
    using assms(2) s(2) unfolding is_block_def
    by (metis greaterThanAtMost_iff linorder_not_less nat_neq_iff)
qed

lemma blocks_before_Suc:
  "{c. is_block ls c \<and> c_end c < Suc n} = {c. is_block ls c \<and> c_end c < n} \<union> {c. is_block ls c \<and> c_end c = n}"
  by auto

lemma find_upt_snoc_not: "a \<le> n \<Longrightarrow> \<not> p n \<Longrightarrow> List.find p [a..<Suc n] = List.find p [a..<n]"
  by (subst find_upt_snoc) (auto split: option.split)

lemma Ball_Suc_greaterThanLessThan:
  "s < n \<Longrightarrow> (\<forall>i\<in>{s<..<Suc n}. P i) \<longleftrightarrow> (\<forall>i\<in>{s<..<n}. P i) \<and> P n"
  by (auto simp: less_Suc_eq)

lemma open_at_new: "marks ls n (CHR ''<'') \<Longrightarrow> open_at ls (Suc n) (n, None, None)"
  by (auto simp: open_at_def)

lemma open_at_skip:
  assumes "open_at ls n (s, b, m)" and "\<not> marks ls n (CHR ''<'')"
    and "m = None \<Longrightarrow> \<not> marks ls n (CHR ''='')"
    and "m = None \<Longrightarrow> b = None \<Longrightarrow> \<not> marks ls n (CHR ''|'')"
    and "m \<noteq> None \<Longrightarrow> \<not> marks ls n (CHR ''>'')"
  shows "open_at ls (Suc n) (s, b, m)"
proof -
  have s: "s < n"
    using assms(1) by (simp add: open_at_def)
  have m: "m = List.find (\<lambda>i. marks ls i (CHR ''='')) [Suc s..<Suc n]"
    using assms(1,3) s by (subst find_upt_snoc) (auto simp: open_at_def split: option.split)
  have b: "b = List.find (\<lambda>i. marks ls i (CHR ''|'')) [Suc s..<(case m of Some x \<Rightarrow> x | None \<Rightarrow> Suc n)]"
    using assms(1,4) s find_upt_snoc [of "Suc s" n "\<lambda>i. marks ls i (CHR ''|'')"]
    by (auto simp: open_at_def split: option.split)
  have "\<forall>x. m = Some x \<longrightarrow> (\<forall>i\<in>{x<..<Suc n}. \<not> marks ls i (CHR ''>''))"
    using assms(1,5) by (auto simp: open_at_def less_Suc_eq)
  then show ?thesis
    using assms(1,2) s m b by (simp add: open_at_def Ball_Suc_greaterThanLessThan)
qed

lemma open_at_base:
  assumes "open_at ls n (s, None, None)" and "marks ls n (CHR ''|'')"
  shows "open_at ls (Suc n) (s, Some n, None)"
proof -
  have s: "s < n"
    using assms(1) by (simp add: open_at_def)
  have "\<not> marks ls n (CHR ''<'')" "\<not> marks ls n (CHR ''='')"
    using assms(2) marks_char by fastforce+
  then show ?thesis
    using assms s find_upt_snoc [of "Suc s" n "\<lambda>i. marks ls i (CHR ''|'')"]
      find_upt_snoc_not [of "Suc s" n "\<lambda>i. marks ls i (CHR ''='')"]
    by (simp add: open_at_def Ball_Suc_greaterThanLessThan split: option.splits)
qed

lemma open_at_middle:
  assumes "open_at ls n (s, b, None)" and "marks ls n (CHR ''='')"
  shows "open_at ls (Suc n) (s, b, Some n)"
proof -
  have s: "s < n"
    using assms(1) by (simp add: open_at_def)
  have "\<not> marks ls n (CHR ''<'')"
    using assms(2) marks_char by fastforce
  then show ?thesis
    using assms s find_upt_snoc [of "Suc s" n "\<lambda>i. marks ls i (CHR ''='')"]
    by (simp add: open_at_def Ball_Suc_greaterThanLessThan split: option.splits) auto
qed

lemma open_at_close:
  assumes "open_at ls n (s, b, Some m)" and "marks ls n (CHR ''>'')" and "n < length ls"
  shows "is_block ls \<lparr>c_start = s, c_base = b, c_middle = m, c_end = n\<rparr>"
proof -
  have "\<not> marks ls n (CHR ''<'')"
    using assms(2) marks_char by fastforce
  moreover have "List.find (\<lambda>i. marks ls i (CHR ''='')) [Suc s..<n] = Some m"
    using assms(1) by (simp add: open_at_def)
  ultimately show ?thesis
    using assms find_upt_Some [of "\<lambda>i. marks ls i (CHR ''='')" "Suc s" n m]
    by (auto simp: open_at_def is_block_def le_less)
qed

lemma closed_before_skip:
  assumes "closed_before ls n" and "\<not> marks ls n (CHR ''<'')"
  shows "closed_before ls (Suc n)"
  unfolding closed_before_def
proof (intro allI impI)
  fix s
  assume s: "s < Suc n" "marks ls s (CHR ''<'')"
  with assms(2) have "s < n"
    by (metis less_SucE)
  with assms(1) s(2) show "(\<exists>i\<in>{s<..<Suc n}. marks ls i (CHR ''<'')) \<or>
      (\<exists>c. is_block ls c \<and> c_start c = s \<and> c_end c < Suc n)"
    unfolding closed_before_def by (metis greaterThanLessThan_iff less_SucI)
qed

lemma closed_before_close:
  assumes "open_at ls n (s, b, m)" and "is_block ls c" and "c_start c = s" and "c_end c = n"
  shows "closed_before ls (Suc n)"
  unfolding closed_before_def
proof (intro allI impI)
  fix t
  assume t: "t < Suc n" "marks ls t (CHR ''<'')"
  have "\<not> marks ls n (CHR ''<'')"
    using assms(2,4) by (auto simp: is_block_def)
  with t have "t < n"
    by (metis less_SucE)
  have s: "s < n" "marks ls s (CHR ''<'')" "\<forall>i\<in>{s<..<n}. \<not> marks ls i (CHR ''<'')"
    using assms(1) by (auto simp: open_at_def)
  then have "t \<le> s"
    using t(2) \<open>t < n\<close> by (metis greaterThanLessThan_iff linorder_not_less)
  then show "(\<exists>i\<in>{t<..<Suc n}. marks ls i (CHR ''<'')) \<or>
      (\<exists>c. is_block ls c \<and> c_start c = t \<and> c_end c < Suc n)"
    using assms s by (cases "t = s") (auto intro!: bexI [of _ s] exI [of _ c])
qed

lemma scanned_skip:
  assumes "scanned ls n (old, found)" and "\<And>c. is_block ls c \<Longrightarrow> c_end c \<noteq> n"
    and "case new of None \<Rightarrow> closed_before ls (Suc n) | Some ob \<Rightarrow> open_at ls (Suc n) ob"
  shows "scanned ls (Suc n) (new, found)"
proof -
  have "{c. is_block ls c \<and> c_end c < Suc n} = {c. is_block ls c \<and> c_end c < n}"
    using assms(2) by (auto simp: less_Suc_eq)
  then show ?thesis
    using assms(1,3) by (simp add: scanned_def)
qed

lemma scanned_close:
  assumes "scanned ls n (Some (s, b, Some m), found)" and "marks ls n (CHR ''>'')" and "n < length ls"
  shows "scanned ls (Suc n) (None, found @ [\<lparr>c_start = s, c_base = b, c_middle = m, c_end = n\<rparr>])"
proof -
  let ?c = "\<lparr>c_start = s, c_base = b, c_middle = m, c_end = n\<rparr>"
  have o: "open_at ls n (s, b, Some m)" and f: "set found = {c. is_block ls c \<and> c_end c < n}"
    and sw: "sorted_wrt (\<lambda>c d. c_end c < c_start d) found"
    using assms(1) by (auto simp: scanned_def)
  have c: "is_block ls ?c"
    using open_at_close [OF o assms(2,3)] .
  have "{c. is_block ls c \<and> c_end c = n} = {?c}"
  proof -
    have "d = ?c" if "is_block ls d" "c_end d = n" for d
      using block_determined [OF that(1) c] open_block_start(1) [OF o that] by simp
    moreover have "c_end ?c = n"
      by simp
    ultimately show ?thesis
      using c by blast
  qed
  then have "set (found @ [?c]) = {c. is_block ls c \<and> c_end c < Suc n}"
    using f by (simp only: blocks_before_Suc set_append) simp
  moreover have "sorted_wrt (\<lambda>c d. c_end c < c_start d) (found @ [?c])"
    using sw f open_not_closed [OF o] by (simp add: sorted_wrt_append)
  moreover have "closed_before ls (Suc n)"
    using closed_before_close [OF o c] by simp
  ultimately show ?thesis
    by (simp add: scanned_def)
qed

lemma scanned_step_none:
  assumes "scanned ls n (None, found)" and "n < length ls"
  shows "scanned ls (Suc n) (find_step (n, ls ! n) (None, found))"
proof -
  have cl: "closed_before ls n"
    using assms(1) by (simp add: scanned_def)
  then have "\<And>c. is_block ls c \<Longrightarrow> c_end c \<noteq> n"
    using block_ends_open by blast
  then show ?thesis
    using scanned_skip [OF assms(1)] open_at_new closed_before_skip [OF cl]
    by (simp flip: marks_def)
qed

lemma scanned_step_some:
  assumes sc: "scanned ls n (Some (s, b, m), found)" and n: "n < length ls"
  shows "scanned ls (Suc n) (find_step (n, ls ! n) (Some (s, b, m), found))"
proof -
  have o: "open_at ls n (s, b, m)"
    using sc by (simp add: scanned_def)
  have ends: "m \<noteq> None \<and> marks ls n (CHR ''>'')" if "is_block ls c" "c_end c = n" for c
    using open_block_start(2) [OF o that] that by (auto simp: is_block_def)
  consider (new) "marks ls n (CHR ''<'')"
    | (base) "marks ls n (CHR ''|'')" "m = None" "b = None"
    | (middle) "marks ls n (CHR ''='')" "m = None"
    | (close) x where "marks ls n (CHR ''>'')" "m = Some x"
    | (skip) "\<not> marks ls n (CHR ''<'')" "\<not> (m = None \<and> b = None \<and> marks ls n (CHR ''|''))"
        "\<not> (m = None \<and> marks ls n (CHR ''=''))" "\<not> (m \<noteq> None \<and> marks ls n (CHR ''>''))"
    by blast
  then show ?thesis
  proof cases
    case new
    then have "\<And>c. is_block ls c \<Longrightarrow> c_end c \<noteq> n"
      using ends marks_char by fastforce
    then show ?thesis
      using scanned_skip [OF sc] open_at_new [OF new] new by (simp flip: marks_def)
  next
    case base
    then have "\<And>c. is_block ls c \<Longrightarrow> c_end c \<noteq> n" "\<not> marks ls n (CHR ''<'')"
      using ends marks_char by fastforce+
    then show ?thesis
      using scanned_skip [OF sc, of "Some (s, Some n, m)"] open_at_base o base by (simp flip: marks_def)
  next
    case middle
    then have "\<And>c. is_block ls c \<Longrightarrow> c_end c \<noteq> n" "\<not> marks ls n (CHR ''<'')" "\<not> marks ls n (CHR ''|'')"
      using ends marks_char by fastforce+
    then show ?thesis
      using scanned_skip [OF sc, of "Some (s, b, Some n)"] open_at_middle o middle by (simp flip: marks_def)
  next
    case close
    then have "\<not> marks ls n (CHR ''<'')"
      using marks_char by fastforce
    then show ?thesis
      using scanned_close [of ls n s b x found] sc n close by (simp flip: marks_def)
  next
    case skip
    then have "\<And>c. is_block ls c \<Longrightarrow> c_end c \<noteq> n"
      using ends by blast
    moreover have "open_at ls (Suc n) (s, b, m)"
      using skip by (intro open_at_skip [OF o]) auto
    ultimately have "scanned ls (Suc n) (Some (s, b, m), found)"
      using scanned_skip [OF sc] by simp
    moreover have "find_step (n, ls ! n) (Some (s, b, m), found) = (Some (s, b, m), found)"
      using skip by (auto simp flip: marks_def split: option.split)
    ultimately show ?thesis
      by simp
  qed
qed

lemma scanned_step:
  assumes "scanned ls n st" and "n < length ls"
  shows "scanned ls (Suc n) (find_step (n, ls ! n) st)"
proof (cases "fst st")
  case None
  then show ?thesis
    using scanned_step_none [of ls n "snd st"] assms by (metis prod.collapse)
next
  case (Some ob)
  then show ?thesis
    using scanned_step_some [of ls n "fst ob" "fst (snd ob)" "snd (snd ob)" "snd st"] assms
    by (metis prod.collapse)
qed

lemma scanned_prefix:
  "n \<le> length ls \<Longrightarrow> scanned ls n (fold find_step (enumerate 0 (take n ls)) (None, []))"
proof (induction n)
  case 0
  then show ?case
    by (simp add: scanned_def closed_before_def)
next
  case (Suc n)
  then have "enumerate 0 (take (Suc n) ls) = enumerate 0 (take n ls) @ [(n, ls ! n)]"
    by (simp add: take_Suc_conv_app_nth enumerate_append_eq)
  then show ?case
    using Suc scanned_step by simp
qed

lemma blocks_found:
  shows set_find_conflicts: "set (find_conflicts text) = {c. is_block (split_inclusive text) c}"
    and sorted_find_conflicts: "sorted_wrt (\<lambda>c d. c_end c < c_start d) (find_conflicts text)"
proof -
  let ?ls = "split_inclusive text"
  have "scanned ?ls (length ?ls) (fold find_step (enumerate 0 ?ls) (None, []))"
    using scanned_prefix [of "length ?ls" ?ls] by simp
  then have "set (find_conflicts text) = {c. is_block ?ls c \<and> c_end c < length ?ls}"
    and "sorted_wrt (\<lambda>c d. c_end c < c_start d) (find_conflicts text)"
    by (simp_all add: scanned_def find_conflicts_def)
  then show "set (find_conflicts text) = {c. is_block ?ls c}"
    and "sorted_wrt (\<lambda>c d. c_end c < c_start d) (find_conflicts text)"
    by (auto simp: is_block_def)
qed

text \<open>
  C27: The scanner finds exactly the complete conflict blocks of a text, as the reference
  definition describes them without scanning, from top to bottom and without overlap.\<close>

theorem find_exact:
  "set (find_conflicts text) = {c. is_block (split_inclusive text) c} \<and>
   sorted_wrt (\<lambda>c d. c_end c < c_start d) (find_conflicts text)"
  using blocks_found by simp

lemma conflict_at_Some_iff:
  "conflict_at text line = Some c \<longleftrightarrow>
     is_block (split_inclusive text) c \<and> c_start c \<le> line \<and> line \<le> c_end c"
proof
  assume "conflict_at text line = Some c"
  then have "c \<in> set (find_conflicts text) \<and> c_start c \<le> line \<and> line \<le> c_end c"
    unfolding conflict_at_def using find_Some_in by fastforce
  then show "is_block (split_inclusive text) c \<and> c_start c \<le> line \<and> line \<le> c_end c"
    by (simp add: set_find_conflicts)
next
  assume r: "is_block (split_inclusive text) c \<and> c_start c \<le> line \<and> line \<le> c_end c"
  then have "conflict_at text line \<noteq> None"
    by (auto simp: conflict_at_def find_None_iff set_find_conflicts)
  then obtain d where d: "conflict_at text line = Some d"
    by auto
  then have in_d: "is_block (split_inclusive text) d" "c_start d \<le> line" "line \<le> c_end d"
    using find_Some_in set_find_conflicts unfolding conflict_at_def by fastforce+
  then have "c_start c = c_start d"
    using blocks_apart [of _ c d] blocks_apart [of _ d c] r by (meson leD le_less_trans linorder_neqE_nat)
  then show "conflict_at text line = Some c"
    using block_determined in_d r d by metis
qed

lemma conflict_at_None_iff:
  "conflict_at text line = None \<longleftrightarrow>
     \<not> (\<exists>c. is_block (split_inclusive text) c \<and> c_start c \<le> line \<and> line \<le> c_end c)"
  by (metis conflict_at_Some_iff not_Some_eq)

section \<open>Resolving a block\<close>

definition kept_lines :: "string list \<Rightarrow> conflict \<Rightarrow> side \<Rightarrow> string list" where
  "kept_lines ls c s =
     (let ours_end = (case c_base c of Some b \<Rightarrow> b | None \<Rightarrow> c_middle c)
      in (if s \<noteq> Theirs then take (ours_end - Suc (c_start c)) (drop (Suc (c_start c)) ls) else [])
       @ (if s \<noteq> Ours then take (c_end c - Suc (c_middle c)) (drop (Suc (c_middle c)) ls) else []))"

lemma resolve_block:
  assumes "is_block (split_inclusive text) c" and "c_start c \<le> line" and "line \<le> c_end c"
  shows "resolve_conflict text line s =
    Some (Some (concat (take (c_start c) (split_inclusive text))
      @ concat (kept_lines (split_inclusive text) c s)
      @ concat (drop (Suc (c_end c)) (split_inclusive text))))"
proof -
  let ?ls = "split_inclusive text"
  let ?o = "case c_base c of Some b \<Rightarrow> b | None \<Rightarrow> c_middle c"
  have ord: "c_start c < c_middle c" "c_middle c < c_end c" "c_end c < length ?ls"
    using assms(1) by (auto simp: is_block_def)
  have "Suc (c_start c) \<le> b \<and> b < c_middle c" if "c_base c = Some b" for b
    using assms(1) that find_upt_Some [of _ "Suc (c_start c)" "c_middle c" b]
    unfolding is_block_def by metis
  then have "Suc (c_start c) \<le> ?o \<and> ?o \<le> c_middle c"
    using ord by (cases "c_base c") (simp_all add: less_imp_le)
  then have "slice (Suc (c_start c)) ?o ?ls = Some (take (?o - Suc (c_start c)) (drop (Suc (c_start c)) ?ls))"
    and "slice (Suc (c_middle c)) (c_end c) ?ls = Some (take (c_end c - Suc (c_middle c)) (drop (Suc (c_middle c)) ?ls))"
    using ord by (auto simp: slice_def)
  moreover have "conflict_at text line = Some c"
    using assms by (simp add: conflict_at_Some_iff)
  ultimately show ?thesis
    using ord by (cases s) (simp_all add: resolve_conflict_def kept_lines_def Let_def)
qed

text \<open>
  Resolving never slices out of range; it answers exactly for the lines inside a conflict
  block, and then keeps every line outside the block, with the chosen side in its place.\<close>

theorem resolve_decides:
  "resolve_conflict text line s =
     Some (map_option
       (\<lambda>c. concat (take (c_start c) (split_inclusive text))
          @ concat (kept_lines (split_inclusive text) c s)
          @ concat (drop (Suc (c_end c)) (split_inclusive text)))
       (conflict_at text line))"
proof (cases "conflict_at text line")
  case None
  then show ?thesis
    by (simp add: resolve_conflict_def)
next
  case (Some d)
  then show ?thesis
    using resolve_block [of "text" d line s] conflict_at_Some_iff [of "text" line d] by simp
qed

text \<open>A conflict as git writes it, with or without the lines of the common ancestor.\<close>

definition free_of :: "string \<Rightarrow> string list \<Rightarrow> bool" where
  "free_of cs ls \<longleftrightarrow> list_all (\<lambda>l. list_all (\<lambda>c. \<not> is_marker l c) cs) ls"

definition written_conflict ::
  "string \<Rightarrow> string list \<Rightarrow> string list \<Rightarrow> string \<Rightarrow> string list \<Rightarrow> string \<Rightarrow> bool" where
  "written_conflict open_line ours base middle_line theirs close_line \<longleftrightarrow>
     list_all full_line (open_line # ours @ base @ middle_line # theirs @ [close_line]) \<and>
     is_marker open_line (CHR ''<'') \<and> free_of ''<|='' ours \<and>
     (base = [] \<or> is_marker (hd base) (CHR ''|'')) \<and> free_of ''<='' base \<and>
     is_marker middle_line (CHR ''='') \<and> free_of ''<>'' theirs \<and>
     is_marker close_line (CHR ''>'')"

lemma nth_in_middle:
  "length xs \<le> i \<Longrightarrow> i < length xs + length ys \<Longrightarrow> (xs @ ys @ zs) ! i \<in> set ys"
proof -
  assume "length xs \<le> i" and "i < length xs + length ys"
  then have "i - length xs < length ys" and "\<not> i < length xs"
    by linarith+
  then show ?thesis
    by (simp add: nth_append)
qed

lemma free_of_nth:
  "free_of cs ls \<Longrightarrow> l \<in> set ls \<Longrightarrow> c \<in> set cs \<Longrightarrow> \<not> is_marker l c"
  by (simp add: free_of_def list_all_iff)

lemma written_is_block:
  assumes w: "written_conflict op ours base mid theirs cl"
    and ls: "ls = pre @ op # ours @ base @ mid # theirs @ cl # rest"
    and c: "c = \<lparr>c_start = length pre,
      c_base = (if base = [] then None else Some (Suc (length pre + length ours))),
      c_middle = Suc (length pre + length ours + length base),
      c_end = Suc (Suc (length pre + length ours + length base + length theirs))\<rparr>"
  shows "is_block ls c"
proof -
  let ?p = "length pre" let ?o = "length ours" let ?b = "length base" let ?t = "length theirs"
  have at: "ls ! ?p = op" "ls ! Suc (?p + ?o + ?b) = mid" "ls ! Suc (Suc (?p + ?o + ?b + ?t)) = cl"
    by (simp_all add: ls nth_append)
  have fo: "free_of ''<|='' ours" "free_of ''<='' base" "free_of ''<>'' theirs"
    using w by (simp_all add: written_conflict_def)
  have mk: "is_marker op (CHR ''<'')" "is_marker mid (CHR ''='')" "is_marker cl (CHR ''>'')"
    using w by (simp_all add: written_conflict_def)
  have no: "\<not> is_marker mid (CHR ''<'')" "\<not> is_marker cl (CHR ''<'')"
    using is_marker_other [OF mk(2)] is_marker_other [OF mk(3)] by simp_all
  have ours: "\<not> marks ls i (CHR ''<'') \<and> \<not> marks ls i (CHR ''='') \<and> \<not> marks ls i (CHR ''|'')"
    if "?p < i" "i < Suc (?p + ?o)" for i
  proof -
    have "ls ! i \<in> set ours"
      using nth_in_middle [of "pre @ [op]" i ours] that ls by simp
    then show ?thesis
      using free_of_nth [OF fo(1)] by (simp add: marks_def)
  qed
  have base: "\<not> marks ls i (CHR ''<'') \<and> \<not> marks ls i (CHR ''='')"
    if "Suc (?p + ?o) \<le> i" "i < Suc (?p + ?o + ?b)" for i
  proof -
    have "ls ! i \<in> set base"
      using nth_in_middle [of "pre @ op # ours" i base] that ls by simp
    then show ?thesis
      using free_of_nth [OF fo(2)] by (simp add: marks_def)
  qed
  have theirs: "\<not> marks ls i (CHR ''<'') \<and> \<not> marks ls i (CHR ''>'')"
    if "Suc (?p + ?o + ?b) < i" "i < Suc (Suc (?p + ?o + ?b + ?t))" for i
  proof -
    have "ls ! i \<in> set theirs"
      using nth_in_middle [of "pre @ op # ours @ base @ [mid]" i theirs] that ls by simp
    then show ?thesis
      using free_of_nth [OF fo(3)] by (simp add: marks_def)
  qed
  have lt: "\<not> marks ls i (CHR ''<'')" if "?p < i" "i \<le> Suc (Suc (?p + ?o + ?b + ?t))" for i
  proof -
    have "i < Suc (?p + ?o) \<or> Suc (?p + ?o) \<le> i \<and> i < Suc (?p + ?o + ?b)
        \<or> i = Suc (?p + ?o + ?b)
        \<or> Suc (?p + ?o + ?b) < i \<and> i < Suc (Suc (?p + ?o + ?b + ?t))
        \<or> i = Suc (Suc (?p + ?o + ?b + ?t))"
      using that by arith
    then show ?thesis
      using that ours base theirs at no unfolding marks_def by metis
  qed
  have eq: "\<not> marks ls i (CHR ''='')" if "?p < i" "i < Suc (?p + ?o + ?b)" for i
    using that ours base by (cases "i < Suc (?p + ?o)") auto
  have "c_base c = List.find (\<lambda>i. marks ls i (CHR ''|'')) [Suc ?p..<c_middle c]"
  proof (cases "base = []")
    case True
    have "List.find (\<lambda>i. marks ls i (CHR ''|'')) [Suc ?p..<Suc (?p + ?o)] = None"
      unfolding find_upt_None using ours by auto
    then show ?thesis
      using True by (simp only: c) (simp del: upt_Suc)
  next
    case False
    then have "ls ! Suc (?p + ?o) = hd base"
      by (simp add: ls nth_append hd_conv_nth)
    then have "marks ls (Suc (?p + ?o)) (CHR ''|'')"
      using w False by (simp add: marks_def written_conflict_def)
    then have "List.find (\<lambda>i. marks ls i (CHR ''|'')) [Suc ?p..<Suc (?p + ?o + ?b)] = Some (Suc (?p + ?o))"
      using False ours by (intro find_upt_first) auto
    then show ?thesis
      using False by (simp only: c) (simp del: upt_Suc)
  qed
  then show ?thesis
    using at mk lt eq theirs
    by (auto simp: is_block_def c marks_def ls)
qed

lemma drop_at_length: "n = length xs \<Longrightarrow> drop n (xs @ ys) = ys"
  by simp

definition chosen_lines :: "side \<Rightarrow> string list \<Rightarrow> string list \<Rightarrow> string list" where
  "chosen_lines s ours theirs =
     (case s of Ours \<Rightarrow> ours | Theirs \<Rightarrow> theirs | Both \<Rightarrow> ours @ theirs)"

text \<open>
  C28: A conflict git writes anywhere in a file, diff3 style or not, is resolved from each of
  its lines to exactly the chosen side, and the text before and after it is left as it is,
  whatever other markers that text has.\<close>

theorem resolve_written:
  assumes w: "written_conflict op ours base mid theirs cl" and pre: "list_all full_line pre"
    and line: "length pre \<le> line" "line \<le> Suc (Suc (length pre + length ours + length base + length theirs))"
  shows "resolve_conflict (concat (pre @ op # ours @ base @ mid # theirs @ [cl]) @ post) line s =
    Some (Some (concat pre @ concat (chosen_lines s ours theirs) @ post))"
proof -
  let ?text = "concat (pre @ op # ours @ base @ mid # theirs @ [cl]) @ post"
  let ?rest = "split_inclusive post"
  let ?ls = "pre @ op # ours @ base @ mid # theirs @ cl # ?rest"
  define c where "c = \<lparr>c_start = length pre,
      c_base = (if base = [] then None else Some (Suc (length pre + length ours))),
      c_middle = Suc (length pre + length ours + length base),
      c_end = Suc (Suc (length pre + length ours + length base + length theirs))\<rparr>"
  have "list_all full_line (pre @ op # ours @ base @ mid # theirs @ [cl])"
    using w pre by (simp add: written_conflict_def)
  then have ls: "split_inclusive ?text = ?ls"
    using split_inclusive_full_lines by fastforce
  have "is_block ?ls c"
    using written_is_block [OF w refl c_def] .
  then have "resolve_conflict ?text line s =
    Some (Some (concat (take (c_start c) ?ls) @ concat (kept_lines ?ls c s) @ concat (drop (Suc (c_end c)) ?ls)))"
    using resolve_block [of ?text c line s] line ls by (simp add: c_def)
  moreover have "take (c_start c) ?ls = pre"
    by (simp add: c_def)
  moreover have "drop (Suc (c_end c)) ?ls = ?rest"
  proof -
    have "?ls = (pre @ op # ours @ base @ mid # theirs @ [cl]) @ ?rest"
      by simp
    moreover have "drop (Suc (c_end c)) ((pre @ op # ours @ base @ mid # theirs @ [cl]) @ ?rest) = ?rest"
      by (rule drop_at_length) (simp add: c_def)
    ultimately show ?thesis
      by (simp only:)
  qed
  moreover have "kept_lines ?ls c s = chosen_lines s ours theirs"
  proof -
    have "kept_lines ?ls c s = (if s \<noteq> Theirs then ours else []) @ (if s \<noteq> Ours then theirs else [])"
      by (cases "base = []") (simp_all add: kept_lines_def c_def Let_def)
    then show ?thesis
      by (cases s) (simp_all add: chosen_lines_def)
  qed
  ultimately show ?thesis
    by (simp only: concat_split_inclusive)
qed

theorem resolve_written_witness:
  "resolve_conflict (concat ([''head'' @ [newline]] @ (''<<<<<<< a'' @ [newline]) #
      [''mine'' @ [newline]] @ [''||||||| b'' @ [newline], ''old'' @ [newline]] @
      (''======='' @ [newline]) # [''yours'' @ [newline]] @ [''>>>>>>> c'' @ [newline]]) @ ''tail'') 3 Theirs =
    Some (Some (concat [''head'' @ [newline]] @ concat (chosen_lines Theirs [''mine'' @ [newline]] [''yours'' @ [newline]]) @ ''tail''))"
  by (rule resolve_written)
    (simp_all add: written_conflict_def free_of_def is_marker_def trim_end_by_def full_line_def Let_def)

lemma next_after_None_iff:
  "next_after text line = None \<longleftrightarrow> \<not> (\<exists>c. is_block (split_inclusive text) c)"
  using set_find_conflicts [of "text"]
  by (auto simp: next_after_def Let_def split: option.split list.split)

text \<open>The next block is the first one below the line, or the topmost block when there is none.\<close>

lemma next_after_below:
  assumes "is_block (split_inclusive text) c" and "line < c_start c"
  shows "\<exists>s. next_after text line = Some s \<and> line < s \<and> s \<le> c_start c"
proof -
  let ?fs = "find_conflicts text"
  obtain j where j: "j < length ?fs" "?fs ! j = c"
    using assms(1) set_find_conflicts [of "text"] by (metis in_set_conv_nth mem_Collect_eq)
  have "c \<in> set ?fs"
    using j by (metis nth_mem)
  then have "List.find (\<lambda>c. line < c_start c) ?fs \<noteq> None"
    unfolding find_None_iff using assms(2) by blast
  then obtain d i where d: "List.find (\<lambda>c. line < c_start c) ?fs = Some d"
      and i: "i < length ?fs" "?fs ! i = d" "line < c_start d" "\<forall>k<i. \<not> line < c_start (?fs ! k)"
    by (auto simp: find_Some_iff)
  have "i \<le> j"
    using i(4) assms(2) j by (metis linorder_not_le)
  moreover have "c_start d \<le> c_end d"
    using i nth_mem [OF i(1)] set_find_conflicts [of "text"] by (auto simp: is_block_def)
  moreover have "i < j \<Longrightarrow> c_end d < c_start c"
    using sorted_find_conflicts [of "text"] i j by (auto simp: sorted_wrt_iff_nth_less)
  ultimately have "c_start d \<le> c_start c"
    using i j by (cases "i = j") auto
  then show ?thesis
    using d i by (simp add: next_after_def Let_def)
qed

end
