(* ===== verification/Side_Diff.thy ===== *)
theory Side_Diff
  imports Text_Lines
begin

text \<open>
  A unified diff turned into two aligned columns (\<open>rwk-core/src/workbench/side_diff.rs\<close>).
  \<open>diff_step\<close> is the body of the loop of \<open>side_by_side\<close>, over its five local variables.
  \<open>shown\<close> is the reference: which lines of a diff belong to its hunks. The two columns are
  shown to have equally many lines and to hold the old and the new side of the diff, in order
  and without loss.
\<close>

section \<open>The code\<close>

definition max_diff_lines :: nat where
  "max_diff_lines = 20000"

record side_columns =
  col_left :: string
  col_right :: string

definition is_header :: "string \<Rightarrow> bool" where
  "is_header line \<longleftrightarrow>
     starts_with line ''diff --git'' \<or> starts_with line ''index '' \<or>
     starts_with line ''--- '' \<or> starts_with line ''+++ '' \<or>
     starts_with line ''new file mode'' \<or> starts_with line ''deleted file mode'' \<or>
     starts_with line ''similarity index'' \<or> starts_with line ''rename '' \<or>
     starts_with line ''old mode'' \<or> starts_with line ''new mode''"

record diff_state =
  df_removed :: "string list"
  df_added :: "string list"
  df_left :: "string list"
  df_right :: "string list"
  df_in_hunk :: bool

definition cell :: "char \<Rightarrow> string list \<Rightarrow> nat \<Rightarrow> string" where
  "cell mark ls row = (if row < length ls then mark # ls ! row else '' '')"

definition flush :: "diff_state \<Rightarrow> diff_state" where
  "flush st =
     (let rows = max (length (df_removed st)) (length (df_added st))
      in st\<lparr>df_left := df_left st @ map (cell (CHR ''-'') (df_removed st)) [0..<rows],
            df_right := df_right st @ map (cell (CHR ''+'') (df_added st)) [0..<rows],
            df_removed := [], df_added := []\<rparr>)"

definition push_both :: "string \<Rightarrow> diff_state \<Rightarrow> diff_state" where
  "push_both row st = st\<lparr>df_left := df_left st @ [row], df_right := df_right st @ [row]\<rparr>"

definition diff_step :: "string \<Rightarrow> diff_state \<Rightarrow> diff_state" where
  "diff_step line st =
     (if starts_with line ''@@'' then push_both line (flush st\<lparr>df_in_hunk := True\<rparr>)
      else if \<not> df_in_hunk st \<or>
              (is_header line \<and> \<not> starts_with line ''--- '' \<and> \<not> starts_with line ''+++ '')
      then (if starts_with line ''diff --git'' then flush st\<lparr>df_in_hunk := False\<rparr> else st)
      else (case line of
              [] \<Rightarrow> push_both ('' '' @ line) (flush st)
            | c # rest \<Rightarrow>
                if c = CHR ''-'' then st\<lparr>df_removed := df_removed st @ [rest]\<rparr>
                else if c = CHR ''+'' then st\<lparr>df_added := df_added st @ [rest]\<rparr>
                else if c = CHR 0x5C then st
                else push_both ('' '' @ (if c = CHR '' '' then rest else line)) (flush st)))"

definition no_rows :: diff_state where
  "no_rows = \<lparr>df_removed = [], df_added = [], df_left = [], df_right = [], df_in_hunk = False\<rparr>"

definition diff_rows :: "string list \<Rightarrow> diff_state" where
  "diff_rows ls = flush (fold diff_step ls no_rows)"

definition side_by_side :: "string \<Rightarrow> side_columns" where
  "side_by_side diff =
     (let st = diff_rows (take max_diff_lines (str_lines diff))
      in \<lparr>col_left = join_with [newline] (df_left st), col_right = join_with [newline] (df_right st)\<rparr>)"

section \<open>The reference: the lines of the hunks\<close>

fun shown :: "bool \<Rightarrow> string list \<Rightarrow> string list" where
  "shown in_hunk [] = []"
| "shown in_hunk (l # ls) =
     (if starts_with l ''@@'' then l # shown True ls
      else if \<not> in_hunk \<or> (is_header l \<and> \<not> starts_with l ''--- '' \<and> \<not> starts_with l ''+++ '')
      then shown (in_hunk \<and> \<not> starts_with l ''diff --git'') ls
      else if starts_with l [CHR 0x5C] then shown in_hunk ls
      else l # shown in_hunk ls)"

text \<open>How a line is displayed: with its one-character prefix, a space where it has none.\<close>

definition as_row :: "string \<Rightarrow> string" where
  "as_row l =
     (if starts_with l ''@@'' \<or> starts_with l ''-'' \<or> starts_with l ''+'' \<or> starts_with l '' '' then l
      else '' '' @ l)"

definition old_side :: "string list \<Rightarrow> string list" where
  "old_side ls = map as_row (filter (\<lambda>l. \<not> starts_with l ''+'') ls)"

definition new_side :: "string list \<Rightarrow> string list" where
  "new_side ls = map as_row (filter (\<lambda>l. \<not> starts_with l ''-'') ls)"

text \<open>
  What the two columns show of each side: the rows both columns agree on are common, the
  others hold a removed line, an added line or a filler.
\<close>

definition left_shows :: "string list \<Rightarrow> string list \<Rightarrow> string list" where
  "left_shows left right = map fst (filter (\<lambda>(l, r). l = r \<or> starts_with l ''-'') (zip left right))"

definition right_shows :: "string list \<Rightarrow> string list \<Rightarrow> string list" where
  "right_shows left right = map snd (filter (\<lambda>(l, r). l = r \<or> starts_with r ''+'') (zip left right))"

section \<open>Flushing\<close>

definition cells :: "char \<Rightarrow> string list \<Rightarrow> nat \<Rightarrow> string list" where
  "cells mark ls n = map (cell mark ls) [0..<n]"

lemma cells_simps [simp]:
  "cells m ls 0 = []"
  "cells m (x # xs) (Suc n) = (m # x) # cells m xs n"
  "cells m [] (Suc n) = '' '' # cells m [] n"
  by (auto simp: cells_def cell_def nth_Cons simp del: upt_Suc split: nat.split intro!: nth_equalityI)

lemma length_cells [simp]: "length (cells m ls n) = n"
  by (simp add: cells_def)

lemma cells_left:
  "n = max (length rs) (length adds) \<Longrightarrow>
   left_shows (cells (CHR ''-'') rs n) (cells (CHR ''+'') adds n) = map ((#) (CHR ''-'')) rs"
proof (induction n arbitrary: rs adds)
  case (Suc n)
  then show ?case
    using Suc.IH [of "tl rs" "tl adds"] by (cases rs; cases adds) (simp_all add: left_shows_def)
qed (simp add: left_shows_def)

lemma cells_right:
  "n = max (length rs) (length adds) \<Longrightarrow>
   right_shows (cells (CHR ''-'') rs n) (cells (CHR ''+'') adds n) = map ((#) (CHR ''+'')) adds"
proof (induction n arbitrary: rs adds)
  case (Suc n)
  then show ?case
    using Suc.IH [of "tl rs" "tl adds"] by (cases rs; cases adds) (simp_all add: right_shows_def)
qed (simp add: right_shows_def)

lemma cells_lines:
  assumes "\<forall>l\<in>set ls. newline \<notin> set l" and "m \<noteq> newline"
  shows "\<forall>l\<in>set (cells m ls n). newline \<notin> set l \<and> l \<noteq> []"
  using assms by (auto simp: cells_def cell_def)

lemma shows_append:
  "length l1 = length r1 \<Longrightarrow> left_shows (l1 @ l2) (r1 @ r2) = left_shows l1 r1 @ left_shows l2 r2"
  "length l1 = length r1 \<Longrightarrow> right_shows (l1 @ l2) (r1 @ r2) = right_shows l1 r1 @ right_shows l2 r2"
  by (simp_all add: left_shows_def right_shows_def)

lemma shows_same: "left_shows [l] [l] = [l]" "right_shows [l] [l] = [l]"
  by (simp_all add: left_shows_def right_shows_def)

text \<open>The invariant of the loop: \<open>os\<close> and \<open>ns\<close> are the sides of the lines read so far.\<close>

definition aligned :: "diff_state \<Rightarrow> string list \<Rightarrow> string list \<Rightarrow> bool" where
  "aligned st os ns \<longleftrightarrow>
     length (df_left st) = length (df_right st) \<and>
     left_shows (df_left st) (df_right st) @ map ((#) (CHR ''-'')) (df_removed st) = os \<and>
     right_shows (df_left st) (df_right st) @ map ((#) (CHR ''+'')) (df_added st) = ns \<and>
     (\<forall>l\<in>set (df_left st) \<union> set (df_right st) \<union> set (df_removed st) \<union> set (df_added st). newline \<notin> set l) \<and>
     [] \<notin> set (df_left st) \<union> set (df_right st)"

lemma aligned_flush:
  assumes "aligned st os ns"
  shows "aligned (flush st) os ns \<and> df_removed (flush st) = [] \<and> df_added (flush st) = []"
proof -
  let ?n = "max (length (df_removed st)) (length (df_added st))"
  let ?l = "cells (CHR ''-'') (df_removed st) ?n"
  let ?r = "cells (CHR ''+'') (df_added st) ?n"
  have "\<forall>l\<in>set (df_removed st). newline \<notin> set l" and "\<forall>l\<in>set (df_added st). newline \<notin> set l"
    using assms by (auto simp: aligned_def)
  then have "\<forall>l\<in>set ?l. newline \<notin> set l \<and> l \<noteq> []" and "\<forall>l\<in>set ?r. newline \<notin> set l \<and> l \<noteq> []"
    using cells_lines [of "df_removed st" "CHR ''-''" ?n] cells_lines [of "df_added st" "CHR ''+''" ?n] by simp_all
  then have "(\<forall>l\<in>set ?l \<union> set ?r. newline \<notin> set l) \<and> [] \<notin> set ?l \<union> set ?r"
    by blast
  then show ?thesis
    using assms cells_left [of ?n "df_removed st" "df_added st"] cells_right [of ?n "df_removed st" "df_added st"]
    by (simp add: aligned_def flush_def Let_def shows_append ball_Un flip: cells_def)
qed

lemma aligned_push:
  assumes "aligned st os ns" and "df_removed st = []" and "df_added st = []"
    and "row \<noteq> []" and "newline \<notin> set row"
  shows "aligned (push_both row st) (os @ [row]) (ns @ [row])"
  using assms by (auto simp: aligned_def push_both_def shows_append shows_same)

lemma aligned_flush_push:
  assumes "aligned st os ns" and "row \<noteq> []" and "newline \<notin> set row"
  shows "aligned (push_both row (flush st)) (os @ [row]) (ns @ [row])"
  using aligned_push aligned_flush [OF assms(1)] assms(2,3) by blast

lemma aligned_hunk [simp]: "aligned (st\<lparr>df_in_hunk := b\<rparr>) os ns = aligned st os ns"
  by (simp add: aligned_def)

lemma push_hunk: "push_both row (st\<lparr>df_in_hunk := b\<rparr>) = (push_both row st)\<lparr>df_in_hunk := b\<rparr>"
  by (simp add: push_both_def)

lemma in_hunk_simps [simp]:
  "df_in_hunk (flush st) = df_in_hunk st" "df_in_hunk (push_both row st) = df_in_hunk st"
  by (simp_all add: flush_def push_both_def Let_def)

text \<open>One step: the lines it shows, appended to both sides.\<close>

lemma aligned_step:
  assumes "aligned st os ns" and "newline \<notin> set l"
  shows "aligned (diff_step l st) (os @ old_side (shown (df_in_hunk st) [l])) (ns @ new_side (shown (df_in_hunk st) [l]))"
    (is ?A)
    and "shown (df_in_hunk st) (l # ls) = shown (df_in_hunk st) [l] @ shown (df_in_hunk (diff_step l st)) ls"
    (is ?B)
proof -
  let ?skip = "is_header l \<and> \<not> starts_with l ''--- '' \<and> \<not> starts_with l ''+++ ''"
  consider (hunk) "starts_with l ''@@''"
    | (skip) "\<not> starts_with l ''@@''" "\<not> df_in_hunk st \<or> ?skip"
    | (empty) "df_in_hunk st" "\<not> ?skip" "l = []"
    | (line) c rest where "\<not> starts_with l ''@@''" "df_in_hunk st" "\<not> ?skip" "l = c # rest"
    by (metis list.exhaust)
  then have "?A \<and> ?B"
  proof cases
    case hunk
    then have "l \<noteq> []" "\<not> starts_with l ''+''" "\<not> starts_with l ''-''"
      by (auto simp: neq_Nil_conv starts_with_iff prefix_def)
    then show ?thesis
      using hunk aligned_flush_push [OF assms(1) _ assms(2)]
      by (simp add: diff_step_def push_hunk old_side_def new_side_def as_row_def)
  next
    case skip
    then show ?thesis
      using assms aligned_flush [OF assms(1)] by (auto simp: diff_step_def old_side_def new_side_def)
  next
    case empty
    then show ?thesis
      using aligned_flush_push [OF assms(1), of "'' ''"]
      by (simp add: diff_step_def old_side_def new_side_def as_row_def)
  next
    case line
    consider (minus) "c = CHR ''-''" | (plus) "c = CHR ''+''" | (remark) "c = CHR 0x5C"
      | (other) "c \<noteq> CHR ''-''" "c \<noteq> CHR ''+''" "c \<noteq> CHR 0x5C"
      by blast
    then show ?thesis
    proof cases
      case minus
      then show ?thesis
        using line assms by (auto simp: diff_step_def old_side_def new_side_def as_row_def aligned_def)
    next
      case plus
      then show ?thesis
        using line assms by (auto simp: diff_step_def old_side_def new_side_def as_row_def aligned_def)
    next
      case remark
      then show ?thesis
        using line assms by (simp add: diff_step_def old_side_def new_side_def)
    next
      case other
      let ?row = "'' '' @ (if c = CHR '' '' then rest else l)"
      have "as_row l = ?row"
        using other line by (auto simp: as_row_def)
      moreover have "newline \<notin> set ?row"
        using assms(2) line by auto
      ultimately show ?thesis
        using line other aligned_flush_push [OF assms(1), of ?row]
        by (cases "c = CHR ''@''"; cases "c = CHR '' ''") (simp_all add: diff_step_def old_side_def new_side_def)
    qed
  qed
  then show ?A and ?B
    by simp_all
qed

section \<open>What the columns show\<close>

lemma aligned_fold:
  "aligned st os ns \<Longrightarrow> \<forall>l\<in>set ls. newline \<notin> set l \<Longrightarrow>
   aligned (fold diff_step ls st) (os @ old_side (shown (df_in_hunk st) ls)) (ns @ new_side (shown (df_in_hunk st) ls))"
proof (induction ls arbitrary: st os ns)
  case Nil
  then show ?case
    by (simp add: old_side_def new_side_def)
next
  case (Cons l ls)
  then have "newline \<notin> set l" and rest: "\<forall>l\<in>set ls. newline \<notin> set l"
    by simp_all
  note step = aligned_step [OF Cons.prems(1) \<open>newline \<notin> set l\<close>]
  have sides: "old_side (xs @ ys) = old_side xs @ old_side ys" "new_side (xs @ ys) = new_side xs @ new_side ys" for xs ys
    by (simp_all add: old_side_def new_side_def)
  have "shown (df_in_hunk st) (l # ls) = shown (df_in_hunk st) [l] @ shown (df_in_hunk (diff_step l st)) ls"
    by (rule step(2))
  then show ?case
    using Cons.IH [OF step(1) rest] by (simp only: fold.simps comp_apply sides append_assoc)
qed

lemma aligned_rows:
  assumes "\<forall>l\<in>set ls. newline \<notin> set l"
  shows "aligned (diff_rows ls) (old_side (shown False ls)) (new_side (shown False ls)) \<and>
    df_removed (diff_rows ls) = [] \<and> df_added (diff_rows ls) = []"
proof -
  have "aligned no_rows [] []"
    by (simp add: aligned_def no_rows_def left_shows_def right_shows_def)
  then show ?thesis
    using aligned_flush aligned_fold [of no_rows "[]" "[]" ls] assms
    by (simp add: diff_rows_def no_rows_def)
qed

lemma diff_lines_no_newline: "\<forall>l\<in>set (take n (str_lines diff)). newline \<notin> set l"
  using str_lines_no_newline by (blast dest: in_set_takeD)

lemma aligned_columns:
  assumes "aligned st os ns"
  shows "length (df_left st) = length (df_right st)"
    and "\<forall>l\<in>set (df_left st). newline \<notin> set l \<and> l \<noteq> []"
    and "\<forall>l\<in>set (df_right st). newline \<notin> set l \<and> l \<noteq> []"
  using assms by (auto simp: aligned_def)

text \<open>
  The two columns of a side-by-side diff always have the same number of lines.\<close>

theorem columns_same_length:
  "length (str_lines (col_left (side_by_side diff))) = length (str_lines (col_right (side_by_side diff)))"
proof -
  let ?st = "diff_rows (take max_diff_lines (str_lines diff))"
  have "aligned ?st (old_side (shown False (take max_diff_lines (str_lines diff))))
      (new_side (shown False (take max_diff_lines (str_lines diff))))"
    using aligned_rows [OF diff_lines_no_newline] by blast
  note aligned_columns [OF this]
  then show ?thesis
    by (simp add: side_by_side_def Let_def length_str_lines_join)
qed

text \<open>
  The left column holds exactly the hunk headers, context lines and removed lines of the
  first 20,000 lines of the diff, in their order, and the right column the headers, context
  lines and added lines; all other cells are fillers.\<close>

theorem columns_hold_both_sides:
  "let ls = take max_diff_lines (str_lines diff); st = diff_rows ls
   in side_by_side diff =
        \<lparr>col_left = join_with [newline] (df_left st), col_right = join_with [newline] (df_right st)\<rparr> \<and>
      left_shows (df_left st) (df_right st) = old_side (shown False ls) \<and>
      right_shows (df_left st) (df_right st) = new_side (shown False ls)"
proof -
  let ?ls = "take max_diff_lines (str_lines diff)"
  have "aligned (diff_rows ?ls) (old_side (shown False ?ls)) (new_side (shown False ?ls))"
    and "df_removed (diff_rows ?ls) = []" and "df_added (diff_rows ?ls) = []"
    using aligned_rows [OF diff_lines_no_newline] by blast+
  then show ?thesis
    unfolding aligned_def by (simp add: side_by_side_def Let_def)
qed

end
