(* ===== verification/Handoff_Store.thy ===== *)
theory Handoff_Store
  imports Machines Sql_Table Audit_Chain Float32 "HOL-Library.List_Lexorder" "HOL-Library.Char_ord"
begin

text \<open>
  \<open>crates/raios-core/src/db/wf_handoff.rs\<close>, \<open>wf_handoff_receipt.rs\<close> and \<open>project_id_for_file_path\<close> of
  \<open>wf_file_change.rs\<close>: handing work from one agent to another. A handoff is four linked rows (approval, task,
  run, artifact) and a run contract. The connection is the record of the tables; a column that may be NULL
  is an option. Clock readings, fresh identifiers and whether the audit record can be written come from
  the environment; the hash and the JSON object encoder (third party) are the parameters \<open>H\<close> and \<open>js\<close>.
  A statement's error ends the caller's transaction, so an error carries no state. Time stamps are
  numbers that compare as the stored texts do.
\<close>

section \<open>Tables\<close>

record handoff_report =
  hrp_findings :: string
  hrp_evidence :: "string list"
  hrp_edge_cases :: "string list"
  hrp_open_questions :: "string list"
  hrp_confidence :: f32
  hrp_unchecked :: "string list"

text \<open>The decoded \<open>metadata_json\<close> of an artifact; an absent key, or text that is no JSON, is \<open>None\<close>.\<close>

record handoff_metadata =
  hm_from :: "string option"
  hm_status :: "string option"
  hm_summary :: "string option"
  hm_diff_stat :: "string option"
  hm_report :: "handoff_report option"
  hm_user_status :: "string option"
  hm_user_status_at :: "int option"

record project_row =
  pj_id :: int
  pj_name :: string
  pj_path :: string

record task_row =
  tk_id :: string
  tk_project :: "int option"
  tk_plan :: "string option"
  tk_parent :: "string option"
  tk_title :: string
  tk_description :: string
  tk_priority :: int
  tk_status :: string
  tk_assignee_kind :: "string option"
  tk_assignee :: "string option"
  tk_acceptance :: string
  tk_created_at :: int
  tk_updated_at :: int

record run_row =
  rn_id :: string
  rn_task :: string
  rn_project :: "int option"
  rn_provider :: string
  rn_agent :: string
  rn_contract :: string
  rn_attempt :: int
  rn_status :: string
  rn_started_at :: "int option"
  rn_ended_at :: "int option"
  rn_exit_reason :: "string option"

record artifact_row =
  af_id :: string
  af_task :: string
  af_run :: string
  af_kind :: string
  af_status :: string
  af_metadata :: handoff_metadata
  af_created_at :: int

record approval_row =
  ap_id :: string
  ap_project :: "int option"
  ap_task :: "string option"
  ap_run :: "string option"
  ap_artifact :: "string option"
  ap_type :: string
  ap_reason :: string
  ap_status :: string
  ap_owner :: string
  ap_requested_at :: int
  ap_resolved_at :: "int option"
  ap_resolved_by :: "string option"
  ap_revision :: int

record contract_row =
  rc_id :: string
  rc_task :: "string option"
  rc_root :: string

text \<open>A graph node of kind \<open>verify_gate\<close> with its task.\<close>

record gate_row =
  vg_node :: string
  vg_task :: string

record control_db =
  cd_projects :: "project_row list"
  cd_tasks :: "task_row list"
  cd_runs :: "run_row list"
  cd_artifacts :: "artifact_row list"
  cd_approvals :: "approval_row list"
  cd_contracts :: "contract_row list"
  cd_gates :: "gate_row list"
  cd_audit :: "audit_row list"

datatype db_error =
    Db_Audit
  | Db_Constraint
  | Db_Not_Found
  | Db_Gate_Open string
  | Db_Not_Completable
  | Db_Inconsistent
  | Db_Commit

record db_env =
  en_now :: int
  en_stamp :: string
  en_audit_ok :: bool

text \<open>Comparison with \<open>=\<close> in SQL: NULL equals nothing.\<close>

definition sql_eq :: "'a option \<Rightarrow> 'a option \<Rightarrow> bool" where
  "sql_eq x y \<longleftrightarrow> x \<noteq> None \<and> x = y"

section \<open>Joins\<close>

definition find_approval :: "control_db \<Rightarrow> string \<Rightarrow> approval_row option" where
  "find_approval db i = List.find (\<lambda>r. ap_id r = i) (cd_approvals db)"

definition task_by_id :: "control_db \<Rightarrow> string \<Rightarrow> task_row option" where
  "task_by_id db i = List.find (\<lambda>r. tk_id r = i) (cd_tasks db)"

definition run_by_id :: "control_db \<Rightarrow> string \<Rightarrow> run_row option" where
  "run_by_id db i = List.find (\<lambda>r. rn_id r = i) (cd_runs db)"

definition artifact_by_id :: "control_db \<Rightarrow> string \<Rightarrow> artifact_row option" where
  "artifact_by_id db i = List.find (\<lambda>r. af_id r = i) (cd_artifacts db)"

definition contract_by_id :: "control_db \<Rightarrow> string \<Rightarrow> contract_row option" where
  "contract_by_id db i = List.find (\<lambda>r. rc_id r = i) (cd_contracts db)"

type_synonym linked_rows = "approval_row \<times> task_row \<times> run_row \<times> artifact_row"

text \<open>The rows an approval points to; the inner joins drop an approval with a missing one.\<close>

definition joined :: "control_db \<Rightarrow> approval_row \<Rightarrow> (task_row \<times> run_row \<times> artifact_row) option" where
  "joined db ap =
     (case Option.bind (ap_task ap) (task_by_id db) of None \<Rightarrow> None
      | Some t \<Rightarrow> (case Option.bind (ap_run ap) (run_by_id db) of None \<Rightarrow> None
      | Some r \<Rightarrow> map_option (\<lambda>a. (t, r, a)) (Option.bind (ap_artifact ap) (artifact_by_id db))))"

text \<open>The stricter join of the deciding statements: run and artifact belong to the task, the artifact to the run.\<close>

definition linked_handoff :: "control_db \<Rightarrow> string \<Rightarrow> linked_rows option" where
  "linked_handoff db i =
     (case find_approval db i of None \<Rightarrow> None
      | Some ap \<Rightarrow> (case joined db ap of None \<Rightarrow> None
      | Some (t, r, a) \<Rightarrow>
          (if rn_task r = tk_id t \<and> af_task a = tk_id t \<and> af_run a = rn_id r then Some (ap, t, r, a) else None)))"

section \<open>Audit\<close>

definition audit_after :: "(string \<Rightarrow> string) \<Rightarrow> db_env \<Rightarrow> control_db \<Rightarrow> string \<Rightarrow> string \<Rightarrow> string \<Rightarrow> db_error + control_db" where
  "audit_after H env db ev actor data =
     (if en_audit_ok env
      then Ok (db\<lparr>cd_audit := append_audit_event H (cd_audit db) True (en_stamp env) ev actor data\<rparr>)
      else Err Db_Audit)"

type_synonym json_object = "(string \<times> string) list \<Rightarrow> string"

definition decision_json :: "json_object \<Rightarrow> string \<Rightarrow> string \<Rightarrow> string" where
  "decision_json js i by = js [(''approval_id'', i), (''resolved_by'', by)]"

section \<open>Decisions\<close>

definition awaiting :: string where
  "awaiting = ''awaiting_approval''"

definition decidable_by :: "string \<Rightarrow> linked_rows \<Rightarrow> bool" where
  "decidable_by owner q =
     (case q of (ap, t, r, a) \<Rightarrow>
        ap_owner ap = owner \<and> ap_type ap = ''handover'' \<and> ap_status ap = ''pending'' \<and>
        tk_status t = awaiting \<and> rn_status r = awaiting \<and> rn_provider r = ''handoff'' \<and>
        af_kind a = ''handover_note'' \<and> af_status a = ''submitted'')"

definition cp_resolve_handoff ::
  "db_env \<Rightarrow> control_db \<Rightarrow> string \<Rightarrow> string \<Rightarrow> string \<Rightarrow> string option \<Rightarrow> bool \<times> control_db" where
  "cp_resolve_handoff env db i owner by rejection =
     (case linked_handoff db i of
        None \<Rightarrow> (False, db)
      | Some (ap, t, r, a) \<Rightarrow>
          if \<not> decidable_by owner (ap, t, r, a) then (False, db)
          else let reject = rejection \<noteq> None in
            (True, db\<lparr>
              cd_approvals := update_where (\<lambda>x. ap_id x = i) (\<lambda>x. x\<lparr>
                ap_status := (if reject then ''rejected'' else ''approved''),
                ap_resolved_at := Some (en_now env), ap_resolved_by := Some by,
                ap_reason := (case rejection of None \<Rightarrow> ap_reason x
                  | Some why \<Rightarrow> ap_reason x @ [CHR 10] @ ''Rejected: '' @ why),
                ap_revision := ap_revision x + 1\<rparr>) (cd_approvals db),
              cd_artifacts := update_where (\<lambda>x. af_id x = af_id a)
                (\<lambda>x. x\<lparr>af_status := (if reject then ''rejected'' else ''applied'')\<rparr>) (cd_artifacts db),
              cd_runs := update_where (\<lambda>x. rn_id x = rn_id r)
                (\<lambda>x. x\<lparr>rn_status := (if reject then ''cancelled'' else ''succeeded''),
                  rn_ended_at := Some (en_now env),
                  rn_exit_reason := Some (if reject then ''handover_rejected'' else ''handover_delivered'')\<rparr>) (cd_runs db),
              cd_tasks := update_where (\<lambda>x. tk_id x = tk_id t)
                (\<lambda>x. x\<lparr>tk_status := (if reject then ''cancelled'' else ''completed''),
                  tk_updated_at := en_now env\<rparr>) (cd_tasks db)\<rparr>))"

definition cp_approve_handoff_by_owner :: "(string \<Rightarrow> string) \<Rightarrow> json_object \<Rightarrow> db_env \<Rightarrow> control_db \<Rightarrow>
    string \<Rightarrow> string \<Rightarrow> string \<Rightarrow> db_error + (bool \<times> control_db)" where
  "cp_approve_handoff_by_owner H js env db i owner by =
     (case linked_handoff db i of
        None \<Rightarrow> Ok (False, db)
      | Some (ap, t, r, a) \<Rightarrow>
          if \<not> decidable_by owner (ap, t, r, a) then Ok (False, db)
          else and_then (audit_after H env (db\<lparr>
              cd_approvals := update_where (\<lambda>x. ap_id x = i) (\<lambda>x. x\<lparr>ap_status := ''approved'',
                ap_resolved_at := Some (en_now env), ap_resolved_by := Some by,
                ap_revision := ap_revision x + 1\<rparr>) (cd_approvals db),
              cd_runs := update_where (\<lambda>x. rn_id x = rn_id r) (\<lambda>x. x\<lparr>rn_status := ''succeeded'',
                rn_ended_at := Some (en_now env), rn_exit_reason := Some ''handover_approved_by_owner''\<rparr>) (cd_runs db)\<rparr>)
              ''handover_approved_by_owner'' by (decision_json js i by))
            (\<lambda>db'. Ok (True, db')))"

definition run_deliverable :: "run_row \<Rightarrow> bool" where
  "run_deliverable r \<longleftrightarrow> rn_status r = awaiting \<or>
     rn_status r = ''succeeded'' \<and> rn_exit_reason r = Some ''handover_approved_by_owner''"

definition deliverable_to :: "string \<Rightarrow> linked_rows \<Rightarrow> bool" where
  "deliverable_to agent q =
     (case q of (ap, t, r, a) \<Rightarrow>
        ap_type ap = ''handover'' \<and> ap_status ap \<in> {''pending'', ''approved''} \<and>
        tk_status t = awaiting \<and> tk_assignee t = Some agent \<and> rn_provider r = ''handoff'' \<and>
        run_deliverable r \<and> af_kind a = ''handover_note'' \<and> af_status a = ''submitted'')"

definition cp_mark_handoff_delivered :: "(string \<Rightarrow> string) \<Rightarrow> json_object \<Rightarrow> db_env \<Rightarrow> control_db \<Rightarrow>
    string \<Rightarrow> string \<Rightarrow> db_error + (bool \<times> control_db)" where
  "cp_mark_handoff_delivered H js env db i by =
     (case linked_handoff db i of
        None \<Rightarrow> Ok (False, db)
      | Some (ap, t, r, a) \<Rightarrow>
          if \<not> deliverable_to by (ap, t, r, a) then Ok (False, db)
          else and_then (audit_after H env (db\<lparr>
              cd_approvals := update_where (\<lambda>x. ap_id x = i) (\<lambda>x. x\<lparr>ap_status := ''approved'',
                ap_resolved_at := Some (en_now env), ap_resolved_by := Some by,
                ap_revision := ap_revision x + 1\<rparr>) (cd_approvals db),
              cd_artifacts := update_where (\<lambda>x. af_id x = af_id a) (\<lambda>x. x\<lparr>af_status := ''applied''\<rparr>) (cd_artifacts db),
              cd_tasks := update_where (\<lambda>x. tk_id x = tk_id t)
                (\<lambda>x. x\<lparr>tk_status := ''completed'', tk_updated_at := en_now env\<rparr>) (cd_tasks db),
              cd_runs := (if rn_status r = awaiting
                then update_where (\<lambda>x. rn_id x = rn_id r) (\<lambda>x. x\<lparr>rn_status := ''succeeded'',
                  rn_ended_at := Some (en_now env), rn_exit_reason := Some ''handover_delivered''\<rparr>) (cd_runs db)
                else cd_runs db)\<rparr>)
              ''handover_delivered'' by (decision_json js i by))
            (\<lambda>db'. Ok (True, db')))"

section \<open>Taking\<close>

definition forward_slashes :: "string \<Rightarrow> string" where
  "forward_slashes s = map (\<lambda>c. if c = CHR 92 then CHR ''/'' else c) s"

text \<open>The project with the longest path the text starts with; \<open>max_by_key\<close> keeps the last of equals.\<close>

definition project_id_for_file_path :: "project_row list \<Rightarrow> string \<Rightarrow> int option" where
  "project_id_for_file_path projects path =
     (let target = forward_slashes path;
          roots = map (\<lambda>p. (pj_id p, forward_slashes (pj_path p))) (sort_key pj_name projects);
          hits = map (\<lambda>(k, root). (k, length root)) (filter (\<lambda>(k, root). starts_with target root) roots)
      in map_option fst (fold (\<lambda>x best. case best of None \<Rightarrow> Some x
           | Some y \<Rightarrow> if snd y \<le> snd x then Some x else best) hits None))"

record handoff_context =
  hx_approval :: string
  hx_artifact :: string
  hx_run :: string
  hx_task :: string
  hx_from :: string
  hx_to :: string
  hx_status :: string
  hx_summary :: string
  hx_report :: "handoff_report option"
  hx_diff_stat :: "string option"
  hx_by_owner :: bool

definition or_default :: "string option \<Rightarrow> string" where
  "or_default x = (case x of None \<Rightarrow> '''' | Some s \<Rightarrow> s)"

definition waiting_for :: "control_db \<Rightarrow> int option \<Rightarrow> string option \<Rightarrow> string \<Rightarrow> approval_row \<Rightarrow> bool" where
  "waiting_for db pid path agent ap =
     (case joined db ap of None \<Rightarrow> False
      | Some (t, r, a) \<Rightarrow> (case contract_by_id db (rn_contract r) of None \<Rightarrow> False
      | Some c \<Rightarrow> deliverable_to agent (ap, t, r, a) \<and>
          (pid = None \<and> path = None \<or> sql_eq (tk_project t) pid \<or> pid = None \<and> path = Some (rc_root c))))"

definition context_of :: "control_db \<Rightarrow> string \<Rightarrow> approval_row \<Rightarrow> handoff_context option" where
  "context_of db agent ap =
     map_option (\<lambda>(t, r, a).
       \<lparr>hx_approval = ap_id ap, hx_artifact = af_id a, hx_run = rn_id r, hx_task = tk_id t,
        hx_from = or_default (hm_from (af_metadata a)), hx_to = agent,
        hx_status = or_default (hm_status (af_metadata a)), hx_summary = or_default (hm_summary (af_metadata a)),
        hx_report = hm_report (af_metadata a), hx_diff_stat = hm_diff_stat (af_metadata a),
        hx_by_owner = (ap_status ap = ''approved'')\<rparr>) (joined db ap)"

text \<open>\<open>ORDER BY requested_at DESC LIMIT 1\<close>; SQLite leaves the order of equals open, here it is that of the rows.\<close>

definition select_pending_handoff ::
  "control_db \<Rightarrow> int option \<Rightarrow> string option \<Rightarrow> string \<Rightarrow> handoff_context option" where
  "select_pending_handoff db pid path agent =
     (case sort_key (\<lambda>ap. - ap_requested_at ap) (select_where (waiting_for db pid path agent) (cd_approvals db)) of
        [] \<Rightarrow> None
      | ap # _ \<Rightarrow> context_of db agent ap)"

definition cp_take_pending_handoff :: "control_db \<Rightarrow> int option \<Rightarrow> string \<Rightarrow> handoff_context option" where
  "cp_take_pending_handoff db pid agent = select_pending_handoff db pid None agent"

definition cp_take_pending_handoff_for_path :: "control_db \<Rightarrow> string \<Rightarrow> string \<Rightarrow> handoff_context option" where
  "cp_take_pending_handoff_for_path db path agent =
     select_pending_handoff db (project_id_for_file_path (cd_projects db) path) (Some path) agent"

definition cp_consume_handoff :: "(string \<Rightarrow> string) \<Rightarrow> json_object \<Rightarrow> db_env \<Rightarrow> control_db \<Rightarrow>
    handoff_context \<Rightarrow> string \<Rightarrow> db_error + control_db" where
  "cp_consume_handoff H js env db ctx by =
     (case find_approval db (hx_approval ctx) of None \<Rightarrow> Ok db
      | Some ap \<Rightarrow> (case Option.bind (ap_task ap) (task_by_id db) of None \<Rightarrow> Ok db
      | Some t \<Rightarrow>
          if ap_task ap = Some (hx_task ctx) \<and> ap_run ap = Some (hx_run ctx) \<and>
             ap_artifact ap = Some (hx_artifact ctx) \<and> tk_assignee t = Some by
          then and_then (cp_mark_handoff_delivered H js env db (hx_approval ctx) by) (\<lambda>(b, db'). Ok db')
          else Ok db))"

definition cp_approval_revision :: "control_db \<Rightarrow> string \<Rightarrow> int option" where
  "cp_approval_revision db i = map_option ap_revision (find_approval db i)"

section \<open>Receipts\<close>

record stored_receipt =
  hrc_approval :: string
  hrc_project :: string
  hrc_from :: string
  hrc_to :: string
  hrc_status :: string
  hrc_resolved_by :: "string option"
  hrc_resolved_at :: "int option"

definition delivered_by_target :: "stored_receipt \<Rightarrow> bool" where
  "delivered_by_target r \<longleftrightarrow> hrc_status r = ''approved'' \<and> hrc_resolved_by r = Some (hrc_to r)"

definition cp_handoff_receipt :: "control_db \<Rightarrow> string \<Rightarrow> string \<Rightarrow> stored_receipt option" where
  "cp_handoff_receipt db i path =
     (case find_approval db i of None \<Rightarrow> None
      | Some ap \<Rightarrow> (case joined db ap of None \<Rightarrow> None
      | Some (t, r, a) \<Rightarrow> (case contract_by_id db (rn_contract r) of None \<Rightarrow> None
      | Some c \<Rightarrow>
          if ap_type ap = ''handover'' \<and> rc_root c = path
          then Some \<lparr>hrc_approval = i, hrc_project = rc_root c, hrc_from = or_default (hm_from (af_metadata a)),
                 hrc_to = or_default (tk_assignee t), hrc_status = ap_status ap,
                 hrc_resolved_by = ap_resolved_by ap, hrc_resolved_at = ap_resolved_at ap\<rparr>
          else None)))"

section \<open>Creating\<close>

record handoff_input =
  hi_path :: string
  hi_from :: string
  hi_to :: string
  hi_status :: string
  hi_msg :: string
  hi_diff_stat :: "string option"
  hi_report :: "handoff_report option"

record handoff_ids =
  hd_task :: string
  hd_run :: string
  hd_artifact :: string
  hd_approval :: string
  hd_contract :: string
  hd_project :: "int option"

text \<open>JSON has no infinities: such a confidence is stored as null, and the report does not decode again.\<close>

definition stored_report :: "handoff_report option \<Rightarrow> handoff_report option" where
  "stored_report r = (case r of None \<Rightarrow> None | Some h \<Rightarrow> if f_is_finite (hrp_confidence h) then Some h else None)"

definition open_gate :: "control_db \<Rightarrow> string option" where
  "open_gate db = find_map (\<lambda>g. case task_by_id db (vg_task g) of None \<Rightarrow> None
     | Some t \<Rightarrow> if tk_status t \<noteq> ''completed'' then Some (vg_node g) else None) (cd_gates db)"

text \<open>The tasks a new handoff replaces: those of the same assignee in the same project or, unregistered, directory.\<close>

definition in_handoff_scope :: "control_db \<Rightarrow> string \<Rightarrow> int option \<Rightarrow> string \<Rightarrow> task_row \<Rightarrow> bool" where
  "in_handoff_scope db agent pid path t \<longleftrightarrow>
     tk_assignee t = Some agent \<and>
     (sql_eq (tk_project t) pid \<or>
      pid = None \<and> list_ex (\<lambda>c. rc_root c = path \<and> rc_task c = Some (tk_id t)) (cd_contracts db))"

definition scope_ids :: "control_db \<Rightarrow> string \<Rightarrow> int option \<Rightarrow> string \<Rightarrow> string list" where
  "scope_ids db agent pid path = map tk_id (select_where (in_handoff_scope db agent pid path) (cd_tasks db))"

definition superseded_approval :: "control_db \<Rightarrow> string list \<Rightarrow> approval_row \<Rightarrow> bool" where
  "superseded_approval db ids ap \<longleftrightarrow>
     ap_type ap = ''handover'' \<and>
     (ap_status ap = ''pending'' \<or> ap_status ap = ''approved'' \<and> ap_resolved_by ap = Some (ap_owner ap)) \<and>
     ap_resolved_by ap \<noteq> Option.bind (Option.bind (ap_task ap) (task_by_id db)) tk_assignee \<and>
     (case ap_task ap of None \<Rightarrow> False | Some t \<Rightarrow> t \<in> set ids)"

definition supersede :: "db_env \<Rightarrow> control_db \<Rightarrow> string list \<Rightarrow> control_db" where
  "supersede env db ids =
     db\<lparr>cd_approvals := update_where (superseded_approval db ids)
          (\<lambda>x. x\<lparr>ap_status := ''expired'', ap_resolved_at := Some (en_now env),
             ap_resolved_by := Some ''superseded'', ap_revision := ap_revision x + 1\<rparr>) (cd_approvals db),
        cd_artifacts := update_where (\<lambda>x. af_kind x = ''handover_note'' \<and> af_status x = ''submitted'' \<and> af_task x \<in> set ids)
          (\<lambda>x. x\<lparr>af_status := ''superseded''\<rparr>) (cd_artifacts db),
        cd_runs := update_where (\<lambda>x. rn_provider x = ''handoff'' \<and> rn_status x = awaiting \<and> rn_task x \<in> set ids)
          (\<lambda>x. x\<lparr>rn_status := ''cancelled'', rn_ended_at := Some (en_now env), rn_exit_reason := Some ''superseded''\<rparr>)
          (cd_runs db),
        cd_tasks := update_where (\<lambda>x. tk_id x \<in> set ids \<and> tk_status x = awaiting \<and>
            list_ex (\<lambda>r. rn_task r = tk_id x \<and> rn_provider r = ''handoff'') (cd_runs db))
          (\<lambda>x. x\<lparr>tk_status := ''cancelled'', tk_updated_at := en_now env\<rparr>) (cd_tasks db)\<rparr>"

definition handoff_title :: "string \<Rightarrow> string" where
  "handoff_title agent = ''Handoff '' @ [CHR 0xE2, CHR 0x86, CHR 0x92] @ '' '' @ agent"

definition new_task :: "db_env \<Rightarrow> handoff_ids \<Rightarrow> handoff_input \<Rightarrow> task_row" where
  "new_task env ids inp =
     \<lparr>tk_id = hd_task ids, tk_project = hd_project ids, tk_plan = None, tk_parent = None,
      tk_title = handoff_title (hi_to inp),
      tk_description = ''Agent handoff from '' @ hi_from inp @ '' to '' @ hi_to inp @ '' (status: '' @
        to_lowercase (hi_status inp) @ ''): '' @ hi_msg inp,
      tk_priority = 50, tk_status = awaiting, tk_assignee_kind = Some ''agent'', tk_assignee = Some (hi_to inp),
      tk_acceptance = ''deliver handover context to assignee exactly once'',
      tk_created_at = en_now env, tk_updated_at = en_now env\<rparr>"

definition new_run :: "db_env \<Rightarrow> handoff_ids \<Rightarrow> handoff_input \<Rightarrow> run_row" where
  "new_run env ids inp =
     \<lparr>rn_id = hd_run ids, rn_task = hd_task ids, rn_project = hd_project ids, rn_provider = ''handoff'',
      rn_agent = hi_from inp, rn_contract = hd_contract ids, rn_attempt = 1, rn_status = awaiting,
      rn_started_at = Some (en_now env), rn_ended_at = None, rn_exit_reason = None\<rparr>"

definition new_artifact :: "db_env \<Rightarrow> handoff_ids \<Rightarrow> handoff_input \<Rightarrow> artifact_row" where
  "new_artifact env ids inp =
     \<lparr>af_id = hd_artifact ids, af_task = hd_task ids, af_run = hd_run ids, af_kind = ''handover_note'',
      af_status = ''submitted'',
      af_metadata = \<lparr>hm_from = Some (hi_from inp), hm_status = Some (to_lowercase (hi_status inp)),
        hm_summary = Some (hi_msg inp), hm_diff_stat = hi_diff_stat inp, hm_report = stored_report (hi_report inp),
        hm_user_status = None, hm_user_status_at = None\<rparr>,
      af_created_at = en_now env\<rparr>"

definition new_approval :: "db_env \<Rightarrow> handoff_ids \<Rightarrow> handoff_input \<Rightarrow> approval_row" where
  "new_approval env ids inp =
     \<lparr>ap_id = hd_approval ids, ap_project = hd_project ids, ap_task = Some (hd_task ids), ap_run = Some (hd_run ids),
      ap_artifact = Some (hd_artifact ids), ap_type = ''handover'', ap_reason = hi_msg inp, ap_status = ''pending'',
      ap_owner = ''local_control_owner'', ap_requested_at = en_now env, ap_resolved_at = None,
      ap_resolved_by = None, ap_revision = 1\<rparr>"

text \<open>The five inserts; each needs an identifier that its table does not have yet.\<close>

definition insert_handoff :: "db_env \<Rightarrow> control_db \<Rightarrow> handoff_ids \<Rightarrow> handoff_input \<Rightarrow> db_error + control_db" where
  "insert_handoff env db ids inp =
     (if task_by_id db (hd_task ids) \<noteq> None \<or> contract_by_id db (hd_contract ids) \<noteq> None \<or>
         run_by_id db (hd_run ids) \<noteq> None \<or> artifact_by_id db (hd_artifact ids) \<noteq> None \<or>
         find_approval db (hd_approval ids) \<noteq> None then Err Db_Constraint
      else Ok (db\<lparr>
        cd_tasks := cd_tasks db @ [new_task env ids inp],
        cd_contracts := cd_contracts db @
          [\<lparr>rc_id = hd_contract ids, rc_task = Some (hd_task ids), rc_root = hi_path inp\<rparr>],
        cd_runs := cd_runs db @ [new_run env ids inp],
        cd_artifacts := cd_artifacts db @ [new_artifact env ids inp],
        cd_approvals := cd_approvals db @ [new_approval env ids inp]\<rparr>))"

text \<open>A successful result also acknowledges the handoff its sender was working on.\<close>

definition acknowledge_incoming :: "(string \<Rightarrow> string) \<Rightarrow> json_object \<Rightarrow> db_env \<Rightarrow> control_db \<Rightarrow> int option \<Rightarrow>
    handoff_input \<Rightarrow> db_error + control_db" where
  "acknowledge_incoming H js env db pid inp =
     (case select_pending_handoff db pid (Some (hi_path inp)) (hi_from inp) of None \<Rightarrow> Ok db
      | Some ctx \<Rightarrow> and_then (cp_mark_handoff_delivered H js env db (hx_approval ctx) (hi_from inp)) (\<lambda>(b, db'). Ok db'))"

definition create_handoff_workflow_in_tx :: "(string \<Rightarrow> string) \<Rightarrow> json_object \<Rightarrow> db_env \<Rightarrow> control_db \<Rightarrow>
    handoff_ids \<Rightarrow> handoff_input \<Rightarrow> db_error + (handoff_ids \<times> control_db)" where
  "create_handoff_workflow_in_tx H js env db fresh inp =
     (let pid = project_id_for_file_path (cd_projects db) (hi_path inp);
          ids = fresh\<lparr>hd_project := pid\<rparr>;
          success = (to_lowercase (hi_status inp) = ''success'')
      in case (if success then open_gate db else None) of
           Some node \<Rightarrow> Err (Db_Gate_Open node)
         | None \<Rightarrow>
             and_then (if success then acknowledge_incoming H js env db pid inp else Ok db) (\<lambda>db1.
             and_then (insert_handoff env (supersede env db1 (scope_ids db1 (hi_to inp) pid (hi_path inp))) ids inp)
               (\<lambda>db2. Ok (ids, db2))))"

section \<open>The local user's disposition\<close>

definition set_user_status :: "db_env \<Rightarrow> string \<Rightarrow> string \<Rightarrow> control_db \<Rightarrow> control_db" where
  "set_user_status env artifact st db =
     db\<lparr>cd_artifacts := update_where (\<lambda>x. af_id x = artifact)
       (\<lambda>x. x\<lparr>af_metadata := (af_metadata x)\<lparr>hm_user_status := Some st, hm_user_status_at := Some (en_now env)\<rparr>\<rparr>)
       (cd_artifacts db)\<rparr>"

definition cp_manage_handoff :: "(string \<Rightarrow> string) \<Rightarrow> json_object \<Rightarrow> db_env \<Rightarrow> control_db \<Rightarrow>
    string \<Rightarrow> bool \<Rightarrow> db_error + control_db" where
  "cp_manage_handoff H js env db i remove =
     (case linked_handoff db i of None \<Rightarrow> Err Db_Not_Found
      | Some (ap, t, r, a) \<Rightarrow>
          let disposition = (if remove then ''removed'' else ''completed'');
              user_status = hm_user_status (af_metadata a)
          in if \<not> (ap_type ap = ''handover'' \<and> ap_owner ap = ''local_control_owner'' \<and>
               rn_provider r = ''handoff'' \<and> af_kind a = ''handover_note'') then Err Db_Not_Found
             else if user_status = Some disposition then Ok db
             else if \<not> remove \<and> (user_status = Some ''removed'' \<or> ap_status ap \<notin> {''pending'', ''approved''})
               then Err Db_Not_Completable
             else let (resolved, db1) = (if ap_status ap = ''pending''
                 then cp_resolve_handoff env db i ''local_control_owner'' ''local_user''
                   (if remove then Some ''Removed by local user'' else None)
                 else (True, db))
               in if \<not> resolved then Err Db_Inconsistent
                  else audit_after H env (set_user_status env (af_id a) disposition db1)
                    (if remove then ''handover_removed_by_user'' else ''handover_completed_by_user'')
                    ''local_user'' (js [(''approval_id'', i), (''disposition'', disposition)]))"

section \<open>The store as a machine\<close>

text \<open>
  What happens to the store: handoffs are created, approved or rejected by the control plane's owner (who
  decides under its own subject), consumed by an agent's wrapper, disposed of by the local user, and projects
  are registered. An error leaves the store as it was.
\<close>

datatype store_event =
    Hev_Create db_env handoff_ids handoff_input
  | Hev_Approve db_env string string
  | Hev_Reject db_env string string string
  | Hev_Consume db_env handoff_context string
  | Hev_Manage db_env string bool
  | Hev_Register "project_row list"

definition or_keep :: "'s \<Rightarrow> ('e + 'a) \<Rightarrow> ('a \<Rightarrow> 's) \<Rightarrow> 's" where
  "or_keep s r f = (case r of Inl e \<Rightarrow> s | Inr x \<Rightarrow> f x)"

fun store_step :: "(string \<Rightarrow> string) \<Rightarrow> json_object \<Rightarrow> control_db \<Rightarrow> store_event \<Rightarrow> control_db" where
  "store_step H js db (Hev_Create env ids inp) = or_keep db (create_handoff_workflow_in_tx H js env db ids inp) snd"
| "store_step H js db (Hev_Approve env i subject) =
     or_keep db (cp_approve_handoff_by_owner H js env db i subject subject) snd"
| "store_step H js db (Hev_Reject env i subject why) =
     snd (cp_resolve_handoff env db i subject subject (Some why))"
| "store_step H js db (Hev_Consume env ctx by) = or_keep db (cp_consume_handoff H js env db ctx by) id"
| "store_step H js db (Hev_Manage env i remove) = or_keep db (cp_manage_handoff H js env db i remove) id"
| "store_step H js db (Hev_Register ps) = db\<lparr>cd_projects := ps\<rparr>"

end
