(* ===== verification/Handoff_Rows.thy ===== *)
theory Handoff_Rows
  imports Handoff_Store Machines
begin

text \<open>
  The four rows of a handoff and the stage they agree on, the invariant of the store, and how statements that change
  rows in place carry over to the handoffs they belong to.
\<close>

section \<open>Stages\<close>

datatype handoff_stage = Hs_Waiting | Hs_Consented | Hs_Delivered | Hs_Closed | Hs_Rejected | Hs_Superseded

definition stage_of :: "linked_rows \<Rightarrow> handoff_stage" where
  "stage_of q = (case q of (ap, t, r, a) \<Rightarrow>
     if ap_status ap = ''pending'' then Hs_Waiting
     else if ap_status ap = ''rejected'' then Hs_Rejected
     else if ap_status ap = ''expired'' then Hs_Superseded
     else if tk_status t = awaiting then Hs_Consented
     else if ap_resolved_by ap = tk_assignee t then Hs_Delivered
     else Hs_Closed)"

text \<open>What the four rows of a handoff hold in each stage.\<close>

fun stage_rows :: "handoff_stage \<Rightarrow> linked_rows \<Rightarrow> bool" where
  "stage_rows Hs_Waiting (ap, t, r, a) \<longleftrightarrow>
     ap_status ap = ''pending'' \<and> ap_resolved_by ap = None \<and>
     tk_status t = awaiting \<and> rn_status r = awaiting \<and> af_status a = ''submitted''"
| "stage_rows Hs_Consented (ap, t, r, a) \<longleftrightarrow>
     ap_status ap = ''approved'' \<and> ap_resolved_by ap = Some (ap_owner ap) \<and>
     tk_status t = awaiting \<and> rn_status r = ''succeeded'' \<and>
     rn_exit_reason r = Some ''handover_approved_by_owner'' \<and> af_status a = ''submitted''"
| "stage_rows Hs_Delivered (ap, t, r, a) \<longleftrightarrow>
     ap_status ap = ''approved'' \<and> ap_resolved_by ap = tk_assignee t \<and>
     tk_status t = ''completed'' \<and> rn_status r = ''succeeded'' \<and> af_status a = ''applied''"
| "stage_rows Hs_Closed (ap, t, r, a) \<longleftrightarrow>
     ap_status ap = ''approved'' \<and> ap_resolved_by ap = Some ''local_user'' \<and>
     tk_status t = ''completed'' \<and> rn_status r = ''succeeded'' \<and> af_status a = ''applied''"
| "stage_rows Hs_Rejected (ap, t, r, a) \<longleftrightarrow>
     ap_status ap = ''rejected'' \<and> tk_status t = ''cancelled'' \<and> rn_status r = ''cancelled'' \<and> af_status a = ''rejected''"
| "stage_rows Hs_Superseded (ap, t, r, a) \<longleftrightarrow>
     ap_status ap = ''expired'' \<and> ap_resolved_by ap = Some ''superseded'' \<and>
     tk_status t = ''cancelled'' \<and> rn_status r \<in> {''cancelled'', ''succeeded''} \<and> af_status a = ''superseded''"

text \<open>The assignee is an agent, neither the owner nor the local user.\<close>

definition is_agent :: "string option \<Rightarrow> bool" where
  "is_agent x \<longleftrightarrow> x \<noteq> None \<and> x \<noteq> Some ''local_control_owner'' \<and> x \<noteq> Some ''local_user''"

definition rows_ok :: "linked_rows \<Rightarrow> bool" where
  "rows_ok q \<longleftrightarrow> (case q of (ap, t, r, a) \<Rightarrow>
     ap_type ap = ''handover'' \<and> ap_owner ap = ''local_control_owner'' \<and> is_agent (tk_assignee t) \<and>
     rn_provider r = ''handoff'' \<and> af_kind a = ''handover_note'' \<and> stage_rows (stage_of q) q)"

definition is_handover :: "approval_row \<Rightarrow> bool" where
  "is_handover ap \<longleftrightarrow> ap_type ap = ''handover''"

definition tables_keyed :: "control_db \<Rightarrow> bool" where
  "tables_keyed db \<longleftrightarrow> distinct (map ap_id (cd_approvals db)) \<and> distinct (map tk_id (cd_tasks db)) \<and>
     distinct (map rn_id (cd_runs db)) \<and> distinct (map af_id (cd_artifacts db)) \<and> distinct (map rc_id (cd_contracts db))"

definition contract_of :: "control_db \<Rightarrow> linked_rows \<Rightarrow> contract_row option" where
  "contract_of db q = (case q of (ap, t, r, a) \<Rightarrow> contract_by_id db (rn_contract r))"

definition handoff_rows :: "control_db \<Rightarrow> string \<Rightarrow> linked_rows option" where
  "handoff_rows db i = (case linked_handoff db i of None \<Rightarrow> None
     | Some q \<Rightarrow> if is_handover (fst q) then Some q else None)"

definition handoff_stage :: "control_db \<Rightarrow> string \<Rightarrow> handoff_stage option" where
  "handoff_stage db i = map_option stage_of (handoff_rows db i)"

definition active_stage :: "handoff_stage \<Rightarrow> bool" where
  "active_stage s \<longleftrightarrow> s = Hs_Waiting \<or> s = Hs_Consented"

text \<open>Where a handoff belongs: its assignee with the project, or with the directory when there is none.\<close>

definition handoff_place :: "control_db \<Rightarrow> linked_rows \<Rightarrow> string option \<times> (int + string option)" where
  "handoff_place db q = (case q of (ap, t, r, a) \<Rightarrow>
     (tk_assignee t, case tk_project t of Some p \<Rightarrow> Inl p | None \<Rightarrow> Inr (map_option rc_root (contract_of db q))))"

definition handoffs_linked :: "control_db \<Rightarrow> bool" where
  "handoffs_linked db \<longleftrightarrow>
     (\<forall>ap\<in>set (cd_approvals db). is_handover ap \<longrightarrow>
        (\<exists>q c. linked_handoff db (ap_id ap) = Some q \<and> rows_ok q \<and> contract_of db q = Some c \<and>
           rc_task c = ap_task ap)) \<and>
     (\<forall>ap\<in>set (cd_approvals db). \<forall>bp\<in>set (cd_approvals db).
        is_handover ap \<and> is_handover bp \<and> ap_task ap = ap_task bp \<longrightarrow> ap = bp)"

definition one_active :: "control_db \<Rightarrow> bool" where
  "one_active db \<longleftrightarrow> (\<forall>i j q p. handoff_rows db i = Some q \<and> handoff_rows db j = Some p \<and>
     active_stage (stage_of q) \<and> active_stage (stage_of p) \<and> handoff_place db q = handoff_place db p \<longrightarrow> i = j)"

definition store_inv :: "control_db \<Rightarrow> bool" where
  "store_inv db \<longleftrightarrow> tables_keyed db \<and> handoffs_linked db \<and> one_active db"

fun to_agents :: "store_event \<Rightarrow> bool" where
  "to_agents (Hev_Create env ids inp) \<longleftrightarrow> is_agent (Some (hi_to inp))"
| "to_agents _ \<longleftrightarrow> True"

section \<open>Lookups\<close>

lemmas lookup_defs = find_approval_def task_by_id_def run_by_id_def artifact_by_id_def contract_by_id_def

lemma lookup_Some:
  "find_approval db i = Some ap \<Longrightarrow> ap \<in> set (cd_approvals db) \<and> ap_id ap = i"
  "task_by_id db i = Some t \<Longrightarrow> t \<in> set (cd_tasks db) \<and> tk_id t = i"
  "run_by_id db i = Some r \<Longrightarrow> r \<in> set (cd_runs db) \<and> rn_id r = i"
  "artifact_by_id db i = Some a \<Longrightarrow> a \<in> set (cd_artifacts db) \<and> af_id a = i"
  "contract_by_id db i = Some c \<Longrightarrow> c \<in> set (cd_contracts db) \<and> rc_id c = i"
  unfolding lookup_defs by (auto dest: find_Some_in)

lemma joined_cases:
  assumes "joined db ap = Some (t, r, a)"
  obtains "ap_task ap = Some (tk_id t)" "task_by_id db (tk_id t) = Some t"
    "ap_run ap = Some (rn_id r)" "run_by_id db (rn_id r) = Some r"
    "ap_artifact ap = Some (af_id a)" "artifact_by_id db (af_id a) = Some a"
proof -
  obtain x y z where "ap_task ap = Some x" "task_by_id db x = Some t" "ap_run ap = Some y" "run_by_id db y = Some r"
    "ap_artifact ap = Some z" "artifact_by_id db z = Some a"
    using assms unfolding joined_def by (auto split: option.splits simp: bind_eq_Some_conv)
  then show thesis
    using that lookup_Some(2) [of db x t] lookup_Some(3) [of db y r] lookup_Some(4) [of db z a] by simp
qed

lemma linked_cases:
  assumes "linked_handoff db i = Some (ap, t, r, a)"
  obtains "find_approval db i = Some ap" "ap_id ap = i" "ap \<in> set (cd_approvals db)"
    "joined db ap = Some (t, r, a)"
    "ap_task ap = Some (tk_id t)" "task_by_id db (tk_id t) = Some t"
    "ap_run ap = Some (rn_id r)" "run_by_id db (rn_id r) = Some r"
    "ap_artifact ap = Some (af_id a)" "artifact_by_id db (af_id a) = Some a"
    "rn_task r = tk_id t" "af_task a = tk_id t" "af_run a = rn_id r"
proof -
  have found: "find_approval db i = Some ap" and rows: "joined db ap = Some (t, r, a)"
    and "rn_task r = tk_id t" "af_task a = tk_id t" "af_run a = rn_id r"
    using assms unfolding linked_handoff_def by (auto split: option.splits if_splits)
  moreover have "ap_id ap = i" "ap \<in> set (cd_approvals db)"
    using lookup_Some(1) [OF found] by auto
  ultimately show thesis
    using that by (cases rule: joined_cases [OF rows]) blast
qed

lemma linkedD:
  assumes "linked_handoff db i = Some (ap, t, r, a)"
  shows "find_approval db i = Some ap" "ap_id ap = i" "ap \<in> set (cd_approvals db)" "joined db ap = Some (t, r, a)"
    "ap_task ap = Some (tk_id t)" "task_by_id db (tk_id t) = Some t" "ap_run ap = Some (rn_id r)"
    "run_by_id db (rn_id r) = Some r" "ap_artifact ap = Some (af_id a)" "artifact_by_id db (af_id a) = Some a"
    "rn_task r = tk_id t" "af_task a = tk_id t" "af_run a = rn_id r"
  by (rule linked_cases [OF assms], assumption)+

lemma linkedI:
  assumes "find_approval db i = Some ap" and "joined db ap = Some (t, r, a)"
    and "rn_task r = tk_id t" and "af_task a = tk_id t" and "af_run a = rn_id r"
  shows "linked_handoff db i = Some (ap, t, r, a)"
  using assms by (simp add: linked_handoff_def)

interpretation approval_rows: keyed_table ap_id .
interpretation tasks: keyed_table tk_id .
interpretation runs: keyed_table rn_id .
interpretation artifacts: keyed_table af_id .
interpretation contracts: keyed_table rc_id .

lemma approval_found:
  "tables_keyed db \<Longrightarrow> ap \<in> set (cd_approvals db) \<Longrightarrow> find_approval db (ap_id ap) = Some ap"
  by (simp add: tables_keyed_def find_approval_def approval_rows.find_key)

lemma handoff_rows_Some:
  "handoff_rows db i = Some (ap, t, r, a) \<longleftrightarrow> linked_handoff db i = Some (ap, t, r, a) \<and> is_handover ap"
  by (auto simp: handoff_rows_def split: option.splits)

lemma handoff_rows_ok:
  assumes "store_inv db" and "handoff_rows db i = Some (ap, t, r, a)"
  obtains c where "rows_ok (ap, t, r, a)" "contract_of db (ap, t, r, a) = Some c" "rc_task c = Some (tk_id t)"
proof -
  have linked: "linked_handoff db i = Some (ap, t, r, a)" and "is_handover ap"
    using assms(2) by (simp_all add: handoff_rows_Some)
  then show thesis
    using assms(1) that linkedD(2,3,5) [OF linked] by (fastforce simp: store_inv_def handoffs_linked_def)
qed

lemma handoff_separate:
  assumes "store_inv db" and "handoff_rows db i = Some (ap, t, r, a)" and "handoff_rows db j = Some (bp, u, s, b)"
    and "i \<noteq> j"
  shows "tk_id u \<noteq> tk_id t" and "rn_id s \<noteq> rn_id r" and "af_id b \<noteq> af_id a"
proof -
  have i: "linked_handoff db i = Some (ap, t, r, a)" "is_handover ap"
    and j: "linked_handoff db j = Some (bp, u, s, b)" "is_handover bp"
    using assms(2,3) by (simp_all add: handoff_rows_Some)
  note d = linkedD [OF i(1)] and e = linkedD [OF j(1)]
  have "ap_task ap \<noteq> ap_task bp"
  proof
    assume "ap_task ap = ap_task bp"
    then have "ap = bp"
      using assms(1) d(3) e(3) i(2) j(2) unfolding store_inv_def handoffs_linked_def by blast
    then show False
      using d(2) e(2) assms(4) by simp
  qed
  then show tasks: "tk_id u \<noteq> tk_id t"
    using d(5) e(5) by simp
  show "rn_id s \<noteq> rn_id r"
    using tasks d(8,11) e(8,11) by force
  show "af_id b \<noteq> af_id a"
    using tasks d(10,12) e(10,12) by force
qed

section \<open>Statements that change rows in place\<close>

text \<open>
  A change of rows that keeps their identifiers and links, given as one function per table. The decisions,
  the superseding statements and the user's disposition all are such changes.
\<close>

definition rows_mapped :: "(approval_row \<Rightarrow> approval_row) \<Rightarrow> (task_row \<Rightarrow> task_row) \<Rightarrow> (run_row \<Rightarrow> run_row) \<Rightarrow>
    (artifact_row \<Rightarrow> artifact_row) \<Rightarrow> control_db \<Rightarrow> control_db \<Rightarrow> bool" where
  "rows_mapped fa ft fr ff db db' \<longleftrightarrow>
     cd_approvals db' = map fa (cd_approvals db) \<and> cd_tasks db' = map ft (cd_tasks db) \<and>
     cd_runs db' = map fr (cd_runs db) \<and> cd_artifacts db' = map ff (cd_artifacts db) \<and>
     cd_contracts db' = cd_contracts db \<and>
     (\<forall>x. ap_id (fa x) = ap_id x \<and> ap_task (fa x) = ap_task x \<and> ap_run (fa x) = ap_run x \<and>
        ap_artifact (fa x) = ap_artifact x \<and> ap_type (fa x) = ap_type x) \<and>
     (\<forall>x. tk_id (ft x) = tk_id x \<and> tk_assignee (ft x) = tk_assignee x \<and> tk_project (ft x) = tk_project x) \<and>
     (\<forall>x. rn_id (fr x) = rn_id x \<and> rn_task (fr x) = rn_task x \<and> rn_contract (fr x) = rn_contract x) \<and>
     (\<forall>x. af_id (ff x) = af_id x \<and> af_task (ff x) = af_task x \<and> af_run (ff x) = af_run x)"

definition on_rows :: "(approval_row \<Rightarrow> approval_row) \<Rightarrow> (task_row \<Rightarrow> task_row) \<Rightarrow> (run_row \<Rightarrow> run_row) \<Rightarrow>
    (artifact_row \<Rightarrow> artifact_row) \<Rightarrow> linked_rows \<Rightarrow> linked_rows" where
  "on_rows fa ft fr ff q = (case q of (ap, t, r, a) \<Rightarrow> (fa ap, ft t, fr r, ff a))"

lemma find_map_key:
  assumes "\<And>x. key (f x) = key x"
  shows "List.find (\<lambda>x. key x = i) (map f rows) = map_option f (List.find (\<lambda>x. key x = i) rows)"
  using assms by (induction rows) auto

lemma lookup_mapped:
  assumes "rows_mapped fa ft fr ff db db'"
  shows "find_approval db' i = map_option fa (find_approval db i)" "task_by_id db' i = map_option ft (task_by_id db i)"
    "run_by_id db' i = map_option fr (run_by_id db i)" "artifact_by_id db' i = map_option ff (artifact_by_id db i)"
    "contract_by_id db' i = contract_by_id db i"
  using assms unfolding rows_mapped_def lookup_defs by (auto simp: find_map_key)

lemma linked_mapped:
  assumes "rows_mapped fa ft fr ff db db'"
  shows "linked_handoff db' i = map_option (on_rows fa ft fr ff) (linked_handoff db i)"
proof -
  note keeps = assms [unfolded rows_mapped_def]
  have "joined db' (fa ap) = map_option (\<lambda>(t, r, a). (ft t, fr r, ff a)) (joined db ap)" for ap
    unfolding joined_def using keeps
    by (simp add: lookup_mapped [OF assms] map_option_case split: option.splits bind_splits)
  then show ?thesis
    unfolding linked_handoff_def lookup_mapped [OF assms] using keeps
    by (auto simp: on_rows_def split: option.splits)
qed

lemma rows_mapped_handoff:
  assumes "rows_mapped fa ft fr ff db db'"
  shows "handoff_rows db' i = map_option (on_rows fa ft fr ff) (handoff_rows db i)"
  using assms unfolding handoff_rows_def linked_mapped [OF assms] rows_mapped_def
  by (auto simp: on_rows_def is_handover_def split: option.splits)

lemma place_mapped:
  assumes "rows_mapped fa ft fr ff db db'"
  shows "handoff_place db' (on_rows fa ft fr ff q) = handoff_place db q"
    and "contract_of db' (on_rows fa ft fr ff q) = contract_of db q"
  using assms lookup_mapped(5) [OF assms] unfolding rows_mapped_def handoff_place_def contract_of_def on_rows_def
  by (simp_all split: prod.splits option.splits)

lemma tables_keyed_mapped: "rows_mapped fa ft fr ff db db' \<Longrightarrow> tables_keyed db \<Longrightarrow> tables_keyed db'"
  by (simp add: rows_mapped_def tables_keyed_def comp_def)

text \<open>The invariant is kept when every handoff stays well-formed and none becomes active.\<close>

lemma inv_mapped:
  assumes maps: "rows_mapped fa ft fr ff db db'" and inv: "store_inv db"
    and keeps: "\<And>i q. handoff_rows db i = Some q \<Longrightarrow> rows_ok q \<Longrightarrow>
      rows_ok (on_rows fa ft fr ff q) \<and> (active_stage (stage_of (on_rows fa ft fr ff q)) \<longrightarrow> active_stage (stage_of q))"
  shows "store_inv db'"
proof -
  have appr: "cd_approvals db' = map fa (cd_approvals db)"
    and m: "ap_id (fa x) = ap_id x" "ap_task (fa x) = ap_task x" "ap_type (fa x) = ap_type x" for x
    using maps by (simp_all add: rows_mapped_def)
  have linked: "handoffs_linked db" and one: "one_active db"
    using inv by (simp_all add: store_inv_def)
  have "\<exists>q c. linked_handoff db' (ap_id bp) = Some q \<and> rows_ok q \<and> contract_of db' q = Some c \<and> rc_task c = ap_task bp"
    if hand: "bp \<in> set (cd_approvals db')" "is_handover bp" for bp
  proof -
    obtain ap where ap: "ap \<in> set (cd_approvals db)" "bp = fa ap" "is_handover ap"
      using hand by (auto simp: appr m is_handover_def)
    then obtain q c where q: "linked_handoff db (ap_id ap) = Some q" "rows_ok q" "contract_of db q = Some c"
        "rc_task c = ap_task ap"
      using linked unfolding handoffs_linked_def by blast
    then have "handoff_rows db (ap_id ap) = Some q"
      by (auto simp: handoff_rows_def rows_ok_def is_handover_def split: prod.splits)
    then have "rows_ok (on_rows fa ft fr ff q)"
      using keeps q(2) by blast
    then show ?thesis
      using q ap(2) by (simp add: m linked_mapped [OF maps] place_mapped [OF maps])
  qed
  moreover have "bp = bq" if hands: "bp \<in> set (cd_approvals db')" "bq \<in> set (cd_approvals db')"
      "is_handover bp" "is_handover bq" "ap_task bp = ap_task bq" for bp bq
  proof -
    obtain ap aq where rows: "ap \<in> set (cd_approvals db)" "bp = fa ap" "aq \<in> set (cd_approvals db)" "bq = fa aq"
      using hands(1,2) by (auto simp: appr)
    then have "is_handover ap" "is_handover aq" "ap_task ap = ap_task aq"
      using hands(3-5) by (simp_all add: is_handover_def m)
    then have "ap = aq"
      using linked rows(1,3) unfolding handoffs_linked_def by blast
    then show ?thesis
      using rows(2,4) by simp
  qed
  ultimately have "handoffs_linked db'"
    unfolding handoffs_linked_def by blast
  moreover have "one_active db'"
    unfolding one_active_def
  proof (intro allI impI, elim conjE)
    fix i j q p
    assume "handoff_rows db' i = Some q" "handoff_rows db' j = Some p" and active: "active_stage (stage_of q)"
      "active_stage (stage_of p)" and place: "handoff_place db' q = handoff_place db' p"
    then obtain q0 p0 where rows: "handoff_rows db i = Some q0" "q = on_rows fa ft fr ff q0"
        "handoff_rows db j = Some p0" "p = on_rows fa ft fr ff p0"
      by (auto simp: rows_mapped_handoff [OF maps])
    moreover have "rows_ok q0" "rows_ok p0"
      using handoff_rows_ok [OF inv] rows(1,3) by (metis prod_cases4)+
    ultimately have "active_stage (stage_of q0)" "active_stage (stage_of p0)"
      using keeps active by blast+
    moreover have "handoff_place db q0 = handoff_place db p0"
      using place rows by (simp add: place_mapped [OF maps])
    ultimately show "i = j"
      using one rows(1,3) unfolding one_active_def by blast
  qed
  ultimately show ?thesis
    using inv tables_keyed_mapped [OF maps] by (simp add: store_inv_def)
qed

text \<open>A change of the rows of one handoff.\<close>

definition at_id :: "('r \<Rightarrow> 'k) \<Rightarrow> 'k \<Rightarrow> ('r \<Rightarrow> 'r) \<Rightarrow> 'r \<Rightarrow> 'r" where
  "at_id key k f x = (if key x = k then f x else x)"

lemma update_at_id: "update_where (\<lambda>x. key x = k) f rows = map (at_id key k f) rows"
  by (simp add: update_where_def at_id_def)

lemma at_id_simps [simp]: "at_id key (key x) f x = f x" "key x \<noteq> k \<Longrightarrow> at_id key k f x = x"
  by (simp_all add: at_id_def)

lemma map_at_id_id [simp]: "map (at_id key k id) rows = rows"
  by (simp add: at_id_def map_idI)

abbreviation one_mapped :: "linked_rows \<Rightarrow> (approval_row \<Rightarrow> approval_row) \<Rightarrow> (task_row \<Rightarrow> task_row) \<Rightarrow>
    (run_row \<Rightarrow> run_row) \<Rightarrow> (artifact_row \<Rightarrow> artifact_row) \<Rightarrow> control_db \<Rightarrow> control_db \<Rightarrow> bool" where
  "one_mapped q fa ft fr ff \<equiv> rows_mapped (at_id ap_id (ap_id (fst q)) fa) (at_id tk_id (tk_id (fst (snd q))) ft)
     (at_id rn_id (rn_id (fst (snd (snd q)))) fr) (at_id af_id (af_id (snd (snd (snd q)))) ff)"

lemma one_mapped_rows:
  assumes maps: "one_mapped q fa ft fr ff db db'" and inv: "store_inv db" and q: "handoff_rows db i = Some q"
  shows "handoff_rows db' j = (if j = i then Some (on_rows fa ft fr ff q) else handoff_rows db j)"
proof -
  obtain ap t r a where qe: "q = (ap, t, r, a)"
    by (cases q)
  show ?thesis
  proof (cases "j = i")
    case True
    then show ?thesis
      using q qe by (simp add: rows_mapped_handoff [OF maps] on_rows_def)
  next
    case False
    show ?thesis
    proof (cases "handoff_rows db j")
      case None
      then show ?thesis
        using False by (simp add: rows_mapped_handoff [OF maps])
    next
      case (Some p)
      obtain bp u s b where pe: "p = (bp, u, s, b)"
        by (cases p)
      have ids: "ap_id bp = j" "ap_id ap = i"
        using Some q qe pe by (auto simp: handoff_rows_Some dest: linkedD(2))
      then show ?thesis
        using handoff_separate [OF inv q [unfolded qe] Some [unfolded pe]] Some pe qe False
        by (simp add: rows_mapped_handoff [OF maps] on_rows_def)
    qed
  qed
qed

lemma one_mapped_inv:
  assumes maps: "one_mapped q fa ft fr ff db db'" and inv: "store_inv db" and q: "handoff_rows db i = Some q"
    and ok: "rows_ok (on_rows fa ft fr ff q)"
    and act: "active_stage (stage_of (on_rows fa ft fr ff q)) \<Longrightarrow> active_stage (stage_of q)"
  shows "store_inv db'"
proof (rule inv_mapped [OF maps inv])
  fix j p assume p: "handoff_rows db j = Some p" "rows_ok p"
  let ?F = "on_rows (at_id ap_id (ap_id (fst q)) fa) (at_id tk_id (tk_id (fst (snd q))) ft)
     (at_id rn_id (rn_id (fst (snd (snd q)))) fr) (at_id af_id (af_id (snd (snd (snd q)))) ff)"
  have "Some (?F p) = (if j = i then Some (on_rows fa ft fr ff q) else handoff_rows db j)"
    using one_mapped_rows [OF maps inv q, of j] p(1) by (simp add: rows_mapped_handoff [OF maps])
  then show "rows_ok (?F p) \<and> (active_stage (stage_of (?F p)) \<longrightarrow> active_stage (stage_of p))"
    using ok act p q by (auto split: if_splits)
qed

end
