(* ===== verification/Handoff_Lifecycle.thy ===== *)
theory Handoff_Lifecycle
  imports Handoff_Rows
begin

text \<open>
  Every operation of \<open>Handoff_Store\<close> moves a handoff along its lifecycle (waiting, consented by the owner, delivered,
  closed, rejected, superseded) or leaves it, and keeps the invariant of the store. The lifecycle is the abstract
  machine the store is a \<open>simulation\<close> of.
\<close>

section \<open>What the operations do to a handoff\<close>

definition handoff_assignee :: "control_db \<Rightarrow> string \<Rightarrow> string option" where
  "handoff_assignee db i = Option.bind (handoff_rows db i) (\<lambda>(ap, t, r, a). tk_assignee t)"

text \<open>One handoff goes from one stage to another; the others stay where they are.\<close>

definition advance :: "control_db \<Rightarrow> control_db \<Rightarrow> string \<Rightarrow> handoff_stage \<Rightarrow> handoff_stage \<Rightarrow> bool" where
  "advance db db' i s s' \<longleftrightarrow> store_inv db' \<and> handoff_stage db i = Some s \<and> handoff_stage db' i = Some s' \<and>
     (\<forall>j. handoff_assignee db' j = handoff_assignee db j) \<and>
     (\<forall>j. j \<noteq> i \<longrightarrow> handoff_stage db' j = handoff_stage db j)"

lemma advanceI:
  assumes maps: "one_mapped q fa ft fr ff db db'" and inv: "store_inv db" and q: "handoff_rows db i = Some q"
    and ok: "rows_ok (on_rows fa ft fr ff q)"
    and act: "active_stage (stage_of (on_rows fa ft fr ff q)) \<Longrightarrow> active_stage (stage_of q)"
  shows "advance db db' i (stage_of q) (stage_of (on_rows fa ft fr ff q))"
proof -
  obtain ap t r a where qe: "q = (ap, t, r, a)"
    by (cases q)
  have "\<forall>x. tk_assignee (at_id tk_id (tk_id t) ft x) = tk_assignee x"
    using maps qe by (simp add: rows_mapped_def)
  from this [rule_format, of t] show ?thesis
    using one_mapped_inv [OF maps inv q ok act] one_mapped_rows [OF maps inv q] q qe
    by (simp add: advance_def handoff_stage_def handoff_assignee_def on_rows_def)
qed

lemma store_inv_audit: "store_inv (db\<lparr>cd_audit := rows\<rparr>) = store_inv db"
  "handoff_rows (db\<lparr>cd_audit := rows\<rparr>) i = handoff_rows db i"
proof -
  have ids: "find_approval (db\<lparr>cd_audit := rows\<rparr>) = find_approval db" "task_by_id (db\<lparr>cd_audit := rows\<rparr>) = task_by_id db"
    "run_by_id (db\<lparr>cd_audit := rows\<rparr>) = run_by_id db" "artifact_by_id (db\<lparr>cd_audit := rows\<rparr>) = artifact_by_id db"
    "contract_by_id (db\<lparr>cd_audit := rows\<rparr>) = contract_by_id db"
    by (simp_all add: fun_eq_iff lookup_defs)
  have looks: "find_approval (db\<lparr>cd_audit := rows\<rparr>) = find_approval db" "joined (db\<lparr>cd_audit := rows\<rparr>) = joined db"
    "contract_of (db\<lparr>cd_audit := rows\<rparr>) = contract_of db"
    unfolding joined_def [abs_def] contract_of_def [abs_def] ids by (rule refl)+
  have rows: "linked_handoff (db\<lparr>cd_audit := rows\<rparr>) = linked_handoff db"
    unfolding linked_handoff_def [abs_def] looks by (rule refl)
  then show "handoff_rows (db\<lparr>cd_audit := rows\<rparr>) i = handoff_rows db i"
    by (simp add: handoff_rows_def)
  then show "store_inv (db\<lparr>cd_audit := rows\<rparr>) = store_inv db"
    unfolding store_inv_def tables_keyed_def handoffs_linked_def one_active_def handoff_place_def [abs_def]
      handoff_rows_def looks rows by simp
qed

lemma registered_same: "store_inv (db\<lparr>cd_projects := ps\<rparr>) = store_inv db"
  "handoff_rows (db\<lparr>cd_projects := ps\<rparr>) = handoff_rows db"
proof -
  have ids: "find_approval (db\<lparr>cd_projects := ps\<rparr>) = find_approval db" "task_by_id (db\<lparr>cd_projects := ps\<rparr>) = task_by_id db"
    "run_by_id (db\<lparr>cd_projects := ps\<rparr>) = run_by_id db" "artifact_by_id (db\<lparr>cd_projects := ps\<rparr>) = artifact_by_id db"
    "contract_by_id (db\<lparr>cd_projects := ps\<rparr>) = contract_by_id db"
    by (simp_all add: fun_eq_iff lookup_defs)
  have looks: "joined (db\<lparr>cd_projects := ps\<rparr>) = joined db" "contract_of (db\<lparr>cd_projects := ps\<rparr>) = contract_of db"
    unfolding joined_def [abs_def] contract_of_def [abs_def] ids by (rule refl)+
  have rows: "linked_handoff (db\<lparr>cd_projects := ps\<rparr>) = linked_handoff db"
    unfolding linked_handoff_def [abs_def] looks ids by (rule refl)
  then show "handoff_rows (db\<lparr>cd_projects := ps\<rparr>) = handoff_rows db"
    unfolding handoff_rows_def [abs_def] by simp
  show "store_inv (db\<lparr>cd_projects := ps\<rparr>) = store_inv db"
    unfolding store_inv_def tables_keyed_def handoffs_linked_def one_active_def handoff_place_def [abs_def]
      handoff_rows_def looks rows by simp
qed

lemma advance_audit: "advance db (db'\<lparr>cd_audit := rows\<rparr>) i s s' = advance db db' i s s'"
  by (simp add: advance_def store_inv_audit handoff_stage_def handoff_assignee_def)

lemma resolve_cases:
  assumes inv: "store_inv db" and res: "cp_resolve_handoff env db i owner by rejection = (b, db')"
    and who: "rejection \<noteq> None \<or> by = ''local_user''"
  obtains "\<not> b" "db' = db"
  | "b" "advance db db' i Hs_Waiting (if rejection = None then Hs_Closed else Hs_Rejected)" "cd_audit db' = cd_audit db"
proof (cases "\<exists>ap t r a. linked_handoff db i = Some (ap, t, r, a) \<and> decidable_by owner (ap, t, r, a)")
  case False
  then have "b = False \<and> db' = db"
    using res unfolding cp_resolve_handoff_def by (auto split: option.splits if_splits)
  then show thesis
    using that(1) by blast
next
  case True
  then obtain ap t r a where linked: "linked_handoff db i = Some (ap, t, r, a)" and dec: "decidable_by owner (ap, t, r, a)"
    by blast
  let ?q = "(ap, t, r, a)"
  let ?reject = "rejection \<noteq> None"
  let ?fa = "\<lambda>x. x\<lparr>ap_status := (if ?reject then ''rejected'' else ''approved''),
                ap_resolved_at := Some (en_now env), ap_resolved_by := Some by,
                ap_reason := (case rejection of None \<Rightarrow> ap_reason x
                  | Some why \<Rightarrow> ap_reason x @ [CHR 10] @ ''Rejected: '' @ why),
                ap_revision := ap_revision x + 1\<rparr>"
  let ?ft = "\<lambda>x. x\<lparr>tk_status := (if ?reject then ''cancelled'' else ''completed''), tk_updated_at := en_now env\<rparr>"
  let ?fr = "\<lambda>x. x\<lparr>rn_status := (if ?reject then ''cancelled'' else ''succeeded''), rn_ended_at := Some (en_now env),
                  rn_exit_reason := Some (if ?reject then ''handover_rejected'' else ''handover_delivered'')\<rparr>"
  let ?ff = "\<lambda>x. x\<lparr>af_status := (if ?reject then ''rejected'' else ''applied'')\<rparr>"
  have q: "handoff_rows db i = Some ?q"
    using linked dec by (simp add: handoff_rows_Some decidable_by_def is_handover_def)
  have eqs: "b" "db' = db\<lparr>cd_approvals := update_where (\<lambda>x. ap_id x = i) ?fa (cd_approvals db),
      cd_artifacts := update_where (\<lambda>x. af_id x = af_id a) ?ff (cd_artifacts db),
      cd_runs := update_where (\<lambda>x. rn_id x = rn_id r) ?fr (cd_runs db),
      cd_tasks := update_where (\<lambda>x. tk_id x = tk_id t) ?ft (cd_tasks db)\<rparr>"
    using res linked dec unfolding cp_resolve_handoff_def Let_def by auto
  have "ap_id ap = i"
    by (rule linkedD(2) [OF linked])
  then have maps: "one_mapped ?q ?fa ?ft ?fr ?ff db db'"
    unfolding eqs(2) rows_mapped_def update_at_id by (simp add: at_id_def)
  obtain c where ok: "rows_ok ?q"
    by (rule handoff_rows_ok [OF inv q])
  have new: "rows_ok (on_rows ?fa ?ft ?fr ?ff ?q)"
      "stage_of (on_rows ?fa ?ft ?fr ?ff ?q) = (if rejection = None then Hs_Closed else Hs_Rejected)"
      "stage_of ?q = Hs_Waiting"
    using ok dec who by (auto simp: rows_ok_def on_rows_def stage_of_def decidable_by_def is_agent_def awaiting_def)
  have "advance db db' i Hs_Waiting (if rejection = None then Hs_Closed else Hs_Rejected)"
    using advanceI [OF maps inv q new(1)] new(2,3) by (simp add: active_stage_def)
  then show thesis
    using that(2) eqs by simp
qed

lemma approve_cases:
  assumes inv: "store_inv db" and res: "cp_approve_handoff_by_owner H js env db i owner owner = Ok (b, db')"
  obtains "\<not> b" "db' = db"
  | "b" "advance db db' i Hs_Waiting Hs_Consented"
    "cd_audit db' = append_audit_event H (cd_audit db) True (en_stamp env) ''handover_approved_by_owner'' owner
       (decision_json js i owner)"
proof (cases "\<exists>ap t r a. linked_handoff db i = Some (ap, t, r, a) \<and> decidable_by owner (ap, t, r, a)")
  case False
  then have "b = False \<and> db' = db"
    using res unfolding cp_approve_handoff_by_owner_def by (auto split: option.splits if_splits)
  then show thesis
    using that(1) by blast
next
  case True
  then obtain ap t r a where linked: "linked_handoff db i = Some (ap, t, r, a)" and dec: "decidable_by owner (ap, t, r, a)"
    by blast
  let ?q = "(ap, t, r, a)"
  let ?fa = "\<lambda>x. x\<lparr>ap_status := ''approved'', ap_resolved_at := Some (en_now env), ap_resolved_by := Some owner,
                ap_revision := ap_revision x + 1\<rparr>"
  let ?fr = "\<lambda>x. x\<lparr>rn_status := ''succeeded'', rn_ended_at := Some (en_now env),
                rn_exit_reason := Some ''handover_approved_by_owner''\<rparr>"
  let ?db = "db\<lparr>cd_approvals := update_where (\<lambda>x. ap_id x = i) ?fa (cd_approvals db),
      cd_runs := update_where (\<lambda>x. rn_id x = rn_id r) ?fr (cd_runs db)\<rparr>"
  have q: "handoff_rows db i = Some ?q"
    using linked dec by (simp add: handoff_rows_Some decidable_by_def is_handover_def)
  have eqs: "b" "db' = ?db\<lparr>cd_audit := append_audit_event H (cd_audit db) True (en_stamp env)
      ''handover_approved_by_owner'' owner (decision_json js i owner)\<rparr>"
    using res linked dec unfolding cp_approve_handoff_by_owner_def audit_after_def by (auto split: if_splits)
  have "ap_id ap = i"
    by (rule linkedD(2) [OF linked])
  then have maps: "one_mapped ?q ?fa id ?fr id db ?db"
    unfolding rows_mapped_def update_at_id by (simp add: at_id_def)
  obtain c where ok: "rows_ok ?q"
    by (rule handoff_rows_ok [OF inv q])
  have new: "rows_ok (on_rows ?fa id ?fr id ?q)" "stage_of (on_rows ?fa id ?fr id ?q) = Hs_Consented"
      "stage_of ?q = Hs_Waiting"
    using ok dec by (auto simp: rows_ok_def on_rows_def stage_of_def decidable_by_def is_agent_def awaiting_def)
  have "advance db ?db i Hs_Waiting Hs_Consented"
    using advanceI [OF maps inv q new(1)] new(2,3) by (simp add: active_stage_def)
  then show thesis
    using that(2) eqs(1) unfolding eqs(2) advance_audit by simp
qed

lemma deliver_cases:
  assumes inv: "store_inv db" and res: "cp_mark_handoff_delivered H js env db i by = Ok (b, db')"
  obtains "\<not> b" "db' = db"
  | s where "b" "active_stage s" "advance db db' i s Hs_Delivered" "handoff_assignee db i = Some by"
    "cd_audit db' = append_audit_event H (cd_audit db) True (en_stamp env) ''handover_delivered'' by
       (decision_json js i by)"
proof (cases "\<exists>ap t r a. linked_handoff db i = Some (ap, t, r, a) \<and> deliverable_to by (ap, t, r, a)")
  case False
  then have "b = False \<and> db' = db"
    using res unfolding cp_mark_handoff_delivered_def by (auto split: option.splits if_splits)
  then show thesis
    using that(1) by blast
next
  case True
  then obtain ap t r a where linked: "linked_handoff db i = Some (ap, t, r, a)" and dec: "deliverable_to by (ap, t, r, a)"
    by blast
  let ?q = "(ap, t, r, a)"
  let ?fa = "\<lambda>x. x\<lparr>ap_status := ''approved'', ap_resolved_at := Some (en_now env), ap_resolved_by := Some by,
                ap_revision := ap_revision x + 1\<rparr>"
  let ?ff = "\<lambda>x. x\<lparr>af_status := ''applied''\<rparr>"
  let ?ft = "\<lambda>x. x\<lparr>tk_status := ''completed'', tk_updated_at := en_now env\<rparr>"
  let ?fd = "\<lambda>x. x\<lparr>rn_status := ''succeeded'', rn_ended_at := Some (en_now env),
                rn_exit_reason := Some ''handover_delivered''\<rparr>"
  let ?fr = "if rn_status r = awaiting then ?fd else id"
  let ?db = "db\<lparr>cd_approvals := update_where (\<lambda>x. ap_id x = i) ?fa (cd_approvals db),
      cd_artifacts := update_where (\<lambda>x. af_id x = af_id a) ?ff (cd_artifacts db),
      cd_tasks := update_where (\<lambda>x. tk_id x = tk_id t) ?ft (cd_tasks db),
      cd_runs := (if rn_status r = awaiting then update_where (\<lambda>x. rn_id x = rn_id r) ?fd (cd_runs db) else cd_runs db)\<rparr>"
  have q: "handoff_rows db i = Some ?q"
    using linked dec by (simp add: handoff_rows_Some deliverable_to_def is_handover_def)
  have eqs: "b" "db' = ?db\<lparr>cd_audit := append_audit_event H (cd_audit db) True (en_stamp env)
      ''handover_delivered'' by (decision_json js i by)\<rparr>"
    using res linked dec unfolding cp_mark_handoff_delivered_def audit_after_def by (auto split: if_splits)
  have "ap_id ap = i"
    by (rule linkedD(2) [OF linked])
  then have maps: "one_mapped ?q ?fa ?ft ?fr ?ff db ?db"
    unfolding rows_mapped_def update_at_id by (simp add: at_id_def)
  obtain c where ok: "rows_ok ?q"
    by (rule handoff_rows_ok [OF inv q])
  have new: "rows_ok (on_rows ?fa ?ft ?fr ?ff ?q)" "stage_of (on_rows ?fa ?ft ?fr ?ff ?q) = Hs_Delivered"
      "active_stage (stage_of ?q)"
    using ok dec by (auto simp: rows_ok_def on_rows_def stage_of_def deliverable_to_def run_deliverable_def
        is_agent_def awaiting_def active_stage_def)
  have "advance db ?db i (stage_of ?q) Hs_Delivered"
    using advanceI [OF maps inv q new(1)] new(2,3) by simp
  moreover have "handoff_assignee db i = Some by"
    using q dec by (simp add: handoff_assignee_def deliverable_to_def)
  ultimately show thesis
    using that(2) [OF eqs(1) new(3)] unfolding eqs(2) advance_audit by simp
qed

lemma consume_cases:
  assumes inv: "store_inv db" and res: "cp_consume_handoff H js env db ctx by = Ok db'"
  obtains "db' = db"
  | s where "active_stage s" "advance db db' (hx_approval ctx) s Hs_Delivered" "handoff_assignee db (hx_approval ctx) = Some by"
    "cd_audit db' = append_audit_event H (cd_audit db) True (en_stamp env) ''handover_delivered'' by
       (decision_json js (hx_approval ctx) by)"
proof (cases "db' = db")
  case False
  then obtain b where "cp_mark_handoff_delivered H js env db (hx_approval ctx) by = Ok (b, db')"
    using res unfolding cp_consume_handoff_def by (auto simp: and_then_Inr_iff split: option.splits if_splits)
  then show thesis
    by (rule deliver_cases [OF inv]) (use False that(2) in auto)
qed (rule that(1))

text \<open>Changes that move no handoff.\<close>

definition steady :: "control_db \<Rightarrow> control_db \<Rightarrow> bool" where
  "steady db db' \<longleftrightarrow> store_inv db' \<and>
     (\<forall>j. handoff_stage db' j = handoff_stage db j \<and> handoff_assignee db' j = handoff_assignee db j)"

lemma advance_steady: "advance db db1 i s s' \<Longrightarrow> steady db1 db2 \<Longrightarrow> advance db db2 i s s'"
  by (simp add: advance_def steady_def)

lemma user_status_steady:
  assumes "store_inv db"
  shows "steady db (set_user_status env k st db)" and "cd_audit (set_user_status env k st db) = cd_audit db"
proof -
  let ?ff = "at_id af_id k (\<lambda>x. x\<lparr>af_metadata := (af_metadata x)\<lparr>hm_user_status := Some st,
    hm_user_status_at := Some (en_now env)\<rparr>\<rparr>)"
  have maps: "rows_mapped id id id ?ff db (set_user_status env k st db)"
    unfolding rows_mapped_def set_user_status_def update_at_id by (simp add: at_id_def)
  have same: "stage_of (on_rows id id id ?ff q) = stage_of q" "rows_ok (on_rows id id id ?ff q) = rows_ok q" for q
    by (cases "stage_of q"; cases q; simp add: on_rows_def stage_of_def rows_ok_def at_id_def)+
  show "steady db (set_user_status env k st db)"
    unfolding steady_def
  proof (intro conjI allI)
    show "store_inv (set_user_status env k st db)"
      by (rule inv_mapped [OF maps assms]) (simp add: same)
    fix j
    show "handoff_stage (set_user_status env k st db) j = handoff_stage db j"
      by (simp add: handoff_stage_def rows_mapped_handoff [OF maps] option.map_comp comp_def same)
    show "handoff_assignee (set_user_status env k st db) j = handoff_assignee db j"
      by (cases "handoff_rows db j")
        (auto simp: handoff_assignee_def rows_mapped_handoff [OF maps] on_rows_def)
  qed
  show "cd_audit (set_user_status env k st db) = cd_audit db"
    by (simp add: set_user_status_def)
qed

lemma steady_audit: "steady db (db'\<lparr>cd_audit := rows\<rparr>) = steady db db'"
  by (simp add: steady_def store_inv_audit handoff_stage_def handoff_assignee_def)

lemma manage_cases:
  assumes inv: "store_inv db" and res: "cp_manage_handoff H js env db i remove = Ok db'"
  obtains "steady db db'" "\<exists>ev data. (db' = db \<or> cd_audit db' = append_audit_event H (cd_audit db) True (en_stamp env) ev ''local_user'' data)
      \<and> ev \<noteq> ''handover_delivered''"
  | "advance db db' i Hs_Waiting (if remove then Hs_Rejected else Hs_Closed)"
    "\<exists>ev data. cd_audit db' = append_audit_event H (cd_audit db) True (en_stamp env) ev ''local_user'' data \<and>
      ev \<noteq> ''handover_delivered''"
proof -
  obtain ap t r a where linked: "linked_handoff db i = Some (ap, t, r, a)"
    using res unfolding cp_manage_handoff_def by (auto split: option.splits)
  let ?why = "if remove then Some ''Removed by local user'' else None"
  let ?ev = "if remove then ''handover_removed_by_user'' else ''handover_completed_by_user''"
  let ?disp = "if remove then ''removed'' else ''completed''"
  let ?data = "js [(''approval_id'', i), (''disposition'', ?disp)]"
  obtain resolved db1 where r1: "(resolved, db1) = (if ap_status ap = ''pending''
      then cp_resolve_handoff env db i ''local_control_owner'' ''local_user'' ?why else (True, db))"
    by (metis surj_pair)
  have cases: "db' = db \<or> resolved \<and> en_audit_ok env \<and>
      db' = (set_user_status env (af_id a) ?disp db1)\<lparr>cd_audit :=
        append_audit_event H (cd_audit (set_user_status env (af_id a) ?disp db1)) True (en_stamp env) ?ev ''local_user'' ?data\<rparr>"
    using res linked r1 [symmetric] unfolding cp_manage_handoff_def audit_after_def Let_def
    by (simp add: linked split: if_splits prod.splits)
  show thesis
  proof (cases "db' = db")
    case True
    then show thesis
      using that(1) inv by (auto simp: steady_def)
  next
    case False
    then have db': "db' = (set_user_status env (af_id a) ?disp db1)\<lparr>cd_audit :=
        append_audit_event H (cd_audit db1) True (en_stamp env) ?ev ''local_user'' ?data\<rparr>" and "resolved"
      using cases by (simp_all add: set_user_status_def)
    have ev: "?ev \<noteq> ''handover_delivered''"
      by simp
    show thesis
    proof (cases "ap_status ap = ''pending''")
      case True
      then have res1: "cp_resolve_handoff env db i ''local_control_owner'' ''local_user'' ?why = (True, db1)"
        using r1 \<open>resolved\<close> by simp
      have adv: "advance db db1 i Hs_Waiting (if remove then Hs_Rejected else Hs_Closed)" "cd_audit db1 = cd_audit db"
        by (rule resolve_cases [OF inv res1]; simp split: if_splits)+
      then have "steady db1 db'"
        unfolding db' steady_audit using user_status_steady(1) by (simp add: advance_def)
      then show thesis
        using that(2) advance_steady [OF adv(1)] adv(2) ev unfolding db' by fastforce
    next
      case False
      then have "db1 = db"
        using r1 by simp
      then show thesis
        using that(1) user_status_steady(1) [OF inv] ev unfolding db' steady_audit by fastforce
    qed
  qed
qed

section \<open>Superseding and creating\<close>

definition supersede_maps :: "db_env \<Rightarrow> control_db \<Rightarrow> string list \<Rightarrow> linked_rows \<Rightarrow> linked_rows" where
  "supersede_maps env db ids = on_rows
     (\<lambda>x. if superseded_approval db ids x then x\<lparr>ap_status := ''expired'', ap_resolved_at := Some (en_now env),
             ap_resolved_by := Some ''superseded'', ap_revision := ap_revision x + 1\<rparr> else x)
     (\<lambda>x. if tk_id x \<in> set ids \<and> tk_status x = awaiting \<and>
             list_ex (\<lambda>r. rn_task r = tk_id x \<and> rn_provider r = ''handoff'') (cd_runs db)
          then x\<lparr>tk_status := ''cancelled'', tk_updated_at := en_now env\<rparr> else x)
     (\<lambda>x. if rn_provider x = ''handoff'' \<and> rn_status x = awaiting \<and> rn_task x \<in> set ids
          then x\<lparr>rn_status := ''cancelled'', rn_ended_at := Some (en_now env), rn_exit_reason := Some ''superseded''\<rparr> else x)
     (\<lambda>x. if af_kind x = ''handover_note'' \<and> af_status x = ''submitted'' \<and> af_task x \<in> set ids
          then x\<lparr>af_status := ''superseded''\<rparr> else x)"

lemma supersede_mapped: "\<exists>fa ft fr ff. rows_mapped fa ft fr ff db (supersede env db ids) \<and>
    supersede_maps env db ids = on_rows fa ft fr ff"
  unfolding supersede_maps_def rows_mapped_def supersede_def update_where_def
  by (intro exI conjI; (rule refl)?) simp_all

lemma inactive_rows:
  "stage_rows s (ap, t, r, a) \<Longrightarrow> \<not> active_stage s \<Longrightarrow>
     tk_status t \<noteq> awaiting \<and> rn_status r \<noteq> awaiting \<and> af_status a \<noteq> ''submitted''"
  by (cases s) (auto simp: active_stage_def awaiting_def)

lemma supersede_rows:
  assumes inv: "store_inv db" and q: "handoff_rows db i = Some (ap, t, r, a)"
  shows "rows_ok (supersede_maps env db ids (ap, t, r, a))"
    and "stage_of (supersede_maps env db ids (ap, t, r, a)) =
      (if tk_id t \<in> set ids \<and> active_stage (stage_of (ap, t, r, a)) then Hs_Superseded else stage_of (ap, t, r, a))"
proof -
  have linked: "linked_handoff db i = Some (ap, t, r, a)"
    using q by (simp add: handoff_rows_Some)
  note links = linkedD [OF linked]
  obtain c where ok: "rows_ok (ap, t, r, a)"
    by (rule handoff_rows_ok [OF inv q])
  have "r \<in> set (cd_runs db)"
    using lookup_Some(3) [OF links(8)] by simp
  then have run: "list_ex (\<lambda>x. rn_task x = tk_id t \<and> rn_provider x = ''handoff'') (cd_runs db)"
    using links(11) ok by (auto simp: list_ex_iff rows_ok_def)
  have owner: "Option.bind (Option.bind (ap_task ap) (task_by_id db)) tk_assignee = tk_assignee t"
    "(case ap_task ap of None \<Rightarrow> False | Some x \<Rightarrow> x \<in> set ids) = (tk_id t \<in> set ids)"
    using links(5,6) by simp_all
  have sup: "superseded_approval db ids ap \<longleftrightarrow> tk_id t \<in> set ids \<and> active_stage (stage_of (ap, t, r, a))"
    unfolding superseded_approval_def owner
    using ok by (cases "stage_of (ap, t, r, a)")
      (auto simp: rows_ok_def active_stage_def is_agent_def awaiting_def)
  have "rows_ok (supersede_maps env db ids (ap, t, r, a)) \<and> stage_of (supersede_maps env db ids (ap, t, r, a)) =
      (if tk_id t \<in> set ids \<and> active_stage (stage_of (ap, t, r, a)) then Hs_Superseded else stage_of (ap, t, r, a))"
  proof (cases "tk_id t \<in> set ids \<and> active_stage (stage_of (ap, t, r, a))")
    case True
    then have waiting: "tk_status t = awaiting" "af_status a = ''submitted''" "af_kind a = ''handover_note''"
        "rn_status r = awaiting \<or> rn_status r = ''succeeded''"
      using ok by (auto simp: rows_ok_def active_stage_def)
    have basic: "ap_type ap = ''handover''" "ap_owner ap = ''local_control_owner''" "is_agent (tk_assignee t)"
        "rn_provider r = ''handoff''"
      using ok by (simp_all add: rows_ok_def)
    show ?thesis
      using waiting basic True
      by (auto simp: supersede_maps_def on_rows_def sup run links(11,12) rows_ok_def stage_of_def)
  next
    case False
    then have "supersede_maps env db ids (ap, t, r, a) = (ap, t, r, a)"
    proof (cases "tk_id t \<in> set ids")
      case True
      then have "tk_status t \<noteq> awaiting" "rn_status r \<noteq> awaiting" "af_status a \<noteq> ''submitted''"
        using ok False inactive_rows [of "stage_of (ap, t, r, a)" ap t r a] by (simp_all add: rows_ok_def)
      then show ?thesis
        using False True by (simp add: supersede_maps_def on_rows_def sup)
    qed (simp add: supersede_maps_def on_rows_def sup links(11,12))
    then show ?thesis
      using ok False by auto
  qed
  then show "rows_ok (supersede_maps env db ids (ap, t, r, a))"
    "stage_of (supersede_maps env db ids (ap, t, r, a)) =
      (if tk_id t \<in> set ids \<and> active_stage (stage_of (ap, t, r, a)) then Hs_Superseded else stage_of (ap, t, r, a))"
    by auto
qed

lemma supersede_inv:
  assumes inv: "store_inv db"
  shows "store_inv (supersede env db ids)"
    and "handoff_rows (supersede env db ids) i = map_option (supersede_maps env db ids) (handoff_rows db i)"
    and "handoff_assignee (supersede env db ids) i = handoff_assignee db i"
    and "handoff_place (supersede env db ids) (supersede_maps env db ids q) = handoff_place db q"
proof -
  obtain fa ft fr ff where maps: "rows_mapped fa ft fr ff db (supersede env db ids)"
    and eq: "supersede_maps env db ids = on_rows fa ft fr ff"
    using supersede_mapped by blast
  show "handoff_rows (supersede env db ids) i = map_option (supersede_maps env db ids) (handoff_rows db i)"
    by (simp add: rows_mapped_handoff [OF maps] eq)
  show "handoff_place (supersede env db ids) (supersede_maps env db ids q) = handoff_place db q"
    by (simp add: place_mapped [OF maps] eq)
  show "store_inv (supersede env db ids)"
  proof (rule inv_mapped [OF maps inv])
    fix j q
    assume "handoff_rows db j = Some q"
    then show "rows_ok (on_rows fa ft fr ff q) \<and>
        (active_stage (stage_of (on_rows fa ft fr ff q)) \<longrightarrow> active_stage (stage_of q))"
      using supersede_rows [OF inv, of j] unfolding eq [symmetric]
      by (cases q) (auto simp: active_stage_def split: if_splits)
  qed
  have "\<forall>x. tk_assignee (ft x) = tk_assignee x"
    using maps by (simp add: rows_mapped_def)
  then show "handoff_assignee (supersede env db ids) i = handoff_assignee db i"
    by (cases "handoff_rows db i") (auto simp: handoff_assignee_def rows_mapped_handoff [OF maps] on_rows_def)
qed

text \<open>The place of a new handoff; superseding its scope leaves no active handoff there.\<close>

definition new_place :: "int option \<Rightarrow> handoff_input \<Rightarrow> string option \<times> (int + string option)" where
  "new_place pid inp = (Some (hi_to inp), case pid of Some p \<Rightarrow> Inl p | None \<Rightarrow> Inr (Some (hi_path inp)))"

lemma scope_covers_place:
  assumes inv: "store_inv db" and q: "handoff_rows db i = Some (ap, t, r, a)"
    and place: "handoff_place db (ap, t, r, a) = new_place pid inp"
  shows "tk_id t \<in> set (scope_ids db (hi_to inp) pid (hi_path inp))"
proof -
  obtain c where c: "contract_of db (ap, t, r, a) = Some c" "rc_task c = Some (tk_id t)"
    by (rule handoff_rows_ok [OF inv q])
  then have "c \<in> set (cd_contracts db)"
    by (auto simp: contract_of_def dest: lookup_Some(5))
  moreover have "t \<in> set (cd_tasks db)"
    using q lookup_Some(2) by (fastforce simp: handoff_rows_Some dest: linkedD(6))
  ultimately show ?thesis
    using place c by (cases "tk_project t"; cases pid)
      (auto simp: handoff_place_def new_place_def scope_ids_def select_where_def in_handoff_scope_def sql_eq_def list_ex_iff)
qed

lemma scope_cleared:
  assumes inv: "store_inv db" and q: "handoff_rows (supersede env db (scope_ids db (hi_to inp) pid (hi_path inp))) i = Some q"
    and active: "active_stage (stage_of q)"
  shows "handoff_place (supersede env db (scope_ids db (hi_to inp) pid (hi_path inp))) q \<noteq> new_place pid inp"
proof
  let ?ids = "scope_ids db (hi_to inp) pid (hi_path inp)"
  assume place: "handoff_place (supersede env db ?ids) q = new_place pid inp"
  obtain ap t r a where old: "handoff_rows db i = Some (ap, t, r, a)" "q = supersede_maps env db ?ids (ap, t, r, a)"
    using q by (auto simp: supersede_inv(2) [OF inv])
  then have "tk_id t \<in> set ?ids"
    using scope_covers_place [OF inv old(1)] place by (simp add: supersede_inv(4) [OF inv])
  then show False
    using active supersede_rows(2) [OF inv old(1), of env ?ids] old(2) by (auto simp: active_stage_def split: if_splits)
qed

lemma lookup_insert:
  assumes "insert_handoff env db ids inp = Ok db'"
  shows "find_approval db' i = (if i = hd_approval ids then Some (new_approval env ids inp) else find_approval db i)"
    "task_by_id db' i = (if i = hd_task ids then Some (new_task env ids inp) else task_by_id db i)"
    "run_by_id db' i = (if i = hd_run ids then Some (new_run env ids inp) else run_by_id db i)"
    "artifact_by_id db' i = (if i = hd_artifact ids then Some (new_artifact env ids inp) else artifact_by_id db i)"
    "contract_by_id db' i = (if i = hd_contract ids
       then Some \<lparr>rc_id = hd_contract ids, rc_task = Some (hd_task ids), rc_root = hi_path inp\<rparr> else contract_by_id db i)"
  using assms unfolding insert_handoff_def lookup_defs
  by (auto simp: find_append new_approval_def new_task_def new_run_def new_artifact_def split: if_splits option.splits)

lemma insert_fresh:
  assumes "insert_handoff env db ids inp = Ok db'"
  shows "find_approval db (hd_approval ids) = None" "task_by_id db (hd_task ids) = None"
    "run_by_id db (hd_run ids) = None" "artifact_by_id db (hd_artifact ids) = None"
    "contract_by_id db (hd_contract ids) = None"
  using assms by (auto simp: insert_handoff_def split: if_splits)

lemma insert_keyed:
  assumes "insert_handoff env db ids inp = Ok db'" and "tables_keyed db"
  shows "tables_keyed db'"
proof -
  have db': "cd_tasks db' = cd_tasks db @ [new_task env ids inp]" "cd_runs db' = cd_runs db @ [new_run env ids inp]"
    "cd_artifacts db' = cd_artifacts db @ [new_artifact env ids inp]"
    "cd_approvals db' = cd_approvals db @ [new_approval env ids inp]"
    "cd_contracts db' = cd_contracts db @ [\<lparr>rc_id = hd_contract ids, rc_task = Some (hd_task ids), rc_root = hi_path inp\<rparr>]"
    using assms(1) by (auto simp: insert_handoff_def split: if_splits)
  have "hd_approval ids \<notin> ap_id ` set (cd_approvals db)" "hd_task ids \<notin> tk_id ` set (cd_tasks db)"
    "hd_run ids \<notin> rn_id ` set (cd_runs db)" "hd_artifact ids \<notin> af_id ` set (cd_artifacts db)"
    "hd_contract ids \<notin> rc_id ` set (cd_contracts db)"
    using insert_fresh [OF assms(1)] unfolding lookup_defs by (auto simp: find_None_iff)
  then show ?thesis
    using assms(2) unfolding tables_keyed_def db'
    by (simp add: new_approval_def new_task_def new_run_def new_artifact_def)
qed

lemma insert_new_rows:
  assumes "insert_handoff env db ids inp = Ok db'"
  shows "handoff_rows db' (hd_approval ids) =
      Some (new_approval env ids inp, new_task env ids inp, new_run env ids inp, new_artifact env ids inp)"
    and "contract_of db' (new_approval env ids inp, new_task env ids inp, new_run env ids inp, new_artifact env ids inp) =
      Some \<lparr>rc_id = hd_contract ids, rc_task = Some (hd_task ids), rc_root = hi_path inp\<rparr>"
    and "handoff_rows db (hd_approval ids) = None"
  using insert_fresh [OF assms]
  by (simp_all add: handoff_rows_def linked_handoff_def joined_def lookup_insert [OF assms] contract_of_def is_handover_def
      new_approval_def new_task_def new_run_def new_artifact_def)

text \<open>A handoff keeps its rows when they are still found; nothing else becomes a handoff.\<close>

lemma rows_kept:
  assumes inv: "store_inv db" and same: "find_approval db' i = find_approval db i"
    and found: "\<And>ap t r a. handoff_rows db i = Some (ap, t, r, a) \<Longrightarrow> task_by_id db' (tk_id t) = Some t \<and>
      run_by_id db' (rn_id r) = Some r \<and> artifact_by_id db' (af_id a) = Some a"
  shows "handoff_rows db' i = handoff_rows db i"
proof (cases "handoff_rows db i")
  case (Some q)
  obtain ap t r a where q: "q = (ap, t, r, a)"
    by (cases q)
  then have linked: "linked_handoff db i = Some (ap, t, r, a)" and hand: "is_handover ap"
    using Some by (simp_all add: handoff_rows_Some)
  note d = linkedD [OF linked]
  have "joined db' ap = Some (t, r, a)"
    using found [OF Some [unfolded q]] d(5,7,9) by (simp add: joined_def)
  then have "linked_handoff db' i = Some (ap, t, r, a)"
    using same d(1,11-13) by (intro linkedI) simp_all
  then have "handoff_rows db' i = Some (ap, t, r, a)"
    using hand by (simp add: handoff_rows_Some)
  then show ?thesis
    using Some q by simp
next
  case None
  have "\<not> is_handover ap" if ap: "find_approval db i = Some ap" for ap
  proof
    assume hand: "is_handover ap"
    have "ap \<in> set (cd_approvals db)" "ap_id ap = i"
      using lookup_Some(1) [OF ap] by auto
    then obtain q where "linked_handoff db i = Some q" "rows_ok q"
      using inv hand unfolding store_inv_def handoffs_linked_def by blast
    then show False
      using None by (auto simp: handoff_rows_def rows_ok_def is_handover_def split: prod.splits)
  qed
  then have "handoff_rows db' i = None"
    using same unfolding handoff_rows_def linked_handoff_def by (auto split: option.splits)
  then show ?thesis
    using None by simp
qed

lemma insert_old_rows:
  assumes ins: "insert_handoff env db ids inp = Ok db'" and inv: "store_inv db" and i: "i \<noteq> hd_approval ids"
  shows "handoff_rows db' i = handoff_rows db i"
proof (rule rows_kept [OF inv])
  show "find_approval db' i = find_approval db i"
    using i by (simp add: lookup_insert [OF ins])
  fix ap t r a
  assume "handoff_rows db i = Some (ap, t, r, a)"
  then have "linked_handoff db i = Some (ap, t, r, a)"
    by (simp add: handoff_rows_Some)
  then show "task_by_id db' (tk_id t) = Some t \<and> run_by_id db' (rn_id r) = Some r \<and> artifact_by_id db' (af_id a) = Some a"
    using linkedD(6,8,10) insert_fresh [OF ins] by (fastforce simp: lookup_insert [OF ins])
qed

text \<open>A change of other tasks only.\<close>

lemma tasks_steady:
  assumes inv: "store_inv db" and keyed: "tables_keyed db'"
    and same: "cd_approvals db' = cd_approvals db" "cd_runs db' = cd_runs db" "cd_artifacts db' = cd_artifacts db"
      "cd_contracts db' = cd_contracts db"
    and found: "\<And>i ap t r a. handoff_rows db i = Some (ap, t, r, a) \<Longrightarrow> task_by_id db' (tk_id t) = Some t"
  shows "steady db db'"
proof -
  have looks: "find_approval db' = find_approval db" "run_by_id db' = run_by_id db" "artifact_by_id db' = artifact_by_id db"
    "contract_by_id db' = contract_by_id db"
    using same by (simp_all add: fun_eq_iff lookup_defs)
  have contract: "contract_of db' = contract_of db"
    unfolding contract_of_def [abs_def] looks by (rule refl)
  have rows: "handoff_rows db' i = handoff_rows db i" for i
  proof (rule rows_kept [OF inv])
    show "find_approval db' i = find_approval db i"
      by (simp add: looks)
    fix ap t r a
    assume q: "handoff_rows db i = Some (ap, t, r, a)"
    then have "linked_handoff db i = Some (ap, t, r, a)"
      by (simp add: handoff_rows_Some)
    then show "task_by_id db' (tk_id t) = Some t \<and> run_by_id db' (rn_id r) = Some r \<and> artifact_by_id db' (af_id a) = Some a"
      using linkedD(8,10) found [OF q] by (simp add: looks)
  qed
  have "\<exists>q c. linked_handoff db' (ap_id ap) = Some q \<and> rows_ok q \<and> contract_of db' q = Some c \<and> rc_task c = ap_task ap"
    if ap: "ap \<in> set (cd_approvals db)" "is_handover ap" for ap
  proof -
    obtain q c where q: "linked_handoff db (ap_id ap) = Some q" "rows_ok q" "contract_of db q = Some c" "rc_task c = ap_task ap"
      using inv ap unfolding store_inv_def handoffs_linked_def by blast
    then have "handoff_rows db' (ap_id ap) = Some q"
      unfolding rows by (auto simp: handoff_rows_def rows_ok_def is_handover_def split: prod.splits)
    then show ?thesis
      using q contract by (auto simp: handoff_rows_def split: option.splits if_splits)
  qed
  then have "handoffs_linked db'"
    using inv same(1) unfolding store_inv_def handoffs_linked_def by auto
  moreover have "one_active db'"
    using inv unfolding store_inv_def one_active_def rows handoff_place_def contract by blast
  ultimately show ?thesis
    using keyed rows by (simp add: steady_def store_inv_def handoff_stage_def handoff_assignee_def)
qed

lemma insert_old_contract:
  assumes ins: "insert_handoff env db ids inp = Ok db'" and inv: "store_inv db" and q: "handoff_rows db i = Some q"
  shows "contract_of db' q = contract_of db q" and "handoff_place db' q = handoff_place db q"
proof -
  obtain ap t r a where qe: "q = (ap, t, r, a)"
    by (cases q)
  obtain c where "contract_by_id db (rn_contract r) = Some c"
    using handoff_rows_ok [OF inv q [unfolded qe]] by (auto simp: contract_of_def)
  then have "rn_contract r \<noteq> hd_contract ids"
    using insert_fresh(5) [OF ins] by auto
  then show "contract_of db' q = contract_of db q"
    by (simp add: qe contract_of_def lookup_insert [OF ins])
  then show "handoff_place db' q = handoff_place db q"
    by (simp add: handoff_place_def qe split: option.split)
qed

lemma insert_linked:
  assumes ins: "insert_handoff env db ids inp = Ok db'" and inv: "store_inv db" and to: "is_agent (Some (hi_to inp))"
  shows "handoffs_linked db'"
proof -
  let ?new = "(new_approval env ids inp, new_task env ids inp, new_run env ids inp, new_artifact env ids inp)"
  let ?i = "hd_approval ids"
  have linked: "handoffs_linked db"
    using inv by (simp add: store_inv_def)
  have appr: "cd_approvals db' = cd_approvals db @ [new_approval env ids inp]"
    using ins by (auto simp: insert_handoff_def split: if_splits)
  have new_ok: "rows_ok ?new"
    using to by (simp add: rows_ok_def stage_of_def new_approval_def new_task_def new_run_def new_artifact_def awaiting_def)
  have "\<exists>q c. linked_handoff db' (ap_id ap) = Some q \<and> rows_ok q \<and> contract_of db' q = Some c \<and> rc_task c = ap_task ap"
    if hand: "ap \<in> set (cd_approvals db')" "is_handover ap" for ap
  proof (cases "ap = new_approval env ids inp")
    case True
    then have "ap_id ap = ?i" "ap_task ap = Some (hd_task ids)"
      by (simp_all add: new_approval_def)
    moreover have "linked_handoff db' ?i = Some ?new"
      using insert_new_rows(1) [OF ins] by (simp add: handoff_rows_Some)
    ultimately show ?thesis
      using insert_new_rows(2) [OF ins] new_ok by simp
  next
    case False
    then have ap: "ap \<in> set (cd_approvals db)"
      using hand(1) appr by simp
    then obtain q c where q: "linked_handoff db (ap_id ap) = Some q" "rows_ok q" "contract_of db q = Some c"
        "rc_task c = ap_task ap"
      using linked hand(2) unfolding handoffs_linked_def by blast
    then have rows: "handoff_rows db (ap_id ap) = Some q"
      by (auto simp: handoff_rows_def rows_ok_def is_handover_def split: prod.splits)
    then have "ap_id ap \<noteq> ?i"
      using insert_new_rows(3) [OF ins] by auto
    then have "handoff_rows db' (ap_id ap) = Some q"
      using insert_old_rows [OF ins inv] rows by simp
    then show ?thesis
      using q insert_old_contract(1) [OF ins inv rows] by (auto simp: handoff_rows_def split: option.splits if_splits)
  qed
  moreover have "ap = bp" if hands: "ap \<in> set (cd_approvals db')" "bp \<in> set (cd_approvals db')"
      "is_handover ap" "is_handover bp" "ap_task ap = ap_task bp" for ap bp
  proof -
    have fresh: "ap_task x \<noteq> Some (hd_task ids)" if old: "x \<in> set (cd_approvals db)" "is_handover x" for x
    proof -
      obtain q where "linked_handoff db (ap_id x) = Some q"
        using linked old unfolding handoffs_linked_def by blast
      then obtain ap t r a where "linked_handoff db (ap_id x) = Some (ap, t, r, a)"
        by (cases q) simp
      then show ?thesis
        using linkedD(1,5,6) insert_fresh(2) [OF ins] approval_found [of db x] old(1) inv
        by (fastforce simp: store_inv_def)
    qed
    have new: "ap_task (new_approval env ids inp) = Some (hd_task ids)"
      by (simp add: new_approval_def)
    show ?thesis
    proof (cases "ap \<in> set (cd_approvals db) \<and> bp \<in> set (cd_approvals db)")
      case True
      then show ?thesis
        using linked hands(3-5) unfolding handoffs_linked_def by blast
    next
      case False
      then show ?thesis
        using hands fresh [of ap] fresh [of bp] new unfolding appr by auto
    qed
  qed
  ultimately show ?thesis
    unfolding handoffs_linked_def by blast
qed

lemma insert_one_active:
  assumes ins: "insert_handoff env db ids inp = Ok db'" and inv: "store_inv db"
    and clear: "\<And>i q. handoff_rows db i = Some q \<Longrightarrow> active_stage (stage_of q) \<Longrightarrow>
      handoff_place db q \<noteq> new_place (hd_project ids) inp"
  shows "one_active db'"
proof -
  let ?new = "(new_approval env ids inp, new_task env ids inp, new_run env ids inp, new_artifact env ids inp)"
  let ?i = "hd_approval ids"
  have one: "one_active db"
    using inv by (simp add: store_inv_def)
  have task: "tk_project (new_task env ids inp) = hd_project ids" "tk_assignee (new_task env ids inp) = Some (hi_to inp)"
    by (simp_all add: new_task_def)
  have place: "handoff_place db' ?new = new_place (hd_project ids) inp"
    using insert_new_rows(2) [OF ins]
    by (simp add: handoff_place_def new_place_def task split: option.split)
  have other: "i = ?i \<or> handoff_rows db i = Some q \<and> handoff_place db' q = handoff_place db q"
    if "handoff_rows db' i = Some q" for i q
    using that insert_old_rows [OF ins inv, of i] insert_old_contract(2) [OF ins inv, of i q] by force
  show ?thesis
    unfolding one_active_def
  proof (intro allI impI, elim conjE)
    fix i j q p
    assume rows: "handoff_rows db' i = Some q" "handoff_rows db' j = Some p"
      and act: "active_stage (stage_of q)" "active_stage (stage_of p)" and same: "handoff_place db' q = handoff_place db' p"
    show "i = j"
    proof (cases "i = ?i \<or> j = ?i")
      case True
      then show ?thesis
        using other [OF rows(1)] other [OF rows(2)] rows act same place clear [of i q] clear [of j p]
          insert_new_rows(1) [OF ins] by auto
    next
      case False
      then have "handoff_rows db i = Some q" "handoff_rows db j = Some p" "handoff_place db q = handoff_place db p"
        using other [OF rows(1)] other [OF rows(2)] same by auto
      then show ?thesis
        using act one unfolding one_active_def by blast
    qed
  qed
qed

lemma insert_inv:
  assumes ins: "insert_handoff env db ids inp = Ok db'" and inv: "store_inv db" and to: "is_agent (Some (hi_to inp))"
    and clear: "\<And>i q. handoff_rows db i = Some q \<Longrightarrow> active_stage (stage_of q) \<Longrightarrow>
      handoff_place db q \<noteq> new_place (hd_project ids) inp"
  shows "store_inv db'"
  using insert_keyed [OF ins] insert_linked [OF ins inv to] insert_one_active [OF ins inv clear] inv
  by (simp add: store_inv_def)

text \<open>
  A creation: possibly a delivery of the sender's own incoming handoff, then the active handoff of the same
  place is superseded, then the new one waits. Nothing else moves.
\<close>

definition create_effect :: "control_db \<Rightarrow> control_db \<Rightarrow> string \<Rightarrow> bool" where
  "create_effect db db' i \<longleftrightarrow> store_inv db' \<and> handoff_stage db i = None \<and> handoff_stage db' i = Some Hs_Waiting \<and>
     (\<forall>j. j \<noteq> i \<longrightarrow> handoff_assignee db' j = handoff_assignee db j \<and>
        (handoff_stage db' j = handoff_stage db j \<or>
         handoff_stage db' j = Some Hs_Superseded \<and> (\<exists>s. handoff_stage db j = Some s \<and> active_stage s)))"

lemma supersede_insert_effect:
  assumes inv: "store_inv db" and to: "is_agent (Some (hi_to inp))"
    and ins: "insert_handoff env (supersede env db (scope_ids db (hi_to inp) (hd_project ids) (hi_path inp))) ids inp = Ok db'"
  shows "create_effect db db' (hd_approval ids)" and "cd_audit db' = cd_audit db"
proof -
  let ?mid = "supersede env db (scope_ids db (hi_to inp) (hd_project ids) (hi_path inp))"
  let ?i = "hd_approval ids"
  have mid: "store_inv ?mid"
    by (rule supersede_inv(1) [OF inv])
  have inv': "store_inv db'"
    using insert_inv [OF ins mid to] scope_cleared [OF inv] by blast
  have mid_none: "handoff_rows ?mid ?i = None"
    by (rule insert_new_rows(3) [OF ins])
  then have "handoff_rows db ?i = None"
    by (simp add: supersede_inv(2) [OF inv])
  then have new: "handoff_stage db ?i = None" "handoff_stage db' ?i = Some Hs_Waiting"
    using insert_new_rows(1) [OF ins] by (simp_all add: handoff_stage_def stage_of_def new_approval_def)
  have others: "handoff_assignee db' j = handoff_assignee db j \<and>
        (handoff_stage db' j = handoff_stage db j \<or>
         handoff_stage db' j = Some Hs_Superseded \<and> (\<exists>s. handoff_stage db j = Some s \<and> active_stage s))"
    if j: "j \<noteq> ?i" for j
  proof -
    have same: "handoff_rows db' j = handoff_rows ?mid j"
      by (rule insert_old_rows [OF ins mid j])
    show ?thesis
    proof (cases "handoff_rows db j")
      case None
      then show ?thesis
        using same by (simp add: supersede_inv(2) [OF inv] handoff_stage_def handoff_assignee_def)
    next
      case (Some q)
      obtain ap t r a where q: "q = (ap, t, r, a)"
        by (cases q)
      have "handoff_assignee db' j = handoff_assignee ?mid j"
        using same by (simp add: handoff_assignee_def)
      then show ?thesis
        using same Some q supersede_rows(2) [OF inv Some [unfolded q]] supersede_inv(3) [OF inv]
        by (auto simp: handoff_stage_def supersede_inv(2) [OF inv])
    qed
  qed
  show "create_effect db db' ?i"
    using inv' new others by (simp add: create_effect_def)
  show "cd_audit db' = cd_audit db"
    using ins by (auto simp: insert_handoff_def supersede_def split: if_splits)
qed

lemma acknowledge_cases:
  assumes "acknowledge_incoming H js env db pid inp = Ok mid"
  obtains "mid = db"
  | ctx :: handoff_context and b where "cp_mark_handoff_delivered H js env db (hx_approval ctx) (hi_from inp) = Ok (b, mid)"
proof (cases "select_pending_handoff db pid (Some (hi_path inp)) (hi_from inp)")
  case None
  then show thesis
    using assms that(1) by (simp add: acknowledge_incoming_def)
next
  case (Some ctx)
  then show thesis
    using assms that(2) [of ctx] by (auto simp: acknowledge_incoming_def and_then_Inr_iff)
qed

lemma create_cases:
  assumes inv: "store_inv db" and to: "is_agent (Some (hi_to inp))"
    and res: "create_handoff_workflow_in_tx H js env db fresh inp = Ok (ids, db')"
  obtains "create_effect db db' (hd_approval ids)" "cd_audit db' = cd_audit db" "hd_approval ids = hd_approval fresh"
  | k s mid where "active_stage s" "advance db mid k s Hs_Delivered" "handoff_assignee db k = Some (hi_from inp)"
    "cd_audit mid = append_audit_event H (cd_audit db) True (en_stamp env) ''handover_delivered'' (hi_from inp)
       (decision_json js k (hi_from inp))"
    "create_effect mid db' (hd_approval ids)" "cd_audit db' = cd_audit mid" "hd_approval ids = hd_approval fresh"
proof -
  let ?pid = "project_id_for_file_path (cd_projects db) (hi_path inp)"
  let ?success = "to_lowercase (hi_status inp) = ''success''"
  obtain mid where ack: "(if ?success then acknowledge_incoming H js env db ?pid inp else Ok db) = Ok mid"
    and ids: "ids = fresh\<lparr>hd_project := ?pid\<rparr>"
    and ins: "insert_handoff env (supersede env mid (scope_ids mid (hi_to inp) (hd_project ids) (hi_path inp))) ids inp = Ok db'"
    using res unfolding create_handoff_workflow_in_tx_def Let_def
    by (auto simp: and_then_Inr_iff split: option.splits)
  have same: "hd_approval ids = hd_approval fresh"
    using ids by simp
  show thesis
  proof (cases "mid = db")
    case True
    show thesis
      using that(1) supersede_insert_effect [OF inv to ins [unfolded True]] same by blast
  next
    case False
    then have "acknowledge_incoming H js env db ?pid inp = Ok mid"
      using ack by (simp split: if_splits)
    then obtain ctx :: handoff_context and b
        where "cp_mark_handoff_delivered H js env db (hx_approval ctx) (hi_from inp) = Ok (b, mid)"
      by (rule acknowledge_cases) (use False in auto)
    then show thesis
    proof (rule deliver_cases [OF inv])
      fix s
      assume "active_stage s" and adv: "advance db mid (hx_approval ctx) s Hs_Delivered"
        and "handoff_assignee db (hx_approval ctx) = Some (hi_from inp)"
        and "cd_audit mid = append_audit_event H (cd_audit db) True (en_stamp env) ''handover_delivered'' (hi_from inp)
           (decision_json js (hx_approval ctx) (hi_from inp))"
      moreover have "store_inv mid"
        using adv by (simp add: advance_def)
      ultimately show thesis
        using that(2) supersede_insert_effect [OF _ to ins] same by blast
    qed (use False in simp)
  qed
qed

section \<open>Every step\<close>

inductive lifecycle_next :: "handoff_stage option \<Rightarrow> handoff_stage option \<Rightarrow> bool" where
  queued: "lifecycle_next None (Some Hs_Waiting)"
| consent: "lifecycle_next (Some Hs_Waiting) (Some Hs_Consented)"
| delivery: "active_stage s \<Longrightarrow> lifecycle_next (Some s) (Some Hs_Delivered)"
| closing: "lifecycle_next (Some Hs_Waiting) (Some Hs_Closed)"
| refusal: "lifecycle_next (Some Hs_Waiting) (Some Hs_Rejected)"
| replacement: "active_stage s \<Longrightarrow> lifecycle_next (Some s) (Some Hs_Superseded)"

inductive_simps lifecycle_next_from: "lifecycle_next (Some s) x"

text \<open>No delivery is recorded.\<close>

definition quiet :: "control_db \<Rightarrow> control_db \<Rightarrow> bool" where
  "quiet db db' \<longleftrightarrow> (\<exists>rows. cd_audit db' = cd_audit db @ rows \<and>
     list_all (\<lambda>r. a_event_type r \<noteq> ''handover_delivered'') rows)"

text \<open>A handoff is delivered to its assignee, and that is recorded.\<close>

definition delivers :: "(string \<Rightarrow> string) \<Rightarrow> json_object \<Rightarrow> control_db \<Rightarrow> control_db \<Rightarrow> string \<Rightarrow> bool" where
  "delivers H js db db' i \<longleftrightarrow> (\<exists>s by stamp. active_stage s \<and> advance db db' i s Hs_Delivered \<and>
     handoff_assignee db i = Some by \<and>
     cd_audit db' = append_audit_event H (cd_audit db) True stamp ''handover_delivered'' by (decision_json js i by))"

lemma quiet_same: "cd_audit db' = cd_audit db \<Longrightarrow> quiet db db'"
  by (simp add: quiet_def)

lemma quiet_append:
  "cd_audit db' = append_audit_event H (cd_audit db) True stamp ev actor data \<Longrightarrow> ev \<noteq> ''handover_delivered'' \<Longrightarrow> quiet db db'"
  by (auto simp: quiet_def append_audit_event_def audit_row_after_def)

lemma steady_refl: "store_inv db \<Longrightarrow> steady db db"
  by (simp add: steady_def)

lemma or_keep_changed:
  assumes "t = or_keep s r f" and "t \<noteq> s"
  obtains x where "r = Ok x" "t = f x"
  using assms by (auto simp: or_keep_def split: sum.splits)

lemma delivers_quiet_cases:
  assumes inv: "store_inv db" and res: "cp_consume_handoff H js env db ctx by = Ok db'"
  shows "db' = db \<or> delivers H js db db' (hx_approval ctx)"
  by (rule consume_cases [OF inv res]) (unfold delivers_def, blast+)

lemma create_quiet_cases:
  assumes inv: "store_inv db" and to: "is_agent (Some (hi_to inp))"
    and res: "create_handoff_workflow_in_tx H js env db fresh inp = Ok (ids, db')"
  shows "create_effect db db' (hd_approval fresh) \<and> quiet db db' \<or>
    (\<exists>k mid. delivers H js db mid k \<and> create_effect mid db' (hd_approval fresh) \<and> quiet mid db')"
proof (rule create_cases [OF inv to res])
  assume "create_effect db db' (hd_approval ids)" "cd_audit db' = cd_audit db" "hd_approval ids = hd_approval fresh"
  then show ?thesis
    using quiet_same [of db' db] by simp
next
  fix k s mid
  assume "active_stage s" "advance db mid k s Hs_Delivered" "handoff_assignee db k = Some (hi_from inp)"
    "cd_audit mid = append_audit_event H (cd_audit db) True (en_stamp env) ''handover_delivered'' (hi_from inp)
       (decision_json js k (hi_from inp))"
  then have "delivers H js db mid k"
    unfolding delivers_def by blast
  moreover assume "create_effect mid db' (hd_approval ids)" "cd_audit db' = cd_audit mid" "hd_approval ids = hd_approval fresh"
  ultimately show ?thesis
    using quiet_same [of db' mid] by auto
qed

lemma manage_quiet_cases:
  assumes inv: "store_inv db" and res: "cp_manage_handoff H js env db i remove = Ok db'"
  shows "quiet db db' \<and> (steady db db' \<or> advance db db' i Hs_Waiting (if remove then Hs_Rejected else Hs_Closed))"
proof (rule manage_cases [OF inv res])
  assume "steady db db'" and "\<exists>ev data. (db' = db \<or>
    cd_audit db' = append_audit_event H (cd_audit db) True (en_stamp env) ev ''local_user'' data) \<and> ev \<noteq> ''handover_delivered''"
  then show ?thesis
    using quiet_append quiet_same by blast
next
  assume "advance db db' i Hs_Waiting (if remove then Hs_Rejected else Hs_Closed)"
    and "\<exists>ev data. cd_audit db' = append_audit_event H (cd_audit db) True (en_stamp env) ev ''local_user'' data \<and>
      ev \<noteq> ''handover_delivered''"
  then show ?thesis
    using quiet_append by blast
qed

lemma approve_quiet_cases:
  assumes inv: "store_inv db" and res: "cp_approve_handoff_by_owner H js env db i owner owner = Ok (b, db')"
  shows "db' = db \<or> advance db db' i Hs_Waiting Hs_Consented \<and> quiet db db'"
  by (rule approve_cases [OF inv res]) (simp, simp add: quiet_append)

lemma reject_quiet_cases:
  assumes inv: "store_inv db" and res: "cp_resolve_handoff env db i owner by (Some why) = (b, db')"
  shows "db' = db \<or> advance db db' i Hs_Waiting Hs_Rejected \<and> quiet db db'"
  by (rule resolve_cases [OF inv res]) (simp_all add: quiet_same)

lemma registered_quiet: "store_inv db \<Longrightarrow> steady db (db\<lparr>cd_projects := ps\<rparr>) \<and> quiet db (db\<lparr>cd_projects := ps\<rparr>)"
  by (simp add: steady_def handoff_stage_def handoff_assignee_def quiet_same registered_same)

text \<open>
  A step changes nothing that matters here, or moves one waiting handoff, or delivers one, or creates one,
  or delivers the sender's incoming one and creates one.
\<close>

lemma step_cases:
  assumes inv: "store_inv db" and ok: "to_agents e" and step: "db' = store_step H js db e"
  obtains (rest) "steady db db'" "quiet db db'"
  | (move) i s' where "advance db db' i Hs_Waiting s'" "s' \<in> {Hs_Consented, Hs_Closed, Hs_Rejected}" "quiet db db'"
  | (delivered) i where "delivers H js db db' i"
  | (created) i where "create_effect db db' i" "quiet db db'"
  | (returned) k mid i where "delivers H js db mid k" "create_effect mid db' i" "quiet mid db'"
proof (cases "db' = db")
  case True
  then show thesis
    using rest steady_refl [OF inv] by (simp add: quiet_same)
next
  case changed: False
  show thesis
  proof (cases e)
    case (Hev_Create env ids inp)
    have to: "is_agent (Some (hi_to inp))"
      using ok Hev_Create by simp
    obtain ids' where "create_handoff_workflow_in_tx H js env db ids inp = Ok (ids', db')"
      by (rule or_keep_changed [OF step [unfolded Hev_Create store_step.simps] changed]) (auto simp: prod_eq_iff)
    from create_quiet_cases [OF inv to this] show thesis
      by (elim disjE exE conjE) (rule created, assumption+, rule returned, assumption+)
  next
    case (Hev_Approve env i subject)
    obtain b where "cp_approve_handoff_by_owner H js env db i subject subject = Ok (b, db')"
      by (rule or_keep_changed [OF step [unfolded Hev_Approve store_step.simps] changed]) (auto simp: prod_eq_iff)
    from approve_quiet_cases [OF inv this] changed show thesis
      by (intro move [of i Hs_Consented]) auto
  next
    case (Hev_Reject env i subject why)
    obtain b where "cp_resolve_handoff env db i subject subject (Some why) = (b, db')"
      using step unfolding Hev_Reject by (simp add: prod_eq_iff)
    from reject_quiet_cases [OF inv this] changed show thesis
      by (intro move [of i Hs_Rejected]) auto
  next
    case (Hev_Consume env ctx agent)
    have "cp_consume_handoff H js env db ctx agent = Ok db'"
      by (rule or_keep_changed [OF step [unfolded Hev_Consume store_step.simps] changed]) simp
    from delivers_quiet_cases [OF inv this] changed show thesis
      by (intro delivered) auto
  next
    case (Hev_Manage env i remove)
    have "cp_manage_handoff H js env db i remove = Ok db'"
      by (rule or_keep_changed [OF step [unfolded Hev_Manage store_step.simps] changed]) simp
    from manage_quiet_cases [OF inv this] show thesis
      using rest move [of i "if remove then Hs_Rejected else Hs_Closed"] by (cases remove) auto
  next
    case (Hev_Register ps)
    then show thesis
      using registered_quiet [OF inv, of ps] rest step by simp
  qed
qed

lemma advance_next:
  "advance db db' i s s' \<Longrightarrow> lifecycle_next (Some s) (Some s') \<Longrightarrow>
     store_inv db' \<and> (handoff_stage db' k = handoff_stage db k \<or> lifecycle_next (handoff_stage db k) (handoff_stage db' k))"
  by (cases "k = i") (auto simp: advance_def)

lemma delivers_next:
  assumes "delivers H js db db' i"
  obtains s where "active_stage s" "advance db db' i s Hs_Delivered"
  using assms unfolding delivers_def by blast

lemma create_next:
  "create_effect db db' i \<Longrightarrow>
     store_inv db' \<and> (handoff_stage db' k = handoff_stage db k \<or> lifecycle_next (handoff_stage db k) (handoff_stage db' k))"
  by (cases "k = i"; cases "handoff_stage db' k = handoff_stage db k")
    (auto simp: create_effect_def intro: lifecycle_next.intros dest!: spec [of _ k])

lemma create_delivered:
  assumes "create_effect db db' i"
  shows "(handoff_stage db' k = Some Hs_Delivered) = (handoff_stage db k = Some Hs_Delivered)"
    and "handoff_stage db k = Some Hs_Delivered \<Longrightarrow> handoff_assignee db' k = handoff_assignee db k"
proof -
  have "k = i \<or> handoff_assignee db' k = handoff_assignee db k \<and> (handoff_stage db' k = handoff_stage db k \<or>
      handoff_stage db' k = Some Hs_Superseded \<and> (\<exists>s. handoff_stage db k = Some s \<and> active_stage s))"
    and "handoff_stage db i = None" "handoff_stage db' i = Some Hs_Waiting"
    using assms by (auto simp: create_effect_def)
  then show "(handoff_stage db' k = Some Hs_Delivered) = (handoff_stage db k = Some Hs_Delivered)"
    "handoff_stage db k = Some Hs_Delivered \<Longrightarrow> handoff_assignee db' k = handoff_assignee db k"
    by (auto simp: active_stage_def)
qed

lemma step_next:
  assumes inv: "store_inv db" and ok: "to_agents e"
  shows "store_inv (store_step H js db e)"
    and "handoff_stage (store_step H js db e) k = handoff_stage db k \<or>
      lifecycle_next (handoff_stage db k) (handoff_stage (store_step H js db e) k)"
proof -
  let ?db' = "store_step H js db e"
  have "store_inv ?db' \<and> (handoff_stage ?db' k = handoff_stage db k \<or>
      lifecycle_next (handoff_stage db k) (handoff_stage ?db' k))"
  proof (cases rule: step_cases [OF inv ok refl [of "store_step H js db e"], case_names rest move delivered created returned])
    case rest
    then show ?thesis
      by (simp add: steady_def)
  next
    case (move i s')
    then show ?thesis
      by (intro advance_next [OF move(1)]) (auto intro: lifecycle_next.intros)
  next
    case (delivered i)
    then obtain s where "active_stage s" "advance db ?db' i s Hs_Delivered"
      by (rule delivers_next)
    then show ?thesis
      by (intro advance_next) (auto intro: lifecycle_next.intros)
  next
    case (created i)
    then show ?thesis
      by (intro create_next)
  next
    case (returned j mid i)
    then obtain s where s: "active_stage s" "advance db mid j s Hs_Delivered"
      by (elim delivers_next)
    have new: "store_inv ?db'" "handoff_stage ?db' k = handoff_stage mid k \<or>
        lifecycle_next (handoff_stage mid k) (handoff_stage ?db' k)"
      using create_next [OF returned(2), of k] by auto
    show ?thesis
    proof (cases "k = j")
      case True
      then have "handoff_stage ?db' k = Some Hs_Delivered" "handoff_stage db k = Some s"
        using s(2) create_delivered(1) [OF returned(2)] by (auto simp: advance_def)
      then show ?thesis
        using new(1) s(1) by (auto intro: lifecycle_next.intros)
    next
      case False
      then have "handoff_stage mid k = handoff_stage db k"
        using s(2) by (simp add: advance_def)
      then show ?thesis
        using new by simp
    qed
  qed
  then show "store_inv ?db'" "handoff_stage ?db' k = handoff_stage db k \<or>
      lifecycle_next (handoff_stage db k) (handoff_stage ?db' k)"
    by blast+
qed

interpretation lifecycle: simulation "store_step H js" to_agents store_inv "\<lambda>db. handoff_stage db i" lifecycle_next
  for H js i
  by unfold_locales (simp_all add: step_next)

end
