(* ===== verification/Handoff_Props.thy ===== *)
theory Handoff_Props
  imports Handoff_Lifecycle
begin

text \<open>
  The properties of the handoff store: the stages follow the lifecycle in every run, at most one handoff is active at
  each place, a handoff is delivered once and by the agent it addresses, and its receipt tells so.
\<close>

section \<open>Deliveries and the ledger\<close>

definition delivery_rows :: "json_object \<Rightarrow> audit_row list \<Rightarrow> string \<Rightarrow> audit_row list" where
  "delivery_rows js rows i =
     filter (\<lambda>r. a_event_type r = ''handover_delivered'' \<and> a_data r = decision_json js i (a_actor r)) rows"

text \<open>The ledger holds one delivery by its assignee for every delivered handoff and none for the others.\<close>

definition ledger_agrees :: "json_object \<Rightarrow> control_db \<Rightarrow> bool" where
  "ledger_agrees js db \<longleftrightarrow> (\<forall>i. map (\<lambda>r. Some (a_actor r)) (delivery_rows js (cd_audit db) i) =
     (if handoff_stage db i = Some Hs_Delivered then [handoff_assignee db i] else []))"

text \<open>JSON texts of decisions on different handoffs differ.\<close>

definition distinguishes :: "json_object \<Rightarrow> bool" where
  "distinguishes js \<longleftrightarrow> (\<forall>i j x y. decision_json js i x = decision_json js j y \<longrightarrow> i = j)"

lemma quiet_rows:
  assumes "quiet db db'"
  shows "delivery_rows js (cd_audit db') i = delivery_rows js (cd_audit db) i"
proof -
  obtain rows where "cd_audit db' = cd_audit db @ rows" "list_all (\<lambda>r. a_event_type r \<noteq> ''handover_delivered'') rows"
    using assms by (auto simp: quiet_def)
  then show ?thesis
    by (auto simp: delivery_rows_def filter_empty_conv list_all_iff)
qed

lemma ledger_quiet:
  assumes "ledger_agrees js db" and "quiet db db'"
    and "\<And>i. (handoff_stage db' i = Some Hs_Delivered) = (handoff_stage db i = Some Hs_Delivered)"
    and "\<And>i. handoff_stage db i = Some Hs_Delivered \<Longrightarrow> handoff_assignee db' i = handoff_assignee db i"
  shows "ledger_agrees js db'"
  using assms unfolding ledger_agrees_def quiet_rows [OF assms(2)] by simp

lemma ledger_delivers:
  assumes agrees: "ledger_agrees js db" and distinct: "distinguishes js" and del: "delivers H js db db' i"
  shows "ledger_agrees js db'"
proof -
  obtain s by' stamp where s: "active_stage s" and adv: "advance db db' i s Hs_Delivered"
    and who: "handoff_assignee db i = Some by'"
    and audit: "cd_audit db' = append_audit_event H (cd_audit db) True stamp ''handover_delivered'' by' (decision_json js i by')"
    using del by (auto simp: delivers_def)
  have rows: "map (\<lambda>r. Some (a_actor r)) (delivery_rows js (cd_audit db') k) =
      map (\<lambda>r. Some (a_actor r)) (delivery_rows js (cd_audit db) k) @ (if k = i then [Some by'] else [])" for k
    using distinct unfolding distinguishes_def
    by (auto simp: delivery_rows_def audit append_audit_event_def audit_row_after_def)
  have stages: "handoff_stage db' i = Some Hs_Delivered" "handoff_stage db i \<noteq> Some Hs_Delivered"
    "\<And>k. k \<noteq> i \<Longrightarrow> handoff_stage db' k = handoff_stage db k" "\<And>k. handoff_assignee db' k = handoff_assignee db k"
    using adv s by (auto simp: advance_def active_stage_def)
  show ?thesis
    unfolding ledger_agrees_def
  proof
    fix k
    show "map (\<lambda>r. Some (a_actor r)) (delivery_rows js (cd_audit db') k) =
      (if handoff_stage db' k = Some Hs_Delivered then [handoff_assignee db' k] else [])"
      using agrees [unfolded ledger_agrees_def, rule_format, of k] rows [of k] stages(1,2) stages(3) [of k] stages(4) [of k] who
      by (cases "k = i") auto
  qed
qed

lemma delivery_step:
  assumes inv: "store_inv db" and agrees: "ledger_agrees js db" and distinct: "distinguishes js" and ok: "to_agents e"
  shows "ledger_agrees js (store_step H js db e)"
proof (cases rule: step_cases [OF inv ok refl [of "store_step H js db e"], case_names rest move delivered created returned])
  case rest
  then show ?thesis
    by (intro ledger_quiet [OF agrees rest(2)]) (simp_all add: steady_def)
next
  case (move i s')
  then have stages: "handoff_stage (store_step H js db e) i \<noteq> Some Hs_Delivered" "handoff_stage db i \<noteq> Some Hs_Delivered"
    "\<And>k. k \<noteq> i \<Longrightarrow> handoff_stage (store_step H js db e) k = handoff_stage db k"
    "\<And>k. handoff_assignee (store_step H js db e) k = handoff_assignee db k"
    by (auto simp: advance_def)
  show ?thesis
    by (rule ledger_quiet [OF agrees move(3)]) (use stages in metis)+
next
  case (delivered i)
  then show ?thesis
    by (rule ledger_delivers [OF agrees distinct])
next
  case (created i)
  then show ?thesis
    by (intro ledger_quiet [OF agrees created(2)] create_delivered [OF created(1)])
next
  case (returned k mid i)
  then have "ledger_agrees js mid"
    by (intro ledger_delivers [OF agrees distinct])
  then show ?thesis
    by (rule ledger_quiet [OF _ returned(3)]) (rule create_delivered [OF returned(2)], assumption?)+
qed

interpretation deliveries: machine "store_step H js" to_agents "\<lambda>db. store_inv db \<and> ledger_agrees js db \<and> distinguishes js"
  for H js
  by unfold_locales (simp add: step_next delivery_step)

section \<open>Taking and receipts\<close>

lemma selected_waiting:
  assumes "select_pending_handoff db pid path agent = Some ctx"
  obtains ap t r a where "waiting_for db pid path agent ap" "ap \<in> set (cd_approvals db)" "joined db ap = Some (t, r, a)"
    "deliverable_to agent (ap, t, r, a)"
    "hx_approval ctx = ap_id ap" "hx_task ctx = tk_id t" "hx_run ctx = rn_id r" "hx_artifact ctx = af_id a"
proof -
  obtain ap rest where sel: "sort_key (\<lambda>ap. - ap_requested_at ap) (select_where (waiting_for db pid path agent) (cd_approvals db)) = ap # rest"
    and ctx: "context_of db agent ap = Some ctx"
    using assms unfolding select_pending_handoff_def by (auto split: list.splits)
  have "ap \<in> set (sort_key (\<lambda>ap. - ap_requested_at ap) (select_where (waiting_for db pid path agent) (cd_approvals db)))"
    by (simp add: sel)
  then have w: "waiting_for db pid path agent ap" "ap \<in> set (cd_approvals db)"
    by (simp_all add: select_where_def)
  obtain t r a where rows: "joined db ap = Some (t, r, a)"
    and ids: "hx_approval ctx = ap_id ap" "hx_task ctx = tk_id t" "hx_run ctx = rn_id r" "hx_artifact ctx = af_id a"
    using ctx unfolding context_of_def by auto
  have "deliverable_to agent (ap, t, r, a)"
    using w(1) rows unfolding waiting_for_def by (auto split: option.splits)
  then show thesis
    using that w rows ids by blast
qed

lemma waiting_linked:
  assumes inv: "store_inv db" and ap: "ap \<in> set (cd_approvals db)" and rows: "joined db ap = Some (t, r, a)"
    and hand: "is_handover ap"
  shows "handoff_rows db (ap_id ap) = Some (ap, t, r, a)"
proof -
  obtain q where q: "linked_handoff db (ap_id ap) = Some q"
    using inv ap hand unfolding store_inv_def handoffs_linked_def by blast
  obtain bp t' r' a' where qe: "q = (bp, t', r', a')"
    by (cases q)
  have "find_approval db (ap_id ap) = Some ap"
    using inv ap approval_found by (simp add: store_inv_def)
  then have "bp = ap" "(t', r', a') = (t, r, a)"
    using linkedD(1,4) [OF q [unfolded qe]] rows by auto
  then show ?thesis
    using q qe hand by (simp add: handoff_rows_Some)
qed

lemma deliverable_marks:
  assumes inv: "store_inv db" and rows: "handoff_rows db i = Some (ap, t, r, a)" and dec: "deliverable_to agent (ap, t, r, a)"
    and audit: "en_audit_ok env"
  shows "\<exists>db'. cp_mark_handoff_delivered H js env db i agent = Ok (True, db') \<and> handoff_stage db' i = Some Hs_Delivered"
proof -
  have "linked_handoff db i = Some (ap, t, r, a)"
    using rows by (simp add: handoff_rows_Some)
  then obtain db' where marked: "cp_mark_handoff_delivered H js env db i agent = Ok (True, db')"
    using dec audit unfolding cp_mark_handoff_delivered_def by (simp add: audit_after_def)
  have "handoff_stage db' i = Some Hs_Delivered"
    by (rule deliver_cases [OF inv marked]) (simp_all add: advance_def)
  then show ?thesis
    using marked by blast
qed

lemma receipt_rows:
  assumes inv: "store_inv db" and res: "cp_handoff_receipt db i path = Some rc"
  obtains ap t r a where "handoff_rows db i = Some (ap, t, r, a)" "rows_ok (ap, t, r, a)" "hrc_approval rc = i"
    "hrc_status rc = ap_status ap" "hrc_resolved_by rc = ap_resolved_by ap" "Some (hrc_to rc) = tk_assignee t"
proof -
  obtain ap t r a where ap: "find_approval db i = Some ap" and rows: "joined db ap = Some (t, r, a)"
    and hand: "is_handover ap" and rc: "hrc_approval rc = i" "hrc_status rc = ap_status ap"
      "hrc_resolved_by rc = ap_resolved_by ap" "hrc_to rc = or_default (tk_assignee t)"
    using res unfolding cp_handoff_receipt_def is_handover_def by (auto split: option.splits if_splits)
  have "ap \<in> set (cd_approvals db)" "ap_id ap = i"
    using lookup_Some(1) [OF ap] by auto
  then have q: "handoff_rows db i = Some (ap, t, r, a)"
    using waiting_linked [OF inv _ rows hand] by simp
  obtain c where ok: "rows_ok (ap, t, r, a)"
    by (rule handoff_rows_ok [OF inv q])
  then have "Some (hrc_to rc) = tk_assignee t"
    using rc(4) by (auto simp: rows_ok_def is_agent_def or_default_def)
  then show thesis
    using that q ok rc by blast
qed

section \<open>Properties\<close>


text \<open>
  exactly one delivery. In every run the ledger holds one delivery record of a delivered handoff, by the
  agent it is addressed to, and none of any other handoff: not of one that is only approved, nor of a
  superseded, rejected or closed one.
\<close>

theorem handoff_delivered_once:
  assumes "store_inv db" and "ledger_agrees js db" and "distinguishes js" and "list_all to_agents events"
  shows "let db' = foldl (store_step H js) db events
    in map (\<lambda>r. Some (a_actor r)) (delivery_rows js (cd_audit db') i) =
      (if handoff_stage db' i = Some Hs_Delivered then [handoff_assignee db' i] else [])"
proof -
  have "store_inv db \<and> ledger_agrees js db \<and> distinguishes js"
    using assms by blast
  from deliveries.run_inv [OF this assms(4)] show ?thesis
    unfolding Let_def ledger_agrees_def by blast
qed



text \<open>
  a receipt tells the truth. It says delivered by the addressed agent exactly when the handoff is
  delivered, pending exactly when it waits, and rejected or expired exactly when it is rejected or superseded.
\<close>

theorem receipt_truthful:
  assumes "store_inv db" and "cp_handoff_receipt db i path = Some rc"
  shows "delivered_by_target rc = (handoff_stage db i = Some Hs_Delivered) \<and>
    (hrc_status rc = ''pending'') = (handoff_stage db i = Some Hs_Waiting) \<and>
    (hrc_status rc = ''rejected'') = (handoff_stage db i = Some Hs_Rejected) \<and>
    (hrc_status rc = ''expired'') = (handoff_stage db i = Some Hs_Superseded)"
proof -
  obtain ap t r a where rows: "handoff_rows db i = Some (ap, t, r, a)" "rows_ok (ap, t, r, a)"
    and rc: "hrc_status rc = ap_status ap" "hrc_resolved_by rc = ap_resolved_by ap" "Some (hrc_to rc) = tk_assignee t"
    by (rule receipt_rows [OF assms])
  have "handoff_stage db i = Some (stage_of (ap, t, r, a))"
    using rows(1) by (simp add: handoff_stage_def)
  then show ?thesis
    using rows(2) rc by (cases "stage_of (ap, t, r, a)") (auto simp: rows_ok_def delivered_by_target_def is_agent_def)
qed

section \<open>One handoff\<close>

definition empty_db :: "project_row list \<Rightarrow> control_db" where
  "empty_db ps = \<lparr>cd_projects = ps, cd_tasks = [], cd_runs = [], cd_artifacts = [], cd_approvals = [],
     cd_contracts = [], cd_gates = [], cd_audit = []\<rparr>"

definition sample_env :: db_env where
  "sample_env = \<lparr>en_now = 1, en_stamp = ''t'', en_audit_ok = True\<rparr>"

definition sample_ids :: "string \<Rightarrow> handoff_ids" where
  "sample_ids i = \<lparr>hd_task = i, hd_run = i, hd_artifact = i, hd_approval = i, hd_contract = i, hd_project = None\<rparr>"

definition sample_input :: "string \<Rightarrow> handoff_input" where
  "sample_input path = \<lparr>hi_path = path, hi_from = ''claude'', hi_to = ''codex'', hi_status = ''BLOCKER'', hi_msg = ''go on'',
     hi_diff_stat = None, hi_report = None\<rparr>"

definition sample_context :: "string \<Rightarrow> handoff_context" where
  "sample_context i = \<lparr>hx_approval = i, hx_artifact = i, hx_run = i, hx_task = i, hx_from = ''claude'', hx_to = ''codex'',
     hx_status = ''blocker'', hx_summary = ''go on'', hx_report = None, hx_diff_stat = None, hx_by_owner = True\<rparr>"

definition sample_json :: json_object where
  "sample_json obj = snd (hd obj)"

abbreviation sample_run :: "project_row list \<Rightarrow> store_event list \<Rightarrow> control_db" where
  "sample_run ps \<equiv> foldl (store_step (\<lambda>s. s) sample_json) (empty_db ps)"

abbreviation queue_sample :: "string \<Rightarrow> string \<Rightarrow> store_event" where
  "queue_sample i path \<equiv> Hev_Create sample_env (sample_ids i) (sample_input path)"

lemma empty_db_inv: "store_inv (empty_db ps)"
  by (simp add: store_inv_def tables_keyed_def handoffs_linked_def one_active_def handoff_rows_def linked_handoff_def
      find_approval_def empty_db_def)

lemma empty_db_ledger: "ledger_agrees sample_json (empty_db ps)"
  by (simp add: ledger_agrees_def handoff_stage_def handoff_rows_def linked_handoff_def find_approval_def
      delivery_rows_def empty_db_def)

lemma sample_distinguishes: "distinguishes sample_json"
  by (simp add: distinguishes_def decision_json_def sample_json_def)

lemma sample_agent: "is_agent (Some (hi_to (sample_input path)))"
  by (simp add: is_agent_def sample_input_def)


lemma handoff_delivered_once_witness:
  "map (\<lambda>r. Some (a_actor r)) (delivery_rows sample_json (cd_audit (sample_run [] [queue_sample ''a'' ''/w'',
     Hev_Approve sample_env ''a'' ''local_control_owner'', Hev_Consume sample_env (sample_context ''a'') ''codex'',
     Hev_Consume sample_env (sample_context ''a'') ''codex''])) ''a'') = [Some ''codex'']"
proof -
  have stage: "handoff_stage (sample_run [] [queue_sample ''a'' ''/w'',
     Hev_Approve sample_env ''a'' ''local_control_owner'', Hev_Consume sample_env (sample_context ''a'') ''codex'',
     Hev_Consume sample_env (sample_context ''a'') ''codex'']) ''a'' = Some Hs_Delivered"
    and who: "handoff_assignee (sample_run [] [queue_sample ''a'' ''/w'',
     Hev_Approve sample_env ''a'' ''local_control_owner'', Hev_Consume sample_env (sample_context ''a'') ''codex'',
     Hev_Consume sample_env (sample_context ''a'') ''codex'']) ''a'' = Some ''codex''"
    by code_simp+
  have "list_all to_agents [queue_sample ''a'' ''/w'', Hev_Approve sample_env ''a'' ''local_control_owner'',
     Hev_Consume sample_env (sample_context ''a'') ''codex'', Hev_Consume sample_env (sample_context ''a'') ''codex'']"
    by (simp add: sample_agent)
  from handoff_delivered_once [where H = "\<lambda>s. s" and i = "''a''", OF empty_db_inv [of "[]"] empty_db_ledger [of "[]"] sample_distinguishes this]
  show ?thesis
    unfolding Let_def stage who by (simp only: refl if_True)
qed



lemma receipt_truthful_witness:
  "\<exists>rc. cp_handoff_receipt (sample_run [] [queue_sample ''a'' ''/w'']) ''a'' ''/w'' = Some rc \<and>
     \<not> delivered_by_target rc \<and> hrc_status rc = ''pending''"
proof -
  have "list_all to_agents [queue_sample ''a'' ''/w'']"
    by (simp add: sample_agent)
  then have inv: "store_inv (sample_run [] [queue_sample ''a'' ''/w''])"
    by (rule lifecycle.run_inv [OF empty_db_inv])
  have rc: "cp_handoff_receipt (sample_run [] [queue_sample ''a'' ''/w'']) ''a'' ''/w'' =
      Some \<lparr>hrc_approval = ''a'', hrc_project = ''/w'', hrc_from = ''claude'', hrc_to = ''codex'', hrc_status = ''pending'',
        hrc_resolved_by = None, hrc_resolved_at = None\<rparr>"
    by code_simp
  have stage: "handoff_stage (sample_run [] [queue_sample ''a'' ''/w'']) ''a'' = Some Hs_Waiting"
    by code_simp
  show ?thesis
    using receipt_truthful [OF inv rc] unfolding stage rc by auto
qed

section \<open>Behaviours worth knowing\<close>

text \<open>
  A handoff the owner approved and the local user then removed is still offered to the agent and delivered:
  taking looks at the status of the rows, not at the user's disposition.
\<close>

lemma removed_handoff_still_delivered:
  "let db = sample_run [] [queue_sample ''a'' ''/w'', Hev_Approve sample_env ''a'' ''local_control_owner'',
      Hev_Manage sample_env ''a'' True]
   in map_option (\<lambda>a. hm_user_status (af_metadata a)) (artifact_by_id db ''a'') = Some (Some ''removed'') \<and>
      map_option hx_approval (cp_take_pending_handoff_for_path db ''/w'' ''codex'') = Some ''a'' \<and>
      handoff_stage (store_step (\<lambda>s. s) sample_json db (Hev_Consume sample_env (sample_context ''a'') ''codex'')) ''a'' =
        Some Hs_Delivered"
  by code_simp

text \<open>
  A project claims every directory whose path starts with its own as a text, so a handoff for
  \<open>/work/app-old\<close> replaces the one waiting in \<open>/work/app\<close> and is offered to the agent there.
\<close>

lemma sibling_directory_shares_project:
  "let db = sample_run [\<lparr>pj_id = 7, pj_name = ''app'', pj_path = ''/work/app''\<rparr>]
      [queue_sample ''a'' ''/work/app'', queue_sample ''b'' ''/work/app-old'']
   in handoff_stage db ''a'' = Some Hs_Superseded \<and>
      map_option hx_approval (cp_take_pending_handoff_for_path db ''/work/app'' ''codex'') = Some ''b''"
  by code_simp

text \<open>An unfinished verify gate of any graph blocks the successful results of all projects.\<close>

lemma gate_blocks_everywhere:
  assumes "open_gate db = Some node" and "to_lowercase (hi_status inp) = ''success''"
  shows "create_handoff_workflow_in_tx H js env db fresh inp = Err (Db_Gate_Open node)"
  using assms by (simp add: create_handoff_workflow_in_tx_def Let_def)

end
