(* ===== verification/App_Error.thy ===== *)
theory App_Error
  imports Prelude
begin

text \<open>The error values of the workspace's core (\<open>rwk-core/src/error.rs\<close>).\<close>

datatype error_code =
    Invalid_Input
  | Not_Found
  | Conflict
  | Io
  | Unauthorized
  | Forbidden
  | Daemon_Unreachable
  | Daemon
  | Workspace_Closed
  | Internal

record app_error =
  ae_code :: error_code
  ae_message :: string

definition app_error :: "error_code \<Rightarrow> string \<Rightarrow> app_error" where
  "app_error code message = \<lparr>ae_code = code, ae_message = message\<rparr>"

lemma app_error_code [simp]: "ae_code (app_error c m) = c"
  by (simp add: app_error_def)

definition from_problem_code :: "string \<Rightarrow> error_code" where
  "from_problem_code code =
     (if code = ''INVALID_INPUT'' then Invalid_Input
      else if code = ''NOT_FOUND'' then Not_Found
      else if code = ''CONFLICT'' then Conflict
      else if code = ''UNAUTHORIZED'' then Unauthorized
      else if code = ''FORBIDDEN'' then Forbidden
      else if code = ''INTERNAL_ERROR'' then Internal
      else Daemon)"

end
