(* ===== verification/Handoff_View.thy ===== *)
theory Handoff_View
  imports App_Error
begin

text \<open>
  The lifecycle of one handoff as the workspace shows it
  (\<open>rwk-core/src/handoff_state.rs\<close>, \<open>rwk-core/src/handoff_flow.rs\<close>): the receipt the daemon keeps, the
  receiver process the workspace owns, and whether the receipt was read after the receiver last
  ended. \<open>next_view\<close> is the transition function, \<open>tracked\<close> a handoff with its receipt reads.
  The display texts are left out.
\<close>

section \<open>The code\<close>

datatype receipt_state =
    Not_Queued
  | Queuing
  | Pending string
  | Delivered string
  | Resolved_Elsewhere string
  | Expired string
  | Rejected string
  | Missing string
  | Unreadable string string

fun is_terminal :: "receipt_state \<Rightarrow> bool" where
  "is_terminal (Delivered i) = True"
| "is_terminal (Resolved_Elsewhere i) = True"
| "is_terminal (Expired i) = True"
| "is_terminal (Rejected i) = True"
| "is_terminal Not_Queued = False"
| "is_terminal Queuing = False"
| "is_terminal (Pending i) = False"
| "is_terminal (Missing i) = False"
| "is_terminal (Unreadable i r) = False"

datatype receiver_state = Not_Started | Launching | Running | Exited

datatype receipt_observation =
    Read_Pending
  | Delivered_By_Target
  | Read_Resolved_Elsewhere
  | Read_Expired
  | Read_Rejected
  | Read_Not_Found
  | Read_Failed string

datatype observation =
    Queue_Requested
  | Queue_Succeeded string
  | Queue_Failed
  | Launch_Requested
  | Launch_Failed
  | Receiver_Running
  | Receiver_Exited
  | Receipt receipt_observation

record handoff_view =
  hv_receipt :: receipt_state
  hv_receiver :: receiver_state
  hv_fresh :: bool

definition new_view :: handoff_view where
  "new_view = \<lparr>hv_receipt = Not_Queued, hv_receiver = Not_Started, hv_fresh = False\<rparr>"

fun is_pending :: "receipt_state \<Rightarrow> bool" where
  "is_pending (Pending i) = True"
| "is_pending r = False"

definition can_start_receiver :: "handoff_view \<Rightarrow> bool" where
  "can_start_receiver v \<longleftrightarrow>
     is_pending (hv_receipt v) \<and> hv_fresh v \<and> (hv_receiver v = Not_Started \<or> hv_receiver v = Exited)"

text \<open>The approval id of a receipt a read may still change.\<close>

fun open_id :: "receipt_state \<Rightarrow> string option" where
  "open_id (Pending i) = Some i"
| "open_id (Missing i) = Some i"
| "open_id (Unreadable i r) = Some i"
| "open_id Not_Queued = None"
| "open_id Queuing = None"
| "open_id (Delivered i) = None"
| "open_id (Resolved_Elsewhere i) = None"
| "open_id (Expired i) = None"
| "open_id (Rejected i) = None"

fun read_receipt :: "receipt_observation \<Rightarrow> string \<Rightarrow> bool \<Rightarrow> receipt_state \<times> bool" where
  "read_receipt Read_Pending i fresh = (Pending i, True)"
| "read_receipt Delivered_By_Target i fresh = (Delivered i, fresh)"
| "read_receipt Read_Resolved_Elsewhere i fresh = (Resolved_Elsewhere i, fresh)"
| "read_receipt Read_Expired i fresh = (Expired i, fresh)"
| "read_receipt Read_Rejected i fresh = (Rejected i, fresh)"
| "read_receipt Read_Not_Found i fresh = (Missing i, False)"
| "read_receipt (Read_Failed r) i fresh = (Unreadable i r, False)"

definition apply_receipt :: "handoff_view \<Rightarrow> receipt_observation \<Rightarrow> handoff_view" where
  "apply_receipt v r =
     (case open_id (hv_receipt v) of
        None \<Rightarrow> v
      | Some i \<Rightarrow>
          (case read_receipt r i (hv_fresh v) of (receipt, fresh) \<Rightarrow>
             \<lparr>hv_receipt = receipt, hv_receiver = hv_receiver v, hv_fresh = fresh\<rparr>))"

fun next_view :: "handoff_view \<Rightarrow> observation \<Rightarrow> handoff_view" where
  "next_view v Queue_Requested =
     (if hv_receipt v = Not_Queued then v\<lparr>hv_receipt := Queuing\<rparr> else v)"
| "next_view v (Queue_Succeeded i) =
     (if hv_receipt v = Queuing then v\<lparr>hv_receipt := Pending i, hv_fresh := True\<rparr> else v)"
| "next_view v Queue_Failed =
     (if hv_receipt v = Queuing then v\<lparr>hv_receipt := Not_Queued\<rparr> else v)"
| "next_view v Launch_Requested =
     (if can_start_receiver v then v\<lparr>hv_receiver := Launching, hv_fresh := False\<rparr> else v)"
| "next_view v Receiver_Running =
     (if hv_receiver v = Launching then v\<lparr>hv_receiver := Running\<rparr> else v)"
| "next_view v Launch_Failed =
     (if hv_receiver v = Launching then v\<lparr>hv_receiver := Exited, hv_fresh := False\<rparr> else v)"
| "next_view v Receiver_Exited =
     (if hv_receiver v = Launching \<or> hv_receiver v = Running
      then v\<lparr>hv_receiver := Exited, hv_fresh := False\<rparr> else v)"
| "next_view v (Receipt r) = apply_receipt v r"

definition observe_all :: "handoff_view \<Rightarrow> observation list \<Rightarrow> handoff_view" where
  "observe_all v os = foldl next_view v os"

text \<open>A receipt as the daemon answers it.\<close>

record handoff_receipt =
  hr_approval_id :: string
  hr_status :: string
  hr_delivered_by_target :: bool

definition observe_receipt :: "app_error + handoff_receipt \<Rightarrow> string \<Rightarrow> receipt_observation" where
  "observe_receipt result expected_id =
     (case result of
        Inl e \<Rightarrow> if ae_code e = Not_Found then Read_Not_Found else Read_Failed (ae_message e)
      | Inr r \<Rightarrow>
          if hr_approval_id r \<noteq> expected_id
          then Read_Failed ''the daemon answered for a different handoff''
          else if hr_status r = ''pending'' then Read_Pending
          else if hr_status r = ''approved'' \<and> hr_delivered_by_target r then Delivered_By_Target
          else if hr_status r = ''approved'' then Read_Resolved_Elsewhere
          else if hr_status r = ''rejected'' then Read_Rejected
          else if hr_status r = ''expired'' then Read_Expired
          else Read_Failed (''unknown receipt status '' @ [CHR 0x27] @ hr_status r @ [CHR 0x27]))"

record task_link =
  tl_task_id :: string
  tl_title :: string

record tracked_handoff =
  th_approval_id :: string
  th_from :: string
  th_to :: string
  th_view :: handoff_view
  th_task :: "task_link option"
  th_task_moved :: bool

definition queued :: "string \<Rightarrow> string \<Rightarrow> string \<Rightarrow> tracked_handoff" where
  "queued i from to =
     \<lparr>th_approval_id = i, th_from = from, th_to = to,
      th_view = next_view (next_view new_view Queue_Requested) (Queue_Succeeded i),
      th_task = None, th_task_moved = False\<rparr>"

definition with_task :: "task_link option \<Rightarrow> tracked_handoff \<Rightarrow> tracked_handoff" where
  "with_task task h = h\<lparr>th_task := task\<rparr>"

fun is_delivered :: "receipt_state \<Rightarrow> bool" where
  "is_delivered (Delivered i) = True"
| "is_delivered r = False"

definition task_move_due :: "tracked_handoff \<Rightarrow> bool" where
  "task_move_due h \<longleftrightarrow> th_task h \<noteq> None \<and> \<not> th_task_moved h \<and> is_delivered (hv_receipt (th_view h))"

definition observe :: "observation \<Rightarrow> tracked_handoff \<Rightarrow> tracked_handoff" where
  "observe ob h = h\<lparr>th_view := next_view (th_view h) ob\<rparr>"

section \<open>One step\<close>

text \<open>The approval id a receipt carries.\<close>

fun receipt_id :: "receipt_state \<Rightarrow> string option" where
  "receipt_id (Delivered i) = Some i"
| "receipt_id (Resolved_Elsewhere i) = Some i"
| "receipt_id (Expired i) = Some i"
| "receipt_id (Rejected i) = Some i"
| "receipt_id r = open_id r"

lemma open_id_iff: "open_id r = Some i \<longleftrightarrow> r = Pending i \<or> r = Missing i \<or> (\<exists>why. r = Unreadable i why)"
  by (cases r) auto

lemma is_pending_iff: "is_pending r \<longleftrightarrow> (\<exists>i. r = Pending i)"
  by (cases r) auto

lemma read_receipt_id: "receipt_id (fst (read_receipt r i f)) = Some i"
  by (cases r) auto

lemma terminal_no_open_id: "is_terminal r \<Longrightarrow> open_id r = None"
  by (cases r) auto

lemma receipt_id_kept:
  "receipt_id (hv_receipt v) = Some i \<Longrightarrow> receipt_id (hv_receipt (next_view v ob)) = Some i"
proof (cases ob)
  case (Receipt r)
  assume "receipt_id (hv_receipt v) = Some i"
  then show ?thesis
    using Receipt read_receipt_id [of r i "hv_fresh v"]
    by (cases "hv_receipt v") (auto simp: apply_receipt_def split: prod.split)
qed auto

lemma terminal_step: "is_terminal (hv_receipt v) \<Longrightarrow> hv_receipt (next_view v ob) = hv_receipt v"
  by (cases ob; cases "hv_receipt v") (auto simp: apply_receipt_def can_start_receiver_def)

lemma observe_all_simps [simp]:
  "observe_all v [] = v"
  "observe_all v (ob # os) = observe_all (next_view v ob) os"
  "observe_all v (os @ os') = observe_all (observe_all v os) os'"
  by (simp_all add: observe_all_def)

text \<open>
  Delivered, resolved elsewhere, expired and rejected are final for a handoff: whatever is
  observed later, the receipt stays as it is and no receiver can be started.\<close>

theorem terminal_receipt_final:
  assumes "is_terminal (hv_receipt v)"
  shows "hv_receipt (observe_all v os) = hv_receipt v \<and> \<not> can_start_receiver (observe_all v os)"
proof -
  have "hv_receipt (observe_all v os) = hv_receipt v"
    using assms
  proof (induction os arbitrary: v)
    case (Cons ob os)
    then show ?case
      using terminal_step [of v ob] by simp
  qed simp
  then show ?thesis
    using assms by (cases "hv_receipt v") (auto simp: can_start_receiver_def)
qed

theorem terminal_receipt_final_witness:
  "hv_receipt (observe_all \<lparr>hv_receipt = Delivered ''a'', hv_receiver = Running, hv_fresh = True\<rparr>
       [Receipt Read_Not_Found, Receiver_Exited, Launch_Requested]) =
     hv_receipt \<lparr>hv_receipt = Delivered ''a'', hv_receiver = Running, hv_fresh = True\<rparr> \<and>
   \<not> can_start_receiver (observe_all \<lparr>hv_receipt = Delivered ''a'', hv_receiver = Running, hv_fresh = True\<rparr>
       [Receipt Read_Not_Found, Receiver_Exited, Launch_Requested])"
  by (rule terminal_receipt_final) simp

section \<open>Restarts\<close>

definition ends_receiver :: "observation \<Rightarrow> bool" where
  "ends_receiver ob \<longleftrightarrow> ob = Receiver_Exited \<or> ob = Launch_Failed"

text \<open>After a start: the receiver is alive, or it ended and only a later read freshens the receipt.\<close>

definition started :: "handoff_view \<Rightarrow> observation list \<Rightarrow> bool" where
  "started v os \<longleftrightarrow>
     receipt_id (hv_receipt v) \<noteq> None \<and>
     (hv_receiver v = Launching \<or> hv_receiver v = Running \<or>
      (hv_receiver v = Exited \<and>
       (\<exists>before ob after. os = before @ ob # after \<and> ends_receiver ob \<and>
          (hv_fresh v \<longrightarrow> Receipt Read_Pending \<in> set after))))"

lemma started_step:
  assumes "started v os"
  shows "started (next_view v ob) (os @ [ob])"
proof -
  let ?w = "next_view v ob"
  obtain i where i: "receipt_id (hv_receipt v) = Some i"
    using assms by (auto simp: started_def)
  then have "receipt_id (hv_receipt ?w) = Some i"
    by (rule receipt_id_kept)
  moreover have "hv_receiver ?w = Launching \<or> hv_receiver ?w = Running \<or>
      (hv_receiver ?w = Exited \<and>
       (\<exists>before x after. os @ [ob] = before @ x # after \<and> ends_receiver x \<and>
          (hv_fresh ?w \<longrightarrow> Receipt Read_Pending \<in> set after)))"
  proof (cases "hv_receiver v = Launching \<or> hv_receiver v = Running")
    case True
    then show ?thesis
      using i by (cases ob) (auto simp: apply_receipt_def ends_receiver_def can_start_receiver_def
          split: option.split prod.split)
  next
    case False
    then obtain before x after where x: "hv_receiver v = Exited" "os = before @ x # after"
        "ends_receiver x" "hv_fresh v \<longrightarrow> Receipt Read_Pending \<in> set after"
      using assms by (auto simp: started_def)
    have "ob = Launch_Requested \<and> can_start_receiver v \<or>
        hv_receiver ?w = Exited \<and> (hv_fresh ?w \<longrightarrow> hv_fresh v \<or> ob = Receipt Read_Pending)"
    proof (cases ob)
      case (Receipt r)
      then show ?thesis
        using x(1) by (cases r; cases "open_id (hv_receipt v)") (auto simp: apply_receipt_def)
    qed (use x(1) i in auto)
    moreover have "os @ [ob] = before @ x # (after @ [ob])"
      using x(2) by simp
    ultimately show ?thesis
      using x(3,4) by (cases "ob = Launch_Requested \<and> can_start_receiver v") (simp, fastforce)
  qed
  ultimately show ?thesis
    by (simp add: started_def)
qed

lemma started_steps: "started v os \<Longrightarrow> started (observe_all v os') (os @ os')"
proof (induction os' arbitrary: v os)
  case (Cons ob os')
  then show ?case
    using Cons.IH [OF started_step] by fastforce
qed simp

text \<open>
  C26: Between two starts of the receiver the first one ended (it exited or its launch failed)
  and after that the receipt was read again and still found pending.\<close>

theorem restart_needs_fresh_read:
  assumes "can_start_receiver v" and "can_start_receiver (observe_all (next_view v Launch_Requested) os)"
  shows "\<exists>before ob after. os = before @ ob # after \<and> ends_receiver ob \<and> Receipt Read_Pending \<in> set after"
proof -
  have "started (next_view v Launch_Requested) []"
    using assms(1) by (auto simp: started_def can_start_receiver_def is_pending_iff)
  then have "started (observe_all (next_view v Launch_Requested) os) os"
    using started_steps [of _ "[]"] by simp
  then show ?thesis
    using assms(2) by (auto simp: started_def can_start_receiver_def)
qed

theorem restart_needs_fresh_read_witness:
  "\<exists>before ob after. [Receiver_Running, Receiver_Exited, Receipt Read_Not_Found, Receipt Read_Pending] = before @ ob # after \<and>
     ends_receiver ob \<and> Receipt Read_Pending \<in> set after"
  by (rule restart_needs_fresh_read [where v = "th_view (queued ''a'' ''x'' ''y'')"])
    (simp_all add: queued_def new_view_def can_start_receiver_def apply_receipt_def)

section \<open>Evidence of delivery\<close>

text \<open>What happens to a tracked handoff: receipt reads, and everything else.\<close>

datatype handoff_event = Poll "app_error + handoff_receipt" | Observe observation

fun handoff_step :: "tracked_handoff \<Rightarrow> handoff_event \<Rightarrow> tracked_handoff" where
  "handoff_step h (Poll result) = observe (Receipt (observe_receipt result (th_approval_id h))) h"
| "handoff_step h (Observe ob) = (case ob of Receipt r \<Rightarrow> h | _ \<Rightarrow> observe ob h)"

definition proves_delivery :: "string \<Rightarrow> handoff_event \<Rightarrow> bool" where
  "proves_delivery i ev \<longleftrightarrow>
     (\<exists>r. ev = Poll (Inr r) \<and> hr_approval_id r = i \<and> hr_status r = ''approved'' \<and> hr_delivered_by_target r)"

lemma observe_receipt_delivered:
  "observe_receipt result i = Delivered_By_Target \<longleftrightarrow> proves_delivery i (Poll result)"
  by (auto simp: observe_receipt_def proves_delivery_def split: sum.split)

lemma delivered_step:
  assumes "is_delivered (hv_receipt (next_view v ob))"
  shows "is_delivered (hv_receipt v) \<or> ob = Receipt Delivered_By_Target"
proof (cases ob)
  case (Receipt r)
  then show ?thesis
    using assms by (cases r; cases "open_id (hv_receipt v)") (auto simp: apply_receipt_def)
qed (use assms in \<open>auto split: if_splits\<close>)

lemma handoff_step_id [simp]: "th_approval_id (handoff_step h ev) = th_approval_id h"
  by (cases ev) (auto simp: observe_def split: observation.split)

lemma handoff_delivered_step:
  assumes "is_delivered (hv_receipt (th_view (handoff_step h ev)))"
  shows "is_delivered (hv_receipt (th_view h)) \<or> proves_delivery (th_approval_id h) ev"
proof (cases ev)
  case (Poll result)
  then show ?thesis
    using assms delivered_step [of "th_view h" "Receipt (observe_receipt result (th_approval_id h))"]
      observe_receipt_delivered [of result "th_approval_id h"]
    by (auto simp: observe_def)
next
  case (Observe ob)
  then show ?thesis
    using assms delivered_step [of "th_view h" ob] by (cases ob) (auto simp: observe_def)
qed

lemma handoff_receipt_id_step:
  "receipt_id (hv_receipt (th_view h)) = Some i \<Longrightarrow>
   receipt_id (hv_receipt (th_view (handoff_step h ev))) = Some i"
  using receipt_id_kept by (cases ev) (auto simp: observe_def simp del: next_view.simps split: observation.split)

text \<open>
  C25: A queued handoff is shown as delivered, and its task moved to the receiver, only on a
  receipt of the daemon for this very approval that says approved and delivered by the
  addressed agent; unknown statuses, other ids and failed reads never count.\<close>

theorem delivery_needs_evidence:
  assumes "is_delivered (hv_receipt (th_view (foldl handoff_step (with_task t (queued i from to)) evs)))"
  shows "hv_receipt (th_view (foldl handoff_step (with_task t (queued i from to)) evs)) = Delivered i \<and>
    list_ex (proves_delivery i) evs"
proof -
  let ?h = "with_task t (queued i from to)"
  have "\<not> is_delivered (hv_receipt (th_view ?h))" and "receipt_id (hv_receipt (th_view ?h)) = Some i"
    and "th_approval_id ?h = i"
    by (simp_all add: with_task_def queued_def new_view_def)
  then have "(is_delivered (hv_receipt (th_view (foldl handoff_step ?h evs))) \<longrightarrow> list_ex (proves_delivery i) evs) \<and>
      receipt_id (hv_receipt (th_view (foldl handoff_step ?h evs))) = Some i \<and>
      th_approval_id (foldl handoff_step ?h evs) = i"
  proof (induction evs rule: rev_induct)
    case (snoc ev evs)
    then show ?case
      using handoff_delivered_step handoff_receipt_id_step by fastforce
  qed simp
  then show ?thesis
    using assms by (cases "hv_receipt (th_view (foldl handoff_step ?h evs))") auto
qed

theorem delivery_needs_evidence_witness:
  "hv_receipt (th_view (foldl handoff_step (with_task None (queued ''a'' ''x'' ''y''))
     [Poll (Inl \<lparr>ae_code = Not_Found, ae_message = ''gone''\<rparr>),
      Poll (Inr \<lparr>hr_approval_id = ''a'', hr_status = ''approved'', hr_delivered_by_target = True\<rparr>)])) = Delivered ''a'' \<and>
   list_ex (proves_delivery ''a'')
     [Poll (Inl \<lparr>ae_code = Not_Found, ae_message = ''gone''\<rparr>),
      Poll (Inr \<lparr>hr_approval_id = ''a'', hr_status = ''approved'', hr_delivered_by_target = True\<rparr>)]"
  by (rule delivery_needs_evidence)
    (simp add: with_task_def queued_def new_view_def observe_def observe_receipt_def apply_receipt_def)

end
