(* ===== verification/Control_Plane.thy ===== *)
theory Control_Plane
  imports Handoff_Props Scheduled_Jobs Policy Handoff_View
begin

text \<open>
  \<open>crates/raios-runtime/src/control_plane/service.rs\<close>, \<open>service/commands.rs\<close>, \<open>handoff.rs\<close>, \<open>agent_launch.rs\<close>,
  \<open>project_registry.rs\<close> and \<open>command_policy.rs\<close>, with the commands of \<open>raios-contracts\<close>: a command of the owner is checked
  against the policy, looked up under its idempotency key, run in one transaction together with its idempotency
  record and its audit row, and only then its events are published and its agent is started. Parameters are the
  hash, the JSON encoders (of a command, of a decision, of an audit row), the secret
  scan, the file system's \<open>canonicalize\<close> and the text of a database error, collected in the record \<open>codecs\<close>. JSON values written and read back are kept
  as values.
\<close>

section \<open>Problems\<close>

definition show_int :: "int \<Rightarrow> string" where
  "show_int n = (if n < 0 then ''-'' @ show_nat (nat (- n)) else show_nat (nat n))"

record problem =
  pr_code :: string
  pr_message :: string
  pr_retryable :: bool

definition problem_new :: "string \<Rightarrow> string \<Rightarrow> bool \<Rightarrow> problem" where
  "problem_new code msg retry = \<lparr>pr_code = code, pr_message = msg, pr_retryable = retry\<rparr>"

definition unauthorized :: "string \<Rightarrow> problem" where
  "unauthorized msg = problem_new ''UNAUTHORIZED'' msg False"

definition invalid_input :: "string \<Rightarrow> problem" where
  "invalid_input msg = problem_new ''INVALID_INPUT'' msg False"

definition not_found :: "string \<Rightarrow> problem" where
  "not_found msg = problem_new ''NOT_FOUND'' msg False"

definition conflict_problem :: "string \<Rightarrow> problem" where
  "conflict_problem msg = problem_new ''CONFLICT'' msg False"

definition internal :: "string \<Rightarrow> problem" where
  "internal msg = problem_new ''INTERNAL_ERROR'' msg True"

definition forbidden :: "string \<Rightarrow> problem" where
  "forbidden msg = problem_new ''FORBIDDEN'' msg False"

definition not_implemented :: "string \<Rightarrow> problem" where
  "not_implemented msg = problem_new ''NOT_IMPLEMENTED'' msg False"

section \<open>Commands\<close>

text \<open>The last field of every command is its idempotency key.\<close>

datatype command =
    Approve_Handoff string "int option" string
  | Reject_Handoff string "int option" string string
  | Approve_File_Change string string
  | Reject_File_Change string string string
  | Launch_Agent string string "string option" string
  | Validate_Agent_Launch string string "string option" string
  | Cancel_Agent_Run string string
  | Create_Task string "string option" "8 word" string
  | Update_Task_Status string string string
  | Assign_Task string "string option" "int option" string
  | Trigger_Cron_Job string string
  | Toggle_Cron_Job string bool string
  | Execute_Search string string string
  | Update_Policy_Rule string string string
  | Register_Project string string
  | Create_Handoff string string string string string

fun idempotency_key :: "command \<Rightarrow> string" where
  "idempotency_key (Approve_Handoff i v k) = k"
| "idempotency_key (Reject_Handoff i v why k) = k"
| "idempotency_key (Approve_File_Change i k) = k"
| "idempotency_key (Reject_File_Change i why k) = k"
| "idempotency_key (Launch_Agent a p prompt k) = k"
| "idempotency_key (Validate_Agent_Launch a p prompt k) = k"
| "idempotency_key (Cancel_Agent_Run r k) = k"
| "idempotency_key (Create_Task t p n k) = k"
| "idempotency_key (Update_Task_Status t s k) = k"
| "idempotency_key (Assign_Task t a u k) = k"
| "idempotency_key (Trigger_Cron_Job j k) = k"
| "idempotency_key (Toggle_Cron_Job j b k) = k"
| "idempotency_key (Execute_Search q m k) = k"
| "idempotency_key (Update_Policy_Rule r a k) = k"
| "idempotency_key (Register_Project p k) = k"
| "idempotency_key (Create_Handoff p f t s k) = k"

fun command_name :: "command \<Rightarrow> string" where
  "command_name (Approve_Handoff i v k) = ''approve_handoff''"
| "command_name (Reject_Handoff i v why k) = ''reject_handoff''"
| "command_name (Approve_File_Change i k) = ''approve_file_change''"
| "command_name (Reject_File_Change i why k) = ''reject_file_change''"
| "command_name (Launch_Agent a p prompt k) = ''launch_agent''"
| "command_name (Validate_Agent_Launch a p prompt k) = ''validate_agent_launch''"
| "command_name (Cancel_Agent_Run r k) = ''cancel_agent_run''"
| "command_name (Create_Task t p n k) = ''create_task''"
| "command_name (Update_Task_Status t s k) = ''update_task_status''"
| "command_name (Trigger_Cron_Job j k) = ''trigger_cron_job''"
| "command_name (Toggle_Cron_Job j b k) = ''toggle_cron_job''"
| "command_name (Execute_Search q m k) = ''execute_search''"
| "command_name (Update_Policy_Rule r a k) = ''update_policy_rule''"
| "command_name (Register_Project p k) = ''register_project''"
| "command_name (Create_Handoff p f t s k) = ''create_handoff''"
| "command_name (Assign_Task t a u k) = ''assign_task''"

fun policy_name :: "command \<Rightarrow> string" where
  "policy_name (Validate_Agent_Launch a p prompt k) = ''launch_agent''"
| "policy_name cmd = command_name cmd"

text \<open>A result, the JSON object of the code by its \<open>status\<close> and identifiers.\<close>

datatype command_result =
    Decision_Result string string
  | Queued_Result handoff_ids string
  | Job_Result string string
  | Launch_Result string string string
  | Task_Result string string
  | Assign_Result string "string option" int
  | Project_Result string string

datatype published =
    Agent_Run_State_Changed string string string
  | Approval_Requested string string string string
  | Approval_Resolved string string

record launch_request =
  lr_agent :: string
  lr_project :: string
  lr_prompt :: "string option"

record effects =
  ef_events :: "published list"
  ef_launch :: "launch_request option"

definition no_effects :: effects where
  "no_effects = \<lparr>ef_events = [], ef_launch = None\<rparr>"

section \<open>State and surroundings\<close>

record list_item =
  li_task :: string
  li_order :: int
  li_project :: "string option"

record idem_row =
  ip_key :: string
  ip_hash :: string
  ip_command :: string
  ip_result :: "command_result option"
  ip_status :: string
  ip_created_at :: int

record plane =
  pl_db :: control_db
  pl_items :: "list_item list"
  pl_jobs :: "scheduled_job list"
  pl_idem :: "idem_row list"

record actor =
  ac_subject :: string
  ac_may_mutate :: bool

definition local_session :: actor where
  "local_session = \<lparr>ac_subject = ''local_control_owner'', ac_may_mutate = True\<rparr>"

definition remote_session :: "string \<Rightarrow> actor" where
  "remote_session subject = \<lparr>ac_subject = subject, ac_may_mutate = False\<rparr>"

text \<open>
  What one dispatch finds around it: clock, fresh identifiers, the policy file, the error of creating the idempotency
  table, and whether reading it, the commit and noting a failed launch succeed.
\<close>

record plane_env =
  pe_db :: db_env
  pe_ids :: handoff_ids
  pe_task_id :: string
  pe_project_id :: int
  pe_policy :: "policy_config option"
  pe_idem_table :: "string option"
  pe_idem_readable :: bool
  pe_commit_ok :: bool
  pe_note_ok :: bool

record codecs =
  cx_hash :: "string \<Rightarrow> string"
  cx_json :: json_object
  cx_command :: "command \<Rightarrow> string"
  cx_debug :: "command \<Rightarrow> string"
  cx_envelope :: "string \<Rightarrow> string \<Rightarrow> string \<Rightarrow> string"
  cx_secret :: "string \<Rightarrow> bool"
  cx_canonical :: "string \<Rightarrow> string option"
  cx_is_dir :: "string \<Rightarrow> bool"
  cx_error :: "db_error \<Rightarrow> string"
  cx_launch :: "launch_request \<Rightarrow> problem + unit"

section \<open>Validation\<close>

text \<open>\<open>chars().count()\<close>: the bytes of a UTF-8 text that do not continue a character.\<close>

definition char_count :: "string \<Rightarrow> nat" where
  "char_count s = length (filter (\<lambda>c. \<not> is_continuation c) s)"

definition validate_task_title :: "codecs \<Rightarrow> string \<Rightarrow> problem + string" where
  "validate_task_title cx title =
     (let title = trim title
      in if title = [] \<or> 240 < char_count title
         then Err (invalid_input ''Task title must contain 1 to 240 characters'')
         else if cx_secret cx title
         then Err (invalid_input ''Task title appears to contain a secret and was not stored'')
         else Ok title)"

text \<open>A Unix path is absolute when it starts with a slash.\<close>

definition validate_project_path :: "string option \<Rightarrow> problem + string option" where
  "validate_project_path path =
     (case path of None \<Rightarrow> Ok None
      | Some p \<Rightarrow>
         (let p = trim p
          in if p = [] \<or> 4096 < char_count p
             then Err (invalid_input ''Project path must contain 1 to 4096 characters'')
             else if \<not> starts_with p ''/'' then Err (invalid_input ''Project path must be absolute'')
             else Ok (Some p)))"

definition require_project_path :: "string \<Rightarrow> problem + string" where
  "require_project_path p = and_then (validate_project_path (Some p))
     (\<lambda>q. case q of None \<Rightarrow> Err (invalid_input ''Project path is required'') | Some q \<Rightarrow> Ok q)"

definition validate_agent_name :: "string \<Rightarrow> problem + string" where
  "validate_agent_name name =
     (let n = to_lowercase (trim name)
      in if n = ''claude'' then Ok ''claude''
         else if n = ''codex'' then Ok ''codex''
         else if n = ''opencode'' then Ok ''opencode''
         else if n = ''antigravity'' \<or> n = ''agy'' then Ok ''antigravity''
         else Err (invalid_input ''Agent must be one of: claude, codex, opencode, antigravity''))"

definition validate_agent_prompt :: "codecs \<Rightarrow> string option \<Rightarrow> problem + string option" where
  "validate_agent_prompt cx prompt =
     (case prompt of None \<Rightarrow> Ok None
      | Some p \<Rightarrow>
         (let p = trim p
          in if p = [] then Ok None
             else if starts_with p ''-'' \<or> 600 < char_count p
             then Err (invalid_input (''Agent prompt must contain 1 to 600 characters and cannot begin with '' @ quoted ''- ''))
             else if cx_secret cx p
             then Err (invalid_input ''Agent prompt appears to contain a secret and was not sent'')
             else Ok (Some p)))"

definition handoff_identities :: "string list" where
  "handoff_identities = [''claude_kaira'', ''codex_kaira'', ''opencode_kaira'', ''antigravity_kaira'']"

definition validate_identity :: "string \<Rightarrow> string \<Rightarrow> problem + string" where
  "validate_identity raw role =
     (if trim raw \<in> set handoff_identities then Ok (trim raw)
      else Err (invalid_input (''Handoff '' @ role @ '' must be one of: '' @
        ''claude_kaira, codex_kaira, opencode_kaira, antigravity_kaira'')))"

definition validate_summary :: "codecs \<Rightarrow> string \<Rightarrow> problem + string" where
  "validate_summary cx raw =
     (let summary = trim raw
      in if summary = [] \<or> 16000 < length summary
         then Err (invalid_input ''Handoff summary must contain 1 to 16000 bytes'')
         else if cx_secret cx summary
         then Err (invalid_input ''Handoff summary appears to contain a secret and was not stored'')
         else Ok summary)"

section \<open>Handoff commands\<close>

type_synonym outcome = "problem + (command_result \<times> effects \<times> plane)"

definition require_expected_revision :: "plane \<Rightarrow> string \<Rightarrow> int option \<Rightarrow> problem + unit" where
  "require_expected_revision pl i expected =
     (case expected of None \<Rightarrow> Ok ()
      | Some v \<Rightarrow>
         (case cp_approval_revision (pl_db pl) i of
            Some current \<Rightarrow>
              if current \<noteq> v
              then Err (conflict_problem (''Approval '' @ quoted i @ '' changed since it was read (revision '' @ show_int v @
                '' is stale, current is '' @ show_int current @ '')''))
              else Ok ()
          | None \<Rightarrow> Err (not_found ''Pending handoff approval not found'')))"

definition handoff_run_id :: "control_db \<Rightarrow> string \<Rightarrow> string option" where
  "handoff_run_id db i = Option.bind (find_approval db i) ap_run"

definition run_event :: "control_db \<Rightarrow> string option \<Rightarrow> published list" where
  "run_event db run =
     (case Option.bind run (run_by_id db) of None \<Rightarrow> []
      | Some r \<Rightarrow> [Agent_Run_State_Changed (rn_id r) (rn_agent r) (rn_status r)])"

definition handoff_resolution_events :: "control_db \<Rightarrow> string \<Rightarrow> string option \<Rightarrow> string \<Rightarrow> published list" where
  "handoff_resolution_events db i run resolution = Approval_Resolved i resolution # run_event db run"

definition handoff_created_events :: "control_db \<Rightarrow> handoff_ids \<Rightarrow> string \<Rightarrow> published list" where
  "handoff_created_events db ids target =
     Approval_Requested (hd_approval ids) ''handover''
       (case task_by_id db (hd_task ids) of Some t \<Rightarrow> tk_title t | None \<Rightarrow> ''Handoff to '' @ target) target #
     run_event db (Some (hd_run ids))"

definition approve_handoff :: "codecs \<Rightarrow> plane_env \<Rightarrow> plane \<Rightarrow> actor \<Rightarrow> string \<Rightarrow> int option \<Rightarrow> outcome" where
  "approve_handoff cx env pl who i expected =
     and_then (require_expected_revision pl i expected) (\<lambda>u.
       let run = handoff_run_id (pl_db pl) i
       in case cp_approve_handoff_by_owner (cx_hash cx) (cx_json cx) (pe_db env) (pl_db pl) i (ac_subject who) (ac_subject who) of
            Inl e \<Rightarrow> Err (internal (cx_error cx e))
          | Inr (b, db) \<Rightarrow>
              if \<not> b then Err (not_found ''Pending handoff approval not found'')
              else Ok (Decision_Result i ''approved'',
                \<lparr>ef_events = handoff_resolution_events db i run ''approved'', ef_launch = None\<rparr>, pl\<lparr>pl_db := db\<rparr>))"

definition reject_handoff :: "plane_env \<Rightarrow> plane \<Rightarrow> actor \<Rightarrow> string \<Rightarrow> int option \<Rightarrow> string \<Rightarrow> outcome" where
  "reject_handoff env pl who i expected reason =
     and_then (require_expected_revision pl i expected) (\<lambda>u.
       if trim reason = [] \<or> 2000 < length reason
       then Err (invalid_input ''Rejection reason must contain at most 2000 characters'')
       else let run = handoff_run_id (pl_db pl) i;
                (b, db) = cp_resolve_handoff (pe_db env) (pl_db pl) i (ac_subject who) (ac_subject who) (Some reason)
         in if \<not> b then Err (not_found ''Pending handoff approval not found'')
            else Ok (Decision_Result i ''rejected'',
              \<lparr>ef_events = handoff_resolution_events db i run ''rejected'', ef_launch = None\<rparr>, pl\<lparr>pl_db := db\<rparr>))"

definition create_handoff :: "codecs \<Rightarrow> plane_env \<Rightarrow> plane \<Rightarrow> string \<Rightarrow> string \<Rightarrow> string \<Rightarrow> string \<Rightarrow> outcome" where
  "create_handoff cx env pl path from_agent to_agent summary =
     and_then (require_project_path path) (\<lambda>p.
     and_then (validate_identity from_agent ''source'') (\<lambda>f.
     and_then (validate_identity to_agent ''recipient'') (\<lambda>t.
       if f = t then Err (invalid_input ''Handoff source and recipient must be different agents'')
       else and_then (validate_summary cx summary) (\<lambda>msg.
         case create_handoff_workflow_in_tx (cx_hash cx) (cx_json cx) (pe_db env) (pl_db pl) (pe_ids env)
             \<lparr>hi_path = p, hi_from = f, hi_to = t, hi_status = ''BLOCKER'', hi_msg = msg, hi_diff_stat = None, hi_report = None\<rparr> of
           Inl e \<Rightarrow> Err (internal (cx_error cx e))
         | Inr (ids, db) \<Rightarrow> Ok (Queued_Result ids p,
             \<lparr>ef_events = handoff_created_events db ids to_agent, ef_launch = None\<rparr>, pl\<lparr>pl_db := db\<rparr>)))))"

definition query_handoff_receipt :: "plane \<Rightarrow> string \<Rightarrow> string \<Rightarrow> problem + handoff_receipt" where
  "query_handoff_receipt pl i path =
     and_then (require_project_path path) (\<lambda>p.
       let i = trim i
       in if i = [] \<or> 64 < char_count i then Err (invalid_input ''Approval id must contain 1 to 64 characters'')
          else case cp_handoff_receipt (pl_db pl) i p of
            None \<Rightarrow> Err (not_found ''Handoff receipt not found for this project'')
          | Some r \<Rightarrow> Ok \<lparr>hr_approval_id = hrc_approval r, hr_status = hrc_status r,
              hr_delivered_by_target = delivered_by_target r\<rparr>)"

text \<open>The answer as the workspace's client reports it.\<close>

definition problem_error :: "problem \<Rightarrow> app_error" where
  "problem_error e = app_error (from_problem_code (pr_code e)) (pr_message e)"

definition client_handoff_receipt :: "plane \<Rightarrow> string \<Rightarrow> string \<Rightarrow> app_error + handoff_receipt" where
  "client_handoff_receipt pl i path =
     (case query_handoff_receipt pl i path of Inl e \<Rightarrow> Err (problem_error e) | Inr r \<Rightarrow> Ok r)"

section \<open>Jobs and launches\<close>

definition require_scheduled_job :: "plane \<Rightarrow> string \<Rightarrow> problem + unit" where
  "require_scheduled_job pl j =
     (if list_ex (\<lambda>r. sj_id r = j \<and> sj_status r \<noteq> Job_Deleted) (pl_jobs pl) then Ok ()
      else Err (not_found ''Scheduled job not found''))"

definition trigger_cron_job :: "plane_env \<Rightarrow> plane \<Rightarrow> string \<Rightarrow> outcome" where
  "trigger_cron_job env pl j =
     and_then (require_scheduled_job pl j) (\<lambda>u.
       Ok (Job_Result j ''scheduled_now'', no_effects,
         pl\<lparr>pl_jobs := cp_scheduled_job_trigger_now (pl_jobs pl) j (en_now (pe_db env))\<rparr>))"

definition toggle_cron_job :: "plane \<Rightarrow> string \<Rightarrow> bool \<Rightarrow> outcome" where
  "toggle_cron_job pl j paused =
     and_then (require_scheduled_job pl j) (\<lambda>u.
       let status = (if paused then ''paused'' else ''active'')
       in case cp_scheduled_job_set_status (pl_jobs pl) j status of
            (Inl e, rows) \<Rightarrow> Err (internal e)
          | (Inr v, rows) \<Rightarrow> Ok (Job_Result j status, no_effects, pl\<lparr>pl_jobs := rows\<rparr>))"

definition validate_launch :: "codecs \<Rightarrow> plane \<Rightarrow> string \<Rightarrow> string \<Rightarrow> string option \<Rightarrow> problem + launch_request" where
  "validate_launch cx pl agent path prompt =
     and_then (validate_agent_name agent) (\<lambda>a.
     and_then (require_project_path path) (\<lambda>p.
       if \<not> list_ex (\<lambda>r. pj_path r = p) (cd_projects (pl_db pl))
       then Err (not_found ''Agent launch requires a registered project path'')
       else and_then (validate_agent_prompt cx prompt) (\<lambda>t.
         Ok \<lparr>lr_agent = a, lr_project = p, lr_prompt = t\<rparr>)))"

definition launch_result :: "launch_request \<Rightarrow> string \<Rightarrow> command_result" where
  "launch_result req status = Launch_Result (lr_agent req) (lr_project req) status"

definition launch_agent :: "codecs \<Rightarrow> plane \<Rightarrow> string \<Rightarrow> string \<Rightarrow> string option \<Rightarrow> outcome" where
  "launch_agent cx pl agent path prompt =
     and_then (validate_launch cx pl agent path prompt) (\<lambda>req.
       Ok (launch_result req ''launching'', \<lparr>ef_events = [], ef_launch = Some req\<rparr>, pl))"

definition validate_agent_launch :: "codecs \<Rightarrow> plane \<Rightarrow> string \<Rightarrow> string \<Rightarrow> string option \<Rightarrow> outcome" where
  "validate_agent_launch cx pl agent path prompt =
     and_then (validate_launch cx pl agent path prompt) (\<lambda>req.
       Ok (launch_result req ''validated'', no_effects, pl))"

section \<open>Operator tasks and projects\<close>

text \<open>The tasks an operator may change: on the list, in no plan, under no approval, run by no agent.\<close>

definition operator_task :: "plane \<Rightarrow> task_row \<Rightarrow> bool" where
  "operator_task pl t \<longleftrightarrow>
     tk_plan t = None \<and> tk_parent t = None \<and>
     list_ex (\<lambda>li. li_task li = tk_id t) (pl_items pl) \<and>
     \<not> list_ex (\<lambda>ap. ap_task ap = Some (tk_id t)) (cd_approvals (pl_db pl)) \<and>
     \<not> list_ex (\<lambda>r. rn_task r = tk_id t) (cd_runs (pl_db pl))"

definition operator_task_statuses :: "string list" where
  "operator_task_statuses = [''queued'', ''in_progress'', ''blocked'', ''completed'', ''cancelled'']"

definition task_assignees :: "string list" where
  "task_assignees = [''claude'', ''codex'', ''opencode'', ''agy'']"

definition create_task :: "codecs \<Rightarrow> plane_env \<Rightarrow> plane \<Rightarrow> string \<Rightarrow> string option \<Rightarrow> 8 word \<Rightarrow> outcome" where
  "create_task cx env pl title path priority =
     and_then (validate_task_title cx title) (\<lambda>title.
     and_then (validate_project_path path) (\<lambda>path.
       let db = pl_db pl; now = en_now (pe_db env); i = pe_task_id env;
           pid = Option.bind path (\<lambda>p. map_option pj_id (List.find (\<lambda>r. pj_path r = p) (cd_projects db)));
           order = (if pl_items pl = [] then 0 else Max (set (map li_order (pl_items pl))) + 1)
       in if task_by_id db i \<noteq> None \<or> list_ex (\<lambda>li. li_task li = i) (pl_items pl)
          then Err (internal (cx_error cx Db_Constraint))
          else Ok (Task_Result i ''queued'', no_effects, pl\<lparr>
            pl_db := db\<lparr>cd_tasks := cd_tasks db @ [\<lparr>tk_id = i, tk_project = pid, tk_plan = None, tk_parent = None,
              tk_title = title, tk_description = [], tk_priority = uint priority, tk_status = ''queued'',
              tk_assignee_kind = None, tk_assignee = None, tk_acceptance = [], tk_created_at = now, tk_updated_at = now\<rparr>]\<rparr>,
            pl_items := pl_items pl @ [\<lparr>li_task = i, li_order = order, li_project = path\<rparr>]\<rparr>)))"

definition update_task_status :: "plane_env \<Rightarrow> plane \<Rightarrow> string \<Rightarrow> string \<Rightarrow> outcome" where
  "update_task_status env pl i status =
     (let status = trim status; hit = (\<lambda>t. tk_id t = i \<and> operator_task pl t)
      in if trim i = [] \<or> status \<notin> set operator_task_statuses
         then Err (invalid_input ''Task id and an allowed operator task status are required'')
         else if count_where hit (cd_tasks (pl_db pl)) \<noteq> 1
         then Err (not_found ''Operator-managed personal task was not found or cannot be updated'')
         else Ok (Task_Result i status, no_effects, pl\<lparr>pl_db := (pl_db pl)\<lparr>cd_tasks :=
           update_where hit (\<lambda>t. t\<lparr>tk_status := status, tk_updated_at := en_now (pe_db env)\<rparr>) (cd_tasks (pl_db pl))\<rparr>\<rparr>))"

definition assign_task :: "plane_env \<Rightarrow> plane \<Rightarrow> string \<Rightarrow> string option \<Rightarrow> int option \<Rightarrow> outcome" where
  "assign_task env pl i assignee expected =
     (let assignee = map_option trim assignee;
          allowed = (case assignee of None \<Rightarrow> True | Some a \<Rightarrow> a \<in> set task_assignees)
      in if trim i = [] \<or> \<not> allowed
         then Err (invalid_input ''A task id and, when given, one of the known agents are required'')
         else case List.find (\<lambda>t. tk_id t = i \<and> operator_task pl t) (cd_tasks (pl_db pl)) of
           None \<Rightarrow> Err (not_found ''Operator-managed personal task was not found or cannot be updated'')
         | Some t \<Rightarrow>
             let current = tk_updated_at t; now = en_now (pe_db env);
                 hit = (\<lambda>t. tk_id t = i \<and> tk_updated_at t = current \<and> operator_task pl t)
             in if expected \<noteq> None \<and> expected \<noteq> Some current
                then Err (conflict_problem ''The task changed since it was read; reload it and try again'')
                else if count_where hit (cd_tasks (pl_db pl)) \<noteq> 1
                then Err (conflict_problem ''The task changed while it was being assigned; try again'')
                else Ok (Assign_Result i assignee now, no_effects, pl\<lparr>pl_db := (pl_db pl)\<lparr>cd_tasks :=
                  update_where hit (\<lambda>t. t\<lparr>tk_assignee_kind := map_option (\<lambda>_. ''agent'') assignee,
                    tk_assignee := assignee, tk_updated_at := now\<rparr>) (cd_tasks (pl_db pl))\<rparr>\<rparr>))"

definition directory_name :: "string \<Rightarrow> string option" where
  "directory_name p = (let parts = filter (\<lambda>x. x \<noteq> []) (split_on (CHR ''/'') p) in
     if parts = [] then None else Some (last parts))"

definition register_project :: "codecs \<Rightarrow> plane_env \<Rightarrow> plane \<Rightarrow> string \<Rightarrow> outcome" where
  "register_project cx env pl path =
     and_then (require_project_path path) (\<lambda>requested.
       case cx_canonical cx requested of
         None \<Rightarrow> Err (not_found ''Project directory does not exist'')
       | Some canonical \<Rightarrow>
           if \<not> cx_is_dir cx canonical then Err (invalid_input ''Project path must be a directory'')
           else case directory_name canonical of
             None \<Rightarrow> Err (invalid_input ''Project path must not be the filesystem root'')
           | Some name \<Rightarrow>
               let db = pl_db pl
               in if list_ex (\<lambda>r. pj_path r = canonical) (cd_projects db)
                  then Ok (Project_Result ''already_registered'' canonical, no_effects, pl)
                  else Ok (Project_Result ''registered'' canonical, no_effects, pl\<lparr>pl_db := db\<lparr>cd_projects :=
                    cd_projects db @ [\<lparr>pj_id = pe_project_id env, pj_name = name, pj_path = canonical\<rparr>]\<rparr>\<rparr>))"

section \<open>The dispatcher\<close>

fun run_command :: "codecs \<Rightarrow> plane_env \<Rightarrow> plane \<Rightarrow> actor \<Rightarrow> command \<Rightarrow> outcome" where
  "run_command cx env pl who (Approve_Handoff i v k) = approve_handoff cx env pl who i v"
| "run_command cx env pl who (Reject_Handoff i v why k) = reject_handoff env pl who i v why"
| "run_command cx env pl who (Trigger_Cron_Job j k) = trigger_cron_job env pl j"
| "run_command cx env pl who (Toggle_Cron_Job j paused k) = toggle_cron_job pl j paused"
| "run_command cx env pl who (Launch_Agent a p prompt k) = launch_agent cx pl a p prompt"
| "run_command cx env pl who (Validate_Agent_Launch a p prompt k) = validate_agent_launch cx pl a p prompt"
| "run_command cx env pl who (Create_Task title p n k) = create_task cx env pl title p n"
| "run_command cx env pl who (Update_Task_Status i status k) = update_task_status env pl i status"
| "run_command cx env pl who (Assign_Task i a u k) = assign_task env pl i a u"
| "run_command cx env pl who (Register_Project p k) = register_project cx env pl p"
| "run_command cx env pl who (Create_Handoff p f t summary k) = create_handoff cx env pl p f t summary"
| "run_command cx env pl who cmd = Err (not_implemented (''Command '' @ quoted (cx_debug cx cmd) @ '' is not implemented''))"

definition control_decision_row :: "codecs \<Rightarrow> plane_env \<Rightarrow> control_db \<Rightarrow> actor \<Rightarrow> string \<Rightarrow> string \<Rightarrow> string \<Rightarrow> problem + control_db" where
  "control_decision_row cx env db who name args ev =
     (if en_audit_ok (pe_db env)
      then Ok (db\<lparr>cd_audit := record_tool_decision (cx_hash cx) (cx_envelope cx) (cd_audit db) True (en_stamp (pe_db env))
        name args ''control_plane'' ev (ac_subject who)\<rparr>)
      else Err (internal (''Audit write failed: '' @ cx_error cx Db_Audit)))"

text \<open>The audit event of an allowed command; a denial is recorded when that is possible, and refused.\<close>

definition policy_audit_event ::
  "codecs \<Rightarrow> plane_env \<Rightarrow> plane \<Rightarrow> actor \<Rightarrow> command \<Rightarrow> (problem + string) \<times> plane" where
  "policy_audit_event cx env pl who cmd =
     (case map_option (\<lambda>p. tool_action p (policy_name cmd)) (pe_policy env) of
        Some Deny_Action \<Rightarrow>
          (Err (forbidden (''Security policy denies control command '' @ quoted (command_name cmd))),
           case control_decision_row cx env (pl_db pl) who (command_name cmd) (cx_hash cx (command_name cmd)) ''tool_deny'' of
             Inl e \<Rightarrow> pl | Inr db \<Rightarrow> pl\<lparr>pl_db := db\<rparr>)
      | Some Allow \<Rightarrow> (Ok ''tool_allow'', pl)
      | Some Confirm \<Rightarrow> (Ok ''tool_confirm'', pl)
      | None \<Rightarrow> (Ok ''tool_confirm'', pl))"

definition payload_hash :: "codecs \<Rightarrow> command \<Rightarrow> string" where
  "payload_hash cx cmd = cx_hash cx (cx_command cx cmd)"

definition find_idem :: "plane \<Rightarrow> string \<Rightarrow> idem_row option" where
  "find_idem pl k = List.find (\<lambda>r. ip_key r = k) (pl_idem pl)"

text \<open>A failing read counts as not run before.\<close>

definition replayed_result :: "plane_env \<Rightarrow> plane \<Rightarrow> string \<Rightarrow> string \<Rightarrow> problem + command_result option option" where
  "replayed_result env pl k h =
     (case (if pe_idem_readable env then find_idem pl k else None) of
        None \<Rightarrow> Ok None
      | Some r \<Rightarrow>
          if ip_hash r \<noteq> [] \<and> ip_hash r \<noteq> h
          then Err (invalid_input (''Idempotency collision: key '' @ quoted k @ '' used with different command payload''))
          else Ok (Some (ip_result r)))"

definition record_outcome ::
  "codecs \<Rightarrow> plane_env \<Rightarrow> plane \<Rightarrow> actor \<Rightarrow> command \<Rightarrow> string \<Rightarrow> command_result \<Rightarrow> problem + plane" where
  "record_outcome cx env pl who cmd ev result =
     (let k = idempotency_key cmd; h = payload_hash cx cmd
      in if find_idem pl k \<noteq> None then Err (internal (''Idempotency record failed: '' @ cx_error cx Db_Constraint))
         else and_then (control_decision_row cx env (pl_db pl) who (command_name cmd) h ev) (\<lambda>db.
           Ok (pl\<lparr>pl_db := db, pl_idem := pl_idem pl @ [\<lparr>ip_key = k, ip_hash = h, ip_command = command_name cmd,
             ip_result = Some result, ip_status = ''COMPLETED'', ip_created_at = en_now (pe_db env)\<rparr>]\<rparr>)))"

text \<open>After the commit: the events are out, and the agent is started; a failed start is noted under the key.\<close>

definition finish :: "codecs \<Rightarrow> plane_env \<Rightarrow> plane \<Rightarrow> string \<Rightarrow> effects \<Rightarrow> (problem + unit) \<times> plane" where
  "finish cx env pl k ef =
     (case ef_launch ef of None \<Rightarrow> (Ok (), pl)
      | Some req \<Rightarrow>
          (case cx_launch cx req of Inr u \<Rightarrow> (Ok (), pl)
           | Inl e \<Rightarrow> (Err e, if \<not> pe_note_ok env then pl else pl\<lparr>pl_idem := update_where (\<lambda>r. ip_key r = k)
               (\<lambda>r. r\<lparr>ip_result := Some (launch_result req ''failed_to_launch''), ip_status := ''FAILED''\<rparr>) (pl_idem pl)\<rparr>)))"

record dispatched =
  dp_answer :: "problem + command_result option"
  dp_effects :: effects
  dp_plane :: plane

definition refused :: "problem \<Rightarrow> plane \<Rightarrow> dispatched" where
  "refused e pl = \<lparr>dp_answer = Err e, dp_effects = no_effects, dp_plane = pl\<rparr>"

definition execute_command ::
  "codecs \<Rightarrow> plane_env \<Rightarrow> plane \<Rightarrow> actor \<Rightarrow> command \<Rightarrow> string \<Rightarrow> problem + (command_result \<times> effects \<times> plane)" where
  "execute_command cx env pl who cmd ev =
     and_then (run_command cx env pl who cmd) (\<lambda>(result, ef, pl1).
     and_then (record_outcome cx env pl1 who cmd ev result) (\<lambda>pl2.
       if pe_commit_ok env then Ok (result, ef, pl2)
       else Err (internal (''Commit failed: '' @ cx_error cx Db_Commit))))"

definition dispatch_control_command ::
  "codecs \<Rightarrow> plane_env \<Rightarrow> plane \<Rightarrow> actor \<Rightarrow> command \<Rightarrow> dispatched" where
  "dispatch_control_command cx env pl who cmd =
     (if \<not> ac_may_mutate who
      then refused (unauthorized ''This authenticated principal is not authorized to mutate the control plane'') pl
      else if pe_idem_table env \<noteq> None then refused (internal (the (pe_idem_table env))) pl
      else case policy_audit_event cx env pl who cmd of
        (Inl e, pl0) \<Rightarrow> refused e pl0
      | (Inr ev, pl0) \<Rightarrow>
          (case replayed_result env pl0 (idempotency_key cmd) (payload_hash cx cmd) of
             Inl e \<Rightarrow> refused e pl0
           | Inr (Some result) \<Rightarrow> \<lparr>dp_answer = Ok result, dp_effects = no_effects, dp_plane = pl0\<rparr>
           | Inr None \<Rightarrow>
               (case execute_command cx env pl0 who cmd ev of
                  Inl e \<Rightarrow> refused e pl0
                | Inr (result, ef, pl2) \<Rightarrow>
                    (case finish cx env pl2 (idempotency_key cmd) ef of
                       (Inl e, pl3) \<Rightarrow> \<lparr>dp_answer = Err e, dp_effects = ef, dp_plane = pl3\<rparr>
                     | (Inr u, pl3) \<Rightarrow> \<lparr>dp_answer = Ok (Some result), dp_effects = ef, dp_plane = pl3\<rparr>))))"

definition clean_expired_idempotency :: "plane \<Rightarrow> int \<Rightarrow> int \<Rightarrow> nat \<times> plane" where
  "clean_expired_idempotency pl now max_age_hours =
     (let old = (\<lambda>r. ip_created_at r < now - max_age_hours * 3600)
      in (count_where old (pl_idem pl), pl\<lparr>pl_idem := delete_where old (pl_idem pl)\<rparr>))"

section \<open>The policy lookup\<close>

definition is_valid_command_name :: "string \<Rightarrow> bool" where
  "is_valid_command_name name \<longleftrightarrow>
     name \<noteq> [] \<and> char_count name \<le> 64 \<and>
     list_all (\<lambda>c. is_ascii_lowercase c \<or> c = CHR ''_'') name"

definition command_policy :: "string \<Rightarrow> policy_action option \<Rightarrow> problem + (string \<times> string)" where
  "command_policy name configured =
     (if \<not> is_valid_command_name name
      then Err (invalid_input ''Command name must be 1 to 64 lowercase letters or underscores'')
      else Ok (name, case configured of None \<Rightarrow> ''confirm'' | Some a \<Rightarrow> action_as_str a))"

section \<open>What the handlers do\<close>

lemmas handler_defs = approve_handoff_def reject_handoff_def create_handoff_def trigger_cron_job_def toggle_cron_job_def
  launch_agent_def validate_agent_launch_def create_task_def update_task_status_def assign_task_def register_project_def

lemma register_project_cases:
  assumes "register_project cx env pl path = Ok (result, ef, pl')"
  obtains "pl' = pl" | ps where "pl' = pl\<lparr>pl_db := (pl_db pl)\<lparr>cd_projects := ps\<rparr>\<rparr>"
proof -
  obtain q where "(case cx_canonical cx q of
         None \<Rightarrow> Err (not_found ''Project directory does not exist'')
       | Some canonical \<Rightarrow>
           if \<not> cx_is_dir cx canonical then Err (invalid_input ''Project path must be a directory'')
           else case directory_name canonical of
             None \<Rightarrow> Err (invalid_input ''Project path must not be the filesystem root'')
           | Some name \<Rightarrow>
               let db = pl_db pl
               in if list_ex (\<lambda>r. pj_path r = canonical) (cd_projects db)
                  then Ok (Project_Result ''already_registered'' canonical, no_effects, pl)
                  else Ok (Project_Result ''registered'' canonical, no_effects, pl\<lparr>pl_db := db\<lparr>cd_projects :=
                    cd_projects db @ [\<lparr>pj_id = pe_project_id env, pj_name = name, pj_path = canonical\<rparr>]\<rparr>\<rparr>)) = Ok (result, ef, pl')"
    using assms unfolding register_project_def and_then_Inr_iff by blast
  then show thesis
    using that by (cases "cx_canonical cx q"; cases "directory_name (the (cx_canonical cx q))")
      (auto simp: Let_def split: if_split_asm)
qed

lemma known_identity: "validate_identity raw role = Ok t \<Longrightarrow> is_agent (Some t)"
  by (auto simp: validate_identity_def handoff_identities_def is_agent_def split: if_splits)

lemma create_handoff_cases:
  assumes "create_handoff cx env pl p f t summary = Ok (result, ef, pl')"
  obtains ids db inp where
    "create_handoff_workflow_in_tx (cx_hash cx) (cx_json cx) (pe_db env) (pl_db pl) (pe_ids env) inp = Ok (ids, db)"
    "hi_status inp = ''BLOCKER''" "is_agent (Some (hi_to inp))" "pl' = pl\<lparr>pl_db := db\<rparr>"
proof -
  obtain q g u msg where t: "validate_identity t ''recipient'' = Ok u"
    and created: "(case create_handoff_workflow_in_tx (cx_hash cx) (cx_json cx) (pe_db env) (pl_db pl) (pe_ids env)
             \<lparr>hi_path = q, hi_from = g, hi_to = u, hi_status = ''BLOCKER'', hi_msg = msg, hi_diff_stat = None, hi_report = None\<rparr> of
           Inl e \<Rightarrow> Err (internal (cx_error cx e))
         | Inr (ids, db) \<Rightarrow> Ok (Queued_Result ids q,
             \<lparr>ef_events = handoff_created_events db ids t, ef_launch = None\<rparr>, pl\<lparr>pl_db := db\<rparr>)) = Ok (result, ef, pl')"
    using assms unfolding create_handoff_def by (auto simp: and_then_Inr_iff split: if_split_asm)
  then show thesis
    using that known_identity [OF t] by (auto split: sum.split_asm prod.split_asm)
qed

lemma run_command_idem:
  assumes "run_command cx env pl who cmd = Ok (result, ef, pl')"
  shows "pl_idem pl' = pl_idem pl"
proof (cases "\<exists>p f t s k. cmd = Register_Project p k \<or> cmd = Create_Handoff p f t s k")
  case True
  then consider p where "register_project cx env pl p = Ok (result, ef, pl')"
    | p f t s where "create_handoff cx env pl p f t s = Ok (result, ef, pl')"
    using assms by auto
  then show ?thesis
    by cases (erule register_project_cases, simp, simp, erule create_handoff_cases, simp)
next
  case False
  then show ?thesis
    using assms by (cases cmd) (auto simp: handler_defs Let_def and_then_Inr_iff
      split: if_split_asm option.split_asm sum.split_asm prod.split_asm)
qed

text \<open>What a command may do to the handoffs: a step of each one's lifecycle, and never a delivery.\<close>

definition undelivering :: "control_db \<Rightarrow> control_db \<Rightarrow> bool" where
  "undelivering db db' \<longleftrightarrow> store_inv db' \<and> quiet db db' \<and>
     (\<forall>i. (handoff_stage db' i = handoff_stage db i \<or> lifecycle_next (handoff_stage db i) (handoff_stage db' i)) \<and>
       (handoff_stage db' i = Some Hs_Delivered) = (handoff_stage db i = Some Hs_Delivered) \<and>
       (handoff_stage db i = Some Hs_Delivered \<longrightarrow> handoff_assignee db' i = handoff_assignee db i))"

lemma steady_undelivering: "steady db db' \<Longrightarrow> quiet db db' \<Longrightarrow> undelivering db db'"
  by (simp add: undelivering_def steady_def)

lemma advance_undelivering:
  "advance db db' i Hs_Waiting s \<Longrightarrow> s \<in> {Hs_Consented, Hs_Closed, Hs_Rejected} \<Longrightarrow> quiet db db' \<Longrightarrow> undelivering db db'"
  unfolding undelivering_def
proof (intro conjI allI)
  fix k
  assume adv: "advance db db' i Hs_Waiting s" and s: "s \<in> {Hs_Consented, Hs_Closed, Hs_Rejected}"
  show "handoff_stage db' k = handoff_stage db k \<or> lifecycle_next (handoff_stage db k) (handoff_stage db' k)"
    using advance_next [OF adv, of k] s by (auto intro: lifecycle_next.intros)
  show "(handoff_stage db' k = Some Hs_Delivered) = (handoff_stage db k = Some Hs_Delivered)"
    using adv s by (cases "k = i") (auto simp: advance_def)
qed (auto simp: advance_def)

lemma create_undelivering: "create_effect db db' i \<Longrightarrow> quiet db db' \<Longrightarrow> undelivering db db'"
  using create_next create_delivered by (simp add: undelivering_def)

lemma undelivering_refl: "store_inv db \<Longrightarrow> undelivering db db"
  by (intro steady_undelivering steady_refl quiet_same) simp_all

text \<open>A row whose task no approval names is no part of a handoff.\<close>

lemma handoff_task_named:
  assumes "handoff_rows db i = Some (ap, t, r, a)"
  shows "ap \<in> set (cd_approvals db)" "ap_task ap = Some (tk_id t)" "task_by_id db (tk_id t) = Some t"
  using linkedD(3,5,6) [OF assms [unfolded handoff_rows_Some, THEN conjunct1]] by simp_all

lemma operator_update_steady:
  assumes inv: "store_inv (pl_db pl)" and keep: "\<And>t. tk_id (f t) = tk_id t" and hit: "\<And>t. hit t \<Longrightarrow> operator_task pl t"
  shows "undelivering (pl_db pl) ((pl_db pl)\<lparr>cd_tasks := update_where hit f (cd_tasks (pl_db pl))\<rparr>)"
proof (rule steady_undelivering)
  let ?db = "pl_db pl"
  let ?db' = "?db\<lparr>cd_tasks := update_where hit f (cd_tasks ?db)\<rparr>"
  show "steady ?db ?db'"
  proof (rule tasks_steady [OF inv])
    show "tables_keyed ?db'"
      using inv by (simp add: store_inv_def tables_keyed_def tasks.keys_update [OF keep])
    fix i ap t r a
    assume q: "handoff_rows ?db i = Some (ap, t, r, a)"
    note named = handoff_task_named [OF q]
    have "\<not> operator_task pl t"
      using named(1,2) by (auto simp: operator_task_def list_ex_iff)
    then have "\<not> hit t"
      using hit by blast
    then show "task_by_id ?db' (tk_id t) = Some t"
      using named(3) by (simp add: task_by_id_def find_update_where keep)
  qed simp_all
  show "quiet ?db ?db'"
    by (simp add: quiet_same)
qed

lemma new_task_steady:
  assumes inv: "store_inv db" and fresh: "task_by_id db (tk_id t) = None"
  shows "undelivering db (db\<lparr>cd_tasks := cd_tasks db @ [t]\<rparr>)"
proof (rule steady_undelivering)
  show "steady db (db\<lparr>cd_tasks := cd_tasks db @ [t]\<rparr>)"
  proof (rule tasks_steady [OF inv])
    have "tk_id t \<notin> tk_id ` set (cd_tasks db)"
      using fresh by (auto simp: task_by_id_def find_None_iff)
    then show "tables_keyed (db\<lparr>cd_tasks := cd_tasks db @ [t]\<rparr>)"
      using inv by (simp add: store_inv_def tables_keyed_def)
    fix i ap u r a
    assume "handoff_rows db i = Some (ap, u, r, a)"
    then show "task_by_id (db\<lparr>cd_tasks := cd_tasks db @ [t]\<rparr>) (tk_id u) = Some u"
      using handoff_task_named(3) by (simp add: task_by_id_def find_append)
  qed simp_all
qed (simp add: quiet_same)

lemma create_handoff_undelivering:
  assumes inv: "store_inv (pl_db pl)" and res: "create_handoff cx env pl p f t summary = Ok (result, ef, pl')"
  shows "undelivering (pl_db pl) (pl_db pl')"
proof -
  obtain ids db inp where created: "create_handoff_workflow_in_tx (cx_hash cx) (cx_json cx) (pe_db env) (pl_db pl) (pe_ids env) inp = Ok (ids, db)"
    and inp: "hi_status inp = ''BLOCKER''" "is_agent (Some (hi_to inp))" and db: "pl' = pl\<lparr>pl_db := db\<rparr>"
    by (rule create_handoff_cases [OF res])
  have "to_lowercase (hi_status inp) \<noteq> ''success''"
    unfolding inp(1) by code_simp
  then have ins: "insert_handoff (pe_db env) (supersede (pe_db env) (pl_db pl) (scope_ids (pl_db pl) (hi_to inp) (hd_project ids)
      (hi_path inp))) ids inp = Ok db"
    using created unfolding create_handoff_workflow_in_tx_def Let_def by (auto simp: and_then_Inr_iff)
  show ?thesis
    unfolding db using supersede_insert_effect [OF inv inp(2) ins] by (simp add: create_undelivering quiet_same)
qed

lemma approve_handoff_undelivering:
  assumes inv: "store_inv (pl_db pl)" and res: "approve_handoff cx env pl who i expected = Ok (result, ef, pl')"
  shows "undelivering (pl_db pl) (pl_db pl')"
proof -
  obtain db where approved: "cp_approve_handoff_by_owner (cx_hash cx) (cx_json cx) (pe_db env) (pl_db pl) i
      (ac_subject who) (ac_subject who) = Ok (True, db)" and db: "pl_db pl' = db"
    using res unfolding approve_handoff_def Let_def
    by (auto simp: and_then_Inr_iff split: sum.split_asm prod.split_asm if_split_asm)
  from approve_quiet_cases [OF inv approved] show ?thesis
    unfolding db using undelivering_refl [OF inv] by (auto intro: advance_undelivering)
qed

lemma reject_handoff_undelivering:
  assumes inv: "store_inv (pl_db pl)" and res: "reject_handoff env pl who i expected reason = Ok (result, ef, pl')"
  shows "undelivering (pl_db pl) (pl_db pl')"
proof -
  obtain b db where rejected: "cp_resolve_handoff (pe_db env) (pl_db pl) i (ac_subject who) (ac_subject who) (Some reason) = (b, db)"
    and db: "pl_db pl' = db"
    using res unfolding reject_handoff_def Let_def
    by (auto simp: and_then_Inr_iff split: prod.split_asm if_split_asm)
  from reject_quiet_cases [OF inv rejected] show ?thesis
    unfolding db using undelivering_refl [OF inv] by (auto intro: advance_undelivering)
qed

lemma task_commands_undelivering:
  assumes inv: "store_inv (pl_db pl)"
  shows "create_task cx env pl title path n = Ok (result, ef, pl') \<Longrightarrow> undelivering (pl_db pl) (pl_db pl')"
    and "update_task_status env pl i status = Ok (result, ef, pl') \<Longrightarrow> undelivering (pl_db pl) (pl_db pl')"
    and "assign_task env pl i assignee expected = Ok (result, ef, pl') \<Longrightarrow> undelivering (pl_db pl) (pl_db pl')"
proof -
  show "create_task cx env pl title path n = Ok (result, ef, pl') \<Longrightarrow> undelivering (pl_db pl) (pl_db pl')"
    by (auto simp: create_task_def Let_def and_then_Inr_iff intro!: new_task_steady [OF inv] split: if_split_asm)
  show "update_task_status env pl i status = Ok (result, ef, pl') \<Longrightarrow> undelivering (pl_db pl) (pl_db pl')"
    by (auto simp: update_task_status_def Let_def intro!: operator_update_steady [OF inv] split: if_split_asm)
  show "assign_task env pl i assignee expected = Ok (result, ef, pl') \<Longrightarrow> undelivering (pl_db pl) (pl_db pl')"
    by (auto simp: assign_task_def Let_def intro!: operator_update_steady [OF inv] split: if_split_asm option.split_asm)
qed

lemma register_project_undelivering:
  assumes inv: "store_inv (pl_db pl)" and res: "register_project cx env pl path = Ok (result, ef, pl')"
  shows "undelivering (pl_db pl) (pl_db pl')"
  by (rule register_project_cases [OF res])
    (use undelivering_refl [OF inv] registered_quiet [OF inv] in \<open>auto intro: steady_undelivering\<close>)

lemma run_command_undelivering:
  assumes inv: "store_inv (pl_db pl)" and res: "run_command cx env pl who cmd = Ok (result, ef, pl')"
  shows "undelivering (pl_db pl) (pl_db pl')"
  using res
proof (cases cmd)
  case (Trigger_Cron_Job j k)
  then show ?thesis
    using res undelivering_refl [OF inv] by (auto simp: trigger_cron_job_def and_then_Inr_iff)
next
  case (Toggle_Cron_Job j paused k)
  then show ?thesis
    using res undelivering_refl [OF inv]
    by (auto simp: toggle_cron_job_def and_then_Inr_iff Let_def split: prod.split_asm sum.split_asm)
next
  case (Launch_Agent a p prompt k)
  then show ?thesis
    using res undelivering_refl [OF inv] by (auto simp: launch_agent_def and_then_Inr_iff)
next
  case (Validate_Agent_Launch a p prompt k)
  then show ?thesis
    using res undelivering_refl [OF inv] by (auto simp: validate_agent_launch_def and_then_Inr_iff)
qed (auto intro: approve_handoff_undelivering [OF inv] reject_handoff_undelivering [OF inv]
    task_commands_undelivering [OF inv] register_project_undelivering [OF inv] create_handoff_undelivering [OF inv])

end
