(* ===== verification/Control_Runs.thy ===== *)
theory Control_Runs
  imports Control_Plane
begin

text \<open>
  Whole dispatches and sequences of them: a dispatch leaves everything alone, or records a denial, or runs its command
  once; a key that has run is spent; no command delivers a handoff; the ledger goes on verifying. The last section
  joins the store with the workspace's view of a receipt.
\<close>

section \<open>What a dispatch does\<close>

definition denied :: "plane_env \<Rightarrow> command \<Rightarrow> bool" where
  "denied env cmd \<longleftrightarrow> map_option (\<lambda>p. tool_action p (policy_name cmd)) (pe_policy env) = Some Deny_Action"

definition logged :: "codecs \<Rightarrow> plane_env \<Rightarrow> control_db \<Rightarrow> actor \<Rightarrow> string \<Rightarrow> string \<Rightarrow> string \<Rightarrow> control_db \<Rightarrow> bool" where
  "logged cx env db who name args ev db' \<longleftrightarrow>
     db' = db\<lparr>cd_audit := record_tool_decision (cx_hash cx) (cx_envelope cx) (cd_audit db) True (en_stamp (pe_db env))
       name args ''control_plane'' ev (ac_subject who)\<rparr>"

lemma control_decision_row_iff: "control_decision_row cx env db who name args ev = Ok db' \<longleftrightarrow> en_audit_ok (pe_db env) \<and> logged cx env db who name args ev db'"
  by (auto simp: control_decision_row_def logged_def)

text \<open>The three ways a dispatch ends.\<close>

definition left_alone :: "codecs \<Rightarrow> plane \<Rightarrow> command \<Rightarrow> dispatched \<Rightarrow> bool" where
  "left_alone cx pl cmd d \<longleftrightarrow> dp_effects d = no_effects \<and> dp_plane d = pl \<and>
     (\<forall>r. dp_answer d = Ok r \<longrightarrow> (\<exists>row. find_idem pl (idempotency_key cmd) = Some row \<and> ip_result row = r \<and>
        ip_hash row \<in> {[], payload_hash cx cmd}))"

definition denial_logged :: "codecs \<Rightarrow> plane_env \<Rightarrow> plane \<Rightarrow> actor \<Rightarrow> command \<Rightarrow> dispatched \<Rightarrow> bool" where
  "denial_logged cx env pl who cmd d \<longleftrightarrow> denied env cmd \<and> dp_effects d = no_effects \<and> (\<exists>e. dp_answer d = Err e) \<and>
     (\<exists>db. logged cx env (pl_db pl) who (command_name cmd) (cx_hash cx (command_name cmd)) ''tool_deny'' db \<and>
       dp_plane d = pl\<lparr>pl_db := db\<rparr>)"

definition ran_once :: "codecs \<Rightarrow> plane_env \<Rightarrow> plane \<Rightarrow> actor \<Rightarrow> command \<Rightarrow> dispatched \<Rightarrow> idem_row \<Rightarrow> bool" where
  "ran_once cx env pl who cmd d row \<longleftrightarrow>
     ac_may_mutate who \<and> \<not> denied env cmd \<and> find_idem pl (idempotency_key cmd) = None \<and>
     ip_key row = idempotency_key cmd \<and> ip_hash row = payload_hash cx cmd \<and>
     (dp_answer d = Ok (ip_result row) \<or> ef_launch (dp_effects d) \<noteq> None \<and> (\<exists>e. dp_answer d = Err e)) \<and>
     (\<exists>result pl1 ev db. run_command cx env pl who cmd = Ok (result, dp_effects d, pl1) \<and>
       ev \<in> {''tool_allow'', ''tool_confirm''} \<and>
       logged cx env (pl_db pl1) who (command_name cmd) (payload_hash cx cmd) ev db \<and>
       dp_plane d = pl1\<lparr>pl_db := db, pl_idem := pl_idem pl @ [row]\<rparr>)"

lemma policy_event_cases:
  obtains e where "policy_audit_event cx env pl who cmd = (Err e, pl)" "denied env cmd"
  | e db where "policy_audit_event cx env pl who cmd = (Err e, pl\<lparr>pl_db := db\<rparr>)" "denied env cmd"
      "logged cx env (pl_db pl) who (command_name cmd) (cx_hash cx (command_name cmd)) ''tool_deny'' db"
  | ev where "policy_audit_event cx env pl who cmd = (Ok ev, pl)" "\<not> denied env cmd" "ev \<in> {''tool_allow'', ''tool_confirm''}"
proof (cases "map_option (\<lambda>p. tool_action p (policy_name cmd)) (pe_policy env)")
  case None
  then show thesis
    using that(3) by (simp add: policy_audit_event_def denied_def)
next
  case (Some a)
  show thesis
  proof (cases "a = Deny_Action")
    case True
    then have "denied env cmd"
      using Some by (simp add: denied_def)
    then show thesis
      using that(1,2) Some True
      by (cases "control_decision_row cx env (pl_db pl) who (command_name cmd) (cx_hash cx (command_name cmd)) ''tool_deny''")
        (auto simp: policy_audit_event_def control_decision_row_iff)
  next
    case False
    then show thesis
      using that(3) Some by (cases a) (auto simp: policy_audit_event_def denied_def)
  qed
qed

lemma execute_cases:
  assumes "execute_command cx env pl who cmd ev = Ok (result, ef, pl2)"
  obtains pl1 db where "run_command cx env pl who cmd = Ok (result, ef, pl1)" "find_idem pl1 (idempotency_key cmd) = None"
    "logged cx env (pl_db pl1) who (command_name cmd) (payload_hash cx cmd) ev db"
    "pl2 = pl1\<lparr>pl_db := db, pl_idem := pl_idem pl1 @ [\<lparr>ip_key = idempotency_key cmd, ip_hash = payload_hash cx cmd,
       ip_command = command_name cmd, ip_result = Some result, ip_status = ''COMPLETED'', ip_created_at = en_now (pe_db env)\<rparr>]\<rparr>"
  using assms
  by (auto simp: execute_command_def record_outcome_def Let_def and_then_Inr_iff control_decision_row_iff split: if_split_asm)

lemma finish_cases:
  assumes "finish cx env (pl\<lparr>pl_idem := rows @ [row]\<rparr>) k ef = (answer, pl')" and "List.find (\<lambda>r. ip_key r = k) rows = None"
    and "ip_key row = k"
  obtains "answer = Ok ()" "pl' = pl\<lparr>pl_idem := rows @ [row]\<rparr>"
  | e req where "answer = Err e" "ef_launch ef = Some req" "pl' = pl\<lparr>pl_idem := rows @ [row]\<rparr>"
  | e req where "answer = Err e" "ef_launch ef = Some req"
      "pl' = pl\<lparr>pl_idem := rows @ [row\<lparr>ip_result := Some (launch_result req ''failed_to_launch''), ip_status := ''FAILED''\<rparr>]\<rparr>"
proof -
  have rows: "update_where (\<lambda>r. ip_key r = k) f rows = rows" for f
    using assms(2) by (intro update_where_none) (simp add: find_None_iff)
  have rows': "update_where (\<lambda>r. ip_key r = k) f (rows @ [row]) = rows @ [f row]" for f
    using rows [of f] assms(3) by (simp add: update_where_def)
  show thesis
  proof (cases "ef_launch ef")
    case None
    then show thesis
      using assms(1) by (intro that(1)) (auto simp: finish_def)
  next
    case (Some req)
    show thesis
    proof (cases "cx_launch cx req")
      case (Inl e)
      then show thesis
        using assms(1) Some that(2) [of e req] that(3) [of e req]
        by (cases "pe_note_ok env") (auto simp: finish_def rows')
    next
      case (Inr u)
      then show thesis
        using assms(1) Some by (intro that(1)) (auto simp: finish_def)
    qed
  qed
qed

lemma replayed_Some:
  assumes "replayed_result env pl k h = Ok (Some r)"
  obtains row where "find_idem pl k = Some row" "ip_result row = r" "ip_hash row \<in> {[], h}"
  using assms by (auto simp: replayed_result_def split: if_split_asm option.split_asm)

lemma dispatch_cases:
  obtains (alone) "left_alone cx pl cmd (dispatch_control_command cx env pl who cmd)"
  | (denial) "denial_logged cx env pl who cmd (dispatch_control_command cx env pl who cmd)"
  | (ran) row where "ran_once cx env pl who cmd (dispatch_control_command cx env pl who cmd) row"
proof (cases "ac_may_mutate who \<and> pe_idem_table env = None")
  case False
  then show thesis
    using alone by (auto simp: dispatch_control_command_def refused_def left_alone_def)
next
  case may: True
  let ?k = "idempotency_key cmd"
  show thesis
  proof (rule policy_event_cases [of cx env pl who cmd])
    fix e assume "policy_audit_event cx env pl who cmd = (Err e, pl)"
    then show thesis
      using alone may by (simp add: dispatch_control_command_def refused_def left_alone_def)
  next
    fix e db
    assume "policy_audit_event cx env pl who cmd = (Err e, pl\<lparr>pl_db := db\<rparr>)" "denied env cmd"
      "logged cx env (pl_db pl) who (command_name cmd) (cx_hash cx (command_name cmd)) ''tool_deny'' db"
    then show thesis
      using denial may by (auto simp: dispatch_control_command_def refused_def denial_logged_def)
  next
    fix ev
    assume ev: "policy_audit_event cx env pl who cmd = (Ok ev, pl)" "\<not> denied env cmd" "ev \<in> {''tool_allow'', ''tool_confirm''}"
    show thesis
    proof (cases "replayed_result env pl ?k (payload_hash cx cmd) = Ok None \<and> is_ok (execute_command cx env pl who cmd ev)")
      case False
      consider (err) e where "replayed_result env pl ?k (payload_hash cx cmd) = Err e"
        | (hit) r where "replayed_result env pl ?k (payload_hash cx cmd) = Ok (Some r)"
        | (failed) e where "replayed_result env pl ?k (payload_hash cx cmd) = Ok None" "execute_command cx env pl who cmd ev = Err e"
        using False by (cases "replayed_result env pl ?k (payload_hash cx cmd)"; cases "execute_command cx env pl who cmd ev")
          (auto simp: is_ok_iff)
      then show thesis
      proof cases
        case hit
        then show thesis
          using may ev(1) replayed_Some [OF hit]
          by (intro alone) (auto simp: dispatch_control_command_def left_alone_def)
      qed (use may ev(1) in \<open>auto intro!: alone simp: dispatch_control_command_def refused_def left_alone_def\<close>)
    next
      case True
      then obtain result ef pl2 where ex: "execute_command cx env pl who cmd ev = Ok (result, ef, pl2)"
        by (auto simp: is_ok_iff)
      obtain pl1 db where run: "run_command cx env pl who cmd = Ok (result, ef, pl1)" "find_idem pl1 ?k = None"
        "logged cx env (pl_db pl1) who (command_name cmd) (payload_hash cx cmd) ev db"
        and pl2: "pl2 = pl1\<lparr>pl_db := db, pl_idem := pl_idem pl1 @ [\<lparr>ip_key = ?k, ip_hash = payload_hash cx cmd,
           ip_command = command_name cmd, ip_result = Some result, ip_status = ''COMPLETED'', ip_created_at = en_now (pe_db env)\<rparr>]\<rparr>"
        by (rule execute_cases [OF ex])
      obtain answer pl3 where fin: "finish cx env pl2 ?k ef = (answer, pl3)"
        by (metis surj_pair)
      have idem: "pl_idem pl1 = pl_idem pl"
        by (rule run_command_idem [OF run(1)])
      then have fresh: "find_idem pl ?k = None"
        using run(2) by (simp add: find_idem_def)
      have fin': "finish cx env ((pl1\<lparr>pl_db := db\<rparr>)\<lparr>pl_idem := pl_idem pl @ [\<lparr>ip_key = ?k, ip_hash = payload_hash cx cmd,
           ip_command = command_name cmd, ip_result = Some result, ip_status = ''COMPLETED'', ip_created_at = en_now (pe_db env)\<rparr>]\<rparr>)
           ?k ef = (answer, pl3)"
        using fin pl2 idem by simp
      have d: "dispatch_control_command cx env pl who cmd = (case answer of
          Inl e \<Rightarrow> \<lparr>dp_answer = Err e, dp_effects = ef, dp_plane = pl3\<rparr>
        | Inr u \<Rightarrow> \<lparr>dp_answer = Ok (Some result), dp_effects = ef, dp_plane = pl3\<rparr>)"
        using may ev(1) True ex fin by (auto simp: dispatch_control_command_def split: sum.splits)
      show thesis
      proof (rule finish_cases [OF fin'])
        assume "answer = Ok ()" and pl3: "pl3 = (pl1\<lparr>pl_db := db\<rparr>)\<lparr>pl_idem := pl_idem pl @ [\<lparr>ip_key = ?k, ip_hash = payload_hash cx cmd,
           ip_command = command_name cmd, ip_result = Some result, ip_status = ''COMPLETED'', ip_created_at = en_now (pe_db env)\<rparr>]\<rparr>"
        then show thesis
          using may ev(2,3) run(1,3) fresh
          by (intro ran [of "\<lparr>ip_key = ?k, ip_hash = payload_hash cx cmd, ip_command = command_name cmd,
              ip_result = Some result, ip_status = ''COMPLETED'', ip_created_at = en_now (pe_db env)\<rparr>"])
            (auto simp: ran_once_def d)
      next
        fix e req
        assume "answer = Err e" "ef_launch ef = Some req" and pl3: "pl3 = (pl1\<lparr>pl_db := db\<rparr>)\<lparr>pl_idem := pl_idem pl @ [\<lparr>ip_key = ?k,
           ip_hash = payload_hash cx cmd, ip_command = command_name cmd, ip_result = Some result, ip_status = ''COMPLETED'',
           ip_created_at = en_now (pe_db env)\<rparr>]\<rparr>"
        then show thesis
          using may ev(2,3) run(1,3) fresh
          by (intro ran [of "\<lparr>ip_key = ?k, ip_hash = payload_hash cx cmd, ip_command = command_name cmd,
              ip_result = Some result, ip_status = ''COMPLETED'', ip_created_at = en_now (pe_db env)\<rparr>"])
            (auto simp: ran_once_def d)
      next
        fix e req
        assume "answer = Err e" "ef_launch ef = Some req" and pl3: "pl3 = (pl1\<lparr>pl_db := db\<rparr>)\<lparr>pl_idem := pl_idem pl @
          [\<lparr>ip_key = ?k, ip_hash = payload_hash cx cmd, ip_command = command_name cmd, ip_result = Some result,
            ip_status = ''COMPLETED'', ip_created_at = en_now (pe_db env)\<rparr>
            \<lparr>ip_result := Some (launch_result req ''failed_to_launch''), ip_status := ''FAILED''\<rparr>]\<rparr>"
        then show thesis
          using may ev(2,3) run(1,3) fresh
          by (intro ran [of "\<lparr>ip_key = ?k, ip_hash = payload_hash cx cmd, ip_command = command_name cmd,
              ip_result = Some (launch_result req ''failed_to_launch''), ip_status = ''FAILED'',
              ip_created_at = en_now (pe_db env)\<rparr>"])
            (auto simp: ran_once_def d)
      qed (use fresh in \<open>simp_all add: find_idem_def\<close>)
    qed
  qed
qed

section \<open>Keys\<close>

type_synonym request = "plane_env \<times> actor \<times> command"

definition plane_step :: "codecs \<Rightarrow> plane \<Rightarrow> request \<Rightarrow> plane" where
  "plane_step cx pl = (\<lambda>(env, who, cmd). dp_plane (dispatch_control_command cx env pl who cmd))"

lemma ran_find_idem:
  assumes "ran_once cx env pl who cmd d row"
  shows "find_idem (dp_plane d) k =
    (if k = idempotency_key cmd then Some row else find_idem pl k)"
proof -
  have "pl_idem (dp_plane d) = pl_idem pl @ [row]" "ip_key row = idempotency_key cmd" "find_idem pl (idempotency_key cmd) = None"
    using assms by (auto simp: ran_once_def)
  then show ?thesis
    by (simp add: find_idem_def find_append split: option.split)
qed

lemma spent_step:
  assumes "find_idem pl k = Some row"
  shows "find_idem (plane_step cx pl e) k = Some row"
proof -
  obtain env who cmd where e: "e = (env, who, cmd)"
    by (cases e)
  show ?thesis
  proof (rule dispatch_cases [of cx pl cmd env who])
    fix row'
    assume ran: "ran_once cx env pl who cmd (dispatch_control_command cx env pl who cmd) row'"
    then have "k \<noteq> idempotency_key cmd"
      using assms by (auto simp: ran_once_def)
    then show ?thesis
      using assms ran_find_idem [OF ran] by (simp add: plane_step_def e)
  qed (use assms in \<open>auto simp: plane_step_def e left_alone_def denial_logged_def find_idem_def\<close>)
qed

text \<open>A key that has run is spent: no request changes what is stored under it.\<close>

interpretation keys: terminal_machine "plane_step cx" "\<lambda>_. True" "\<lambda>_. True" "\<lambda>pl. find_idem pl k \<noteq> None"
  "\<lambda>pl. find_idem pl k" for cx k
  by unfold_locales (auto simp: spent_step)

lemma spent_no_effects:
  assumes "find_idem pl (idempotency_key cmd) = Some row"
  shows "dp_effects (dispatch_control_command cx env pl who cmd) = no_effects"
  by (rule dispatch_cases [of cx pl cmd env who])
    (use assms in \<open>auto simp: left_alone_def denial_logged_def ran_once_def\<close>)

lemma answered_stored:
  assumes "dp_answer (dispatch_control_command cx env pl who cmd) = Ok r"
  obtains row where "find_idem (dp_plane (dispatch_control_command cx env pl who cmd)) (idempotency_key cmd) = Some row"
    "ip_result row = r" "ip_hash row \<in> {[], payload_hash cx cmd}"
proof (rule dispatch_cases [of cx pl cmd env who])
  let ?d = "dispatch_control_command cx env pl who cmd"
  assume "left_alone cx pl cmd ?d"
  then show thesis
    using assms that by (auto simp: left_alone_def)
next
  assume "denial_logged cx env pl who cmd (dispatch_control_command cx env pl who cmd)"
  then show thesis
    using assms by (auto simp: denial_logged_def)
next
  fix row
  assume ran: "ran_once cx env pl who cmd (dispatch_control_command cx env pl who cmd) row"
  then have "ip_result row = r" "ip_hash row = payload_hash cx cmd"
    using assms by (auto simp: ran_once_def)
  then show thesis
    using that ran_find_idem [OF ran] by simp
qed

text \<open>What the owner may ask for now.\<close>

definition permitted :: "plane_env \<Rightarrow> actor \<Rightarrow> command \<Rightarrow> bool" where
  "permitted env who cmd \<longleftrightarrow> ac_may_mutate who \<and> \<not> denied env cmd"

lemma permitted_event:
  assumes "permitted env who cmd"
  obtains ev where "policy_audit_event cx env pl who cmd = (Ok ev, pl)" "ev \<in> {''tool_allow'', ''tool_confirm''}"
  using assms unfolding permitted_def by (rule_tac policy_event_cases [of cx env pl who cmd]) auto

lemma spent_replays:
  assumes "permitted env who cmd" and "pe_idem_table env = None" and "pe_idem_readable env" and "find_idem pl (idempotency_key cmd) = Some row"
    and "ip_hash row \<in> {[], payload_hash cx cmd}"
  shows "dispatch_control_command cx env pl who cmd = \<lparr>dp_answer = Ok (ip_result row), dp_effects = no_effects, dp_plane = pl\<rparr>"
proof -
  obtain ev where "policy_audit_event cx env pl who cmd = (Ok ev, pl)"
    by (rule permitted_event [OF assms(1)])
  then show ?thesis
    using assms by (auto simp: dispatch_control_command_def permitted_def replayed_result_def)
qed

text \<open>
  C5: all or nothing. A dispatch without a permission, with a spent key or that fails leaves the stores as they were,
  publishes nothing and starts nothing; a denial adds its audit row and nothing else; otherwise the command ran on the
  stores found, under a key that had not run, and its changes stand together with one audit row and one idempotency row.
\<close>

theorem dispatch_atomic:
  "(let d = dispatch_control_command cx env pl who cmd
    in left_alone cx pl cmd d \<or> denial_logged cx env pl who cmd d \<or> (\<exists>row. ran_once cx env pl who cmd d row))"
  unfolding Let_def by (rule dispatch_cases [of cx pl cmd env who]) blast+

text \<open>
  C6: exactly once. After a command was answered, and any further requests, no command with its key has an effect again,
  and a permitted retry gets the first answer and changes nothing.
\<close>

theorem retry_returns_first_result:
  assumes "dp_answer (dispatch_control_command cx env pl who cmd) = Ok r"
    and "permitted env' who' cmd" and "pe_idem_table env' = None" and "pe_idem_readable env'" and "idempotency_key cmd' = idempotency_key cmd"
  shows "let pl' = foldl (plane_step cx) (dp_plane (dispatch_control_command cx env pl who cmd)) requests
    in dispatch_control_command cx env' pl' who' cmd = \<lparr>dp_answer = Ok r, dp_effects = no_effects, dp_plane = pl'\<rparr> \<and>
      dp_effects (dispatch_control_command cx env'' pl' who'' cmd') = no_effects"
proof -
  let ?pl = "foldl (plane_step cx) (dp_plane (dispatch_control_command cx env pl who cmd)) requests"
  obtain row where row: "find_idem (dp_plane (dispatch_control_command cx env pl who cmd)) (idempotency_key cmd) = Some row"
    "ip_result row = r" "ip_hash row \<in> {[], payload_hash cx cmd}"
    by (rule answered_stored [OF assms(1)])
  then have "find_idem ?pl (idempotency_key cmd) = Some row"
    using keys.final_run [where cx = cx and k = "idempotency_key cmd"] by (simp add: list_all_iff)
  then show ?thesis
    using spent_replays [OF assms(2-4) _ row(3)] spent_no_effects [of ?pl cmd'] row(2) assms(5) by (simp add: Let_def)
qed

section \<open>The stores under commands\<close>

text \<open>At most one row was appended to the ledger.\<close>

definition appended :: "(string \<Rightarrow> string) \<Rightarrow> audit_row list \<Rightarrow> audit_row list \<Rightarrow> bool" where
  "appended H rows rows' \<longleftrightarrow> rows' = rows \<or>
     (\<exists>ts ev actor data. rows' = append_audit_event H rows True ts ev actor data)"

lemma appended_chain: "appended H rows rows' \<Longrightarrow> chain H rows \<Longrightarrow> chain H rows'"
  by (auto simp: appended_def chain_append_event)

lemma appended_same [simp]: "appended H rows rows"
  by (simp add: appended_def)

lemma create_handoff_appended:
  assumes inv: "store_inv (pl_db pl)" and res: "create_handoff cx env pl p f t summary = Ok (result, ef, pl')"
  shows "appended (cx_hash cx) (cd_audit (pl_db pl)) (cd_audit (pl_db pl'))"
proof -
  obtain ids db inp where created: "create_handoff_workflow_in_tx (cx_hash cx) (cx_json cx) (pe_db env) (pl_db pl) (pe_ids env) inp = Ok (ids, db)"
    and inp: "is_agent (Some (hi_to inp))" and db: "pl' = pl\<lparr>pl_db := db\<rparr>"
    by (rule create_handoff_cases [OF res])
  show ?thesis
    unfolding db by (rule create_cases [OF inv inp created]) (auto simp: appended_def)
qed

lemma approve_handoff_appended:
  assumes inv: "store_inv (pl_db pl)" and res: "approve_handoff cx env pl who i expected = Ok (result, ef, pl')"
  shows "appended (cx_hash cx) (cd_audit (pl_db pl)) (cd_audit (pl_db pl'))"
proof -
  obtain db where approved: "cp_approve_handoff_by_owner (cx_hash cx) (cx_json cx) (pe_db env) (pl_db pl) i
      (ac_subject who) (ac_subject who) = Ok (True, db)" and db: "pl_db pl' = db"
    using res unfolding approve_handoff_def Let_def
    by (auto simp: and_then_Inr_iff split: sum.split_asm prod.split_asm if_split_asm)
  show ?thesis
    unfolding db by (rule approve_cases [OF inv approved]) (auto simp: appended_def)
qed

lemma reject_handoff_appended:
  assumes inv: "store_inv (pl_db pl)" and res: "reject_handoff env pl who i expected reason = Ok (result, ef, pl')"
  shows "appended (cx_hash cx) (cd_audit (pl_db pl)) (cd_audit (pl_db pl'))"
proof -
  obtain b db where rejected: "cp_resolve_handoff (pe_db env) (pl_db pl) i (ac_subject who) (ac_subject who) (Some reason) = (b, db)"
    and db: "pl_db pl' = db"
    using res unfolding reject_handoff_def Let_def
    by (auto simp: and_then_Inr_iff split: prod.split_asm if_split_asm)
  show ?thesis
    unfolding db by (rule resolve_cases [OF inv rejected]) (simp_all add: appended_def)
qed

lemma run_command_appended:
  assumes inv: "store_inv (pl_db pl)" and res: "run_command cx env pl who cmd = Ok (result, ef, pl')"
  shows "appended (cx_hash cx) (cd_audit (pl_db pl)) (cd_audit (pl_db pl'))"
proof (cases cmd)
  case (Register_Project p k)
  then show ?thesis
    using res by (auto elim: register_project_cases)
qed (use res in \<open>auto intro: approve_handoff_appended [OF inv] reject_handoff_appended [OF inv] create_handoff_appended [OF inv]
    simp: trigger_cron_job_def toggle_cron_job_def launch_agent_def validate_agent_launch_def create_task_def
      update_task_status_def assign_task_def Let_def and_then_Inr_iff
    split: if_split_asm option.split_asm sum.split_asm prod.split_asm\<close>)

lemma logged_chain:
  "logged cx env db who name args ev db' \<Longrightarrow> chain (cx_hash cx) (cd_audit db) \<Longrightarrow> chain (cx_hash cx) (cd_audit db')"
  by (simp add: logged_def record_tool_decision_def chain_append_event)

lemma store_step_appended:
  assumes inv: "store_inv db" and ok: "to_agents e"
  shows "appended H (cd_audit db) (cd_audit (store_step H js db e))"
proof (cases e)
  case (Hev_Create env ids inp)
  show ?thesis
  proof (cases "create_handoff_workflow_in_tx H js env db ids inp")
    case (Inr r)
    then have r: "create_handoff_workflow_in_tx H js env db ids inp = Ok (fst r, snd r)" "is_agent (Some (hi_to inp))"
      using ok Hev_Create by simp_all
    show ?thesis
      by (rule create_cases [OF inv r(2,1)]) (simp_all add: Hev_Create or_keep_def appended_def Inr, blast)
  qed (simp add: Hev_Create or_keep_def)
next
  case (Hev_Approve env i subject)
  show ?thesis
  proof (cases "cp_approve_handoff_by_owner H js env db i subject subject")
    case (Inr r)
    then have "cp_approve_handoff_by_owner H js env db i subject subject = Ok (fst r, snd r)"
      by simp
    then show ?thesis
      by (rule approve_cases [OF inv]) (auto simp: Hev_Approve or_keep_def appended_def Inr)
  qed (simp add: Hev_Approve or_keep_def)
next
  case (Hev_Reject env i subject why)
  have "cp_resolve_handoff env db i subject subject (Some why) = (fst (cp_resolve_handoff env db i subject subject (Some why)),
      store_step H js db e)"
    by (simp add: Hev_Reject)
  then show ?thesis
    by (rule resolve_cases [OF inv]) simp_all
next
  case (Hev_Consume env ctx agent)
  show ?thesis
  proof (cases "cp_consume_handoff H js env db ctx agent")
    case (Inr r)
    then show ?thesis
      by (rule consume_cases [OF inv]) (auto simp: Hev_Consume or_keep_def appended_def Inr)
  qed (simp add: Hev_Consume or_keep_def)
next
  case (Hev_Manage env i remove)
  show ?thesis
  proof (cases "cp_manage_handoff H js env db i remove")
    case (Inr r)
    then show ?thesis
      by (rule manage_cases [OF inv]) (auto simp: Hev_Manage or_keep_def appended_def Inr)
  qed (simp add: Hev_Manage or_keep_def)
qed simp

lemma undelivering_logged:
  assumes "undelivering db db1" and "logged cx env db1 who name args ev db2" and "ev \<noteq> ''handover_delivered''"
  shows "undelivering db db2"
proof -
  have db2: "db2 = db1\<lparr>cd_audit := append_audit_event (cx_hash cx) (cd_audit db1) True (en_stamp (pe_db env)) ev (ac_subject who)
      (cx_envelope cx name args ''control_plane'')\<rparr>"
    using assms(2) by (simp add: logged_def record_tool_decision_def)
  have "quiet db db2"
    using assms(1,3) unfolding undelivering_def quiet_def db2 by (auto simp: append_audit_event_def audit_row_after_def)
  then show ?thesis
    using assms(1) unfolding undelivering_def db2 store_inv_audit handoff_stage_def handoff_assignee_def by blast
qed

lemma plane_step_db:
  assumes inv: "store_inv (pl_db pl)"
  shows "undelivering (pl_db pl) (pl_db (plane_step cx pl e))"
    and "chain (cx_hash cx) (cd_audit (pl_db pl)) \<Longrightarrow> chain (cx_hash cx) (cd_audit (pl_db (plane_step cx pl e)))"
proof -
  obtain env who cmd where e: "e = (env, who, cmd)"
    by (cases e)
  let ?d = "dispatch_control_command cx env pl who cmd"
  have "undelivering (pl_db pl) (pl_db (dp_plane ?d)) \<and>
      (chain (cx_hash cx) (cd_audit (pl_db pl)) \<longrightarrow> chain (cx_hash cx) (cd_audit (pl_db (dp_plane ?d))))"
  proof (rule dispatch_cases [of cx pl cmd env who])
    assume "left_alone cx pl cmd ?d"
    then show ?thesis
      using undelivering_refl [OF inv] by (simp add: left_alone_def)
  next
    assume "denial_logged cx env pl who cmd ?d"
    then obtain db where "logged cx env (pl_db pl) who (command_name cmd) (cx_hash cx (command_name cmd)) ''tool_deny'' db"
      and d: "dp_plane ?d = pl\<lparr>pl_db := db\<rparr>"
      by (auto simp: denial_logged_def)
    then show ?thesis
      using undelivering_logged [OF undelivering_refl [OF inv]] logged_chain by (simp add: d)
  next
    fix row
    assume "ran_once cx env pl who cmd ?d row"
    then obtain result pl1 ev db where run: "run_command cx env pl who cmd = Ok (result, dp_effects ?d, pl1)"
      and ev: "ev \<in> {''tool_allow'', ''tool_confirm''}"
      and log: "logged cx env (pl_db pl1) who (command_name cmd) (payload_hash cx cmd) ev db"
      and d: "dp_plane ?d = pl1\<lparr>pl_db := db, pl_idem := pl_idem pl @ [row]\<rparr>"
      unfolding ran_once_def by blast
    have "ev \<noteq> ''handover_delivered''"
      using ev by auto
    then show ?thesis
      using undelivering_logged [OF run_command_undelivering [OF inv run] log]
        logged_chain [OF log] appended_chain [OF run_command_appended [OF inv run]] by (simp add: d)
  qed
  then show "undelivering (pl_db pl) (pl_db (plane_step cx pl e))"
    and "chain (cx_hash cx) (cd_audit (pl_db pl)) \<Longrightarrow> chain (cx_hash cx) (cd_audit (pl_db (plane_step cx pl e)))"
    by (simp_all add: plane_step_def e)
qed

section \<open>Commands and agents together\<close>

text \<open>What reaches the stores: a command of the owner, or what an agent's wrapper or the local user does.\<close>

datatype plane_event = By_Owner request | By_Others store_event

fun plane_turn :: "codecs \<Rightarrow> plane \<Rightarrow> plane_event \<Rightarrow> plane" where
  "plane_turn cx pl (By_Owner req) = plane_step cx pl req"
| "plane_turn cx pl (By_Others e) = pl\<lparr>pl_db := store_step (cx_hash cx) (cx_json cx) (pl_db pl) e\<rparr>"

fun sound_event :: "plane_event \<Rightarrow> bool" where
  "sound_event (By_Owner req) \<longleftrightarrow> True"
| "sound_event (By_Others e) \<longleftrightarrow> to_agents e"

definition plane_ok :: "codecs \<Rightarrow> plane \<Rightarrow> bool" where
  "plane_ok cx pl \<longleftrightarrow> store_inv (pl_db pl) \<and> ledger_agrees (cx_json cx) (pl_db pl) \<and> distinguishes (cx_json cx) \<and>
     chain (cx_hash cx) (cd_audit (pl_db pl))"

lemma undelivering_ledger: "undelivering db db' \<Longrightarrow> ledger_agrees js db \<Longrightarrow> ledger_agrees js db'"
  using ledger_quiet [of js db db'] by (simp add: undelivering_def)

lemma plane_turn_ok:
  assumes ok: "plane_ok cx pl" and e: "sound_event e"
  shows "plane_ok cx (plane_turn cx pl e)"
proof (cases e)
  case (By_Owner req)
  have "undelivering (pl_db pl) (pl_db (plane_step cx pl req))"
    using plane_step_db(1) ok by (simp add: plane_ok_def)
  then show ?thesis
    using ok undelivering_ledger plane_step_db(2) by (auto simp: plane_ok_def By_Owner undelivering_def)
next
  case (By_Others ev)
  then have ev: "to_agents ev" "store_inv (pl_db pl)"
    using ok e by (simp_all add: plane_ok_def)
  then show ?thesis
    using ok appended_chain [OF store_step_appended [OF ev(2,1)]]
    by (simp add: plane_ok_def By_Others step_next(1) delivery_step)
qed

lemma plane_turn_next:
  assumes ok: "plane_ok cx pl" and e: "sound_event e"
  shows "handoff_stage (pl_db (plane_turn cx pl e)) i = handoff_stage (pl_db pl) i \<or>
    lifecycle_next (handoff_stage (pl_db pl) i) (handoff_stage (pl_db (plane_turn cx pl e)) i)"
  using plane_step_db(1) [of pl cx] step_next(2) ok e by (cases e) (auto simp: plane_ok_def undelivering_def)

interpretation turns: simulation "plane_turn cx" sound_event "plane_ok cx" "\<lambda>pl. handoff_stage (pl_db pl) i" lifecycle_next
  for cx i
  by unfold_locales (simp_all add: plane_turn_ok plane_turn_next)

text \<open>Commands alone deliver nothing.\<close>

definition delivered_set :: "plane \<Rightarrow> string set" where
  "delivered_set pl = {i. handoff_stage (pl_db pl) i = Some Hs_Delivered}"

interpretation commands: machine "plane_step cx" "\<lambda>_. True" "\<lambda>pl. store_inv (pl_db pl) \<and> delivered_set pl = D" for cx D
  using plane_step_db(1) by unfold_locales (auto simp: undelivering_def delivered_set_def)


text \<open>
  approval is not delivery. Whatever commands the owner sends, in whatever order, the delivered handoffs
  are the ones that were delivered before: only the addressed agent's own wrapper delivers.
\<close>

theorem commands_never_deliver:
  assumes "store_inv (pl_db pl)"
  shows "handoff_stage (pl_db (foldl (plane_step cx) pl requests)) i = Some Hs_Delivered \<longleftrightarrow>
    handoff_stage (pl_db pl) i = Some Hs_Delivered"
proof -
  have "store_inv (pl_db pl) \<and> delivered_set pl = delivered_set pl"
    using assms by simp
  from commands.run_inv [OF this, of requests] show ?thesis
    by (auto simp: list_all_iff delivered_set_def)
qed

section \<open>One decision\<close>

lemma waiting_decidable:
  assumes inv: "store_inv db"
  shows "(\<exists>ap t r a. linked_handoff db i = Some (ap, t, r, a) \<and> decidable_by ''local_control_owner'' (ap, t, r, a)) \<longleftrightarrow>
    handoff_stage db i = Some Hs_Waiting"
proof
  assume "\<exists>ap t r a. linked_handoff db i = Some (ap, t, r, a) \<and> decidable_by ''local_control_owner'' (ap, t, r, a)"
  then obtain ap t r a where "linked_handoff db i = Some (ap, t, r, a)" "decidable_by ''local_control_owner'' (ap, t, r, a)"
    by blast
  then show "handoff_stage db i = Some Hs_Waiting"
    by (simp add: handoff_stage_def handoff_rows_def decidable_by_def is_handover_def stage_of_def)
next
  assume stage: "handoff_stage db i = Some Hs_Waiting"
  then obtain ap t r a where q: "handoff_rows db i = Some (ap, t, r, a)" "stage_of (ap, t, r, a) = Hs_Waiting"
    by (auto simp: handoff_stage_def)
  obtain c where "rows_ok (ap, t, r, a)"
    by (rule handoff_rows_ok [OF inv q(1)])
  then show "\<exists>ap t r a. linked_handoff db i = Some (ap, t, r, a) \<and> decidable_by ''local_control_owner'' (ap, t, r, a)"
    using q by (auto simp: handoff_rows_Some rows_ok_def decidable_by_def)
qed

lemma approve_by_owner_waiting:
  assumes inv: "store_inv db" and audit: "en_audit_ok env"
  shows "handoff_stage db i \<noteq> Some Hs_Waiting \<Longrightarrow>
      cp_approve_handoff_by_owner H js env db i ''local_control_owner'' ''local_control_owner'' = Ok (False, db)"
    and "handoff_stage db i = Some Hs_Waiting \<Longrightarrow>
      \<exists>db'. cp_approve_handoff_by_owner H js env db i ''local_control_owner'' ''local_control_owner'' = Ok (True, db') \<and>
        handoff_stage db' i = Some Hs_Consented \<and>
        cp_approval_revision db' i = map_option (\<lambda>v. v + 1) (cp_approval_revision db i)"
proof -
  let ?res = "cp_approve_handoff_by_owner H js env db i ''local_control_owner'' ''local_control_owner''"
  show "?res = Ok (False, db)" if "handoff_stage db i \<noteq> Some Hs_Waiting"
    using that waiting_decidable [OF inv, of i] unfolding cp_approve_handoff_by_owner_def
    by (auto split: option.split prod.split)
  assume "handoff_stage db i = Some Hs_Waiting"
  then obtain ap t r a where linked: "linked_handoff db i = Some (ap, t, r, a)"
      and dec: "decidable_by ''local_control_owner'' (ap, t, r, a)"
    using waiting_decidable [OF inv] by blast
  then obtain db' where res: "?res = Ok (True, db')"
    and appr: "cd_approvals db' = update_where (\<lambda>x. ap_id x = i) (\<lambda>x. x\<lparr>ap_status := ''approved'',
        ap_resolved_at := Some (en_now env), ap_resolved_by := Some ''local_control_owner'',
        ap_revision := ap_revision x + 1\<rparr>) (cd_approvals db)"
    using audit unfolding cp_approve_handoff_by_owner_def audit_after_def by auto
  have "find_approval db' i = map_option (\<lambda>x. x\<lparr>ap_status := ''approved'',
        ap_resolved_at := Some (en_now env), ap_resolved_by := Some ''local_control_owner'',
        ap_revision := ap_revision x + 1\<rparr>) (find_approval db i)"
    using lookup_Some(1) [of db i] unfolding find_approval_def appr
    by (subst find_update_where) (auto simp: find_approval_def intro: option.map_cong)
  then have "cp_approval_revision db' i = map_option (\<lambda>v. v + 1) (cp_approval_revision db i)"
    by (simp add: cp_approval_revision_def option.map_comp comp_def)
  moreover have "handoff_stage db' i = Some Hs_Consented"
    by (rule approve_cases [OF inv res]) (simp_all add: advance_def)
  ultimately show "\<exists>db'. ?res = Ok (True, db') \<and> handoff_stage db' i = Some Hs_Consented \<and>
      cp_approval_revision db' i = map_option (\<lambda>v. v + 1) (cp_approval_revision db i)"
    using res by blast
qed

text \<open>The revision the caller read is the current one, or was not given.\<close>

definition revision_current :: "control_db \<Rightarrow> string \<Rightarrow> int option \<Rightarrow> bool" where
  "revision_current db i expected \<longleftrightarrow> expected = None \<or> cp_approval_revision db i = expected"


section \<open>The store seen from the workspace\<close>

fun stage_observation :: "handoff_stage \<Rightarrow> receipt_observation" where
  "stage_observation Hs_Waiting = Read_Pending"
| "stage_observation Hs_Consented = Read_Resolved_Elsewhere"
| "stage_observation Hs_Delivered = Delivered_By_Target"
| "stage_observation Hs_Closed = Read_Resolved_Elsewhere"
| "stage_observation Hs_Rejected = Read_Rejected"
| "stage_observation Hs_Superseded = Read_Expired"

lemma client_receipt_cases:
  assumes "client_handoff_receipt pl i path = Ok r" and "trim i = i"
  obtains p rc where "cp_handoff_receipt (pl_db pl) i p = Some rc"
    "r = \<lparr>hr_approval_id = hrc_approval rc, hr_status = hrc_status rc, hr_delivered_by_target = delivered_by_target rc\<rparr>"
  using assms unfolding client_handoff_receipt_def query_handoff_receipt_def Let_def
  by (auto simp: and_then_Inr_iff split: sum.split_asm if_split_asm option.split_asm)


section \<open>One session\<close>

definition sample_codecs :: codecs where
  "sample_codecs = \<lparr>cx_hash = \<lambda>s. s, cx_json = sample_json, cx_command = \<lambda>c. command_name c @ idempotency_key c,
     cx_debug = command_name, cx_envelope = \<lambda>t a m. t, cx_secret = \<lambda>s. False, cx_canonical = Some,
     cx_is_dir = \<lambda>s. True, cx_error = \<lambda>e. ''db'', cx_launch = \<lambda>r. Ok ()\<rparr>"

definition plane_sample :: "string \<Rightarrow> plane_env" where
  "plane_sample i = \<lparr>pe_db = sample_env, pe_ids = sample_ids i, pe_task_id = i, pe_project_id = 1, pe_policy = None,
     pe_idem_table = None, pe_idem_readable = True, pe_commit_ok = True, pe_note_ok = True\<rparr>"

definition empty_plane :: plane where
  "empty_plane = \<lparr>pl_db = empty_db [], pl_items = [], pl_jobs = [], pl_idem = []\<rparr>"

definition queue_command :: command where
  "queue_command = Create_Handoff ''/w'' ''claude_kaira'' ''codex_kaira'' ''go on'' ''k1''"

definition consent_command :: command where
  "consent_command = Approve_Handoff ''a'' (Some 1) ''k2''"

abbreviation queue_request :: request where
  "queue_request \<equiv> (plane_sample ''a'', local_session, queue_command)"

abbreviation consent_request :: request where
  "consent_request \<equiv> (plane_sample ''a'', local_session, consent_command)"

abbreviation take_event :: plane_event where
  "take_event \<equiv> By_Others (Hev_Consume sample_env (sample_context ''a'') ''codex_kaira'')"

lemma empty_plane_ok: "plane_ok sample_codecs empty_plane"
  by (simp add: plane_ok_def empty_plane_def sample_codecs_def empty_db_inv empty_db_ledger sample_distinguishes)
    (simp add: empty_db_def chain_def)

lemma retry_returns_first_result_witness:
  "dispatch_control_command sample_codecs (plane_sample ''b'') (plane_step sample_codecs empty_plane queue_request) local_session queue_command =
    \<lparr>dp_answer = Ok (Some (Queued_Result (sample_ids ''a'') ''/w'')), dp_effects = no_effects,
      dp_plane = plane_step sample_codecs empty_plane queue_request\<rparr>"
proof -
  have first: "dp_answer (dispatch_control_command sample_codecs (plane_sample ''a'') empty_plane local_session queue_command) =
      Ok (Some (Queued_Result (sample_ids ''a'') ''/w''))"
    by code_simp
  have "permitted (plane_sample ''b'') local_session queue_command" "pe_idem_table (plane_sample ''b'') = None"
    "pe_idem_readable (plane_sample ''b'')"
    by code_simp+
  from retry_returns_first_result [OF first this refl, of "[]"] show ?thesis
    by (simp add: Let_def plane_step_def)
qed


lemma commands_never_deliver_witness:
  "handoff_stage (pl_db (foldl (plane_step sample_codecs) empty_plane [queue_request, consent_request])) ''a'' \<noteq> Some Hs_Delivered"
proof -
  have "store_inv (pl_db empty_plane)"
    by (simp add: empty_plane_def empty_db_inv)
  moreover have "handoff_stage (pl_db empty_plane) ''a'' = None"
    by code_simp
  ultimately show ?thesis
    using commands_never_deliver [where cx = sample_codecs and requests = "[queue_request, consent_request]" and i = "''a''"] by simp
qed

lemma queued_inv: "store_inv (pl_db (plane_step sample_codecs empty_plane queue_request))"
  using plane_step_db(1) [of empty_plane] by (simp add: undelivering_def empty_plane_def empty_db_inv)



section \<open>Behaviour worth knowing\<close>

text \<open>
  The workspace takes the owner's consent for the end of the handoff: the agent delivers it afterwards, and the
  handoff's view still says it was resolved elsewhere.
\<close>

lemma consent_hides_delivery:
  "let consented = foldl (plane_step sample_codecs) empty_plane [queue_request, consent_request];
       taken = plane_turn sample_codecs consented take_event;
       h = foldl handoff_step (queued ''a'' ''claude_kaira'' ''codex_kaira'')
         [Poll (client_handoff_receipt consented ''a'' ''/w''), Poll (client_handoff_receipt taken ''a'' ''/w'')]
   in handoff_stage (pl_db taken) ''a'' = Some Hs_Delivered \<and>
      hv_receipt (th_view h) = Resolved_Elsewhere ''a''"
  by code_simp

end
