(* ===== verification/Factory_Store.thy ===== *)
theory Factory_Store
  imports Handoff_Store
begin

text \<open>
  The Product Factory's repositories: \<open>crates/raios-core/src/db/factory_products.rs\<close>, \<open>factory_intake.rs\<close>,
  \<open>factory_requirements.rs\<close>, \<open>factory_cycles.rs\<close>, \<open>factory_evidence.rs\<close>, \<open>factory_releases.rs\<close>, \<open>factory_support.rs\<close> and
  the prompts of \<open>product_factory/intake.rs\<close>. Each operation runs in its caller's transaction: after an error nothing of
  it stays. The rows it shares with the control plane (tasks, runs, contracts, approvals) are those of \<open>Handoff_Store\<close>. Left
  out are the columns \<open>created_at\<close> and \<open>updated_at\<close> that no statement reads, and the read-only overview.
\<close>

section \<open>Tables\<close>

record factory_workspace =
  fw_id :: string
  fw_name :: string
  fw_owner :: string
  fw_status :: string

record factory_product =
  fp_id :: string
  fp_workspace :: string
  fp_owner :: string
  fp_title :: string
  fp_mode :: string
  fp_project_path :: string
  fp_source_remote :: string
  fp_source_revision :: string
  fp_status :: string
  fp_charter :: "string option"

record factory_plan =
  fl_id :: string
  fl_workspace :: string
  fl_product :: "string option"
  fl_title :: string
  fl_status :: string

record intake_session =
  fs_id :: string
  fs_product :: string
  fs_status :: string
  fs_started_by :: string
  fs_created_at :: int

record intake_item =
  fi_id :: string
  fi_session :: string
  fi_key :: string
  fi_prompt :: "string option"
  fi_response :: string
  fi_status :: string

record charter_revision =
  fc_id :: string
  fc_product :: string
  fc_revision :: int
  fc_status :: string
  fc_ref :: string
  fc_text :: string
  fc_created_by :: string

record factory_requirement =
  fr_id :: string
  fr_product :: string
  fr_key :: string
  fr_status :: string
  fr_revision :: int

record requirement_revision =
  fv_id :: string
  fv_requirement :: string
  fv_revision :: int
  fv_ref :: string
  fv_text :: string
  fv_status :: string

text \<open>A link of one record to another: of requirements, evidence and support items.\<close>

record factory_link =
  lk_id :: string
  lk_from :: string
  lk_kind :: string
  lk_target :: string
  lk_relation :: string

record factory_cycle =
  cy_id :: string
  cy_product :: string
  cy_plan :: string
  cy_status :: string
  cy_stage :: string
  cy_created_at :: int

record stage_run =
  sr_id :: string
  sr_cycle :: string
  sr_stage :: string
  sr_status :: string
  sr_graph :: "string option"
  sr_started_at :: "int option"
  sr_completed_at :: "int option"

record change_request =
  cq_id :: string
  cq_product :: string
  cq_requested_by :: string
  cq_status :: string
  cq_summary :: string
  cq_resolved_at :: "int option"

record impact_assessment =
  ia_id :: string
  ia_change :: string
  ia_status :: string
  ia_affected :: "32 word"
  ia_accepted_at :: "int option"

record impact_target =
  it_id :: string
  it_assessment :: string
  it_kind :: string
  it_target :: string
  it_relation :: string
  it_staleness :: string

record evidence_link =
  el_id :: string
  el_product :: string
  el_subject_kind :: string
  el_subject :: string
  el_artifact :: "string option"
  el_ref :: "string option"
  el_storage :: string
  el_staleness :: string

record quality_profile =
  qp_id :: string
  qp_product :: string
  qp_name :: string
  qp_required :: bool
  qp_created_at :: int

record quality_check =
  qc_id :: string
  qc_profile :: string
  qc_product :: string
  qc_status :: string
  qc_evidence :: "string option"

record factory_release =
  rl_id :: string
  rl_product :: string
  rl_status :: string
  rl_build :: string

record release_channel =
  rh_id :: string
  rh_release :: string
  rh_kind :: string
  rh_status :: string

record support_item =
  su_id :: string
  su_product :: string
  su_source :: string
  su_status :: string
  su_summary :: string
  su_resolution :: string
  su_created_at :: int
  su_resolved_at :: "int option"

text \<open>A node of a stage's task graph.\<close>

record stage_node =
  sn_graph :: string
  sn_node :: string
  sn_task :: string

record factory_db =
  fd_control :: control_db
  fd_graphs :: "string list"
  fd_nodes :: "stage_node list"
  fd_artifact_refs :: "(string \<times> string) list"
  fd_workspaces :: "factory_workspace list"
  fd_products :: "factory_product list"
  fd_plans :: "factory_plan list"
  fd_sessions :: "intake_session list"
  fd_items :: "intake_item list"
  fd_charters :: "charter_revision list"
  fd_requirements :: "factory_requirement list"
  fd_revisions :: "requirement_revision list"
  fd_requirement_links :: "factory_link list"
  fd_cycles :: "factory_cycle list"
  fd_runs :: "stage_run list"
  fd_changes :: "change_request list"
  fd_assessments :: "impact_assessment list"
  fd_targets :: "impact_target list"
  fd_evidence :: "evidence_link list"
  fd_dependencies :: "factory_link list"
  fd_profiles :: "quality_profile list"
  fd_checks :: "quality_check list"
  fd_releases :: "factory_release list"
  fd_channels :: "release_channel list"
  fd_support :: "support_item list"
  fd_support_links :: "factory_link list"

text \<open>A violated constraint, or a row that had to be there and was not.\<close>

datatype factory_error = Fd_Constraint | Fd_No_Row

text \<open>Clock and the fresh identifiers of one operation, in the order it draws them.\<close>

record factory_env =
  fe_now :: int
  fe_id :: "nat \<Rightarrow> string"

definition free :: "('r \<Rightarrow> 'k) \<Rightarrow> 'k \<Rightarrow> 'r list \<Rightarrow> bool" where
  "free key k rows \<longleftrightarrow> k \<notin> key ` set rows"

text \<open>An insert: refused when a primary key or a unique constraint is violated.\<close>

definition insert_if :: "bool \<Rightarrow> 'a \<Rightarrow> factory_error + 'a" where
  "insert_if ok x = (if ok then Ok x else Err Fd_Constraint)"

definition link_key :: "factory_link \<Rightarrow> string \<times> string \<times> string \<times> string" where
  "link_key k = (lk_from k, lk_kind k, lk_target k, lk_relation k)"

text \<open>SQL's \<open>trim(x) <> ''\<close>: only spaces are trimmed.\<close>

definition sql_nonblank :: "string option \<Rightarrow> bool" where
  "sql_nonblank x \<longleftrightarrow> (case x of None \<Rightarrow> False | Some s \<Rightarrow> list_ex (\<lambda>c. c \<noteq> CHR '' '') s)"

definition product_owned :: "factory_db \<Rightarrow> string \<Rightarrow> string \<Rightarrow> bool" where
  "product_owned db p owner \<longleftrightarrow> list_ex (\<lambda>r. fp_id r = p \<and> fp_owner r = owner) (fd_products db)"

section \<open>Products and plans\<close>

definition create_factory_workspace :: "factory_env \<Rightarrow> factory_db \<Rightarrow> string \<Rightarrow> string \<Rightarrow> factory_error + (string \<times> factory_db)" where
  "create_factory_workspace env db owner name =
     (let i = fe_id env 0
      in insert_if (free fw_id i (fd_workspaces db)) (i, db\<lparr>fd_workspaces := fd_workspaces db @
           [\<lparr>fw_id = i, fw_name = name, fw_owner = owner, fw_status = ''draft''\<rparr>]\<rparr>))"

definition create_factory_product_draft ::
  "factory_env \<Rightarrow> factory_db \<Rightarrow> string \<Rightarrow> string \<Rightarrow> string \<Rightarrow> factory_error + (string option \<times> factory_db)" where
  "create_factory_product_draft env db owner ws title =
     (if \<not> list_ex (\<lambda>r. fw_id r = ws \<and> fw_owner r = owner) (fd_workspaces db) then Ok (None, db)
      else let i = fe_id env 0
        in insert_if (free fp_id i (fd_products db)) (Some i, db\<lparr>fd_products := fd_products db @
             [\<lparr>fp_id = i, fp_workspace = ws, fp_owner = owner, fp_title = title, fp_mode = ''governed'',
               fp_project_path = [], fp_source_remote = [], fp_source_revision = [], fp_status = ''draft'',
               fp_charter = None\<rparr>]\<rparr>))"

definition set_factory_product_mode :: "factory_db \<Rightarrow> string \<Rightarrow> string \<Rightarrow> string \<Rightarrow> factory_error + (bool \<times> factory_db)" where
  "set_factory_product_mode db owner p mode =
     (let hit = (\<lambda>r. fp_id r = p \<and> fp_owner r = owner)
      in if list_ex hit (fd_products db) \<and> mode \<noteq> ''quick'' \<and> mode \<noteq> ''governed'' then Err Fd_Constraint
         else Ok (count_where hit (fd_products db) = 1,
           db\<lparr>fd_products := update_where hit (\<lambda>r. r\<lparr>fp_mode := mode\<rparr>) (fd_products db)\<rparr>))"

definition save_factory_product_project_path :: "factory_db \<Rightarrow> string \<Rightarrow> string \<Rightarrow> string \<Rightarrow> bool \<times> factory_db" where
  "save_factory_product_project_path db owner p path =
     (let hit = (\<lambda>r. fp_id r = p \<and> fp_owner r = owner)
      in (count_where hit (fd_products db) = 1,
          db\<lparr>fd_products := update_where hit (\<lambda>r. r\<lparr>fp_project_path := path\<rparr>) (fd_products db)\<rparr>))"

definition attach_factory_product_existing_project ::
  "factory_db \<Rightarrow> string \<Rightarrow> string \<Rightarrow> string \<Rightarrow> string \<Rightarrow> string \<Rightarrow> bool \<times> factory_db" where
  "attach_factory_product_existing_project db owner p path remote revision =
     (let hit = (\<lambda>r. fp_id r = p \<and> fp_owner r = owner)
      in (count_where hit (fd_products db) = 1,
          db\<lparr>fd_products := update_where hit (\<lambda>r. r\<lparr>fp_project_path := path, fp_source_remote := remote,
            fp_source_revision := revision\<rparr>) (fd_products db)\<rparr>))"

definition create_factory_plan_draft ::
  "factory_env \<Rightarrow> factory_db \<Rightarrow> string \<Rightarrow> string \<Rightarrow> string \<Rightarrow> factory_error + (string option \<times> factory_db)" where
  "create_factory_plan_draft env db owner p title =
     (case List.find (\<lambda>r. fp_id r = p \<and> fp_owner r = owner) (fd_products db) of None \<Rightarrow> Ok (None, db)
      | Some r \<Rightarrow> let i = fe_id env 0
        in insert_if (free fl_id i (fd_plans db)) (Some i, db\<lparr>fd_plans := fd_plans db @
             [\<lparr>fl_id = i, fl_workspace = fp_workspace r, fl_product = Some p, fl_title = title, fl_status = ''planned''\<rparr>]\<rparr>))"

definition approve_factory_plan :: "factory_db \<Rightarrow> string \<Rightarrow> string \<Rightarrow> bool \<times> factory_db" where
  "approve_factory_plan db owner i =
     (let hit = (\<lambda>r. fl_id r = i \<and> fl_status r = ''planned'' \<and>
        (case fl_product r of None \<Rightarrow> False | Some p \<Rightarrow> product_owned db p owner))
      in (count_where hit (fd_plans db) = 1,
          db\<lparr>fd_plans := update_where hit (\<lambda>r. r\<lparr>fl_status := ''approved''\<rparr>) (fd_plans db)\<rparr>))"

section \<open>Intake and charter\<close>

definition discovery_prompts :: "string list" where
  "discovery_prompts = [''problem_statement'', ''target_user'', ''core_outcome'', ''first_platform'', ''success_metric'']"

text \<open>Every built-in prompt is required.\<close>

definition prompts_for_mode :: "string \<Rightarrow> string list" where
  "prompts_for_mode mode =
     (if mode = ''quick'' then [discovery_prompts ! 0, discovery_prompts ! 2, discovery_prompts ! 4] else discovery_prompts)"

definition product_mode :: "factory_db \<Rightarrow> string \<Rightarrow> factory_error + string" where
  "product_mode db p =
     (case List.find (\<lambda>r. fp_id r = p) (fd_products db) of None \<Rightarrow> Err Fd_No_Row | Some r \<Rightarrow> Ok (fp_mode r))"

text \<open>\<open>ORDER BY created_at DESC, id DESC LIMIT 1\<close>.\<close>

definition open_session :: "factory_db \<Rightarrow> string \<Rightarrow> string option" where
  "open_session db p =
     (case sort_key (\<lambda>r. (- fs_created_at r)) (rev (sort_key fs_id
          (select_where (\<lambda>r. fs_product r = p \<and> fs_status r = ''open'') (fd_sessions db)))) of
        [] \<Rightarrow> None | r # rest \<Rightarrow> Some (fs_id r))"

fun insert_prompts :: "(nat \<Rightarrow> string) \<Rightarrow> string \<Rightarrow> nat \<Rightarrow> string list \<Rightarrow> intake_item list \<Rightarrow> factory_error + intake_item list" where
  "insert_prompts new session n [] items = Ok items"
| "insert_prompts new session n (k # ks) items =
     (if list_ex (\<lambda>r. fi_session r = session \<and> fi_key r = k) items
      then insert_prompts new session (Suc n) ks items
      else if \<not> free fi_id (new n) items then Err Fd_Constraint
      else insert_prompts new session (Suc n) ks (items @ [\<lparr>fi_id = new n, fi_session = session, fi_key = k,
        fi_prompt = Some (''builtin:discovery/v1/'' @ k), fi_response = [], fi_status = ''open''\<rparr>]))"

definition ensure_discovery_intake_prompts ::
  "factory_env \<Rightarrow> nat \<Rightarrow> factory_db \<Rightarrow> string \<Rightarrow> string \<Rightarrow> factory_error + factory_db" where
  "ensure_discovery_intake_prompts env n db session p =
     and_then (product_mode db p) (\<lambda>mode.
     and_then (insert_prompts (fe_id env) session n (prompts_for_mode mode) (fd_items db)) (\<lambda>items.
       Ok (db\<lparr>fd_items := items\<rparr>)))"

definition start_factory_intake :: "factory_env \<Rightarrow> factory_db \<Rightarrow> string \<Rightarrow> string \<Rightarrow> factory_error + (string option \<times> factory_db)" where
  "start_factory_intake env db owner p =
     (if \<not> product_owned db p owner then Ok (None, db)
      else case open_session db p of
        Some i \<Rightarrow> and_then (ensure_discovery_intake_prompts env 0 db i p) (\<lambda>db'. Ok (Some i, db'))
      | None \<Rightarrow> let i = fe_id env 0
          in and_then (insert_if (free fs_id i (fd_sessions db)) (db\<lparr>fd_sessions := fd_sessions db @
               [\<lparr>fs_id = i, fs_product = p, fs_status = ''open'', fs_started_by = owner, fs_created_at = fe_now env\<rparr>]\<rparr>)) (\<lambda>db1.
             and_then (ensure_discovery_intake_prompts env 1 db1 i p) (\<lambda>db'. Ok (Some i, db'))))"

definition missing_required_intake_prompt_keys :: "factory_db \<Rightarrow> string \<Rightarrow> factory_error + string list" where
  "missing_required_intake_prompt_keys db p =
     and_then (product_mode db p) (\<lambda>mode.
       case open_session db p of
         None \<Rightarrow> Ok (prompts_for_mode mode)
       | Some s \<Rightarrow> Ok (filter (\<lambda>k. \<not> list_ex (\<lambda>r. fi_session r = s \<and> fi_key r = k \<and> fi_status r = ''answered'' \<and>
           sql_nonblank (Some (fi_response r))) (fd_items db)) (prompts_for_mode mode)))"

fun read_answers :: "intake_item list \<Rightarrow> string \<Rightarrow> string list \<Rightarrow> factory_error + (string \<times> string) list" where
  "read_answers items s [] = Ok []"
| "read_answers items s (k # ks) =
     (case List.find (\<lambda>r. fi_session r = s \<and> fi_key r = k \<and> fi_status r = ''answered'') items of
        None \<Rightarrow> Err Fd_No_Row
      | Some r \<Rightarrow> and_then (read_answers items s ks) (\<lambda>rest. Ok ((k, fi_response r) # rest)))"

definition load_required_intake_answers :: "factory_db \<Rightarrow> string \<Rightarrow> factory_error + (string \<times> string) list" where
  "load_required_intake_answers db p =
     (case open_session db p of None \<Rightarrow> Err Fd_No_Row
      | Some s \<Rightarrow> and_then (product_mode db p) (\<lambda>mode. read_answers (fd_items db) s (prompts_for_mode mode)))"

definition record_factory_intake_answer ::
  "factory_env \<Rightarrow> factory_db \<Rightarrow> string \<Rightarrow> string \<Rightarrow> string \<Rightarrow> string \<Rightarrow> factory_error + (bool \<times> factory_db)" where
  "record_factory_intake_answer env db owner s k response =
     (if \<not> list_ex (\<lambda>r. fs_id r = s \<and> fs_status r = ''open'' \<and> product_owned db (fs_product r) owner) (fd_sessions db)
      then Ok (False, db)
      else case List.find (\<lambda>r. fi_session r = s \<and> fi_key r = k) (fd_items db) of
        Some item \<Rightarrow> Ok (True, db\<lparr>fd_items := update_where (\<lambda>r. fi_id r = fi_id item)
            (\<lambda>r. r\<lparr>fi_response := response, fi_status := ''answered''\<rparr>) (fd_items db)\<rparr>)
      | None \<Rightarrow> let i = fe_id env 0
          in insert_if (free fi_id i (fd_items db)) (True, db\<lparr>fd_items := fd_items db @
               [\<lparr>fi_id = i, fi_session = s, fi_key = k, fi_prompt = None, fi_response = response, fi_status = ''answered''\<rparr>]\<rparr>))"

definition latest_charter :: "factory_db \<Rightarrow> string \<Rightarrow> int" where
  "latest_charter db p =
     (let rs = map fc_revision (filter (\<lambda>r. fc_product r = p) (fd_charters db)) in if rs = [] then 0 else Max (set rs))"

text \<open>\<open>u32::try_from(n).unwrap_or(u32::MAX)\<close>.\<close>

definition as_u32 :: "int \<Rightarrow> int" where
  "as_u32 n = (if 0 \<le> n \<and> n < 2 ^ 32 then n else 2 ^ 32 - 1)"

definition create_factory_charter_draft ::
  "factory_env \<Rightarrow> factory_db \<Rightarrow> string \<Rightarrow> string \<Rightarrow> string \<Rightarrow> factory_error + ((string \<times> int) option \<times> factory_db)" where
  "create_factory_charter_draft env db owner p content =
     (if \<not> product_owned db p owner then Ok (None, db)
      else let next = as_u32 (latest_charter db p + 1); i = fe_id env 0
        in insert_if (free fc_id i (fd_charters db) \<and> free (\<lambda>r. (fc_product r, fc_revision r)) (p, next) (fd_charters db))
             (Some (i, next), db\<lparr>
               fd_charters := fd_charters db @ [\<lparr>fc_id = i, fc_product = p, fc_revision = next, fc_status = ''proposed'',
                 fc_ref = ''inline:'' @ i, fc_text = content, fc_created_by = owner\<rparr>],
               fd_products := update_where (\<lambda>r. fp_id r = p) (\<lambda>r. r\<lparr>fp_charter := Some i\<rparr>) (fd_products db)\<rparr>))"

section \<open>Requirements\<close>

definition create_factory_requirement_draft ::
  "factory_env \<Rightarrow> factory_db \<Rightarrow> string \<Rightarrow> string \<Rightarrow> string \<Rightarrow> string \<Rightarrow> factory_error + ((string \<times> string) option \<times> factory_db)" where
  "create_factory_requirement_draft env db owner p skey content =
     (case Option.bind (List.find (\<lambda>r. fp_id r = p \<and> fp_owner r = owner) (fd_products db)) fp_charter of
        None \<Rightarrow> Ok (None, db)
      | Some charter \<Rightarrow>
          let i = fe_id env 0; v = fe_id env 1; l = fe_id env 2;
              link = \<lparr>lk_id = l, lk_from = i, lk_kind = ''charter_revision'', lk_target = charter, lk_relation = ''derived_from''\<rparr>
          in insert_if (free fr_id i (fd_requirements db) \<and>
                 free (\<lambda>r. (fr_product r, fr_key r)) (p, skey) (fd_requirements db) \<and>
                 free fv_id v (fd_revisions db) \<and> free (\<lambda>r. (fv_requirement r, fv_revision r)) (i, 1) (fd_revisions db) \<and>
                 free lk_id l (fd_requirement_links db) \<and> free link_key (link_key link) (fd_requirement_links db))
               (Some (i, v), db\<lparr>
                 fd_requirements := fd_requirements db @
                   [\<lparr>fr_id = i, fr_product = p, fr_key = skey, fr_status = ''proposed'', fr_revision = 1\<rparr>],
                 fd_revisions := fd_revisions db @ [\<lparr>fv_id = v, fv_requirement = i, fv_revision = 1,
                   fv_ref = ''inline:'' @ v, fv_text = content, fv_status = ''proposed''\<rparr>],
                 fd_requirement_links := fd_requirement_links db @ [link]\<rparr>))"

text \<open>The revision a change may replace: the current one of an owned requirement, under an accepted assessment of its product.\<close>

definition replaceable_revision :: "factory_db \<Rightarrow> string \<Rightarrow> string \<Rightarrow> string \<Rightarrow> (int \<times> string) option" where
  "replaceable_revision db owner assessment req =
     (case List.find (\<lambda>r. fr_id r = req \<and> product_owned db (fr_product r) owner) (fd_requirements db) of None \<Rightarrow> None
      | Some r \<Rightarrow>
          (if list_ex (\<lambda>a. ia_id a = assessment \<and> ia_status a = ''accepted'' \<and>
                list_ex (\<lambda>c. cq_id c = ia_change a \<and> cq_product c = fr_product r) (fd_changes db)) (fd_assessments db)
           then map_option (\<lambda>v. (fr_revision r, fv_id v))
             (List.find (\<lambda>v. fv_requirement v = req \<and> fv_revision v = fr_revision r) (fd_revisions db))
           else None))"

definition apply_approved_requirement_change ::
  "factory_env \<Rightarrow> factory_db \<Rightarrow> string \<Rightarrow> string \<Rightarrow> string \<Rightarrow> string \<Rightarrow> factory_error + ((string \<times> string) option \<times> factory_db)" where
  "apply_approved_requirement_change env db owner assessment req content =
     (case replaceable_revision db owner assessment req of None \<Rightarrow> Ok (None, db)
      | Some (revision, previous) \<Rightarrow>
          let next = revision + 1; v = fe_id env 0; l = fe_id env 1;
              link = \<lparr>lk_id = l, lk_from = req, lk_kind = ''requirement_revision'', lk_target = previous, lk_relation = ''supersedes''\<rparr>;
              stale = map lk_from (filter (\<lambda>d. lk_kind d = ''requirement'' \<and> lk_target d = req) (fd_dependencies db))
          in insert_if (free fv_id v (fd_revisions db) \<and>
                 free (\<lambda>r. (fv_requirement r, fv_revision r)) (req, next) (fd_revisions db) \<and>
                 free lk_id l (fd_requirement_links db) \<and> free link_key (link_key link) (fd_requirement_links db))
               (Some (req, v), db\<lparr>
                 fd_revisions := fd_revisions db @ [\<lparr>fv_id = v, fv_requirement = req, fv_revision = next,
                   fv_ref = ''inline:'' @ v, fv_text = content, fv_status = ''proposed''\<rparr>],
                 fd_requirements := update_where (\<lambda>r. fr_id r = req) (\<lambda>r. r\<lparr>fr_revision := next\<rparr>) (fd_requirements db),
                 fd_requirement_links := fd_requirement_links db @ [link],
                 fd_targets := update_where (\<lambda>t. it_assessment t = assessment \<and> it_kind t = ''requirement'' \<and> it_target t = req)
                   (\<lambda>t. t\<lparr>it_staleness := ''current''\<rparr>) (fd_targets db),
                 fd_evidence := update_where (\<lambda>e. el_id e \<in> set stale) (\<lambda>e. e\<lparr>el_staleness := ''stale''\<rparr>) (fd_evidence db)\<rparr>))"

section \<open>Cycles and stages\<close>

definition factory_lifecycle_stages :: "string list" where
  "factory_lifecycle_stages = [''discover'', ''define'', ''design'', ''build'', ''verify'', ''release'', ''support'']"

definition cycle_owned :: "factory_db \<Rightarrow> string \<Rightarrow> string \<Rightarrow> bool" where
  "cycle_owned db c owner \<longleftrightarrow> list_ex (\<lambda>r. cy_id r = c \<and> product_owned db (cy_product r) owner) (fd_cycles db)"

definition stage_run_of :: "factory_db \<Rightarrow> string \<Rightarrow> string \<Rightarrow> stage_run option" where
  "stage_run_of db c stage = List.find (\<lambda>r. sr_cycle r = c \<and> sr_stage r = stage) (fd_runs db)"

fun insert_stage_runs :: "(nat \<Rightarrow> string) \<Rightarrow> string \<Rightarrow> nat \<Rightarrow> string list \<Rightarrow> stage_run list \<Rightarrow> factory_error + stage_run list" where
  "insert_stage_runs new c n [] rows = Ok rows"
| "insert_stage_runs new c n (stage # stages) rows =
     (if \<not> free sr_id (new n) rows \<or> \<not> free (\<lambda>r. (sr_cycle r, sr_stage r)) (c, stage) rows then Err Fd_Constraint
      else insert_stage_runs new c (Suc n) stages (rows @ [\<lparr>sr_id = new n, sr_cycle = c, sr_stage = stage,
        sr_status = ''pending'', sr_graph = None, sr_started_at = None, sr_completed_at = None\<rparr>]))"

text \<open>The cycle of a plan, its product, and whether it is new; \<open>ORDER BY created_at ASC LIMIT 1\<close>.\<close>

definition materialize_factory_cycle ::
  "factory_env \<Rightarrow> factory_db \<Rightarrow> string \<Rightarrow> string \<Rightarrow> factory_error + ((string \<times> string \<times> bool) option \<times> factory_db)" where
  "materialize_factory_cycle env db owner plan =
     (case Option.bind (List.find (\<lambda>r. fl_id r = plan \<and> fl_status r = ''approved'' \<and>
          (case fl_product r of None \<Rightarrow> False | Some p \<Rightarrow> product_owned db p owner)) (fd_plans db)) fl_product of
        None \<Rightarrow> Ok (None, db)
      | Some p \<Rightarrow>
          (case sort_key cy_created_at (select_where (\<lambda>r. cy_plan r = plan) (fd_cycles db)) of
             r # rest \<Rightarrow> Ok (Some (cy_id r, p, False), db)
           | [] \<Rightarrow> let c = fe_id env 0
               in and_then (insert_if (free cy_id c (fd_cycles db)) (fd_cycles db @ [\<lparr>cy_id = c, cy_product = p, cy_plan = plan,
                    cy_status = ''planned'', cy_stage = hd factory_lifecycle_stages, cy_created_at = fe_now env\<rparr>])) (\<lambda>cycles.
                  and_then (insert_stage_runs (fe_id env) c 1 factory_lifecycle_stages (fd_runs db)) (\<lambda>runs.
                    Ok (Some (c, p, True), db\<lparr>fd_cycles := cycles, fd_runs := runs\<rparr>)))))"

definition stage_contract :: "factory_env \<Rightarrow> contract_row" where
  "stage_contract env = \<lparr>rc_id = fe_id env 3, rc_task = Some (fe_id env 1), rc_root = []\<rparr>"

definition stage_task :: "factory_env \<Rightarrow> string \<Rightarrow> task_row" where
  "stage_task env stage =
     \<lparr>tk_id = fe_id env 1, tk_project = None, tk_plan = Some (fe_id env 0), tk_parent = None,
      tk_title = ''Factory '' @ stage @ '' stage'',
      tk_description = ''Factory lifecycle stage task graph; execution disabled by default'',
      tk_priority = 40, tk_status = ''ready'', tk_assignee_kind = Some ''agent'', tk_assignee = Some ''factory'',
      tk_acceptance = ''Explicit operator approval is required before execution'',
      tk_created_at = fe_now env, tk_updated_at = fe_now env\<rparr>"

definition stage_agent_run :: "factory_env \<Rightarrow> run_row" where
  "stage_agent_run env =
     \<lparr>rn_id = fe_id env 2, rn_task = fe_id env 1, rn_project = None, rn_provider = ''factory'', rn_agent = ''factory'',
      rn_contract = fe_id env 3, rn_attempt = 1, rn_status = ''pending'', rn_started_at = None, rn_ended_at = None,
      rn_exit_reason = None\<rparr>"

definition stage_approval :: "factory_env \<Rightarrow> string \<Rightarrow> string \<Rightarrow> approval_row" where
  "stage_approval env owner stage =
     \<lparr>ap_id = fe_id env 4, ap_project = None, ap_task = Some (fe_id env 1), ap_run = Some (fe_id env 2), ap_artifact = None,
      ap_type = ''factory_stage_execution'', ap_reason = ''Approve Factory '' @ stage @ '' stage execution plan'',
      ap_status = ''pending'', ap_owner = owner, ap_requested_at = fe_now env, ap_resolved_at = None, ap_resolved_by = None,
      ap_revision = 1\<rparr>"

definition insert_stage_rows :: "factory_env \<Rightarrow> control_db \<Rightarrow> string \<Rightarrow> string \<Rightarrow> factory_error + control_db" where
  "insert_stage_rows env db owner stage =
     insert_if (task_by_id db (fe_id env 1) = None \<and> contract_by_id db (fe_id env 3) = None \<and>
         run_by_id db (fe_id env 2) = None \<and> find_approval db (fe_id env 4) = None)
       (db\<lparr>cd_tasks := cd_tasks db @ [stage_task env stage],
          cd_contracts := cd_contracts db @ [stage_contract env],
          cd_runs := cd_runs db @ [stage_agent_run env],
          cd_approvals := cd_approvals db @ [stage_approval env owner stage]\<rparr>)"

definition materialize_factory_stage_task_graph ::
  "factory_env \<Rightarrow> factory_db \<Rightarrow> string \<Rightarrow> string \<Rightarrow> string \<Rightarrow> factory_error + (string option \<times> factory_db)" where
  "materialize_factory_stage_task_graph env db owner c stage =
     (case stage_run_of db c stage of None \<Rightarrow> Ok (None, db)
      | Some run \<Rightarrow>
          if \<not> cycle_owned db c owner then Ok (None, db)
          else case sr_graph run of
            Some g \<Rightarrow> Ok (Some g, db)
          | None \<Rightarrow> let g = fe_id env 0
              in if g \<in> set (fd_graphs db) \<or> list_ex (\<lambda>n. sn_graph n = g \<and> (sn_node n = stage \<or> sn_task n = fe_id env 1)) (fd_nodes db)
                 then Err Fd_Constraint
                 else and_then (insert_stage_rows env (fd_control db) owner stage) (\<lambda>control.
                   Ok (Some g, db\<lparr>fd_control := control, fd_graphs := fd_graphs db @ [g],
                     fd_nodes := fd_nodes db @ [\<lparr>sn_graph = g, sn_node = stage, sn_task = fe_id env 1\<rparr>],
                     fd_runs := update_where (\<lambda>r. sr_cycle r = c \<and> sr_stage r = stage) (\<lambda>r. r\<lparr>sr_graph := Some g\<rparr>)
                       (fd_runs db)\<rparr>)))"

end
