(* ===== verification/Factory_Delivery.thy ===== *)
theory Factory_Delivery
  imports Factory_Store
begin

text \<open>
  The Product Factory's repositories, second part: the stages of a cycle (\<open>factory_cycles.rs\<close>), changes and their impact,
  evidence, quality and readiness (\<open>factory_evidence.rs\<close>), releases (\<open>factory_releases.rs\<close>) and support
  (\<open>factory_support.rs\<close>).
\<close>

section \<open>Stages\<close>

definition open_cycle :: "factory_cycle \<Rightarrow> bool" where
  "open_cycle r \<longleftrightarrow> cy_status r = ''planned'' \<or> cy_status r = ''active''"

text \<open>The owner approved the execution of the stage's task.\<close>

definition stage_approved :: "factory_db \<Rightarrow> string \<Rightarrow> stage_run \<Rightarrow> bool" where
  "stage_approved db owner r \<longleftrightarrow>
     list_ex (\<lambda>n. Some (sn_graph n) = sr_graph r \<and> sn_node n = sr_stage r \<and>
       list_ex (\<lambda>a. ap_task a = Some (sn_task n) \<and> ap_type a = ''factory_stage_execution'' \<and> ap_status a = ''approved'' \<and>
         ap_owner a = owner) (cd_approvals (fd_control db))) (fd_nodes db)"

definition activate_approved_factory_stage :: "factory_env \<Rightarrow> factory_db \<Rightarrow> string \<Rightarrow> string \<Rightarrow> string \<Rightarrow> bool \<times> factory_db" where
  "activate_approved_factory_stage env db owner c stage =
     (let hit = (\<lambda>r. sr_cycle r = c \<and> sr_stage r = stage \<and> sr_status r = ''pending'' \<and> sr_graph r \<noteq> None \<and>
            list_ex (\<lambda>y. cy_id y = sr_cycle r \<and> open_cycle y \<and> product_owned db (cy_product y) owner) (fd_cycles db) \<and>
            stage_approved db owner r);
          runs = update_where hit (\<lambda>r. r\<lparr>sr_status := ''active'', sr_started_at := Some (fe_now env)\<rparr>) (fd_runs db)
      in if count_where hit (fd_runs db) = 1
         then (True, db\<lparr>fd_runs := runs, fd_cycles := update_where (\<lambda>y. cy_id y = c)
           (\<lambda>y. y\<lparr>cy_status := ''active'', cy_stage := stage\<rparr>) (fd_cycles db)\<rparr>)
         else (False, db\<lparr>fd_runs := runs\<rparr>))"

definition stage_evidenced :: "factory_db \<Rightarrow> stage_run \<Rightarrow> bool" where
  "stage_evidenced db r \<longleftrightarrow>
     list_ex (\<lambda>e. el_subject_kind e = ''stage_run'' \<and> el_subject e = sr_id r \<and> sql_nonblank (el_ref e)) (fd_evidence db)"

definition complete_factory_stage_with_evidence :: "factory_env \<Rightarrow> factory_db \<Rightarrow> string \<Rightarrow> string \<Rightarrow> string \<Rightarrow> bool \<times> factory_db" where
  "complete_factory_stage_with_evidence env db owner c stage =
     (let hit = (\<lambda>r. sr_cycle r = c \<and> sr_stage r = stage \<and> sr_status r = ''active'' \<and> stage_evidenced db r \<and>
            list_ex (\<lambda>y. cy_id y = sr_cycle r \<and> cy_status y = ''active'' \<and> product_owned db (cy_product y) owner) (fd_cycles db))
      in (count_where hit (fd_runs db) = 1, db\<lparr>fd_runs := update_where hit
            (\<lambda>r. r\<lparr>sr_status := ''completed'', sr_completed_at := Some (fe_now env)\<rparr>) (fd_runs db)\<rparr>))"

definition pause_factory_cycle :: "factory_db \<Rightarrow> string \<Rightarrow> string \<Rightarrow> bool \<times> factory_db" where
  "pause_factory_cycle db owner c =
     (let hit = (\<lambda>y. cy_id y = c \<and> open_cycle y \<and> product_owned db (cy_product y) owner)
      in (count_where hit (fd_cycles db) = 1,
          db\<lparr>fd_cycles := update_where hit (\<lambda>y. y\<lparr>cy_status := ''paused''\<rparr>) (fd_cycles db)\<rparr>))"

definition resume_factory_cycle :: "factory_db \<Rightarrow> string \<Rightarrow> string \<Rightarrow> bool \<times> factory_db" where
  "resume_factory_cycle db owner c =
     (let hit = (\<lambda>y. cy_id y = c \<and> cy_status y = ''paused'' \<and> product_owned db (cy_product y) owner)
      in (count_where hit (fd_cycles db) = 1,
          db\<lparr>fd_cycles := update_where hit (\<lambda>y. y\<lparr>cy_status :=
            (if list_ex (\<lambda>r. sr_cycle r = cy_id y \<and> sr_status r = ''active'') (fd_runs db) then ''active'' else ''planned'')\<rparr>)
            (fd_cycles db)\<rparr>))"

definition cancel_factory_cycle :: "factory_db \<Rightarrow> string \<Rightarrow> string \<Rightarrow> bool \<times> factory_db" where
  "cancel_factory_cycle db owner c =
     (if \<not> list_ex (\<lambda>y. cy_id y = c \<and> (open_cycle y \<or> cy_status y = ''paused'') \<and> product_owned db (cy_product y) owner)
          (fd_cycles db)
      then (False, db)
      else (True, db\<lparr>
        fd_cycles := update_where (\<lambda>y. cy_id y = c) (\<lambda>y. y\<lparr>cy_status := ''cancelled''\<rparr>) (fd_cycles db),
        fd_runs := update_where (\<lambda>r. sr_cycle r = c \<and> (sr_status r = ''pending'' \<or> sr_status r = ''active''))
          (\<lambda>r. r\<lparr>sr_status := ''cancelled''\<rparr>) (fd_runs db)\<rparr>))"

section \<open>Changes and their impact\<close>

definition submit_factory_change_request ::
  "factory_env \<Rightarrow> factory_db \<Rightarrow> string \<Rightarrow> string \<Rightarrow> string \<Rightarrow> factory_error + (string option \<times> factory_db)" where
  "submit_factory_change_request env db owner p summary =
     (if \<not> product_owned db p owner then Ok (None, db)
      else let i = fe_id env 0
        in insert_if (free cq_id i (fd_changes db)) (Some i, db\<lparr>fd_changes := fd_changes db @
             [\<lparr>cq_id = i, cq_product = p, cq_requested_by = owner, cq_status = ''proposed'', cq_summary = summary,
               cq_resolved_at = None\<rparr>]\<rparr>))"

definition target_key :: "impact_target \<Rightarrow> string \<times> string \<times> string \<times> string" where
  "target_key t = (it_assessment t, it_kind t, it_target t, it_relation t)"

fun insert_targets ::
  "(nat \<Rightarrow> string) \<Rightarrow> string \<Rightarrow> nat \<Rightarrow> (string \<times> string) list \<Rightarrow> impact_target list \<Rightarrow> factory_error + impact_target list" where
  "insert_targets new a n [] rows = Ok rows"
| "insert_targets new a n ((kind, target) # targets) rows =
     (let t = \<lparr>it_id = new n, it_assessment = a, it_kind = kind, it_target = target, it_relation = ''affected_by'',
        it_staleness = ''stale''\<rparr>
      in if \<not> free it_id (new n) rows \<or> \<not> free target_key (target_key t) rows then Err Fd_Constraint
         else insert_targets new a (Suc n) targets (rows @ [t]))"

definition impact_of :: "factory_db \<Rightarrow> string \<Rightarrow> (string \<times> string) list" where
  "impact_of db p =
     map (\<lambda>r. (''requirement'', fr_id r)) (select_where (\<lambda>r. fr_product r = p) (fd_requirements db)) @
     map (\<lambda>r. (''charter_revision'', fc_id r)) (select_where (\<lambda>r. fc_product r = p) (fd_charters db))"

text \<open>\<open>saturating_add(1)\<close>; \<open>- 1\<close> is the largest word.\<close>

definition saturating_succ :: "32 word \<Rightarrow> 32 word" where
  "saturating_succ n = (if n = - 1 then n else n + 1)"

definition assess_factory_change_request ::
  "factory_env \<Rightarrow> factory_db \<Rightarrow> string \<Rightarrow> string \<Rightarrow> factory_error + ((string \<times> 32 word) option \<times> factory_db)" where
  "assess_factory_change_request env db owner change =
     (case List.find (\<lambda>r. cq_id r = change \<and> cq_status r = ''proposed'' \<and> product_owned db (cq_product r) owner) (fd_changes db) of
        None \<Rightarrow> Ok (None, db)
      | Some r \<Rightarrow>
          let a = fe_id env 0; impact = impact_of db (cq_product r);
              affected = fold (\<lambda>x. saturating_succ) impact 0
          in if \<not> free ia_id a (fd_assessments db) then Err Fd_Constraint
             else and_then (insert_targets (fe_id env) a 1 impact (fd_targets db)) (\<lambda>targets.
               Ok (Some (a, affected), db\<lparr>
                 fd_assessments := fd_assessments db @ [\<lparr>ia_id = a, ia_change = change, ia_status = ''ready'',
                   ia_affected = affected, ia_accepted_at = None\<rparr>],
                 fd_targets := targets,
                 fd_changes := update_where (\<lambda>q. cq_id q = change) (\<lambda>q. q\<lparr>cq_status := ''awaiting_approval''\<rparr>)
                   (fd_changes db)\<rparr>)))"

definition resolve_factory_impact_assessment :: "factory_env \<Rightarrow> factory_db \<Rightarrow> string \<Rightarrow> string \<Rightarrow> bool \<Rightarrow> bool \<times> factory_db" where
  "resolve_factory_impact_assessment env db owner i approved =
     (case List.find (\<lambda>a. ia_id a = i \<and> ia_status a = ''ready'' \<and>
         list_ex (\<lambda>q. cq_id q = ia_change a \<and> cq_status q = ''awaiting_approval'' \<and> product_owned db (cq_product q) owner)
           (fd_changes db)) (fd_assessments db) of
        None \<Rightarrow> (False, db)
      | Some a \<Rightarrow>
          let status = (if approved then ''accepted'' else ''rejected'')
          in (True, db\<lparr>
               fd_assessments := update_where (\<lambda>b. ia_id b = i)
                 (\<lambda>b. b\<lparr>ia_status := status, ia_accepted_at := Some (fe_now env)\<rparr>) (fd_assessments db),
               fd_changes := update_where (\<lambda>q. cq_id q = ia_change a)
                 (\<lambda>q. q\<lparr>cq_status := status, cq_resolved_at := Some (fe_now env)\<rparr>) (fd_changes db)\<rparr>))"

section \<open>Evidence\<close>

definition link_factory_stage_evidence_to_requirement ::
  "factory_env \<Rightarrow> factory_db \<Rightarrow> string \<Rightarrow> string \<Rightarrow> string \<Rightarrow> bool \<times> factory_db" where
  "link_factory_stage_evidence_to_requirement env db owner e req =
     (if \<not> list_ex (\<lambda>x. el_id x = e \<and> el_subject_kind x = ''stage_run'' \<and> product_owned db (el_product x) owner \<and>
          list_ex (\<lambda>r. fr_id r = req \<and> fr_product r = el_product x) (fd_requirements db)) (fd_evidence db)
      then (False, db)
      else let i = fe_id env 0;
               link = \<lparr>lk_id = i, lk_from = e, lk_kind = ''requirement'', lk_target = req, lk_relation = ''verifies''\<rparr>
        in (True, db\<lparr>fd_dependencies :=
             (if free lk_id i (fd_dependencies db) \<and> free link_key (link_key link) (fd_dependencies db)
              then fd_dependencies db @ [link] else fd_dependencies db)\<rparr>))"

text \<open>The run of an owned stage, with the product of its cycle.\<close>

definition owned_stage_run :: "factory_db \<Rightarrow> string \<Rightarrow> string \<Rightarrow> string \<Rightarrow> (stage_run \<times> string) option" where
  "owned_stage_run db owner c stage =
     (case List.find (\<lambda>y. cy_id y = c) (fd_cycles db) of None \<Rightarrow> None
      | Some y \<Rightarrow> if product_owned db (cy_product y) owner
          then map_option (\<lambda>r. (r, cy_product y)) (stage_run_of db c stage) else None)"

definition record_factory_stage_evidence ::
  "factory_env \<Rightarrow> factory_db \<Rightarrow> string \<Rightarrow> string \<Rightarrow> string \<Rightarrow> string \<Rightarrow> factory_error + (string option \<times> factory_db)" where
  "record_factory_stage_evidence env db owner c stage content =
     (if trim content = [] then Ok (None, db)
      else case owned_stage_run db owner c stage of None \<Rightarrow> Ok (None, db)
      | Some (r, p) \<Rightarrow> let i = fe_id env 0
          in insert_if (free el_id i (fd_evidence db)) (Some i, db\<lparr>fd_evidence := fd_evidence db @
               [\<lparr>el_id = i, el_product = p, el_subject_kind = ''stage_run'', el_subject = sr_id r, el_artifact = None,
                 el_ref = Some content, el_storage = ''inline_reference'', el_staleness = ''current''\<rparr>]\<rparr>))"

text \<open>The content reference of an artifact of the stage's own task.\<close>

definition stage_artifact_ref :: "factory_db \<Rightarrow> stage_run \<Rightarrow> string \<Rightarrow> string option" where
  "stage_artifact_ref db r i =
     (if list_ex (\<lambda>n. Some (sn_graph n) = sr_graph r \<and> sn_node n = sr_stage r \<and>
         list_ex (\<lambda>a. af_id a = i \<and> af_task a = sn_task n) (cd_artifacts (fd_control db))) (fd_nodes db)
      then map_of (fd_artifact_refs db) i else None)"

definition record_factory_stage_artifact_evidence ::
  "factory_env \<Rightarrow> factory_db \<Rightarrow> string \<Rightarrow> string \<Rightarrow> string \<Rightarrow> string \<Rightarrow> factory_error + (string option \<times> factory_db)" where
  "record_factory_stage_artifact_evidence env db owner c stage artifact =
     (case owned_stage_run db owner c stage of None \<Rightarrow> Ok (None, db)
      | Some (r, p) \<Rightarrow>
          let content = stage_artifact_ref db r artifact; i = fe_id env 0
          in if \<not> sql_nonblank content then Ok (None, db)
             else insert_if (free el_id i (fd_evidence db)) (Some i, db\<lparr>fd_evidence := fd_evidence db @
               [\<lparr>el_id = i, el_product = p, el_subject_kind = ''stage_run'', el_subject = sr_id r, el_artifact = Some artifact,
                 el_ref = content, el_storage = ''content_addressed_artifact'', el_staleness = ''current''\<rparr>]\<rparr>))"

section \<open>Quality\<close>

definition create_factory_quality_profile ::
  "factory_env \<Rightarrow> factory_db \<Rightarrow> string \<Rightarrow> string \<Rightarrow> string \<Rightarrow> bool \<Rightarrow> factory_error + (string option \<times> factory_db)" where
  "create_factory_quality_profile env db owner p name required =
     (if \<not> product_owned db p owner then Ok (None, db)
      else let i = fe_id env 0
        in insert_if (free qp_id i (fd_profiles db)) (Some i, db\<lparr>fd_profiles := fd_profiles db @
             [\<lparr>qp_id = i, qp_product = p, qp_name = name, qp_required = required, qp_created_at = fe_now env\<rparr>]\<rparr>))"

definition react_native_closed_testing_quality_gates :: "string list" where
  "react_native_closed_testing_quality_gates =
     [''TypeScript verification'', ''Expo public configuration'', ''Web production export'',
      ''High/critical dependency audit'', ''Android device or closed-testing evidence'',
      ''iOS device or TestFlight evidence'']"

fun ensure_profiles ::
  "(nat \<Rightarrow> string) \<Rightarrow> int \<Rightarrow> string \<Rightarrow> nat \<Rightarrow> string list \<Rightarrow> quality_profile list \<Rightarrow>
     factory_error + (string list \<times> quality_profile list)" where
  "ensure_profiles new now p n [] rows = Ok ([], rows)"
| "ensure_profiles new now p n (name # names) rows =
     (case sort_key qp_created_at (select_where (\<lambda>r. qp_product r = p \<and> qp_name r = name) rows) of
        r # rest \<Rightarrow> and_then (ensure_profiles new now p n names rows) (\<lambda>(ids, rows'). Ok (qp_id r # ids, rows'))
      | [] \<Rightarrow>
          if \<not> free qp_id (new n) rows then Err Fd_Constraint
          else and_then (ensure_profiles new now p (Suc n) names (rows @
              [\<lparr>qp_id = new n, qp_product = p, qp_name = name, qp_required = True, qp_created_at = now\<rparr>]))
            (\<lambda>(ids, rows'). Ok (new n # ids, rows')))"

definition ensure_react_native_closed_testing_quality_profile ::
  "factory_env \<Rightarrow> factory_db \<Rightarrow> string \<Rightarrow> string \<Rightarrow> factory_error + (string list option \<times> factory_db)" where
  "ensure_react_native_closed_testing_quality_profile env db owner p =
     (if \<not> product_owned db p owner then Ok (None, db)
      else and_then (ensure_profiles (fe_id env) (fe_now env) p 0 react_native_closed_testing_quality_gates (fd_profiles db))
        (\<lambda>(ids, rows). Ok (Some ids, db\<lparr>fd_profiles := rows\<rparr>)))"

definition record_factory_quality_check ::
  "factory_env \<Rightarrow> factory_db \<Rightarrow> string \<Rightarrow> string \<Rightarrow> bool \<Rightarrow> string \<Rightarrow> factory_error + (string option \<times> factory_db)" where
  "record_factory_quality_check env db owner profile passed evidence =
     (if trim evidence = [] then Ok (None, db)
      else case List.find (\<lambda>r. qp_id r = profile \<and> product_owned db (qp_product r) owner) (fd_profiles db) of
        None \<Rightarrow> Ok (None, db)
      | Some r \<Rightarrow> let i = fe_id env 0
          in insert_if (free qc_id i (fd_checks db)) (Some i, db\<lparr>fd_checks := fd_checks db @
               [\<lparr>qc_id = i, qc_profile = profile, qc_product = qp_product r,
                 qc_status = (if passed then ''passed'' else ''failed''), qc_evidence = Some evidence\<rparr>]\<rparr>))"

text \<open>The counts are read as \<open>u32\<close>; no table holds that many rows.\<close>

record release_readiness =
  rr_quality_blockers :: nat
  rr_verify_completed :: bool
  rr_pending_assessments :: nat
  rr_stale_evidence :: nat
  rr_ready :: bool

definition profile_blocks :: "factory_db \<Rightarrow> string \<Rightarrow> quality_profile \<Rightarrow> bool" where
  "profile_blocks db p r \<longleftrightarrow> qp_product r = p \<and> qp_required r \<and>
     \<not> list_ex (\<lambda>k. qc_profile k = qp_id r \<and> qc_status k = ''passed'' \<and> sql_nonblank (qc_evidence k)) (fd_checks db)"

definition verify_completed :: "factory_db \<Rightarrow> string \<Rightarrow> bool" where
  "verify_completed db p \<longleftrightarrow>
     list_ex (\<lambda>r. sr_stage r = ''verify'' \<and> sr_status r = ''completed'' \<and>
       list_ex (\<lambda>y. cy_id y = sr_cycle r \<and> cy_product y = p) (fd_cycles db)) (fd_runs db)"

definition factory_release_readiness :: "factory_db \<Rightarrow> string \<Rightarrow> string \<Rightarrow> release_readiness option" where
  "factory_release_readiness db owner p =
     (if \<not> product_owned db p owner then None
      else let blockers = count_where (profile_blocks db p) (fd_profiles db);
               waiting = count_where (\<lambda>a. ia_status a = ''ready'' \<and>
                 list_ex (\<lambda>q. cq_id q = ia_change a \<and> cq_product q = p) (fd_changes db)) (fd_assessments db);
               stale = count_where (\<lambda>e. el_product e = p \<and> el_staleness e = ''stale'') (fd_evidence db)
        in Some \<lparr>rr_quality_blockers = blockers, rr_verify_completed = verify_completed db p,
             rr_pending_assessments = waiting, rr_stale_evidence = stale,
             rr_ready = (blockers = 0 \<and> verify_completed db p \<and> waiting = 0 \<and> stale = 0)\<rparr>)"

definition factory_release_ready :: "factory_db \<Rightarrow> string \<Rightarrow> string \<Rightarrow> bool option" where
  "factory_release_ready db owner p = map_option rr_ready (factory_release_readiness db owner p)"

section \<open>Releases and support\<close>

definition create_factory_release_draft ::
  "factory_env \<Rightarrow> factory_db \<Rightarrow> string \<Rightarrow> string \<Rightarrow> string \<Rightarrow> factory_error + (string option \<times> factory_db)" where
  "create_factory_release_draft env db owner p build =
     (if factory_release_ready db owner p \<noteq> Some True then Ok (None, db)
      else let i = fe_id env 0
        in insert_if (free rl_id i (fd_releases db)) (Some i, db\<lparr>fd_releases := fd_releases db @
             [\<lparr>rl_id = i, rl_product = p, rl_status = ''draft'', rl_build = build\<rparr>]\<rparr>))"

definition approve_factory_closed_testing_release ::
  "factory_env \<Rightarrow> factory_db \<Rightarrow> string \<Rightarrow> string \<Rightarrow> factory_error + (bool \<times> factory_db)" where
  "approve_factory_closed_testing_release env db owner i =
     (if \<not> list_ex (\<lambda>r. rl_id r = i \<and> rl_status r = ''draft'' \<and> product_owned db (rl_product r) owner) (fd_releases db)
      then Ok (False, db)
      else let k = fe_id env 0
        in insert_if (free rh_id k (fd_channels db) \<and> free (\<lambda>h. (rh_release h, rh_kind h)) (i, ''closed_testing'') (fd_channels db))
             (True, db\<lparr>
               fd_releases := update_where (\<lambda>r. rl_id r = i) (\<lambda>r. r\<lparr>rl_status := ''approved''\<rparr>) (fd_releases db),
               fd_channels := fd_channels db @
                 [\<lparr>rh_id = k, rh_release = i, rh_kind = ''closed_testing'', rh_status = ''approved''\<rparr>]\<rparr>))"

definition open_support :: "support_item \<Rightarrow> bool" where
  "open_support r \<longleftrightarrow> su_status r = ''new'' \<or> su_status r = ''triaged'' \<or> su_status r = ''in_progress''"

record support_overview =
  so_open :: nat
  so_resolved :: nat
  so_linked_changes :: nat
  so_oldest_open :: "int option"

definition factory_support_overview :: "factory_db \<Rightarrow> string \<Rightarrow> string \<Rightarrow> support_overview option" where
  "factory_support_overview db owner p =
     (if \<not> product_owned db p owner then None
      else Some \<lparr>so_open = count_where (\<lambda>r. su_product r = p \<and> open_support r) (fd_support db),
        so_resolved = count_where (\<lambda>r. su_product r = p \<and> su_status r = ''resolved'') (fd_support db),
        so_linked_changes = count_where (\<lambda>k. lk_kind k = ''change_request'' \<and>
          list_ex (\<lambda>r. su_id r = lk_from k \<and> su_product r = p) (fd_support db)) (fd_support_links db),
        so_oldest_open = (case sort_key su_created_at (select_where (\<lambda>r. su_product r = p \<and> open_support r) (fd_support db)) of
          [] \<Rightarrow> None | r # rest \<Rightarrow> Some (su_created_at r))\<rparr>)"

definition create_factory_support_item ::
  "factory_env \<Rightarrow> factory_db \<Rightarrow> string \<Rightarrow> string \<Rightarrow> string \<Rightarrow> string \<Rightarrow> factory_error + (string option \<times> factory_db)" where
  "create_factory_support_item env db owner p source summary =
     (if \<not> product_owned db p owner then Ok (None, db)
      else let i = fe_id env 0
        in insert_if (free su_id i (fd_support db)) (Some i, db\<lparr>fd_support := fd_support db @
             [\<lparr>su_id = i, su_product = p, su_source = source, su_status = ''new'', su_summary = summary, su_resolution = [],
               su_created_at = fe_now env, su_resolved_at = None\<rparr>]\<rparr>))"

definition triage_factory_support_item :: "factory_db \<Rightarrow> string \<Rightarrow> string \<Rightarrow> bool \<times> factory_db" where
  "triage_factory_support_item db owner i =
     (let hit = (\<lambda>r. su_id r = i \<and> su_status r = ''new'' \<and> product_owned db (su_product r) owner)
      in (count_where hit (fd_support db) = 1,
          db\<lparr>fd_support := update_where hit (\<lambda>r. r\<lparr>su_status := ''triaged''\<rparr>) (fd_support db)\<rparr>))"

definition resolve_factory_support_item :: "factory_env \<Rightarrow> factory_db \<Rightarrow> string \<Rightarrow> string \<Rightarrow> string \<Rightarrow> bool \<times> factory_db" where
  "resolve_factory_support_item env db owner i resolution =
     (let hit = (\<lambda>r. su_id r = i \<and> open_support r \<and> product_owned db (su_product r) owner)
      in (count_where hit (fd_support db) = 1,
          db\<lparr>fd_support := update_where hit (\<lambda>r. r\<lparr>su_status := ''resolved'', su_resolution := resolution,
            su_resolved_at := Some (fe_now env)\<rparr>) (fd_support db)\<rparr>))"

definition link_support_to_change_request :: "factory_env \<Rightarrow> factory_db \<Rightarrow> string \<Rightarrow> string \<Rightarrow> string \<Rightarrow> bool \<times> factory_db" where
  "link_support_to_change_request env db owner i change =
     (if \<not> list_ex (\<lambda>r. su_id r = i \<and> product_owned db (su_product r) owner \<and>
          list_ex (\<lambda>q. cq_id q = change \<and> cq_product q = su_product r) (fd_changes db)) (fd_support db)
      then (False, db)
      else let k = fe_id env 0;
               link = \<lparr>lk_id = k, lk_from = i, lk_kind = ''change_request'', lk_target = change, lk_relation = ''raised_by''\<rparr>
        in (True, db\<lparr>fd_support_links :=
             (if free lk_id k (fd_support_links db) \<and> free link_key (link_key link) (fd_support_links db)
              then fd_support_links db @ [link] else fd_support_links db)\<rparr>))"

end
