(* ===== verification/Factory_Service.thy ===== *)
theory Factory_Service
  imports Factory_Delivery Control_Plane Text_Lines
begin

text \<open>
  The Product Factory's commands: \<open>raios-contracts/src/factory.rs\<close>, \<open>raios-runtime/src/product_factory/service.rs\<close>, its
  \<open>service/validate.rs\<close> and \<open>service/commands.rs\<close>, \<open>product_factory/charter.rs\<close>, and the gate of the MCP and HTTP
  surfaces (\<open>mcp/tools_factory.rs\<close>, \<open>http/routes.rs\<close>). A command is checked, looked up under its idempotency key and run in
  one transaction together with its idempotency record and its audit row. What a command finds outside the database
  (files, git, the scaffolder, the hash, encoders and the secret scan) are the parameters of the record
  \<open>factory_world\<close>; directories the scaffolder fills outlive the transaction, so they are part of the state.
\<close>

section \<open>Commands\<close>

datatype factory_mode = Quick | Governed

text \<open>The last field of every command is its idempotency key.\<close>

datatype factory_command =
    Create_Workspace string string
  | Create_Product_Draft string string string
  | Set_Product_Mode string factory_mode string
  | Scaffold_Project string string
  | Attach_Existing_Project string string string
  | Start_Intake string string
  | Record_Intake_Answer string string string string
  | Create_Charter_Draft string string string
  | Generate_Charter_Draft string string
  | Create_Requirement_Draft string string string string
  | Submit_Change_Request string string string
  | Assess_Change_Request string string
  | Resolve_Impact_Assessment string bool string
  | Apply_Approved_Requirement_Change string string string string
  | Create_Plan_Draft string string string
  | Approve_Plan string string
  | Materialize_Planned_Cycle string string
  | Pause_Cycle string string
  | Resume_Cycle string string
  | Cancel_Cycle string string
  | Materialize_Stage_Task_Graph string string string
  | Activate_Approved_Stage string string string
  | Record_Stage_Evidence string string string string
  | Link_Stage_Evidence_To_Requirement string string string
  | Complete_Stage string string string
  | Inspect_Release_Readiness string string
  | Create_Quality_Profile string string bool string
  | Ensure_React_Native_Profile string string
  | Record_Quality_Check string bool string string
  | Create_Release_Draft string string string
  | Approve_Closed_Testing_Release string string
  | Create_Support_Item string string string string
  | Inspect_Support_Overview string string
  | Triage_Support_Item string string
  | Resolve_Support_Item string string string
  | Link_Support_To_Change_Request string string string
  | Request_Impact_Assessment string string

primrec factory_key :: "factory_command \<Rightarrow> string" where
  "factory_key (Create_Workspace name k) = k"
| "factory_key (Create_Product_Draft w title k) = k"
| "factory_key (Set_Product_Mode p m k) = k"
| "factory_key (Scaffold_Project p k) = k"
| "factory_key (Attach_Existing_Project p path k) = k"
| "factory_key (Start_Intake p k) = k"
| "factory_key (Record_Intake_Answer s q r k) = k"
| "factory_key (Create_Charter_Draft p c k) = k"
| "factory_key (Generate_Charter_Draft p k) = k"
| "factory_key (Create_Requirement_Draft p q c k) = k"
| "factory_key (Submit_Change_Request p s k) = k"
| "factory_key (Assess_Change_Request i k) = k"
| "factory_key (Resolve_Impact_Assessment i b k) = k"
| "factory_key (Apply_Approved_Requirement_Change a r c k) = k"
| "factory_key (Create_Plan_Draft p title k) = k"
| "factory_key (Approve_Plan i k) = k"
| "factory_key (Materialize_Planned_Cycle i k) = k"
| "factory_key (Pause_Cycle c k) = k"
| "factory_key (Resume_Cycle c k) = k"
| "factory_key (Cancel_Cycle c k) = k"
| "factory_key (Materialize_Stage_Task_Graph c s k) = k"
| "factory_key (Activate_Approved_Stage c s k) = k"
| "factory_key (Record_Stage_Evidence c s r k) = k"
| "factory_key (Link_Stage_Evidence_To_Requirement e r k) = k"
| "factory_key (Complete_Stage c s k) = k"
| "factory_key (Inspect_Release_Readiness p k) = k"
| "factory_key (Create_Quality_Profile p name b k) = k"
| "factory_key (Ensure_React_Native_Profile p k) = k"
| "factory_key (Record_Quality_Check q b e k) = k"
| "factory_key (Create_Release_Draft p b k) = k"
| "factory_key (Approve_Closed_Testing_Release r k) = k"
| "factory_key (Create_Support_Item p s t k) = k"
| "factory_key (Inspect_Support_Overview p k) = k"
| "factory_key (Triage_Support_Item i k) = k"
| "factory_key (Resolve_Support_Item i r k) = k"
| "factory_key (Link_Support_To_Change_Request i q k) = k"
| "factory_key (Request_Impact_Assessment i k) = k"

primrec factory_command_name :: "factory_command \<Rightarrow> string" where
  "factory_command_name (Create_Workspace name k) = ''factory_create_workspace''"
| "factory_command_name (Create_Product_Draft w title k) = ''factory_create_product_draft''"
| "factory_command_name (Set_Product_Mode p m k) = ''factory_set_product_mode''"
| "factory_command_name (Scaffold_Project p k) = ''factory_scaffold_project''"
| "factory_command_name (Attach_Existing_Project p path k) = ''factory_attach_existing_project''"
| "factory_command_name (Start_Intake p k) = ''factory_start_intake''"
| "factory_command_name (Record_Intake_Answer s q r k) = ''factory_record_intake_answer''"
| "factory_command_name (Create_Charter_Draft p c k) = ''factory_create_charter_draft''"
| "factory_command_name (Generate_Charter_Draft p k) = ''factory_generate_charter_draft''"
| "factory_command_name (Create_Requirement_Draft p q c k) = ''factory_create_requirement_draft''"
| "factory_command_name (Submit_Change_Request p s k) = ''factory_submit_change_request''"
| "factory_command_name (Assess_Change_Request i k) = ''factory_assess_change_request''"
| "factory_command_name (Resolve_Impact_Assessment i b k) = ''factory_resolve_impact_assessment''"
| "factory_command_name (Apply_Approved_Requirement_Change a r c k) = ''factory_apply_requirement_change''"
| "factory_command_name (Create_Plan_Draft p title k) = ''factory_create_plan_draft''"
| "factory_command_name (Approve_Plan i k) = ''factory_approve_plan''"
| "factory_command_name (Materialize_Planned_Cycle i k) = ''factory_materialize_planned_cycle''"
| "factory_command_name (Pause_Cycle c k) = ''factory_pause_cycle''"
| "factory_command_name (Resume_Cycle c k) = ''factory_resume_cycle''"
| "factory_command_name (Cancel_Cycle c k) = ''factory_cancel_cycle''"
| "factory_command_name (Materialize_Stage_Task_Graph c s k) = ''factory_materialize_stage_task_graph''"
| "factory_command_name (Activate_Approved_Stage c s k) = ''factory_activate_approved_stage''"
| "factory_command_name (Record_Stage_Evidence c s r k) = ''factory_record_stage_evidence''"
| "factory_command_name (Link_Stage_Evidence_To_Requirement e r k) = ''factory_link_evidence_requirement''"
| "factory_command_name (Complete_Stage c s k) = ''factory_complete_stage''"
| "factory_command_name (Inspect_Release_Readiness p k) = ''factory_inspect_release_readiness''"
| "factory_command_name (Create_Quality_Profile p name b k) = ''factory_create_quality_profile''"
| "factory_command_name (Ensure_React_Native_Profile p k) = ''factory_ensure_react_native_closed_testing_quality_profile''"
| "factory_command_name (Record_Quality_Check q b e k) = ''factory_record_quality_check''"
| "factory_command_name (Create_Release_Draft p b k) = ''factory_create_release_draft''"
| "factory_command_name (Approve_Closed_Testing_Release r k) = ''factory_approve_closed_testing_release''"
| "factory_command_name (Create_Support_Item p s t k) = ''factory_create_support_item''"
| "factory_command_name (Inspect_Support_Overview p k) = ''factory_inspect_support_overview''"
| "factory_command_name (Triage_Support_Item i k) = ''factory_triage_support_item''"
| "factory_command_name (Resolve_Support_Item i r k) = ''factory_resolve_support_item''"
| "factory_command_name (Link_Support_To_Change_Request i q k) = ''factory_link_support_change''"
| "factory_command_name (Request_Impact_Assessment i k) = ''factory_request_impact_assessment''"

section \<open>State and surroundings\<close>

text \<open>A result is a JSON object.\<close>

datatype json_value = J_Text string | J_Flag bool | J_Number int | J_Null | J_Texts "string list"

type_synonym reply = "(string \<times> json_value) list"

record factory_idem =
  fk_key :: string
  fk_hash :: string
  fk_command :: string
  fk_result :: "reply option"

text \<open>The database with the idempotency table, and the directories the scaffolder has filled.\<close>

record factory_plane =
  fy_db :: factory_db
  fy_idem :: "factory_idem list"
  fy_made :: "string list"

datatype git_answer = Git_Missing | Git_Failed | Git_Output "string option"

record factory_world =
  fo_hash :: "string \<Rightarrow> string"
  fo_command :: "factory_command \<Rightarrow> string"
  fo_envelope :: "string \<Rightarrow> string \<Rightarrow> string \<Rightarrow> string"
  fo_secret :: "string \<Rightarrow> bool"
  fo_error :: "factory_error \<Rightarrow> string"
  fo_audit_error :: string
  fo_root :: string
  fo_is_dir :: "string \<Rightarrow> bool"
  fo_nonempty :: "string \<Rightarrow> bool"
  fo_scaffolds :: "string \<Rightarrow> bool"
  fo_canonical :: "string \<Rightarrow> string option"
  fo_has_git :: "string \<Rightarrow> bool"
  fo_git :: "string \<Rightarrow> string list \<Rightarrow> git_answer"

record factory_call =
  fx_env :: factory_env
  fx_stamp :: string
  fx_enabled :: bool
  fx_audit_ok :: bool
  fx_idem_table :: "string option"
  fx_idem_read :: "string option"
  fx_begin :: "string option"
  fx_commit :: "string option"

section \<open>Validation\<close>

definition valid_text :: "factory_world \<Rightarrow> string \<Rightarrow> nat \<Rightarrow> bool" where
  "valid_text w s n \<longleftrightarrow> trim s \<noteq> [] \<and> length s \<le> n \<and> CHR 0x00 \<notin> set s \<and> \<not> fo_secret w s"

definition is_ascii_alphanumeric :: "char \<Rightarrow> bool" where
  "is_ascii_alphanumeric c \<longleftrightarrow> is_ascii_digit c \<or> (65 \<le> (of_char c :: nat) \<and> (of_char c :: nat) \<le> 90) \<or>
     (97 \<le> (of_char c :: nat) \<and> (of_char c :: nat) \<le> 122)"

lemma is_ascii_alphanumeric_code [code]:
  "is_ascii_alphanumeric (Char b0 b1 b2 b3 b4 b5 b6 b7) \<longleftrightarrow>
     is_ascii_digit (Char b0 b1 b2 b3 b4 b5 b6 b7) \<or> \<not> b7 \<and> b6 \<and> letter_bits b0 b1 b2 b3 b4"
  by (cases b0; cases b1; cases b2; cases b3; cases b4; cases b5; cases b6; cases b7)
    (simp_all add: is_ascii_alphanumeric_def is_ascii_digit_def letter_bits_def)

definition identifier_char :: "char \<Rightarrow> bool" where
  "identifier_char c \<longleftrightarrow> is_ascii_alphanumeric c \<or> c = CHR ''-'' \<or> c = CHR ''_'' \<or> c = CHR ''.''"

definition valid_identifier :: "factory_world \<Rightarrow> string \<Rightarrow> bool" where
  "valid_identifier w s \<longleftrightarrow> valid_text w s 128 \<and> list_all identifier_char s"

definition valid_idempotency_key :: "factory_world \<Rightarrow> string \<Rightarrow> bool" where
  "valid_idempotency_key w s \<longleftrightarrow> valid_identifier w s \<and> 8 \<le> length s"

definition valid_absolute_project_path :: "factory_world \<Rightarrow> string \<Rightarrow> bool" where
  "valid_absolute_project_path w s \<longleftrightarrow> valid_text w s 4096 \<and> starts_with s ''/''"

definition is_factory_stage :: "string \<Rightarrow> bool" where
  "is_factory_stage s \<longleftrightarrow> s \<in> set factory_lifecycle_stages"

primrec valid_fields :: "factory_world \<Rightarrow> factory_command \<Rightarrow> bool" where
  "valid_fields w (Create_Workspace name k) = valid_text w name 120"
| "valid_fields w (Create_Product_Draft ws title k) = (valid_identifier w ws \<and> valid_text w title 160)"
| "valid_fields w (Set_Product_Mode p m k) = valid_identifier w p"
| "valid_fields w (Scaffold_Project p k) = valid_identifier w p"
| "valid_fields w (Attach_Existing_Project p path k) = (valid_identifier w p \<and> valid_absolute_project_path w path)"
| "valid_fields w (Start_Intake p k) = valid_identifier w p"
| "valid_fields w (Record_Intake_Answer s q r k) = (valid_identifier w s \<and> valid_identifier w q \<and> valid_text w r 8000)"
| "valid_fields w (Create_Charter_Draft p c k) = (valid_identifier w p \<and> valid_text w c 32000)"
| "valid_fields w (Generate_Charter_Draft p k) = valid_identifier w p"
| "valid_fields w (Create_Requirement_Draft p q c k) = (valid_identifier w p \<and> valid_identifier w q \<and> valid_text w c 16000)"
| "valid_fields w (Submit_Change_Request p s k) = (valid_identifier w p \<and> valid_text w s 4000)"
| "valid_fields w (Assess_Change_Request i k) = valid_identifier w i"
| "valid_fields w (Resolve_Impact_Assessment i b k) = valid_identifier w i"
| "valid_fields w (Apply_Approved_Requirement_Change a r c k) =
     (valid_identifier w a \<and> valid_identifier w r \<and> valid_text w c 16000)"
| "valid_fields w (Create_Plan_Draft p title k) = (valid_identifier w p \<and> valid_text w title 160)"
| "valid_fields w (Approve_Plan i k) = valid_identifier w i"
| "valid_fields w (Materialize_Planned_Cycle i k) = valid_identifier w i"
| "valid_fields w (Pause_Cycle c k) = valid_identifier w c"
| "valid_fields w (Resume_Cycle c k) = valid_identifier w c"
| "valid_fields w (Cancel_Cycle c k) = valid_identifier w c"
| "valid_fields w (Materialize_Stage_Task_Graph c s k) = (valid_identifier w c \<and> is_factory_stage s)"
| "valid_fields w (Activate_Approved_Stage c s k) = (valid_identifier w c \<and> is_factory_stage s)"
| "valid_fields w (Record_Stage_Evidence c s r k) = (valid_identifier w c \<and> is_factory_stage s \<and> valid_text w r 2000)"
| "valid_fields w (Link_Stage_Evidence_To_Requirement e r k) = (valid_identifier w e \<and> valid_identifier w r)"
| "valid_fields w (Complete_Stage c s k) = (valid_identifier w c \<and> is_factory_stage s)"
| "valid_fields w (Inspect_Release_Readiness p k) = valid_identifier w p"
| "valid_fields w (Create_Quality_Profile p name b k) = (valid_identifier w p \<and> valid_text w name 160)"
| "valid_fields w (Ensure_React_Native_Profile p k) = valid_identifier w p"
| "valid_fields w (Record_Quality_Check q b e k) = (valid_identifier w q \<and> valid_text w e 2000)"
| "valid_fields w (Create_Release_Draft p b k) = (valid_identifier w p \<and> valid_text w b 2000)"
| "valid_fields w (Approve_Closed_Testing_Release r k) = valid_identifier w r"
| "valid_fields w (Create_Support_Item p s t k) = (valid_identifier w p \<and> valid_identifier w s \<and> valid_text w t 4000)"
| "valid_fields w (Inspect_Support_Overview p k) = valid_identifier w p"
| "valid_fields w (Triage_Support_Item i k) = valid_identifier w i"
| "valid_fields w (Resolve_Support_Item i r k) = (valid_identifier w i \<and> valid_text w r 2000)"
| "valid_fields w (Link_Support_To_Change_Request i q k) = (valid_identifier w i \<and> valid_identifier w q)"
| "valid_fields w (Request_Impact_Assessment i k) = valid_identifier w i"

definition validate_command :: "factory_world \<Rightarrow> factory_command \<Rightarrow> problem + unit" where
  "validate_command w cmd =
     (if valid_fields w cmd \<and> valid_idempotency_key w (factory_key cmd) then Ok ()
      else Err (invalid_input ''Factory command contains an empty, oversized, or invalid field''))"

section \<open>Projects on disk\<close>

definition git_output :: "factory_world \<Rightarrow> string \<Rightarrow> string list \<Rightarrow> problem + string" where
  "git_output w path args =
     (case fo_git w path args of
        Git_Missing \<Rightarrow> Err (invalid_input ''Git is required to attach an existing project'')
      | Git_Failed \<Rightarrow> Err (invalid_input ''Project path is not a valid Git worktree with the required metadata'')
      | Git_Output None \<Rightarrow> Err (invalid_input ''Git metadata must be valid UTF-8'')
      | Git_Output (Some text) \<Rightarrow> Ok (trim text))"

definition remote_has_embedded_http_credentials :: "string \<Rightarrow> bool" where
  "remote_has_embedded_http_credentials remote \<longleftrightarrow>
     list_ex (\<lambda>scheme. case strip_prefix remote scheme of None \<Rightarrow> False
       | Some rest \<Rightarrow> CHR ''@'' \<in> set (takeWhile (\<lambda>c. c \<noteq> CHR ''/'') rest)) [''http://'', ''https://'']"

definition is_ascii_hexdigit :: "char \<Rightarrow> bool" where
  "is_ascii_hexdigit c \<longleftrightarrow> is_ascii_digit c \<or> (65 \<le> (of_char c :: nat) \<and> (of_char c :: nat) \<le> 70) \<or>
     (97 \<le> (of_char c :: nat) \<and> (of_char c :: nat) \<le> 102)"

definition no_worktree :: problem where
  "no_worktree = invalid_input ''Project path must be the root of an existing Git worktree''"

record existing_git_project =
  eg_path :: string
  eg_remote :: string
  eg_revision :: string

definition inspect_existing_git_project :: "factory_world \<Rightarrow> string \<Rightarrow> problem + existing_git_project" where
  "inspect_existing_git_project w path =
     (case fo_canonical w path of
        None \<Rightarrow> Err (invalid_input ''Project path does not exist or is not accessible'')
      | Some dir \<Rightarrow>
          if \<not> fo_is_dir w dir \<or> \<not> fo_has_git w dir then Err no_worktree
          else and_then (git_output w dir [''rev-parse'', ''--is-inside-work-tree'']) (\<lambda>inside.
            if inside \<noteq> ''true'' then Err no_worktree
            else and_then (git_output w dir [''rev-parse'', ''--show-toplevel'']) (\<lambda>level.
              if fo_canonical w level \<noteq> Some dir then Err no_worktree
              else and_then (git_output w dir [''config'', ''--get'', ''remote.origin.url'']) (\<lambda>remote.
                if remote = [] \<or> 2000 < length remote \<or> remote_has_embedded_http_credentials remote
                then Err (invalid_input ''Project origin remote is missing or contains embedded credentials'')
                else and_then (git_output w dir [''rev-parse'', ''HEAD'']) (\<lambda>revision.
                  if length revision \<noteq> 40 \<or> \<not> list_all is_ascii_hexdigit revision
                  then Err (invalid_input ''Project HEAD must resolve to a full Git commit SHA'')
                  else Ok \<lparr>eg_path = dir, eg_remote = remote, eg_revision = revision\<rparr>)))))"

definition factory_project_category :: "string \<Rightarrow> string" where
  "factory_project_category platform =
     (let p = to_lowercase platform; has = list_ex (str_contains p)
      in if has [''flutter'', ''react native'', ''android'', ''ios''] then ''mobile''
         else if has [''react'', ''next'', ''web''] then ''web''
         else if has [''esp'', ''iot'', ''embedded''] then ''embedded''
         else if has [''ai'', ''model'', ''data''] then ''ai''
         else ''tools'')"

text \<open>One character of a UTF-8 text is one dash, however many bytes it has.\<close>

definition slug_chars :: "string \<Rightarrow> string" where
  "slug_chars title = map (\<lambda>c. if is_ascii_alphanumeric c then c else CHR ''-'')
     (filter (\<lambda>c. \<not> is_continuation c) (to_lowercase title))"

definition factory_project_slug :: "string \<Rightarrow> string" where
  "factory_project_slug title =
     (let dash = (\<lambda>c. c = CHR ''-''); slug = trim_end_by dash (dropWhile dash (slug_chars title))
      in if slug = [] then ''factory-project'' else slug)"

definition child_path :: "string \<Rightarrow> string \<Rightarrow> string" where
  "child_path dir name = (if dir = [] \<or> ends_with dir ''/'' then dir @ name else dir @ ''/'' @ name)"

text \<open>Title, path, the latest answer about the platform, and mode.\<close>

definition first_platform :: "factory_db \<Rightarrow> string \<Rightarrow> string" where
  "first_platform db p =
     (case sort_key (\<lambda>(s, i). - fs_created_at s) (concat (map (\<lambda>i. map (\<lambda>s. (s, i))
         (select_where (\<lambda>s. fs_id s = fi_session i \<and> fs_product s = p) (fd_sessions db)))
         (select_where (\<lambda>i. fi_key i = ''first_platform'') (fd_items db)))) of
        [] \<Rightarrow> [] | (s, i) # rest \<Rightarrow> fi_response i)"

definition load_factory_product_scaffold_context ::
  "factory_db \<Rightarrow> string \<Rightarrow> string \<Rightarrow> (string \<times> string \<times> string \<times> string) option" where
  "load_factory_product_scaffold_context db owner p =
     map_option (\<lambda>r. (fp_title r, fp_project_path r, first_platform db p, fp_mode r))
       (List.find (\<lambda>r. fp_id r = p \<and> fp_owner r = owner) (fd_products db))"

text \<open>The directory a scaffold is about to fill, with its category; \<open>None\<close> when the product has a path already.\<close>

definition scaffold_target ::
  "factory_world \<Rightarrow> string list \<Rightarrow> factory_db \<Rightarrow> string \<Rightarrow> string \<Rightarrow> problem + (string \<times> (string \<times> string) option)" where
  "scaffold_target w made db owner p =
     (case load_factory_product_scaffold_context db owner p of
        None \<Rightarrow> Err (forbidden ''Product is not owned by this principal'')
      | Some (title, existing, platform, mode) \<Rightarrow>
          if existing \<noteq> [] then Ok (existing, None)
          else if \<not> fo_is_dir w (fo_root w) then Err (internal ''Factory workspace root is not configured'')
          else let category = factory_project_category platform;
                   target = child_path (child_path (fo_root w) category) (factory_project_slug title)
            in if fo_nonempty w target \<or> target \<in> set made
               then Err (invalid_input (''Target directory '' @ quoted target @ '' already exists and is non-empty''))
               else Ok ([], Some (category, target)))"

section \<open>Handlers\<close>

type_synonym factory_outcome = "problem + (reply \<times> factory_db)"

definition or_internal :: "factory_world \<Rightarrow> factory_error + 'a \<Rightarrow> problem + 'a" where
  "or_internal w r = map_err (\<lambda>e. internal (fo_error w e)) r"

text \<open>An operation that answers nothing, or that nothing changed, is forbidden.\<close>

definition reply_some ::
  "factory_world \<Rightarrow> string \<Rightarrow> factory_error + ('a option \<times> factory_db) \<Rightarrow> ('a \<Rightarrow> reply) \<Rightarrow> factory_outcome" where
  "reply_some w msg res f = and_then (or_internal w res) (\<lambda>(x, db).
     case x of None \<Rightarrow> Err (forbidden msg) | Some y \<Rightarrow> Ok (f y, db))"

definition reply_if ::
  "factory_world \<Rightarrow> string \<Rightarrow> factory_error + (bool \<times> factory_db) \<Rightarrow> reply \<Rightarrow> factory_outcome" where
  "reply_if w msg res r = and_then (or_internal w res) (\<lambda>(b, db). if b then Ok (r, db) else Err (forbidden msg))"

definition not_owned :: string where
  "not_owned = ''Product is not owned by this principal''"

definition create_workspace :: "factory_world \<Rightarrow> factory_env \<Rightarrow> factory_db \<Rightarrow> string \<Rightarrow> string \<Rightarrow> factory_outcome" where
  "create_workspace w env db owner name =
     and_then (or_internal w (create_factory_workspace env db owner name)) (\<lambda>(i, db').
       Ok ([(''workspace_id'', J_Text i), (''name'', J_Text name)], db'))"

definition create_product_draft ::
  "factory_world \<Rightarrow> factory_env \<Rightarrow> factory_db \<Rightarrow> string \<Rightarrow> string \<Rightarrow> string \<Rightarrow> factory_outcome" where
  "create_product_draft w env db owner ws title =
     reply_some w ''Workspace is not owned by this principal'' (create_factory_product_draft env db owner ws title)
       (\<lambda>i. [(''product_id'', J_Text i), (''workspace_id'', J_Text ws), (''title'', J_Text title)])"

primrec mode_name :: "factory_mode \<Rightarrow> string" where
  "mode_name Quick = ''quick''"
| "mode_name Governed = ''governed''"

definition set_product_mode :: "factory_world \<Rightarrow> factory_db \<Rightarrow> string \<Rightarrow> string \<Rightarrow> factory_mode \<Rightarrow> factory_outcome" where
  "set_product_mode w db owner p mode =
     reply_if w not_owned (set_factory_product_mode db owner p (mode_name mode))
       [(''product_id'', J_Text p), (''mode'', J_Text (mode_name mode))]"

definition scaffold_project :: "factory_world \<Rightarrow> string list \<Rightarrow> factory_db \<Rightarrow> string \<Rightarrow> string \<Rightarrow> factory_outcome" where
  "scaffold_project w made db owner p =
     and_then (scaffold_target w made db owner p) (\<lambda>(existing, target).
       case target of
         None \<Rightarrow> Ok ([(''product_id'', J_Text p), (''project_path'', J_Text existing), (''created'', J_Flag False)], db)
       | Some (category, path) \<Rightarrow>
           if \<not> fo_scaffolds w path
           then Err (internal ''Factory project scaffold did not create required project files'')
           else Ok ([(''product_id'', J_Text p), (''project_path'', J_Text path), (''category'', J_Text category),
             (''created'', J_Flag True)], snd (save_factory_product_project_path db owner p path)))"

definition attach_existing_project :: "factory_world \<Rightarrow> factory_db \<Rightarrow> string \<Rightarrow> string \<Rightarrow> string \<Rightarrow> factory_outcome" where
  "attach_existing_project w db owner p path =
     and_then (inspect_existing_git_project w path) (\<lambda>source.
       reply_if w not_owned
         (Ok (attach_factory_product_existing_project db owner p (eg_path source) (eg_remote source) (eg_revision source)))
         [(''product_id'', J_Text p), (''project_path'', J_Text (eg_path source)), (''source_remote'', J_Text (eg_remote source)),
          (''source_revision'', J_Text (eg_revision source)), (''attached'', J_Flag True)])"

definition start_intake :: "factory_world \<Rightarrow> factory_env \<Rightarrow> factory_db \<Rightarrow> string \<Rightarrow> string \<Rightarrow> factory_outcome" where
  "start_intake w env db owner p =
     reply_some w not_owned (start_factory_intake env db owner p)
       (\<lambda>s. [(''session_id'', J_Text s), (''product_id'', J_Text p)])"

definition record_intake_answer ::
  "factory_world \<Rightarrow> factory_env \<Rightarrow> factory_db \<Rightarrow> string \<Rightarrow> string \<Rightarrow> string \<Rightarrow> string \<Rightarrow> factory_outcome" where
  "record_intake_answer w env db owner s question response =
     reply_if w ''Intake session is not open and owned by this principal''
       (record_factory_intake_answer env db owner s question response)
       [(''session_id'', J_Text s), (''question_key'', J_Text question), (''status'', J_Text ''answered'')]"

text \<open>Both charter commands first ask which answers are missing, whoever asks.\<close>

definition no_missing_prompts :: "factory_world \<Rightarrow> factory_db \<Rightarrow> string \<Rightarrow> string \<Rightarrow> problem + unit" where
  "no_missing_prompts w db p doing =
     and_then (or_internal w (missing_required_intake_prompt_keys db p)) (\<lambda>missing.
       if missing = [] then Ok ()
       else Err (invalid_input (''Complete required intake prompts before '' @ doing @ '' a Charter: '' @ join_with '', '' missing)))"

definition charter_reply :: "string \<Rightarrow> string \<times> int \<Rightarrow> reply" where
  "charter_reply p r = [(''charter_revision_id'', J_Text (fst r)), (''product_id'', J_Text p), (''revision'', J_Number (snd r))]"

definition create_charter_draft ::
  "factory_world \<Rightarrow> factory_env \<Rightarrow> factory_db \<Rightarrow> string \<Rightarrow> string \<Rightarrow> string \<Rightarrow> factory_outcome" where
  "create_charter_draft w env db owner p content =
     and_then (no_missing_prompts w db p ''drafting'') (\<lambda>u.
       reply_some w not_owned (create_factory_charter_draft env db owner p content) (charter_reply p))"

definition charter_headings :: "(string \<times> string) list" where
  "charter_headings = [(''problem_statement'', ''Problem''), (''target_user'', ''Target Users''),
     (''core_outcome'', ''First Release Outcome''), (''first_platform'', ''Initial Platform''),
     (''success_metric'', ''Success Metric'')]"

definition compose_discovery_charter :: "string \<Rightarrow> (string \<times> string) list \<Rightarrow> string" where
  "compose_discovery_charter title answers =
     ''# '' @ title @ '' Charter'' @ [newline] @
     concat (map (\<lambda>(q, heading). case map_of answers q of None \<Rightarrow> []
       | Some value \<Rightarrow> if trim value = [] then []
           else [newline] @ ''## '' @ heading @ [newline] @ value @ [newline]) charter_headings)"

definition generate_charter_draft :: "factory_world \<Rightarrow> factory_env \<Rightarrow> factory_db \<Rightarrow> string \<Rightarrow> string \<Rightarrow> factory_outcome" where
  "generate_charter_draft w env db owner p =
     and_then (no_missing_prompts w db p ''generating'') (\<lambda>u.
       case List.find (\<lambda>r. fp_id r = p \<and> fp_owner r = owner) (fd_products db) of
         None \<Rightarrow> Err (forbidden not_owned)
       | Some r \<Rightarrow>
           and_then (or_internal w (load_required_intake_answers db p)) (\<lambda>answers.
             reply_some w not_owned (create_factory_charter_draft env db owner p (compose_discovery_charter (fp_title r) answers))
               (\<lambda>x. charter_reply p x @ [(''generated'', J_Flag True)])))"

definition create_requirement_draft ::
  "factory_world \<Rightarrow> factory_env \<Rightarrow> factory_db \<Rightarrow> string \<Rightarrow> string \<Rightarrow> string \<Rightarrow> string \<Rightarrow> factory_outcome" where
  "create_requirement_draft w env db owner p skey content =
     reply_some w ''Product has no owned Charter revision'' (create_factory_requirement_draft env db owner p skey content)
       (\<lambda>(i, v). [(''requirement_id'', J_Text i), (''requirement_revision_id'', J_Text v), (''product_id'', J_Text p),
         (''stable_key'', J_Text skey)])"

definition submit_change_request ::
  "factory_world \<Rightarrow> factory_env \<Rightarrow> factory_db \<Rightarrow> string \<Rightarrow> string \<Rightarrow> string \<Rightarrow> factory_outcome" where
  "submit_change_request w env db owner p summary =
     reply_some w not_owned (submit_factory_change_request env db owner p summary)
       (\<lambda>i. [(''change_request_id'', J_Text i), (''product_id'', J_Text p), (''status'', J_Text ''proposed'')])"

definition assess_change_request :: "factory_world \<Rightarrow> factory_env \<Rightarrow> factory_db \<Rightarrow> string \<Rightarrow> string \<Rightarrow> factory_outcome" where
  "assess_change_request w env db owner change =
     reply_some w ''Change request is not owned or cannot be assessed'' (assess_factory_change_request env db owner change)
       (\<lambda>(a, n). [(''assessment_id'', J_Text a), (''change_request_id'', J_Text change), (''affected_count'', J_Number (uint n)),
         (''status'', J_Text ''awaiting_approval'')])"

definition resolve_impact_assessment ::
  "factory_world \<Rightarrow> factory_env \<Rightarrow> factory_db \<Rightarrow> string \<Rightarrow> string \<Rightarrow> bool \<Rightarrow> factory_outcome" where
  "resolve_impact_assessment w env db owner a approved =
     reply_if w ''Impact assessment is not awaiting owner approval'' (Ok (resolve_factory_impact_assessment env db owner a approved))
       [(''assessment_id'', J_Text a), (''approved'', J_Flag approved)]"

definition apply_requirement_change ::
  "factory_world \<Rightarrow> factory_env \<Rightarrow> factory_db \<Rightarrow> string \<Rightarrow> string \<Rightarrow> string \<Rightarrow> string \<Rightarrow> factory_outcome" where
  "apply_requirement_change w env db owner a req content =
     reply_some w ''Approved assessment and owned requirement are required''
       (apply_approved_requirement_change env db owner a req content)
       (\<lambda>(i, v). [(''requirement_id'', J_Text i), (''requirement_revision_id'', J_Text v), (''assessment_id'', J_Text a)])"

definition create_plan_draft ::
  "factory_world \<Rightarrow> factory_env \<Rightarrow> factory_db \<Rightarrow> string \<Rightarrow> string \<Rightarrow> string \<Rightarrow> factory_outcome" where
  "create_plan_draft w env db owner p title =
     reply_some w not_owned (create_factory_plan_draft env db owner p title)
       (\<lambda>i. [(''plan_id'', J_Text i), (''product_id'', J_Text p), (''title'', J_Text title), (''status'', J_Text ''planned'')])"

definition approve_plan :: "factory_world \<Rightarrow> factory_db \<Rightarrow> string \<Rightarrow> string \<Rightarrow> factory_outcome" where
  "approve_plan w db owner i =
     reply_if w ''Plan is not owned or is not awaiting approval'' (Ok (approve_factory_plan db owner i))
       [(''plan_id'', J_Text i), (''status'', J_Text ''approved'')]"

definition materialize_planned_cycle ::
  "factory_world \<Rightarrow> factory_env \<Rightarrow> factory_db \<Rightarrow> string \<Rightarrow> string \<Rightarrow> factory_outcome" where
  "materialize_planned_cycle w env db owner plan =
     reply_some w ''Plan is not owned or has not been approved'' (materialize_factory_cycle env db owner plan)
       (\<lambda>(c, p, created). [(''cycle_id'', J_Text c), (''plan_id'', J_Text plan), (''product_id'', J_Text p),
         (''created'', J_Flag created), (''status'', J_Text ''planned'')])"

definition pause_cycle :: "factory_world \<Rightarrow> factory_db \<Rightarrow> string \<Rightarrow> string \<Rightarrow> factory_outcome" where
  "pause_cycle w db owner c =
     reply_if w ''Cycle is not owned or cannot be paused'' (Ok (pause_factory_cycle db owner c))
       [(''cycle_id'', J_Text c), (''status'', J_Text ''paused'')]"

definition resume_cycle :: "factory_world \<Rightarrow> factory_db \<Rightarrow> string \<Rightarrow> string \<Rightarrow> factory_outcome" where
  "resume_cycle w db owner c =
     reply_if w ''Cycle is not owned or is not paused'' (Ok (resume_factory_cycle db owner c))
       [(''cycle_id'', J_Text c), (''status'', J_Text ''resumed'')]"

definition cancel_cycle :: "factory_world \<Rightarrow> factory_db \<Rightarrow> string \<Rightarrow> string \<Rightarrow> factory_outcome" where
  "cancel_cycle w db owner c =
     reply_if w ''Cycle is not owned or cannot be cancelled'' (Ok (cancel_factory_cycle db owner c))
       [(''cycle_id'', J_Text c), (''status'', J_Text ''cancelled'')]"

definition materialize_stage_task_graph ::
  "factory_world \<Rightarrow> factory_env \<Rightarrow> factory_db \<Rightarrow> string \<Rightarrow> string \<Rightarrow> string \<Rightarrow> factory_outcome" where
  "materialize_stage_task_graph w env db owner c stage =
     reply_some w ''Cycle stage is not owned or does not exist'' (materialize_factory_stage_task_graph env db owner c stage)
       (\<lambda>g. [(''cycle_id'', J_Text c), (''stage'', J_Text stage), (''task_graph_id'', J_Text g), (''execution'', J_Text ''disabled'')])"

definition activate_approved_stage ::
  "factory_world \<Rightarrow> factory_env \<Rightarrow> factory_db \<Rightarrow> string \<Rightarrow> string \<Rightarrow> string \<Rightarrow> factory_outcome" where
  "activate_approved_stage w env db owner c stage =
     reply_if w ''Stage requires an owned approved execution approval'' (Ok (activate_approved_factory_stage env db owner c stage))
       [(''cycle_id'', J_Text c), (''stage'', J_Text stage), (''status'', J_Text ''active''),
        (''execution'', J_Text ''operator-controlled'')]"

definition record_stage_evidence ::
  "factory_world \<Rightarrow> factory_env \<Rightarrow> factory_db \<Rightarrow> string \<Rightarrow> string \<Rightarrow> string \<Rightarrow> string \<Rightarrow> factory_outcome" where
  "record_stage_evidence w env db owner c stage content =
     reply_some w ''Stage is not owned or does not exist'' (record_factory_stage_evidence env db owner c stage content)
       (\<lambda>e. [(''evidence_id'', J_Text e), (''cycle_id'', J_Text c), (''stage'', J_Text stage)])"

definition link_stage_evidence_to_requirement ::
  "factory_world \<Rightarrow> factory_env \<Rightarrow> factory_db \<Rightarrow> string \<Rightarrow> string \<Rightarrow> string \<Rightarrow> factory_outcome" where
  "link_stage_evidence_to_requirement w env db owner e req =
     reply_if w ''Stage evidence and requirement must belong to the owned product''
       (Ok (link_factory_stage_evidence_to_requirement env db owner e req))
       [(''evidence_id'', J_Text e), (''requirement_id'', J_Text req), (''status'', J_Text ''linked'')]"

definition complete_stage ::
  "factory_world \<Rightarrow> factory_env \<Rightarrow> factory_db \<Rightarrow> string \<Rightarrow> string \<Rightarrow> string \<Rightarrow> factory_outcome" where
  "complete_stage w env db owner c stage =
     reply_if w ''Active owned stage requires evidence before completion''
       (Ok (complete_factory_stage_with_evidence env db owner c stage))
       [(''cycle_id'', J_Text c), (''stage'', J_Text stage), (''status'', J_Text ''completed'')]"

definition inspect_release_readiness :: "factory_world \<Rightarrow> factory_db \<Rightarrow> string \<Rightarrow> string \<Rightarrow> factory_outcome" where
  "inspect_release_readiness w db owner p =
     reply_some w not_owned (Ok (factory_release_readiness db owner p, db))
       (\<lambda>r. [(''product_id'', J_Text p), (''ready'', J_Flag (rr_ready r)),
         (''required_quality_blockers'', J_Number (int (rr_quality_blockers r))),
         (''completed_verify_stage'', J_Flag (rr_verify_completed r)),
         (''pending_impact_assessments'', J_Number (int (rr_pending_assessments r))),
         (''stale_evidence_count'', J_Number (int (rr_stale_evidence r)))])"

definition create_quality_profile ::
  "factory_world \<Rightarrow> factory_env \<Rightarrow> factory_db \<Rightarrow> string \<Rightarrow> string \<Rightarrow> string \<Rightarrow> bool \<Rightarrow> factory_outcome" where
  "create_quality_profile w env db owner p name required =
     reply_some w not_owned (create_factory_quality_profile env db owner p name required)
       (\<lambda>i. [(''profile_id'', J_Text i), (''product_id'', J_Text p), (''required'', J_Flag required)])"

definition ensure_react_native_profile ::
  "factory_world \<Rightarrow> factory_env \<Rightarrow> factory_db \<Rightarrow> string \<Rightarrow> string \<Rightarrow> factory_outcome" where
  "ensure_react_native_profile w env db owner p =
     reply_some w not_owned (ensure_react_native_closed_testing_quality_profile env db owner p)
       (\<lambda>ids. [(''product_id'', J_Text p), (''profile_ids'', J_Texts ids), (''profile'', J_Text ''react_native_closed_testing'')])"

definition record_quality_check ::
  "factory_world \<Rightarrow> factory_env \<Rightarrow> factory_db \<Rightarrow> string \<Rightarrow> string \<Rightarrow> bool \<Rightarrow> string \<Rightarrow> factory_outcome" where
  "record_quality_check w env db owner profile passed evidence =
     reply_some w ''Quality profile is not owned by this principal'' (record_factory_quality_check env db owner profile passed evidence)
       (\<lambda>i. [(''check_id'', J_Text i), (''profile_id'', J_Text profile), (''passed'', J_Flag passed),
         (''evidence_ref'', J_Text evidence)])"

definition create_release_draft ::
  "factory_world \<Rightarrow> factory_env \<Rightarrow> factory_db \<Rightarrow> string \<Rightarrow> string \<Rightarrow> string \<Rightarrow> factory_outcome" where
  "create_release_draft w env db owner p build =
     reply_some w ''Owned product is not release-ready; required quality evidence is missing''
       (create_factory_release_draft env db owner p build)
       (\<lambda>i. [(''release_id'', J_Text i), (''product_id'', J_Text p), (''status'', J_Text ''draft''), (''build_ref'', J_Text build)])"

definition approve_closed_testing_release ::
  "factory_world \<Rightarrow> factory_env \<Rightarrow> factory_db \<Rightarrow> string \<Rightarrow> string \<Rightarrow> factory_outcome" where
  "approve_closed_testing_release w env db owner i =
     reply_if w ''Release is not an owned draft'' (approve_factory_closed_testing_release env db owner i)
       [(''release_id'', J_Text i), (''status'', J_Text ''approved''), (''channel'', J_Text ''closed_testing'')]"

definition create_support_item ::
  "factory_world \<Rightarrow> factory_env \<Rightarrow> factory_db \<Rightarrow> string \<Rightarrow> string \<Rightarrow> string \<Rightarrow> string \<Rightarrow> factory_outcome" where
  "create_support_item w env db owner p source summary =
     reply_some w not_owned (create_factory_support_item env db owner p source summary)
       (\<lambda>i. [(''support_item_id'', J_Text i), (''status'', J_Text ''new'')])"

definition inspect_support_overview :: "factory_world \<Rightarrow> factory_db \<Rightarrow> string \<Rightarrow> string \<Rightarrow> factory_outcome" where
  "inspect_support_overview w db owner p =
     reply_some w not_owned (Ok (factory_support_overview db owner p, db))
       (\<lambda>r. [(''product_id'', J_Text p), (''open_count'', J_Number (int (so_open r))),
         (''resolved_count'', J_Number (int (so_resolved r))),
         (''linked_change_count'', J_Number (int (so_linked_changes r))),
         (''oldest_open_created_at'', case so_oldest_open r of None \<Rightarrow> J_Null | Some t \<Rightarrow> J_Number t)])"

definition triage_support_item :: "factory_world \<Rightarrow> factory_db \<Rightarrow> string \<Rightarrow> string \<Rightarrow> factory_outcome" where
  "triage_support_item w db owner i =
     reply_if w ''Support item is not owned or cannot be triaged'' (Ok (triage_factory_support_item db owner i))
       [(''support_item_id'', J_Text i), (''status'', J_Text ''triaged'')]"

definition resolve_support_item ::
  "factory_world \<Rightarrow> factory_env \<Rightarrow> factory_db \<Rightarrow> string \<Rightarrow> string \<Rightarrow> string \<Rightarrow> factory_outcome" where
  "resolve_support_item w env db owner i resolution =
     reply_if w ''Support item is not owned or cannot be resolved'' (Ok (resolve_factory_support_item env db owner i resolution))
       [(''support_item_id'', J_Text i), (''status'', J_Text ''resolved''), (''resolution_ref'', J_Text resolution)]"

definition link_support_change ::
  "factory_world \<Rightarrow> factory_env \<Rightarrow> factory_db \<Rightarrow> string \<Rightarrow> string \<Rightarrow> string \<Rightarrow> factory_outcome" where
  "link_support_change w env db owner i change =
     reply_if w ''Support item and change request must be owned by the same product''
       (Ok (link_support_to_change_request env db owner i change))
       [(''support_item_id'', J_Text i), (''change_request_id'', J_Text change), (''relation'', J_Text ''raised_by'')]"

section \<open>The dispatcher\<close>

primrec run_factory_command ::
  "factory_world \<Rightarrow> factory_env \<Rightarrow> string list \<Rightarrow> factory_db \<Rightarrow> string \<Rightarrow> factory_command \<Rightarrow> factory_outcome" where
  "run_factory_command w env made db owner (Create_Workspace name k) = create_workspace w env db owner name"
| "run_factory_command w env made db owner (Create_Product_Draft ws title k) = create_product_draft w env db owner ws title"
| "run_factory_command w env made db owner (Set_Product_Mode p m k) = set_product_mode w db owner p m"
| "run_factory_command w env made db owner (Scaffold_Project p k) = scaffold_project w made db owner p"
| "run_factory_command w env made db owner (Attach_Existing_Project p path k) = attach_existing_project w db owner p path"
| "run_factory_command w env made db owner (Start_Intake p k) = start_intake w env db owner p"
| "run_factory_command w env made db owner (Record_Intake_Answer s q r k) = record_intake_answer w env db owner s q r"
| "run_factory_command w env made db owner (Create_Charter_Draft p c k) = create_charter_draft w env db owner p c"
| "run_factory_command w env made db owner (Generate_Charter_Draft p k) = generate_charter_draft w env db owner p"
| "run_factory_command w env made db owner (Create_Requirement_Draft p q c k) = create_requirement_draft w env db owner p q c"
| "run_factory_command w env made db owner (Submit_Change_Request p s k) = submit_change_request w env db owner p s"
| "run_factory_command w env made db owner (Assess_Change_Request i k) = assess_change_request w env db owner i"
| "run_factory_command w env made db owner (Resolve_Impact_Assessment i b k) = resolve_impact_assessment w env db owner i b"
| "run_factory_command w env made db owner (Apply_Approved_Requirement_Change a r c k) = apply_requirement_change w env db owner a r c"
| "run_factory_command w env made db owner (Create_Plan_Draft p title k) = create_plan_draft w env db owner p title"
| "run_factory_command w env made db owner (Approve_Plan i k) = approve_plan w db owner i"
| "run_factory_command w env made db owner (Materialize_Planned_Cycle i k) = materialize_planned_cycle w env db owner i"
| "run_factory_command w env made db owner (Pause_Cycle c k) = pause_cycle w db owner c"
| "run_factory_command w env made db owner (Resume_Cycle c k) = resume_cycle w db owner c"
| "run_factory_command w env made db owner (Cancel_Cycle c k) = cancel_cycle w db owner c"
| "run_factory_command w env made db owner (Materialize_Stage_Task_Graph c s k) = materialize_stage_task_graph w env db owner c s"
| "run_factory_command w env made db owner (Activate_Approved_Stage c s k) = activate_approved_stage w env db owner c s"
| "run_factory_command w env made db owner (Record_Stage_Evidence c s r k) = record_stage_evidence w env db owner c s r"
| "run_factory_command w env made db owner (Link_Stage_Evidence_To_Requirement e r k) =
     link_stage_evidence_to_requirement w env db owner e r"
| "run_factory_command w env made db owner (Complete_Stage c s k) = complete_stage w env db owner c s"
| "run_factory_command w env made db owner (Inspect_Release_Readiness p k) = inspect_release_readiness w db owner p"
| "run_factory_command w env made db owner (Create_Quality_Profile p name b k) = create_quality_profile w env db owner p name b"
| "run_factory_command w env made db owner (Ensure_React_Native_Profile p k) = ensure_react_native_profile w env db owner p"
| "run_factory_command w env made db owner (Record_Quality_Check q b e k) = record_quality_check w env db owner q b e"
| "run_factory_command w env made db owner (Create_Release_Draft p b k) = create_release_draft w env db owner p b"
| "run_factory_command w env made db owner (Approve_Closed_Testing_Release r k) = approve_closed_testing_release w env db owner r"
| "run_factory_command w env made db owner (Create_Support_Item p s t k) = create_support_item w env db owner p s t"
| "run_factory_command w env made db owner (Inspect_Support_Overview p k) = inspect_support_overview w db owner p"
| "run_factory_command w env made db owner (Triage_Support_Item i k) = triage_support_item w db owner i"
| "run_factory_command w env made db owner (Resolve_Support_Item i r k) = resolve_support_item w env db owner i r"
| "run_factory_command w env made db owner (Link_Support_To_Change_Request i q k) = link_support_change w env db owner i q"
| "run_factory_command w env made db owner (Request_Impact_Assessment i k) =
     Err (not_implemented ''Impact assessment mutation is not implemented in Phase 3'')"

text \<open>The directory a run of the command fills on disk, whatever becomes of its transaction.\<close>

definition filled_by :: "factory_world \<Rightarrow> string list \<Rightarrow> factory_db \<Rightarrow> string \<Rightarrow> factory_command \<Rightarrow> string list" where
  "filled_by w made db owner cmd =
     (case cmd of
        Scaffold_Project p k \<Rightarrow>
          (case scaffold_target w made db owner p of
             Inr (existing, Some (category, path)) \<Rightarrow> if fo_scaffolds w path then [path] else []
           | _ \<Rightarrow> [])
      | _ \<Rightarrow> [])"

definition factory_payload_hash :: "factory_world \<Rightarrow> factory_command \<Rightarrow> string" where
  "factory_payload_hash w cmd = fo_hash w (fo_command w cmd)"

definition find_factory_idem :: "factory_idem list \<Rightarrow> string \<Rightarrow> factory_idem option" where
  "find_factory_idem rows k = List.find (\<lambda>r. fk_key r = k) rows"

definition factory_replayed_result :: "factory_call \<Rightarrow> factory_idem list \<Rightarrow> string \<Rightarrow> string \<Rightarrow> problem + reply option" where
  "factory_replayed_result call rows k h =
     (case fx_idem_read call of
        Some e \<Rightarrow> Err (internal e)
      | None \<Rightarrow>
          (case find_factory_idem rows k of
             None \<Rightarrow> Ok None
           | Some r \<Rightarrow>
               if fk_hash r \<noteq> [] \<and> fk_hash r \<noteq> h
               then Err (invalid_input ''Idempotency key is already bound to a different Product Factory command'')
               else case fk_result r of None \<Rightarrow> Err (internal ''Idempotency record is missing a valid result'')
                 | Some x \<Rightarrow> Ok (Some x)))"

definition factory_record_outcome ::
  "factory_world \<Rightarrow> factory_call \<Rightarrow> actor \<Rightarrow> factory_command \<Rightarrow> factory_idem list \<Rightarrow> factory_db \<Rightarrow> reply \<Rightarrow>
     problem + (factory_idem list \<times> factory_db)" where
  "factory_record_outcome w call who cmd rows db result =
     (let k = factory_key cmd; h = factory_payload_hash w cmd
      in if find_factory_idem rows k \<noteq> None then Err (internal (''Idempotency record failed: '' @ fo_error w Fd_Constraint))
         else if \<not> fx_audit_ok call then Err (internal (''Audit write failed: '' @ fo_audit_error w))
         else Ok (rows @ [\<lparr>fk_key = k, fk_hash = h, fk_command = factory_command_name cmd, fk_result = Some result\<rparr>],
           db\<lparr>fd_control := (fd_control db)\<lparr>cd_audit := record_tool_decision (fo_hash w) (fo_envelope w)
             (cd_audit (fd_control db)) True (fx_stamp call) (factory_command_name cmd) h ''product_factory'' ''tool_confirm''
             (ac_subject who)\<rparr>\<rparr>))"

definition execute_factory_command ::
  "factory_world \<Rightarrow> factory_call \<Rightarrow> factory_plane \<Rightarrow> actor \<Rightarrow> factory_command \<Rightarrow> problem + (reply \<times> factory_idem list \<times> factory_db)" where
  "execute_factory_command w call pl who cmd =
     and_then (run_factory_command w (fx_env call) (fy_made pl) (fy_db pl) (ac_subject who) cmd) (\<lambda>(result, db1).
     and_then (factory_record_outcome w call who cmd (fy_idem pl) db1 result) (\<lambda>(rows, db2).
       case fx_commit call of Some e \<Rightarrow> Err (internal (''Commit failed: '' @ e)) | None \<Rightarrow> Ok (result, rows, db2)))"

definition dispatch_factory_command ::
  "factory_world \<Rightarrow> factory_call \<Rightarrow> factory_plane \<Rightarrow> actor \<Rightarrow> factory_command \<Rightarrow> (problem + reply) \<times> factory_plane" where
  "dispatch_factory_command w call pl who cmd =
     (if \<not> fx_enabled call then (Err (forbidden ''Product Factory mutations are disabled by configuration''), pl)
      else if \<not> ac_may_mutate who
      then (Err (unauthorized ''This authenticated principal is not authorized to mutate Product Factory state''), pl)
      else case validate_command w cmd of Inl e \<Rightarrow> (Err e, pl) | Inr u \<Rightarrow>
        (if fx_idem_table call \<noteq> None then (Err (internal (the (fx_idem_table call))), pl)
         else case factory_replayed_result call (fy_idem pl) (factory_key cmd) (factory_payload_hash w cmd) of
           Inl e \<Rightarrow> (Err e, pl)
         | Inr (Some result) \<Rightarrow> (Ok result, pl)
         | Inr None \<Rightarrow>
             (if fx_begin call \<noteq> None then (Err (internal (''Failed starting transaction: '' @ the (fx_begin call))), pl)
              else let pl1 = pl\<lparr>fy_made := fy_made pl @ filled_by w (fy_made pl) (fy_db pl) (ac_subject who) cmd\<rparr>
                in case execute_factory_command w call pl who cmd of
                  Inl e \<Rightarrow> (Err e, pl1)
                | Inr (result, rows, db) \<Rightarrow> (Ok result, pl1\<lparr>fy_db := db, fy_idem := rows\<rparr>))))"

section \<open>The surfaces\<close>

text \<open>What an agent may run over MCP; \<open>http_may_execute\<close> lists the same commands.\<close>

definition agent_may_execute :: "factory_command \<Rightarrow> bool" where
  "agent_may_execute cmd =
     (case cmd of
        Scaffold_Project p k \<Rightarrow> False
      | Resolve_Impact_Assessment i b k \<Rightarrow> False
      | Apply_Approved_Requirement_Change a r c k \<Rightarrow> False
      | Approve_Plan i k \<Rightarrow> False
      | Cancel_Cycle c k \<Rightarrow> False
      | Activate_Approved_Stage c s k \<Rightarrow> False
      | Complete_Stage c s k \<Rightarrow> False
      | Approve_Closed_Testing_Release r k \<Rightarrow> False
      | Request_Impact_Assessment i k \<Rightarrow> False
      | _ \<Rightarrow> True)"

definition command_kind :: "factory_command \<Rightarrow> string" where
  "command_kind cmd =
     (case cmd of
        Ensure_React_Native_Profile p k \<Rightarrow> ''ensure_react_native_quality_profile''
      | Link_Stage_Evidence_To_Requirement e r k \<Rightarrow> ''link_evidence_to_requirement''
      | Link_Support_To_Change_Request i q k \<Rightarrow> ''link_support_to_change_request''
      | _ \<Rightarrow> drop (length ''factory_'') (factory_command_name cmd))"

text \<open>\<open>Config::load\<close> says whether the Factory is enabled; the agent acts for the local owner.\<close>

definition tool_factory_execute ::
  "factory_world \<Rightarrow> factory_call \<Rightarrow> factory_plane \<Rightarrow> factory_command \<Rightarrow> (string + (string \<times> reply)) \<times> factory_plane" where
  "tool_factory_execute w call pl cmd =
     (if \<not> agent_may_execute cmd
      then (Err (''factory_approval_required:'' @ command_kind cmd @ '' must be approved by the human owner in the Factory UI''), pl)
      else case dispatch_factory_command w call pl local_session cmd of
        (Inl e, pl') \<Rightarrow> (Err (''factory_command_failed:'' @ pr_message e), pl')
      | (Inr r, pl') \<Rightarrow> (Ok (command_kind cmd, r), pl'))"

definition handle_factory_command ::
  "factory_world \<Rightarrow> factory_call \<Rightarrow> factory_plane \<Rightarrow> actor \<Rightarrow> factory_command \<Rightarrow> (problem + reply) \<times> factory_plane" where
  "handle_factory_command w call pl who cmd =
     (if \<not> agent_may_execute cmd
      then (Err (forbidden ''factory_approval_required: this command must be approved by the human owner in the Product Factory UI''), pl)
      else dispatch_factory_command w call pl who cmd)"

end
