(* ===== verification/Factory_Dispatch.thy ===== *)
theory Factory_Dispatch
  imports Factory_Service Control_Runs
begin

text \<open>
  What one dispatch of a Product Factory command does, for any command: it leaves the database and the idempotency table
  alone, or the command ran once and its changes stand together with its records. A key that has run is spent.
\<close>

section \<open>The two ways a dispatch ends\<close>

definition factory_left_alone ::
  "factory_world \<Rightarrow> factory_plane \<Rightarrow> factory_command \<Rightarrow> (problem + reply) \<times> factory_plane \<Rightarrow> bool" where
  "factory_left_alone w pl cmd d \<longleftrightarrow> fy_db (snd d) = fy_db pl \<and> fy_idem (snd d) = fy_idem pl \<and>
     (\<forall>r. fst d = Ok r \<longrightarrow> (\<exists>row. find_factory_idem (fy_idem pl) (factory_key cmd) = Some row \<and> fk_result row = Some r \<and>
        fk_hash row \<in> {[], factory_payload_hash w cmd}))"

definition factory_logged :: "factory_world \<Rightarrow> factory_call \<Rightarrow> actor \<Rightarrow> factory_command \<Rightarrow> factory_db \<Rightarrow> factory_db" where
  "factory_logged w call who cmd db =
     db\<lparr>fd_control := (fd_control db)\<lparr>cd_audit := record_tool_decision (fo_hash w) (fo_envelope w)
       (cd_audit (fd_control db)) True (fx_stamp call) (factory_command_name cmd) (factory_payload_hash w cmd)
       ''product_factory'' ''tool_confirm'' (ac_subject who)\<rparr>\<rparr>"

definition outcome_row :: "factory_world \<Rightarrow> factory_command \<Rightarrow> reply \<Rightarrow> factory_idem" where
  "outcome_row w cmd result = \<lparr>fk_key = factory_key cmd, fk_hash = factory_payload_hash w cmd,
     fk_command = factory_command_name cmd, fk_result = Some result\<rparr>"

definition factory_ran ::
  "factory_world \<Rightarrow> factory_call \<Rightarrow> factory_plane \<Rightarrow> actor \<Rightarrow> factory_command \<Rightarrow> (problem + reply) \<times> factory_plane \<Rightarrow> bool" where
  "factory_ran w call pl who cmd d \<longleftrightarrow>
     fx_enabled call \<and> ac_may_mutate who \<and> is_ok (validate_command w cmd) \<and>
     find_factory_idem (fy_idem pl) (factory_key cmd) = None \<and>
     (\<exists>result db. fst d = Ok result \<and>
       run_factory_command w (fx_env call) (fy_made pl) (fy_db pl) (ac_subject who) cmd = Ok (result, db) \<and>
       fy_db (snd d) = factory_logged w call who cmd db \<and> fy_idem (snd d) = fy_idem pl @ [outcome_row w cmd result])"

lemma execute_factory_cases:
  assumes "execute_factory_command w call pl who cmd = Ok (result, rows, db)"
  obtains db1 where "run_factory_command w (fx_env call) (fy_made pl) (fy_db pl) (ac_subject who) cmd = Ok (result, db1)"
    "find_factory_idem (fy_idem pl) (factory_key cmd) = None" "rows = fy_idem pl @ [outcome_row w cmd result]"
    "db = factory_logged w call who cmd db1"
  using assms
  by (auto simp: execute_factory_command_def factory_record_outcome_def and_then_Inr_iff Let_def factory_logged_def
      outcome_row_def split: if_split_asm option.split_asm)

lemma factory_replayed_Some:
  assumes "factory_replayed_result call rows k h = Ok (Some r)"
  obtains row where "find_factory_idem rows k = Some row" "fk_result row = Some r" "fk_hash row \<in> {[], h}"
  using assms by (auto simp: factory_replayed_result_def split: if_split_asm option.split_asm)

lemma dispatch_factory_cases:
  obtains (alone) "factory_left_alone w pl cmd (dispatch_factory_command w call pl who cmd)"
  | (ran) "factory_ran w call pl who cmd (dispatch_factory_command w call pl who cmd)"
proof (cases "fx_enabled call \<and> ac_may_mutate who \<and> validate_command w cmd = Ok () \<and> fx_idem_table call = None")
  case False
  then show thesis
    using alone by (cases "validate_command w cmd") (auto simp: dispatch_factory_command_def factory_left_alone_def)
next
  case may: True
  let ?r = "factory_replayed_result call (fy_idem pl) (factory_key cmd) (factory_payload_hash w cmd)"
  let ?x = "execute_factory_command w call pl who cmd"
  consider (err) e where "?r = Err e" | (hit) r where "?r = Ok (Some r)" | (stop) "?r = Ok None" "fx_begin call \<noteq> None"
    | (failed) e where "?r = Ok None" "fx_begin call = None" "?x = Err e"
    | (run) result rows db where "?r = Ok None" "fx_begin call = None" "?x = Ok (result, rows, db)"
    by (cases ?x; cases ?r; cases "projr ?r") auto
  then show thesis
  proof cases
    case hit
    then show thesis
      using may factory_replayed_Some [OF hit]
      by (intro alone) (auto simp: dispatch_factory_command_def factory_left_alone_def)
  next
    case run
    then show thesis
      using may by (elim execute_factory_cases, intro ran)
        (auto simp: dispatch_factory_command_def factory_ran_def Let_def)
  qed (use may in \<open>auto intro!: alone simp: dispatch_factory_command_def factory_left_alone_def Let_def\<close>)
qed

section \<open>Keys\<close>

text \<open>Requests by anyone, and any change the rest of the program makes to the control plane's tables.\<close>

datatype factory_event = Asked factory_call actor factory_command | Elsewhere "control_db \<Rightarrow> control_db"

fun factory_step :: "factory_world \<Rightarrow> factory_plane \<Rightarrow> factory_event \<Rightarrow> factory_plane" where
  "factory_step w pl (Asked call who cmd) = snd (dispatch_factory_command w call pl who cmd)"
| "factory_step w pl (Elsewhere f) = pl\<lparr>fy_db := (fy_db pl)\<lparr>fd_control := f (fd_control (fy_db pl))\<rparr>\<rparr>"

lemma factory_ran_idem:
  assumes "factory_ran w call pl who cmd d"
  obtains result where "fst d = Ok result"
    "find_factory_idem (fy_idem (snd d)) k = (if k = factory_key cmd then Some (outcome_row w cmd result)
       else find_factory_idem (fy_idem pl) k)"
  using assms
  by (auto simp: factory_ran_def find_factory_idem_def find_append outcome_row_def split: option.split)

lemma factory_spent_step:
  assumes "find_factory_idem (fy_idem pl) k = Some row"
  shows "find_factory_idem (fy_idem (factory_step w pl e)) k = Some row"
proof (cases e)
  case (Asked call who cmd)
  show ?thesis
  proof (rule dispatch_factory_cases [of w pl cmd call who])
    assume ran: "factory_ran w call pl who cmd (dispatch_factory_command w call pl who cmd)"
    then have "k \<noteq> factory_key cmd"
      using assms by (auto simp: factory_ran_def)
    then show ?thesis
      using factory_ran_idem [OF ran, of k] assms by (auto simp: Asked)
  qed (use assms in \<open>simp add: Asked factory_left_alone_def\<close>)
qed (use assms in simp)

interpretation factory_keys: terminal_machine "factory_step w" "\<lambda>_. True" "\<lambda>_. True"
  "\<lambda>pl. find_factory_idem (fy_idem pl) k \<noteq> None" "\<lambda>pl. find_factory_idem (fy_idem pl) k" for w k
  by unfold_locales (auto simp: factory_spent_step)

lemma factory_answered_stored:
  assumes "fst (dispatch_factory_command w call pl who cmd) = Ok r"
  obtains row where "find_factory_idem (fy_idem (snd (dispatch_factory_command w call pl who cmd))) (factory_key cmd) = Some row"
    "fk_result row = Some r" "fk_hash row \<in> {[], factory_payload_hash w cmd}"
proof (rule dispatch_factory_cases [of w pl cmd call who])
  assume "factory_left_alone w pl cmd (dispatch_factory_command w call pl who cmd)"
  then show thesis
    using assms that unfolding factory_left_alone_def by (metis (no_types))
next
  assume "factory_ran w call pl who cmd (dispatch_factory_command w call pl who cmd)"
  then obtain result where result: "fst (dispatch_factory_command w call pl who cmd) = Ok result"
    "find_factory_idem (fy_idem (snd (dispatch_factory_command w call pl who cmd))) (factory_key cmd) =
       Some (outcome_row w cmd result)"
    by (rule factory_ran_idem [where k = "factory_key cmd"]) simp
  show thesis
    using result assms by (intro that [OF result(2)]) (simp_all add: outcome_row_def)
qed

text \<open>The request gets as far as the look-up of its key.\<close>

definition admitted :: "factory_world \<Rightarrow> factory_call \<Rightarrow> actor \<Rightarrow> factory_command \<Rightarrow> bool" where
  "admitted w call who cmd \<longleftrightarrow> fx_enabled call \<and> ac_may_mutate who \<and> validate_command w cmd = Ok () \<and>
     fx_idem_table call = None \<and> fx_idem_read call = None"

lemma factory_spent_replays:
  assumes "admitted w call who cmd" and "find_factory_idem (fy_idem pl) (factory_key cmd) = Some row"
    and "fk_result row = Some r" and "fk_hash row \<in> {[], factory_payload_hash w cmd}"
  shows "dispatch_factory_command w call pl who cmd = (Ok r, pl)"
  using assms by (auto simp: admitted_def dispatch_factory_command_def factory_replayed_result_def)

lemma factory_spent_alone:
  assumes "find_factory_idem (fy_idem pl) (factory_key cmd) = Some row"
  shows "fy_db (snd (dispatch_factory_command w call pl who cmd)) = fy_db pl"
  by (rule dispatch_factory_cases [of w pl cmd call who])
    (use assms in \<open>auto simp: factory_left_alone_def factory_ran_def\<close>)

text \<open>
  a Factory command is all or nothing. A dispatch that is switched off, has no permission, an invalid field or a spent
  key, or fails anywhere up to its commit, leaves database and idempotency table as they were; otherwise the command ran
  on the database found, under a key that had not run, and its changes stand together with one audit row and one
  idempotency row that holds the answer.
\<close>

theorem factory_dispatch_atomic:
  "(let d = dispatch_factory_command w call pl who cmd
    in factory_left_alone w pl cmd d \<or> factory_ran w call pl who cmd d)"
  unfolding Let_def by (rule dispatch_factory_cases [of w pl cmd call who]) blast+


end
