(* ===== verification/Factory_Ops.thy ===== *)
theory Factory_Ops
  imports Factory_Dispatch
begin

text \<open>
  The operations a Factory command runs, as one step relation over the database, and the interface of an invariant of the
  Factory's tables: what every operation keeps, every sequence of requests keeps.
\<close>

section \<open>Operations\<close>

inductive factory_op :: "factory_world \<Rightarrow> factory_env \<Rightarrow> string \<Rightarrow> factory_db \<Rightarrow> factory_db \<Rightarrow> bool"
  for w env owner db where
  op_stay: "factory_op w env owner db db"
| op_workspace: "create_factory_workspace env db owner name = Ok (i, db') \<Longrightarrow> factory_op w env owner db db'"
| op_product: "create_factory_product_draft env db owner ws title = Ok (Some i, db') \<Longrightarrow> factory_op w env owner db db'"
| op_mode: "set_factory_product_mode db owner p mode = Ok (True, db') \<Longrightarrow> factory_op w env owner db db'"
| op_path: "db' = snd (save_factory_product_project_path db owner p path) \<Longrightarrow> factory_op w env owner db db'"
| op_attach: "inspect_existing_git_project w path = Ok source \<Longrightarrow>
    attach_factory_product_existing_project db owner p (eg_path source) (eg_remote source) (eg_revision source) = (True, db') \<Longrightarrow>
    factory_op w env owner db db'"
| op_plan: "create_factory_plan_draft env db owner p title = Ok (Some i, db') \<Longrightarrow> factory_op w env owner db db'"
| op_approve_plan: "approve_factory_plan db owner i = (True, db') \<Longrightarrow> factory_op w env owner db db'"
| op_intake: "start_factory_intake env db owner p = Ok (Some i, db') \<Longrightarrow> factory_op w env owner db db'"
| op_answer: "record_factory_intake_answer env db owner s q r = Ok (True, db') \<Longrightarrow> factory_op w env owner db db'"
| op_charter: "create_factory_charter_draft env db owner p content = Ok (Some x, db') \<Longrightarrow> factory_op w env owner db db'"
| op_requirement: "create_factory_requirement_draft env db owner p skey content = Ok (Some x, db') \<Longrightarrow>
    factory_op w env owner db db'"
| op_apply: "apply_approved_requirement_change env db owner a req content = Ok (Some x, db') \<Longrightarrow> factory_op w env owner db db'"
| op_cycle: "materialize_factory_cycle env db owner plan = Ok (Some x, db') \<Longrightarrow> factory_op w env owner db db'"
| op_graph: "materialize_factory_stage_task_graph env db owner c stage = Ok (Some g, db') \<Longrightarrow> factory_op w env owner db db'"
| op_activate: "activate_approved_factory_stage env db owner c stage = (True, db') \<Longrightarrow> factory_op w env owner db db'"
| op_complete: "complete_factory_stage_with_evidence env db owner c stage = (True, db') \<Longrightarrow> factory_op w env owner db db'"
| op_pause: "pause_factory_cycle db owner c = (True, db') \<Longrightarrow> factory_op w env owner db db'"
| op_resume: "resume_factory_cycle db owner c = (True, db') \<Longrightarrow> factory_op w env owner db db'"
| op_cancel: "cancel_factory_cycle db owner c = (True, db') \<Longrightarrow> factory_op w env owner db db'"
| op_submit: "submit_factory_change_request env db owner p summary = Ok (Some i, db') \<Longrightarrow> factory_op w env owner db db'"
| op_assess: "assess_factory_change_request env db owner change = Ok (Some x, db') \<Longrightarrow> factory_op w env owner db db'"
| op_resolve: "resolve_factory_impact_assessment env db owner a approved = (True, db') \<Longrightarrow> factory_op w env owner db db'"
| op_link_evidence: "link_factory_stage_evidence_to_requirement env db owner e req = (True, db') \<Longrightarrow> factory_op w env owner db db'"
| op_evidence: "record_factory_stage_evidence env db owner c stage content = Ok (Some i, db') \<Longrightarrow> factory_op w env owner db db'"
| op_profile: "create_factory_quality_profile env db owner p name required = Ok (Some i, db') \<Longrightarrow> factory_op w env owner db db'"
| op_gates: "ensure_react_native_closed_testing_quality_profile env db owner p = Ok (Some ids, db') \<Longrightarrow> factory_op w env owner db db'"
| op_check: "record_factory_quality_check env db owner profile passed evidence = Ok (Some i, db') \<Longrightarrow> factory_op w env owner db db'"
| op_release: "create_factory_release_draft env db owner p build = Ok (Some i, db') \<Longrightarrow> factory_op w env owner db db'"
| op_approve_release: "approve_factory_closed_testing_release env db owner i = Ok (True, db') \<Longrightarrow> factory_op w env owner db db'"
| op_support: "create_factory_support_item env db owner p source_kind summary = Ok (Some i, db') \<Longrightarrow> factory_op w env owner db db'"
| op_triage: "triage_factory_support_item db owner i = (True, db') \<Longrightarrow> factory_op w env owner db db'"
| op_resolve_support: "resolve_factory_support_item env db owner i resolution = (True, db') \<Longrightarrow> factory_op w env owner db db'"
| op_link_support: "link_support_to_change_request env db owner i change = (True, db') \<Longrightarrow> factory_op w env owner db db'"

lemma reply_some_iff: "reply_some w msg res f = Ok (r, db') \<longleftrightarrow> (\<exists>y. res = Ok (Some y, db') \<and> r = f y)"
  by (cases res) (auto simp: reply_some_def or_internal_def split: option.splits)

lemma reply_if_iff: "reply_if w msg res r = Ok (r', db') \<longleftrightarrow> res = Ok (True, db') \<and> r' = r"
  by (cases res) (auto simp: reply_if_def or_internal_def split: if_split_asm)

lemmas factory_handlers = create_workspace_def create_product_draft_def set_product_mode_def
  start_intake_def record_intake_answer_def create_charter_draft_def create_requirement_draft_def
  submit_change_request_def assess_change_request_def resolve_impact_assessment_def apply_requirement_change_def
  create_plan_draft_def approve_plan_def materialize_planned_cycle_def pause_cycle_def resume_cycle_def cancel_cycle_def
  materialize_stage_task_graph_def activate_approved_stage_def record_stage_evidence_def
  link_stage_evidence_to_requirement_def complete_stage_def create_quality_profile_def
  ensure_react_native_profile_def record_quality_check_def create_release_draft_def approve_closed_testing_release_def
  create_support_item_def triage_support_item_def resolve_support_item_def link_support_change_def

lemma scaffold_op:
  assumes "scaffold_project w made db owner p = Ok (r, db')"
  shows "factory_op w env owner db db'"
proof -
  obtain existing target where
    "(case target of
         None \<Rightarrow> Ok ([(''product_id'', J_Text p), (''project_path'', J_Text existing), (''created'', J_Flag False)], db)
       | Some (category, path) \<Rightarrow>
           if \<not> fo_scaffolds w path
           then Err (internal ''Factory project scaffold did not create required project files'')
           else Ok ([(''product_id'', J_Text p), (''project_path'', J_Text path), (''category'', J_Text category),
             (''created'', J_Flag True)], snd (save_factory_product_project_path db owner p path))) = Ok (r, db')"
    using assms unfolding scaffold_project_def and_then_Inr_iff by auto
  then show ?thesis
    by (auto intro: op_stay op_path split: option.split_asm prod.split_asm if_split_asm)
qed

lemma generate_charter_op:
  assumes "generate_charter_draft w env db owner p = Ok (r, db')"
  shows "factory_op w env owner db db'"
  using assms
  by (auto simp: generate_charter_draft_def and_then_Inr_iff reply_some_iff split: option.split_asm intro: op_charter)

lemma run_factory_op:
  assumes "run_factory_command w env made db owner cmd = Ok (r, db')"
  shows "factory_op w env owner db db'"
  using assms
proof (cases cmd)
  case (Scaffold_Project p k)
  then show ?thesis
    using assms scaffold_op by simp
next
  case (Generate_Charter_Draft p k)
  then show ?thesis
    using assms generate_charter_op by simp
next
  case (Attach_Existing_Project p path k)
  then show ?thesis
    using assms by (auto simp: attach_existing_project_def and_then_Inr_iff reply_if_iff intro: op_attach)
next
  case (Create_Workspace name k)
  then show ?thesis
    using assms by (auto simp: create_workspace_def and_then_Inr_iff or_internal_def intro: op_workspace)
next
  case (Inspect_Release_Readiness p k)
  then show ?thesis
    using assms by (auto simp: inspect_release_readiness_def reply_some_iff intro: op_stay)
next
  case (Inspect_Support_Overview p k)
  then show ?thesis
    using assms by (auto simp: inspect_support_overview_def reply_some_iff intro: op_stay)
qed (auto simp: factory_handlers reply_some_iff reply_if_iff and_then_Inr_iff intro: factory_op.intros)

text \<open>A step changes the database in one of three ways.\<close>

lemma factory_step_cases:
  obtains (same) "fy_db (factory_step w pl e) = fy_db pl"
  | (elsewhere) f where "fy_db (factory_step w pl e) = (fy_db pl)\<lparr>fd_control := f\<rparr>"
  | (ran) call who cmd r db f where "e = Asked call who cmd" "ac_may_mutate who" "is_ok (validate_command w cmd)"
      "run_factory_command w (fx_env call) (fy_made pl) (fy_db pl) (ac_subject who) cmd = Ok (r, db)"
      "factory_op w (fx_env call) (ac_subject who) (fy_db pl) db"
      "fy_db (factory_step w pl e) = db\<lparr>fd_control := f\<rparr>"
proof (cases e)
  case (Asked call who cmd)
  show thesis
  proof (rule dispatch_factory_cases [of w pl cmd call who])
    assume "factory_ran w call pl who cmd (dispatch_factory_command w call pl who cmd)"
    then show thesis
      using ran [OF Asked] run_factory_op by (auto simp: factory_ran_def Asked factory_logged_def)
  qed (use same in \<open>simp add: Asked factory_left_alone_def\<close>)
qed (use elsewhere in auto)

section \<open>Invariants of the Factory's tables\<close>

locale factory_invariant =
  fixes kept :: "factory_db \<Rightarrow> bool"
  assumes op_keeps: "factory_op w env owner db db' \<Longrightarrow> kept db \<Longrightarrow> kept db'"
    and control_keeps: "kept db \<Longrightarrow> kept (db\<lparr>fd_control := f\<rparr>)"
begin

lemma step_keeps:
  assumes "kept (fy_db pl)"
  shows "kept (fy_db (factory_step w pl e))"
  by (rule factory_step_cases [of w pl e]) (use assms in \<open>auto simp: control_keeps dest: op_keeps\<close>)

sublocale machine "factory_step w" "\<lambda>_. True" "\<lambda>pl. kept (fy_db pl)" for w
  by unfold_locales (rule step_keeps)

lemma runs_keep: "kept (fy_db pl) \<Longrightarrow> kept (fy_db (foldl (factory_step w) pl events))"
  using run_inv [of pl events w] by (simp add: list_all_iff)

end

end
