(* ===== verification/Factory_Cycles.thy ===== *)
theory Factory_Cycles
  imports Factory_Ops
begin

text \<open>
  The life of a development cycle and its stages: what a cycle promises as an abstract machine, and that the operations
  implement it.
\<close>

section \<open>The abstract cycle\<close>

text \<open>The status of a cycle, and of each of its stages.\<close>

type_synonym cycle_state = "string option \<times> (string \<Rightarrow> string option)"

definition cancel_stage :: "string \<Rightarrow> string" where
  "cancel_stage b = (if b = ''pending'' \<or> b = ''active'' then ''cancelled'' else b)"

inductive cycle_next :: "cycle_state \<Rightarrow> cycle_state \<Rightarrow> bool" where
  born: "cycle_next (None, \<lambda>s. None) (Some ''planned'', \<lambda>s. if s \<in> set factory_lifecycle_stages then Some ''pending'' else None)"
| activated: "a = ''planned'' \<or> a = ''active'' \<Longrightarrow> S s = Some ''pending'' \<Longrightarrow>
    cycle_next (Some a, S) (Some ''active'', S(s \<mapsto> ''active''))"
| completed: "S s = Some ''active'' \<Longrightarrow> cycle_next (Some ''active'', S) (Some ''active'', S(s \<mapsto> ''completed''))"
| paused: "a = ''planned'' \<or> a = ''active'' \<Longrightarrow> cycle_next (Some a, S) (Some ''paused'', S)"
| resumed: "cycle_next (Some ''paused'', S) (Some (if Some ''active'' \<in> range S then ''active'' else ''planned''), S)"
| cancelled: "a = ''planned'' \<or> a = ''active'' \<or> a = ''paused'' \<Longrightarrow>
    cycle_next (Some a, S) (Some ''cancelled'', \<lambda>s. map_option cancel_stage (S s))"

inductive_cases cycle_nextE: "cycle_next x y"

text \<open>What holds of every cycle: an active stage has a running or paused cycle, a cancelled cycle has no open stage.\<close>

definition stage_fits :: "string \<Rightarrow> string \<Rightarrow> bool" where
  "stage_fits a b \<longleftrightarrow> b \<in> {''pending'', ''active'', ''completed'', ''cancelled''} \<and>
     (b = ''active'' \<longrightarrow> a = ''active'' \<or> a = ''paused'') \<and> (b = ''pending'' \<longrightarrow> a \<noteq> ''cancelled'') \<and>
     (b = ''cancelled'' \<longrightarrow> a = ''cancelled'')"

definition cycle_sound :: "cycle_state \<Rightarrow> bool" where
  "cycle_sound x \<longleftrightarrow>
     (case x of (None, S) \<Rightarrow> S = (\<lambda>s. None) | (Some a, S) \<Rightarrow> (\<forall>s b. S s = Some b \<longrightarrow> stage_fits a b))"

lemma stage_fits_moves:
  "stage_fits a b \<Longrightarrow> a = ''planned'' \<or> a = ''active'' \<Longrightarrow> stage_fits ''active'' b"
  "stage_fits a b \<Longrightarrow> a = ''planned'' \<or> a = ''active'' \<Longrightarrow> stage_fits ''paused'' b"
  "stage_fits ''paused'' b \<Longrightarrow> stage_fits ''active'' b"
  "stage_fits ''paused'' b \<Longrightarrow> b \<noteq> ''active'' \<Longrightarrow> stage_fits ''planned'' b"
  "stage_fits a b \<Longrightarrow> stage_fits ''cancelled'' (cancel_stage b)"
  "stage_fits ''planned'' ''pending''" "stage_fits ''active'' ''active''" "stage_fits ''active'' ''completed''"
  by (auto simp: stage_fits_def cancel_stage_def)

lemma cycle_next_sound:
  assumes "cycle_next x y" and "cycle_sound x"
  shows "cycle_sound y"
  using assms
proof cases
  case (resumed S)
  then show ?thesis
    using assms(2) stage_fits_moves(3,4) by (auto simp: cycle_sound_def split: if_split) (metis rangeI)
qed (auto simp: cycle_sound_def intro: stage_fits_moves split: if_split_asm)

lemma cancelled_final: "\<not> cycle_next (Some ''cancelled'', S) y"
  by (auto elim: cycle_nextE)

lemma completed_next: "cycle_next x y \<Longrightarrow> snd x s = Some ''completed'' \<Longrightarrow> snd y s = Some ''completed''"
  by (erule cycle_next.cases) (auto simp: cancel_stage_def)

lemma completed_run: "cycle_next\<^sup>*\<^sup>* x y \<Longrightarrow> snd x s = Some ''completed'' \<Longrightarrow> snd y s = Some ''completed''"
  by (induction rule: rtranclp_induct) (auto dest: completed_next)

section \<open>The stored cycle\<close>

definition cycle_row :: "factory_db \<Rightarrow> string \<Rightarrow> factory_cycle option" where
  "cycle_row db c = List.find (\<lambda>y. cy_id y = c) (fd_cycles db)"

definition cycle_state :: "factory_db \<Rightarrow> string \<Rightarrow> cycle_state" where
  "cycle_state db c = (map_option cy_status (cycle_row db c), \<lambda>s. map_option sr_status (stage_run_of db c s))"

definition stage_key :: "stage_run \<Rightarrow> string \<times> string" where
  "stage_key r = (sr_cycle r, sr_stage r)"

definition cycles_keyed :: "factory_db \<Rightarrow> bool" where
  "cycles_keyed db \<longleftrightarrow> distinct (map cy_id (fd_cycles db)) \<and> distinct (map stage_key (fd_runs db)) \<and>
     sr_cycle ` set (fd_runs db) \<subseteq> cy_id ` set (fd_cycles db)"

interpretation cycles: keyed_table cy_id .

interpretation stage_runs: keyed_table stage_key .

lemma stage_run_of_key: "stage_run_of db c s = List.find (\<lambda>r. stage_key r = (c, s)) (fd_runs db)"
  by (simp add: stage_run_of_def stage_key_def)

lemma cycle_row_update:
  assumes "fd_cycles db' = update_where p f (fd_cycles db)" and "\<And>y. cy_id (f y) = cy_id y"
  shows "cycle_row db' c = map_option (\<lambda>y. if p y then f y else y) (cycle_row db c)"
  by (simp add: cycle_row_def assms find_update_where)

lemma stage_run_update:
  assumes "fd_runs db' = update_where p f (fd_runs db)" and "\<And>r. stage_key (f r) = stage_key r"
  shows "stage_run_of db' c s = map_option (\<lambda>r. if p r then f r else r) (stage_run_of db c s)"
  by (simp add: stage_run_of_key assms find_update_where)

lemma cycle_row_Some: "cycle_row db c = Some y \<Longrightarrow> y \<in> set (fd_cycles db) \<and> cy_id y = c"
  unfolding cycle_row_def by (drule find_Some_in) simp

lemma stage_run_of_Some: "stage_run_of db c s = Some r \<Longrightarrow> r \<in> set (fd_runs db) \<and> sr_cycle r = c \<and> sr_stage r = s"
  unfolding stage_run_of_def by (drule find_Some_in) simp

lemma cycle_rowI:
  assumes "cycles_keyed db" and "y \<in> set (fd_cycles db)"
  shows "cycle_row db (cy_id y) = Some y"
  using assms cycles.find_key unfolding cycles_keyed_def cycle_row_def by blast

lemma stage_run_ofI:
  assumes "cycles_keyed db" and "r \<in> set (fd_runs db)"
  shows "stage_run_of db (sr_cycle r) (sr_stage r) = Some r"
  using assms stage_runs.find_key [of "fd_runs db" r] by (simp add: cycles_keyed_def stage_run_of_key stage_key_def)

text \<open>Updates that keep the keys keep the key discipline.\<close>

lemma cycles_keyed_update:
  assumes "cycles_keyed db" and "fd_cycles db' = update_where p f (fd_cycles db)" and "\<And>y. cy_id (f y) = cy_id y"
    and "fd_runs db' = update_where q g (fd_runs db)" and "\<And>r. stage_key (g r) = stage_key r"
  shows "cycles_keyed db'"
proof -
  have "sr_cycle (g r) = sr_cycle r" for r
    using assms(5) [of r] by (simp add: stage_key_def)
  then have runs: "sr_cycle ` set (fd_runs db') = sr_cycle ` set (fd_runs db)"
    unfolding assms(4) by (rule image_update_where)
  have cycles: "cy_id ` set (fd_cycles db') = cy_id ` set (fd_cycles db)"
    unfolding assms(2) by (rule image_update_where) (rule assms(3))
  show ?thesis
    using assms(1) cycles.distinct_update [OF assms(3)] stage_runs.distinct_update [OF assms(5)]
    unfolding cycles_keyed_def runs cycles by (simp add: assms(2,4))
qed

section \<open>What the operations do to a cycle\<close>

lemma cycle_state_other:
  assumes "fd_cycles db' = fd_cycles db" and "fd_runs db' = fd_runs db"
  shows "cycle_state db' c = cycle_state db c" "cycles_keyed db' = cycles_keyed db"
  using assms by (simp_all add: cycle_state_def cycle_row_def stage_run_of_def cycles_keyed_def)

lemma count_one_hit: "count_where p rows = 1 \<Longrightarrow> \<exists>r\<in>set rows. p r"
  using count_where_pos [of p rows] by simp

definition moved :: "factory_db \<Rightarrow> factory_db \<Rightarrow> string \<Rightarrow> cycle_state \<Rightarrow> bool" where
  "moved db db' c x \<longleftrightarrow> cycles_keyed db' \<and> cycle_next (cycle_state db c) x \<and> cycle_state db' c = x \<and>
     (\<forall>k. k \<noteq> c \<longrightarrow> cycle_state db' k = cycle_state db k)"

text \<open>Updates of a cycle's row and of its stages' rows.\<close>

lemma movedI:
  assumes "cycles_keyed db"
    and "fd_cycles db' = update_where (\<lambda>y. cy_id y = c) f (fd_cycles db)" and "\<And>y. cy_id (f y) = cy_id y"
    and "fd_runs db' = update_where q g (fd_runs db)" and "\<And>r. stage_key (g r) = stage_key r" and "\<And>r. q r \<Longrightarrow> sr_cycle r = c"
    and "cycle_row db c = Some y"
    and "cycle_next (cycle_state db c) x"
    and "x = (Some (cy_status (f y)), \<lambda>s. map_option (\<lambda>r. if q r then sr_status (g r) else sr_status r) (stage_run_of db c s))"
  shows "moved db db' c x"
proof -
  note row = cycle_row_update [OF assms(2,3)] and run = stage_run_update [OF assms(4,5)]
  have here: "cycle_state db' c = (Some (cy_status (f y)),
      \<lambda>s. map_option (\<lambda>r. if q r then sr_status (g r) else sr_status r) (stage_run_of db c s))"
    using cycle_row_Some [OF assms(7)] by (auto simp: cycle_state_def row run assms(7) option.map_comp o_def intro!: ext option.map_cong0)
  have "cycle_state db' k = cycle_state db k" if "k \<noteq> c" for k
  proof -
    have "map_option sr_status (stage_run_of db' k s) = map_option sr_status (stage_run_of db k s)" for s
      using that by (cases "stage_run_of db k s") (auto simp: run dest: stage_run_of_Some assms(6))
    moreover have "cycle_row db' k = cycle_row db k"
      using that by (cases "cycle_row db k") (auto simp: row dest: cycle_row_Some)
    ultimately show ?thesis
      by (simp add: cycle_state_def)
  qed
  then show ?thesis
    using cycles_keyed_update [OF assms(1-5)] assms(8,9) by (simp add: moved_def here)
qed

lemma cycle_hit:
  assumes "cycles_keyed db" and "\<exists>y\<in>set (fd_cycles db). cy_id y = c \<and> P y"
  obtains y where "cycle_row db c = Some y" "P y"
    "\<forall>f. update_where (\<lambda>y. cy_id y = c \<and> P y) f (fd_cycles db) = update_where (\<lambda>y. cy_id y = c) f (fd_cycles db)"
proof -
  have d: "distinct (map cy_id (fd_cycles db))"
    using assms(1) by (simp add: cycles_keyed_def)
  show thesis
    by (rule cycles.hit_row [OF d assms(2)]) (rule that, simp_all add: cycle_row_def)
qed

lemma stage_hit:
  assumes "cycles_keyed db" and "\<exists>r\<in>set (fd_runs db). stage_key r = (c, s) \<and> P r"
  obtains r where "stage_run_of db c s = Some r" "P r"
    "\<forall>f. update_where (\<lambda>r. stage_key r = (c, s) \<and> P r) f (fd_runs db) = update_where (\<lambda>r. stage_key r = (c, s)) f (fd_runs db)"
proof -
  have d: "distinct (map stage_key (fd_runs db))"
    using assms(1) by (simp add: cycles_keyed_def)
  show thesis
    by (rule stage_runs.hit_row [OF d assms(2)]) (rule that, simp_all add: stage_run_of_key)
qed

lemma same_runs: "fd_runs db = update_where (\<lambda>_. False) (\<lambda>r. r) (fd_runs db)"
  by (simp add: update_where_none)

lemma pause_moved:
  assumes "cycles_keyed db" and "pause_factory_cycle db owner c = (True, db')"
  shows "moved db db' c (Some ''paused'', snd (cycle_state db c))"
proof -
  let ?P = "\<lambda>y. open_cycle y \<and> product_owned db (cy_product y) owner"
  have "\<exists>y\<in>set (fd_cycles db). cy_id y = c \<and> ?P y"
    using assms(2) count_one_hit by (auto simp: pause_factory_cycle_def Let_def)
  then obtain y where y: "cycle_row db c = Some y" "?P y" and up: "\<forall>f. update_where (\<lambda>y. cy_id y = c \<and> ?P y) f (fd_cycles db) =
      update_where (\<lambda>y. cy_id y = c) f (fd_cycles db)"
    by (rule cycle_hit [OF assms(1)])
  have cycles: "fd_cycles db' = update_where (\<lambda>y. cy_id y = c) (\<lambda>y. y\<lparr>cy_status := ''paused''\<rparr>) (fd_cycles db)"
    and runs: "fd_runs db' = update_where (\<lambda>_. False) (\<lambda>r. r) (fd_runs db)"
    using assms(2) up by (auto simp: pause_factory_cycle_def Let_def same_runs [symmetric])
  show "moved db db' c (Some ''paused'', snd (cycle_state db c))"
    using y cycle_next.paused [of "cy_status y"]
    by (intro movedI [OF assms(1) cycles _ runs _ _ y(1)]) (simp_all add: cycle_state_def open_cycle_def)
qed

lemma resume_moved:
  assumes "cycles_keyed db" and "resume_factory_cycle db owner c = (True, db')"
  shows "\<exists>a. moved db db' c (Some a, snd (cycle_state db c))"
proof -
  let ?P = "\<lambda>y. cy_status y = ''paused'' \<and> product_owned db (cy_product y) owner"
  let ?new = "\<lambda>y. if list_ex (\<lambda>r. sr_cycle r = cy_id y \<and> sr_status r = ''active'') (fd_runs db) then ''active'' else ''planned''"
  have "\<exists>y\<in>set (fd_cycles db). cy_id y = c \<and> ?P y"
    using assms(2) count_one_hit by (auto simp: resume_factory_cycle_def Let_def)
  then obtain y where y: "cycle_row db c = Some y" "?P y" and up: "\<forall>f. update_where (\<lambda>y. cy_id y = c \<and> ?P y) f (fd_cycles db) =
      update_where (\<lambda>y. cy_id y = c) f (fd_cycles db)"
    by (rule cycle_hit [OF assms(1)])
  have cycles: "fd_cycles db' = update_where (\<lambda>y. cy_id y = c) (\<lambda>y. y\<lparr>cy_status := ?new y\<rparr>) (fd_cycles db)"
    and runs: "fd_runs db' = update_where (\<lambda>_. False) (\<lambda>r. r) (fd_runs db)"
    using assms(2) up by (auto simp: resume_factory_cycle_def Let_def same_runs [symmetric])
  have "list_ex (\<lambda>r. sr_cycle r = cy_id y \<and> sr_status r = ''active'') (fd_runs db) \<longleftrightarrow>
      Some ''active'' \<in> range (snd (cycle_state db c))"
  proof
    assume "list_ex (\<lambda>r. sr_cycle r = cy_id y \<and> sr_status r = ''active'') (fd_runs db)"
    then obtain r where r: "r \<in> set (fd_runs db)" "sr_cycle r = c" "sr_status r = ''active''"
      using cycle_row_Some [OF y(1)] by (auto simp: list_ex_iff)
    have "snd (cycle_state db c) (sr_stage r) = Some ''active''"
      using stage_run_ofI [OF assms(1) r(1)] r(2,3) by (simp add: cycle_state_def)
    then show "Some ''active'' \<in> range (snd (cycle_state db c))"
      by (metis rangeI)
  next
    assume "Some ''active'' \<in> range (snd (cycle_state db c))"
    then obtain s where "map_option sr_status (stage_run_of db c s) = Some ''active''"
      by (auto simp: cycle_state_def eq_commute [of "Some x" for x])
    then obtain r where "stage_run_of db c s = Some r" "sr_status r = ''active''"
      by auto
    then show "list_ex (\<lambda>r. sr_cycle r = cy_id y \<and> sr_status r = ''active'') (fd_runs db)"
      using stage_run_of_Some cycle_row_Some [OF y(1)] unfolding list_ex_iff by blast
  qed
  then have "cycle_next (cycle_state db c) (Some (?new y), snd (cycle_state db c))"
    using y cycle_next.resumed [of "snd (cycle_state db c)"] by (simp add: cycle_state_def)
  then have "moved db db' c (Some (?new y), snd (cycle_state db c))"
    by (intro movedI [OF assms(1) cycles _ runs _ _ y(1)]) (simp_all add: cycle_state_def)
  then show ?thesis ..
qed

lemma cancel_moved:
  assumes "cycles_keyed db" and "cancel_factory_cycle db owner c = (True, db')"
  shows "moved db db' c (Some ''cancelled'', \<lambda>s. map_option cancel_stage (snd (cycle_state db c) s)) \<and>
    (\<exists>y. cycle_row db c = Some y \<and> product_owned db (cy_product y) owner)"
proof -
  let ?P = "\<lambda>y. (open_cycle y \<or> cy_status y = ''paused'') \<and> product_owned db (cy_product y) owner"
  let ?q = "\<lambda>r. sr_cycle r = c \<and> (sr_status r = ''pending'' \<or> sr_status r = ''active'')"
  have "\<exists>y\<in>set (fd_cycles db). cy_id y = c \<and> ?P y"
    using assms(2) by (auto simp: cancel_factory_cycle_def list_ex_iff split: if_split_asm)
  then obtain y where y: "cycle_row db c = Some y" "?P y"
    by (rule cycle_hit [OF assms(1)])
  have cycles: "fd_cycles db' = update_where (\<lambda>y. cy_id y = c) (\<lambda>y. y\<lparr>cy_status := ''cancelled''\<rparr>) (fd_cycles db)"
    and runs: "fd_runs db' = update_where ?q (\<lambda>r. r\<lparr>sr_status := ''cancelled''\<rparr>) (fd_runs db)"
    using assms(2) by (auto simp: cancel_factory_cycle_def split: if_split_asm)
  have new: "(\<lambda>s. map_option (\<lambda>r. if ?q r then sr_status (r\<lparr>sr_status := ''cancelled''\<rparr>) else sr_status r) (stage_run_of db c s)) =
      (\<lambda>s. map_option cancel_stage (snd (cycle_state db c) s))"
    by (rule ext, case_tac "stage_run_of db c s") (auto simp: cycle_state_def cancel_stage_def dest: stage_run_of_Some)
  have "moved db db' c (Some ''cancelled'', \<lambda>s. map_option cancel_stage (snd (cycle_state db c) s))"
    by (rule movedI [OF assms(1) cycles _ runs _ _ y(1)])
      (use y cycle_next.cancelled [of "cy_status y" "snd (cycle_state db c)"] in
        \<open>auto simp: stage_key_def new cycle_state_def open_cycle_def simp del: map_option_eq_Some\<close>)
  then show ?thesis
    using y by blast
qed

lemma activate_hit:
  assumes "cycles_keyed db" and "activate_approved_factory_stage env db owner c stage = (True, db')"
  obtains r y where "stage_run_of db c stage = Some r" "sr_status r = ''pending''" "sr_graph r \<noteq> None" "stage_approved db owner r"
    "cycle_row db c = Some y" "open_cycle y" "product_owned db (cy_product y) owner"
    "fd_cycles db' = update_where (\<lambda>y. cy_id y = c) (\<lambda>y. y\<lparr>cy_status := ''active'', cy_stage := stage\<rparr>) (fd_cycles db)"
    "fd_runs db' = update_where (\<lambda>r. stage_key r = (c, stage))
       (\<lambda>r. r\<lparr>sr_status := ''active'', sr_started_at := Some (fe_now env)\<rparr>) (fd_runs db)"
    "fd_evidence db' = fd_evidence db"
proof -
  let ?P = "\<lambda>r. sr_status r = ''pending'' \<and> sr_graph r \<noteq> None \<and>
     list_ex (\<lambda>y. cy_id y = sr_cycle r \<and> open_cycle y \<and> product_owned db (cy_product y) owner) (fd_cycles db) \<and>
     stage_approved db owner r"
  let ?g = "\<lambda>r. r\<lparr>sr_status := ''active'', sr_started_at := Some (fe_now env)\<rparr>"
  have hit: "(\<lambda>r. sr_cycle r = c \<and> sr_stage r = stage \<and> ?P r) = (\<lambda>r. stage_key r = (c, stage) \<and> ?P r)"
    by (auto simp: stage_key_def)
  have d: "count_where (\<lambda>r. stage_key r = (c, stage) \<and> ?P r) (fd_runs db) = 1"
    "fd_cycles db' = update_where (\<lambda>y. cy_id y = c) (\<lambda>y. y\<lparr>cy_status := ''active'', cy_stage := stage\<rparr>) (fd_cycles db)"
    "fd_runs db' = update_where (\<lambda>r. stage_key r = (c, stage) \<and> ?P r) ?g (fd_runs db)" "fd_evidence db' = fd_evidence db"
    using assms(2) unfolding activate_approved_factory_stage_def hit Let_def by (auto split: if_split_asm)
  obtain r where r: "stage_run_of db c stage = Some r" "?P r"
    and up: "\<forall>f. update_where (\<lambda>r. stage_key r = (c, stage) \<and> ?P r) f (fd_runs db) =
      update_where (\<lambda>r. stage_key r = (c, stage)) f (fd_runs db)"
    by (rule stage_hit [OF assms(1) count_one_hit [OF d(1)]])
  have "\<exists>y\<in>set (fd_cycles db). cy_id y = c \<and> open_cycle y \<and> product_owned db (cy_product y) owner"
    using r stage_run_of_Some [OF r(1)] by (auto simp: list_ex_iff)
  then obtain y where "cycle_row db c = Some y" "open_cycle y \<and> product_owned db (cy_product y) owner"
    by (rule cycle_hit [OF assms(1)])
  then show thesis
    using that r d up by simp
qed

lemma complete_hit:
  assumes "cycles_keyed db" and "complete_factory_stage_with_evidence env db owner c stage = (True, db')"
  obtains r y where "stage_run_of db c stage = Some r" "sr_status r = ''active''" "stage_evidenced db r"
    "cycle_row db c = Some y" "cy_status y = ''active''" "product_owned db (cy_product y) owner"
    "fd_cycles db' = update_where (\<lambda>y. cy_id y = c) (\<lambda>y. y) (fd_cycles db)"
    "fd_runs db' = update_where (\<lambda>r. stage_key r = (c, stage))
       (\<lambda>r. r\<lparr>sr_status := ''completed'', sr_completed_at := Some (fe_now env)\<rparr>) (fd_runs db)"
    "fd_evidence db' = fd_evidence db"
proof -
  let ?P = "\<lambda>r. sr_status r = ''active'' \<and> stage_evidenced db r \<and>
     list_ex (\<lambda>y. cy_id y = sr_cycle r \<and> cy_status y = ''active'' \<and> product_owned db (cy_product y) owner) (fd_cycles db)"
  let ?g = "\<lambda>r. r\<lparr>sr_status := ''completed'', sr_completed_at := Some (fe_now env)\<rparr>"
  have hit: "(\<lambda>r. sr_cycle r = c \<and> sr_stage r = stage \<and> ?P r) = (\<lambda>r. stage_key r = (c, stage) \<and> ?P r)"
    by (auto simp: stage_key_def)
  have d: "count_where (\<lambda>r. stage_key r = (c, stage) \<and> ?P r) (fd_runs db) = 1" "fd_cycles db' = fd_cycles db"
    "fd_runs db' = update_where (\<lambda>r. stage_key r = (c, stage) \<and> ?P r) ?g (fd_runs db)" "fd_evidence db' = fd_evidence db"
    using assms(2) unfolding complete_factory_stage_with_evidence_def hit Let_def by auto
  obtain r where r: "stage_run_of db c stage = Some r" "?P r"
    and up: "\<forall>f. update_where (\<lambda>r. stage_key r = (c, stage) \<and> ?P r) f (fd_runs db) =
      update_where (\<lambda>r. stage_key r = (c, stage)) f (fd_runs db)"
    by (rule stage_hit [OF assms(1) count_one_hit [OF d(1)]])
  have "\<exists>y\<in>set (fd_cycles db). cy_id y = c \<and> cy_status y = ''active'' \<and> product_owned db (cy_product y) owner"
    using r stage_run_of_Some [OF r(1)] by (auto simp: list_ex_iff)
  then obtain y where "cycle_row db c = Some y" "cy_status y = ''active'' \<and> product_owned db (cy_product y) owner"
    by (rule cycle_hit [OF assms(1)])
  moreover have "fd_cycles db = update_where (\<lambda>y. cy_id y = c) (\<lambda>y. y) (fd_cycles db)"
    by (simp add: update_where_def)
  ultimately show thesis
    using that r d up by simp
qed

text \<open>Setting the status of one stage.\<close>

lemma set_stage_status:
  assumes "stage_run_of db c stage = Some r" and "\<And>r. stage_key (g r) = stage_key r" and "\<And>r. sr_status (g r) = b"
  shows "(\<lambda>s. map_option (\<lambda>r. if stage_key r = (c, stage) then sr_status (g r) else sr_status r) (stage_run_of db c s)) =
    (snd (cycle_state db c))(stage \<mapsto> b)"
proof
  fix s
  show "map_option (\<lambda>r. if stage_key r = (c, stage) then sr_status (g r) else sr_status r) (stage_run_of db c s) =
    ((snd (cycle_state db c))(stage \<mapsto> b)) s"
    using assms(1,3) by (cases "stage_run_of db c s") (auto simp: cycle_state_def stage_key_def dest: stage_run_of_Some)
qed

lemma activate_moved:
  assumes "cycles_keyed db" and "activate_approved_factory_stage env db owner c stage = (True, db')"
  shows "moved db db' c (Some ''active'', (snd (cycle_state db c))(stage \<mapsto> ''active''))"
proof (rule activate_hit [OF assms])
  let ?g = "\<lambda>r. r\<lparr>sr_status := ''active'', sr_started_at := Some (fe_now env)\<rparr>"
  fix r y
  assume r: "stage_run_of db c stage = Some r" "sr_status r = ''pending''" and y: "cycle_row db c = Some y" "open_cycle y"
    and cycles: "fd_cycles db' = update_where (\<lambda>y. cy_id y = c) (\<lambda>y. y\<lparr>cy_status := ''active'', cy_stage := stage\<rparr>) (fd_cycles db)"
    and runs: "fd_runs db' = update_where (\<lambda>r. stage_key r = (c, stage)) ?g (fd_runs db)"
  have new: "(\<lambda>s. map_option (\<lambda>r. if stage_key r = (c, stage) then sr_status (?g r) else sr_status r) (stage_run_of db c s)) =
      (snd (cycle_state db c))(stage \<mapsto> ''active'')"
    by (rule set_stage_status [OF r(1)]) (simp_all add: stage_key_def)
  show ?thesis
  proof (rule movedI [OF assms(1) cycles _ runs _ _ y(1)])
    show "cycle_next (cycle_state db c) (Some ''active'', (snd (cycle_state db c))(stage \<mapsto> ''active''))"
      using y r cycle_next.activated [of "cy_status y" "snd (cycle_state db c)" stage] by (simp add: cycle_state_def open_cycle_def)
    show "(Some ''active'', (snd (cycle_state db c))(stage \<mapsto> ''active'')) = (Some (cy_status (y\<lparr>cy_status := ''active'', cy_stage := stage\<rparr>)),
        \<lambda>s. map_option (\<lambda>r. if stage_key r = (c, stage) then sr_status (?g r) else sr_status r) (stage_run_of db c s))"
      unfolding new using y by simp
  qed (simp_all add: stage_key_def)
qed

lemma complete_moved:
  assumes "cycles_keyed db" and "complete_factory_stage_with_evidence env db owner c stage = (True, db')"
  shows "moved db db' c (Some ''active'', (snd (cycle_state db c))(stage \<mapsto> ''completed''))"
proof (rule complete_hit [OF assms])
  let ?g = "\<lambda>r. r\<lparr>sr_status := ''completed'', sr_completed_at := Some (fe_now env)\<rparr>"
  fix r y
  assume r: "stage_run_of db c stage = Some r" "sr_status r = ''active''" and y: "cycle_row db c = Some y" "cy_status y = ''active''"
    and cycles: "fd_cycles db' = update_where (\<lambda>y. cy_id y = c) (\<lambda>y. y) (fd_cycles db)"
    and runs: "fd_runs db' = update_where (\<lambda>r. stage_key r = (c, stage)) ?g (fd_runs db)"
  have new: "(\<lambda>s. map_option (\<lambda>r. if stage_key r = (c, stage) then sr_status (?g r) else sr_status r) (stage_run_of db c s)) =
      (snd (cycle_state db c))(stage \<mapsto> ''completed'')"
    by (rule set_stage_status [OF r(1)]) (simp_all add: stage_key_def)
  show ?thesis
  proof (rule movedI [OF assms(1) cycles _ runs _ _ y(1)])
    show "cycle_next (cycle_state db c) (Some ''active'', (snd (cycle_state db c))(stage \<mapsto> ''completed''))"
      using y r cycle_next.completed [of "snd (cycle_state db c)" stage] by (simp add: cycle_state_def open_cycle_def)
    show "(Some ''active'', (snd (cycle_state db c))(stage \<mapsto> ''completed'')) = (Some (cy_status (y)),
        \<lambda>s. map_option (\<lambda>r. if stage_key r = (c, stage) then sr_status (?g r) else sr_status r) (stage_run_of db c s))"
      unfolding new using y by simp
  qed (simp_all add: stage_key_def)
qed

lemma insert_stage_runs_Ok:
  assumes "insert_stage_runs new c n stages rows = Ok rows'"
  obtains added where "rows' = rows @ added" "map stage_key added = map (Pair c) stages"
    "list_all (\<lambda>r. sr_status r = ''pending'') added" "distinct (map stage_key rows) \<Longrightarrow> distinct (map stage_key rows')"
  using assms
proof (induction new c n stages rows arbitrary: thesis rule: insert_stage_runs.induct)
  case (2 new c n stage stages rows)
  let ?r = "\<lparr>sr_id = new n, sr_cycle = c, sr_stage = stage, sr_status = ''pending'', sr_graph = None,
    sr_started_at = None, sr_completed_at = None\<rparr>"
  have ok: "free sr_id (new n) rows \<and> free (\<lambda>r. (sr_cycle r, sr_stage r)) (c, stage) rows"
    "insert_stage_runs new c (Suc n) stages (rows @ [?r]) = Ok rows'"
    using 2(3) by (auto split: if_split_asm)
  show ?case
  proof (rule 2(1) [OF _ _ ok(2)])
    show "\<not> (\<not> free sr_id (new n) rows \<or> \<not> free (\<lambda>r. (sr_cycle r, sr_stage r)) (c, stage) rows)"
      using ok(1) by simp
    fix added
    assume a: "rows' = (rows @ [?r]) @ added" "map stage_key added = map (Pair c) stages"
      "list_all (\<lambda>r. sr_status r = ''pending'') added"
      "distinct (map stage_key (rows @ [?r])) \<Longrightarrow> distinct (map stage_key rows')"
    have row: "stage_key ?r = (c, stage)"
      by (simp add: stage_key_def)
    have "(c, stage) \<notin> stage_key ` set rows"
      using ok(1) by (auto simp: stage_key_def free_def image_iff)
    then show thesis
      using a by (intro 2(2) [of "?r # added"]) (simp_all add: row)
  qed
qed simp

lemma find_same_key:
  assumes "map h added = map (Pair c) stages" and "list_all P added"
  shows "(case List.find (\<lambda>r. h r = (k, s)) added of None \<Rightarrow> \<not> (k = c \<and> s \<in> set stages) | Some r \<Rightarrow> k = c \<and> s \<in> set stages \<and> P r)"
  using assms by (induction added arbitrary: stages) (auto split: option.splits simp: Cons_eq_map_conv)

lemma created_moved:
  assumes keyed: "cycles_keyed db" and res: "materialize_factory_cycle env db owner plan = Ok (Some x, db')"
  obtains "fd_cycles db' = fd_cycles db" "fd_runs db' = fd_runs db"
  | c x where "moved db db' c x" "cycle_state db c = (None, \<lambda>s. None)"
proof (cases "db' = db")
  case False
  let ?c = "fe_id env 0"
  obtain p runs where free: "free cy_id ?c (fd_cycles db)"
    and ins: "insert_stage_runs (fe_id env) ?c 1 factory_lifecycle_stages (fd_runs db) = Ok runs"
    and db': "fd_runs db' = runs" "fd_cycles db' = fd_cycles db @ [\<lparr>cy_id = ?c, cy_product = p, cy_plan = plan,
      cy_status = ''planned'', cy_stage = hd factory_lifecycle_stages, cy_created_at = fe_now env\<rparr>]"
    using res False by (auto simp: materialize_factory_cycle_def Let_def and_then_Inr_iff insert_if_def
        split: option.split_asm list.split_asm if_split_asm)
  obtain added where added: "runs = fd_runs db @ added" "map stage_key added = map (Pair ?c) factory_lifecycle_stages"
    "list_all (\<lambda>r. sr_status r = ''pending'') added" and d: "distinct (map stage_key (fd_runs db)) \<Longrightarrow> distinct (map stage_key runs)"
    by (rule insert_stage_runs_Ok [OF ins]) blast
  have none: "stage_run_of db ?c s = None" for s
  proof (cases "stage_run_of db ?c s")
    case (Some r)
    then have "?c \<in> sr_cycle ` set (fd_runs db)"
      using stage_run_of_Some [OF Some] by force
    then show ?thesis
      using keyed free by (auto simp: cycles_keyed_def free_def)
  qed
  have row: "cycle_row db ?c = None"
  proof (cases "cycle_row db ?c")
    case (Some y)
    then have "?c \<in> cy_id ` set (fd_cycles db)"
      using cycle_row_Some [OF Some] by force
    then show ?thesis
      using free by (simp add: free_def)
  qed
  have run: "map_option sr_status (stage_run_of db' k s) =
      (if k = ?c then if s \<in> set factory_lifecycle_stages then Some ''pending'' else None else map_option sr_status (stage_run_of db k s))" for k s
    using find_same_key [OF added(2,3), of k s] none
    by (cases "k = ?c") (auto simp: stage_run_of_key db' added(1) find_append split: option.split_asm option.split)
  have "sr_cycle ` set added \<subseteq> {?c}"
    using arg_cong [OF added(2), of "\<lambda>l. fst ` set l"] by (auto simp: stage_key_def image_image)
  then have "cycles_keyed db'"
    using keyed free d by (auto simp: cycles_keyed_def db' added(1) free_def)
  moreover have "cycle_state db ?c = (None, \<lambda>s. None)"
    by (simp add: cycle_state_def row none)
  moreover have "cycle_state db' ?c = (Some ''planned'', \<lambda>s. if s \<in> set factory_lifecycle_stages then Some ''pending'' else None)"
    using row by (simp add: cycle_state_def cycle_row_def db'(2) find_append run)
  moreover have "cycle_state db' k = cycle_state db k" if "k \<noteq> ?c" for k
    using that by (simp add: cycle_state_def cycle_row_def db'(2) find_append run split: option.split)
  ultimately show thesis
    using cycle_next.born that(2) [of ?c] by (simp add: moved_def)
qed (use that(1) in simp)

lemma graph_state:
  assumes "cycles_keyed db" and "materialize_factory_stage_task_graph env db owner c stage = Ok (Some g, db')"
  shows "cycles_keyed db' \<and> cycle_state db' k = cycle_state db k"
proof (cases "db' = db")
  case False
  let ?f = "\<lambda>r. r\<lparr>sr_graph := Some (fe_id env 0)\<rparr>"
  have runs: "fd_runs db' = update_where (\<lambda>r. sr_cycle r = c \<and> sr_stage r = stage) ?f (fd_runs db)"
    and cycles: "fd_cycles db' = update_where (\<lambda>_. False) (\<lambda>y. y) (fd_cycles db)"
    using assms(2) False by (auto simp: materialize_factory_stage_task_graph_def Let_def and_then_Inr_iff insert_if_def
        update_where_none split: option.split_asm if_split_asm)
  have "map_option sr_status (stage_run_of db' k s) = map_option sr_status (stage_run_of db k s)" for s
    using stage_run_update [OF runs] by (simp add: stage_key_def option.map_comp o_def if_distrib cong: if_cong)
  moreover have "fd_cycles db' = fd_cycles db"
    by (simp add: cycles update_where_none)
  ultimately show ?thesis
    using cycles_keyed_update [OF assms(1) cycles _ runs] by (simp add: cycle_state_def cycle_row_def stage_key_def)
qed (use assms(1) in simp)

text \<open>No other operation touches cycles or stages.\<close>

lemmas other_op_defs = create_factory_workspace_def create_factory_product_draft_def set_factory_product_mode_def
  save_factory_product_project_path_def attach_factory_product_existing_project_def create_factory_plan_draft_def
  approve_factory_plan_def start_factory_intake_def ensure_discovery_intake_prompts_def record_factory_intake_answer_def
  create_factory_charter_draft_def create_factory_requirement_draft_def apply_approved_requirement_change_def
  submit_factory_change_request_def assess_factory_change_request_def resolve_factory_impact_assessment_def
  link_factory_stage_evidence_to_requirement_def record_factory_stage_evidence_def create_factory_quality_profile_def
  ensure_react_native_closed_testing_quality_profile_def record_factory_quality_check_def create_factory_release_draft_def
  approve_factory_closed_testing_release_def create_factory_support_item_def triage_factory_support_item_def
  resolve_factory_support_item_def link_support_to_change_request_def

lemma op_cycle_cases:
  assumes keyed: "cycles_keyed db" and op: "factory_op w env owner db db'"
  obtains "cycles_keyed db'" "\<And>k. cycle_state db' k = cycle_state db k" | c x where "moved db db' c x"
proof -
  have other: thesis if "fd_cycles db' = fd_cycles db" "fd_runs db' = fd_runs db"
    using \<open>\<lbrakk>cycles_keyed db'; \<And>k. cycle_state db' k = cycle_state db k\<rbrakk> \<Longrightarrow> thesis\<close> cycle_state_other [OF that] keyed by simp
  note moves = that(2)
  from op show thesis
  proof cases
    case (op_cycle plan x)
    then show ?thesis
      using created_moved [OF keyed] moves other by blast
  next
    case (op_graph c stage g)
    then show ?thesis
      using graph_state [OF keyed] that(1) by blast
  next
    case (op_activate c stage)
    then show ?thesis
      using activate_moved [OF keyed] moves by blast
  next
    case (op_complete c stage)
    then show ?thesis
      using complete_moved [OF keyed] moves by blast
  next
    case (op_pause c)
    then show ?thesis
      using pause_moved [OF keyed] moves by blast
  next
    case (op_resume c)
    then show ?thesis
      using resume_moved [OF keyed] moves by blast
  next
    case (op_cancel c)
    then show ?thesis
      using cancel_moved [OF keyed] moves by blast
  qed (auto intro!: other simp: other_op_defs Let_def insert_if_def and_then_Inr_iff
      split: if_split_asm option.split_asm prod.split_asm)
qed

section \<open>Cycles over requests\<close>

definition cycles_ok :: "factory_db \<Rightarrow> bool" where
  "cycles_ok db \<longleftrightarrow> cycles_keyed db \<and> (\<forall>c. cycle_sound (cycle_state db c))"

lemma control_cycles [simp]:
  "cycle_state (db\<lparr>fd_control := f\<rparr>) c = cycle_state db c" "cycles_keyed (db\<lparr>fd_control := f\<rparr>) = cycles_keyed db"
  by (rule cycle_state_other; simp)+

lemma op_refines:
  assumes "cycles_keyed db" and "factory_op w env owner db db'"
  shows "cycle_state db' c = cycle_state db c \<or> cycle_next (cycle_state db c) (cycle_state db' c)"
  by (rule op_cycle_cases [OF assms]) (simp, unfold moved_def, metis)

interpretation cycle_rules: factory_invariant cycles_ok
proof
  fix w env owner db db'
  assume op: "factory_op w env owner db db'" and ok: "cycles_ok db"
  have "cycles_keyed db'"
    by (rule op_cycle_cases [of db w env owner db']) (use op ok in \<open>auto simp: cycles_ok_def moved_def\<close>)
  moreover have "cycle_sound (cycle_state db' c)" for c
    using op_refines [OF _ op, of c] ok cycle_next_sound unfolding cycles_ok_def by metis
  ultimately show "cycles_ok db'"
    by (simp add: cycles_ok_def)
qed (simp add: cycles_ok_def)

interpretation cycle_life: simulation "factory_step w" "\<lambda>_. True" "\<lambda>pl. cycles_ok (fy_db pl)"
  "\<lambda>pl. cycle_state (fy_db pl) c" cycle_next for w c
proof
  fix pl :: factory_plane and e
  assume "cycles_ok (fy_db pl)"
  then have keyed: "cycles_keyed (fy_db pl)"
    by (simp add: cycles_ok_def)
  show "cycle_state (fy_db (factory_step w pl e)) c = cycle_state (fy_db pl) c \<or>
      cycle_next (cycle_state (fy_db pl) c) (cycle_state (fy_db (factory_step w pl e)) c)"
    by (rule factory_step_cases [of w pl e]) (use op_refines [OF keyed, of w _ _ _ c] in auto)
qed

text \<open>
  C13: the stored cycles implement the abstract cycle. Over any requests, and whatever the rest of the program does, a
  cycle moves only along the abstract machine: it is planned, active, paused or cancelled, its stages go from pending
  through active to completed, an active stage has an active or paused cycle; a completed stage stays completed, and a
  cancelled cycle has no open stage and never changes again.
\<close>

theorem cycle_lifecycle:
  assumes "cycles_ok (fy_db pl)"
  shows "let before_run = cycle_state (fy_db pl) c; after_run = cycle_state (fy_db (foldl (factory_step w) pl events)) c
    in cycle_next\<^sup>*\<^sup>* before_run after_run \<and> cycle_sound after_run \<and>
      (snd before_run s = Some ''completed'' \<longrightarrow> snd after_run s = Some ''completed'') \<and>
      (fst before_run = Some ''cancelled'' \<longrightarrow> after_run = before_run)"
proof -
  let ?pl = "foldl (factory_step w) pl events"
  have run: "cycle_next\<^sup>*\<^sup>* (cycle_state (fy_db pl) c) (cycle_state (fy_db ?pl) c)"
    using cycle_life.run_simulates [OF assms, of events] by (simp add: list_all_iff)
  have "cycle_sound (cycle_state (fy_db ?pl) c)"
    using cycle_rules.runs_keep [OF assms] by (simp add: cycles_ok_def)
  moreover have "cycle_state (fy_db ?pl) c = cycle_state (fy_db pl) c" if "fst (cycle_state (fy_db pl) c) = Some ''cancelled''"
  proof -
    have "\<not> cycle_next (cycle_state (fy_db pl) c) y" for y
      using cancelled_final that by (cases "cycle_state (fy_db pl) c") simp
    then show ?thesis
      using cycle_life.run_final [OF assms, of events] by (simp add: list_all_iff)
  qed
  ultimately show ?thesis
    using run completed_run [OF run] by (auto simp: Let_def)
qed

text \<open>What a stage's status may become, and who makes it so.\<close>

lemma op_stage_change:
  assumes "cycles_keyed db" and "factory_op w env owner db db'"
    and "snd (cycle_state db c) s = Some b" and "snd (cycle_state db' c) s \<noteq> Some b"
  obtains r y where "stage_run_of db c s = Some r" "cycle_row db c = Some y" "product_owned db (cy_product y) owner"
    "sr_status r = ''pending'' \<and> snd (cycle_state db' c) s = Some ''active'' \<and> open_cycle y \<and> stage_approved db owner r \<or>
     sr_status r = ''active'' \<and> snd (cycle_state db' c) s = Some ''completed'' \<and> cy_status y = ''active'' \<and> stage_evidenced db r \<or>
     snd (cycle_state db' c) s = Some ''cancelled'' \<and> fst (cycle_state db' c) = Some ''cancelled''"
proof -
  have no: thesis if "snd (cycle_state db' c) = snd (cycle_state db c)"
    using that assms(3,4) by simp
  have other: thesis if "fd_cycles db' = fd_cycles db" "fd_runs db' = fd_runs db"
    using no cycle_state_other [OF that] by simp
  have here: "k = c" if "moved db db' k x" for k x
  proof (rule ccontr)
    assume "k \<noteq> c"
    then have "cycle_state db' c = cycle_state db c"
      using that by (simp add: moved_def)
    then show False
      using assms(3,4) by simp
  qed
  from assms(2) show thesis
  proof cases
    case (op_cycle plan x)
    show ?thesis
    proof (rule created_moved [OF assms(1) op_cycle])
      fix k x
      assume "moved db db' k x" "cycle_state db k = (None, \<lambda>s. None)"
      then show thesis
        using no assms(3) by (cases "k = c") (auto simp: moved_def)
    qed (rule other)
  next
    case (op_graph k stage g)
    then show ?thesis
      using graph_state [OF assms(1)] no by metis
  next
    case (op_activate k stage)
    note m = activate_moved [OF assms(1) op_activate]
    from m have k: "k = c" "s = stage" "snd (cycle_state db' c) s = Some ''active''"
      using here [OF m] assms(3,4) by (auto simp: moved_def split: if_split_asm)
    show ?thesis
    proof (rule activate_hit [OF assms(1) op_activate])
      fix r y
      assume "stage_run_of db k stage = Some r" "sr_status r = ''pending''" "stage_approved db owner r"
        "cycle_row db k = Some y" "open_cycle y" "product_owned db (cy_product y) owner"
      then show thesis
        using that [of r y] k by simp
    qed
  next
    case (op_complete k stage)
    note m = complete_moved [OF assms(1) op_complete]
    from m have k: "k = c" "s = stage" "snd (cycle_state db' c) s = Some ''completed''"
      using here [OF m] assms(3,4) by (auto simp: moved_def split: if_split_asm)
    show ?thesis
    proof (rule complete_hit [OF assms(1) op_complete])
      fix r y
      assume "stage_run_of db k stage = Some r" "sr_status r = ''active''" "stage_evidenced db r"
        "cycle_row db k = Some y" "cy_status y = ''active''" "product_owned db (cy_product y) owner"
      then show thesis
        using that [of r y] k by simp
    qed
  next
    case (op_pause k)
    then show ?thesis
      using pause_moved [OF assms(1) op_pause] no by (cases "k = c") (auto simp: moved_def)
  next
    case (op_resume k)
    then show ?thesis
      using resume_moved [OF assms(1) op_resume] no by (cases "k = c") (auto simp: moved_def)
  next
    case (op_cancel k)
    note m = cancel_moved [OF assms(1) op_cancel]
    then have "k = c"
      using here by blast
    with m have k: "k = c" "snd (cycle_state db' c) s = Some (cancel_stage b)" "fst (cycle_state db' c) = Some ''cancelled''"
      using assms(3) by (auto simp: moved_def)
    then have "cancel_stage b = ''cancelled''"
      using assms(4) by (auto simp: cancel_stage_def split: if_split_asm)
    then show ?thesis
      using m k assms(3) by (auto simp: cycle_state_def intro: that)
  qed (auto intro!: other simp: other_op_defs Let_def insert_if_def and_then_Inr_iff
      split: if_split_asm option.split_asm prod.split_asm)
qed

lemma factory_control_simps [simp]:
  "stage_run_of (db\<lparr>fd_control := f\<rparr>) c s = stage_run_of db c s" "cycle_row (db\<lparr>fd_control := f\<rparr>) c = cycle_row db c"
  by (simp_all add: stage_run_of_def cycle_row_def)


end
