(* ===== verification/Factory_Owners.thy ===== *)
theory Factory_Owners
  imports Factory_Cycles
begin

text \<open>
  Who may touch what: all rows that belong to a product, and that nobody but its owner changes any of them through the
  Factory's commands.
\<close>

section \<open>The rows of a product\<close>

definition session_of :: "factory_db \<Rightarrow> string \<Rightarrow> string \<Rightarrow> bool" where
  "session_of db p i \<longleftrightarrow> list_ex (\<lambda>r. fs_id r = i \<and> fs_product r = p) (fd_sessions db)"

definition requirement_of :: "factory_db \<Rightarrow> string \<Rightarrow> string \<Rightarrow> bool" where
  "requirement_of db p i \<longleftrightarrow> list_ex (\<lambda>r. fr_id r = i \<and> fr_product r = p) (fd_requirements db)"

definition cycle_of :: "factory_db \<Rightarrow> string \<Rightarrow> string \<Rightarrow> bool" where
  "cycle_of db p i \<longleftrightarrow> list_ex (\<lambda>r. cy_id r = i \<and> cy_product r = p) (fd_cycles db)"

definition change_of :: "factory_db \<Rightarrow> string \<Rightarrow> string \<Rightarrow> bool" where
  "change_of db p i \<longleftrightarrow> list_ex (\<lambda>r. cq_id r = i \<and> cq_product r = p) (fd_changes db)"

definition assessment_of :: "factory_db \<Rightarrow> string \<Rightarrow> string \<Rightarrow> bool" where
  "assessment_of db p i \<longleftrightarrow> list_ex (\<lambda>r. ia_id r = i \<and> change_of db p (ia_change r)) (fd_assessments db)"

definition evidence_of :: "factory_db \<Rightarrow> string \<Rightarrow> string \<Rightarrow> bool" where
  "evidence_of db p i \<longleftrightarrow> list_ex (\<lambda>r. el_id r = i \<and> el_product r = p) (fd_evidence db)"

definition release_of :: "factory_db \<Rightarrow> string \<Rightarrow> string \<Rightarrow> bool" where
  "release_of db p i \<longleftrightarrow> list_ex (\<lambda>r. rl_id r = i \<and> rl_product r = p) (fd_releases db)"

definition support_of :: "factory_db \<Rightarrow> string \<Rightarrow> string \<Rightarrow> bool" where
  "support_of db p i \<longleftrightarrow> list_ex (\<lambda>r. su_id r = i \<and> su_product r = p) (fd_support db)"

lemmas of_defs = session_of_def requirement_of_def cycle_of_def change_of_def assessment_of_def evidence_of_def
  release_of_def support_of_def

record product_view =
  pv_product :: "factory_product list"
  pv_plans :: "factory_plan list"
  pv_sessions :: "intake_session list"
  pv_items :: "intake_item list"
  pv_charters :: "charter_revision list"
  pv_requirements :: "factory_requirement list"
  pv_revisions :: "requirement_revision list"
  pv_requirement_links :: "factory_link list"
  pv_cycles :: "factory_cycle list"
  pv_runs :: "stage_run list"
  pv_changes :: "change_request list"
  pv_assessments :: "impact_assessment list"
  pv_targets :: "impact_target list"
  pv_evidence :: "evidence_link list"
  pv_dependencies :: "factory_link list"
  pv_profiles :: "quality_profile list"
  pv_checks :: "quality_check list"
  pv_releases :: "factory_release list"
  pv_channels :: "release_channel list"
  pv_support :: "support_item list"
  pv_support_links :: "factory_link list"

definition product_view :: "factory_db \<Rightarrow> string \<Rightarrow> product_view" where
  "product_view db p =
     \<lparr>pv_product = filter (\<lambda>r. fp_id r = p) (fd_products db),
      pv_plans = filter (\<lambda>r. fl_product r = Some p) (fd_plans db),
      pv_sessions = filter (\<lambda>r. fs_product r = p) (fd_sessions db),
      pv_items = filter (\<lambda>r. session_of db p (fi_session r)) (fd_items db),
      pv_charters = filter (\<lambda>r. fc_product r = p) (fd_charters db),
      pv_requirements = filter (\<lambda>r. fr_product r = p) (fd_requirements db),
      pv_revisions = filter (\<lambda>r. requirement_of db p (fv_requirement r)) (fd_revisions db),
      pv_requirement_links = filter (\<lambda>r. requirement_of db p (lk_from r)) (fd_requirement_links db),
      pv_cycles = filter (\<lambda>r. cy_product r = p) (fd_cycles db),
      pv_runs = filter (\<lambda>r. cycle_of db p (sr_cycle r)) (fd_runs db),
      pv_changes = filter (\<lambda>r. cq_product r = p) (fd_changes db),
      pv_assessments = filter (\<lambda>r. change_of db p (ia_change r)) (fd_assessments db),
      pv_targets = filter (\<lambda>r. assessment_of db p (it_assessment r)) (fd_targets db),
      pv_evidence = filter (\<lambda>r. el_product r = p) (fd_evidence db),
      pv_dependencies = filter (\<lambda>r. evidence_of db p (lk_from r)) (fd_dependencies db),
      pv_profiles = filter (\<lambda>r. qp_product r = p) (fd_profiles db),
      pv_checks = filter (\<lambda>r. qc_product r = p) (fd_checks db),
      pv_releases = filter (\<lambda>r. rl_product r = p) (fd_releases db),
      pv_channels = filter (\<lambda>r. release_of db p (rh_release r)) (fd_channels db),
      pv_support = filter (\<lambda>r. su_product r = p) (fd_support db),
      pv_support_links = filter (\<lambda>r. support_of db p (lk_from r)) (fd_support_links db)\<rparr>"

section \<open>Keys and links\<close>

definition factory_keyed :: "factory_db \<Rightarrow> bool" where
  "factory_keyed db \<longleftrightarrow> distinct (map fp_id (fd_products db)) \<and> distinct (map fs_id (fd_sessions db)) \<and>
     distinct (map fi_id (fd_items db)) \<and> distinct (map fr_id (fd_requirements db)) \<and> distinct (map cy_id (fd_cycles db)) \<and>
     distinct (map cq_id (fd_changes db)) \<and> distinct (map ia_id (fd_assessments db)) \<and> distinct (map el_id (fd_evidence db)) \<and>
     distinct (map rl_id (fd_releases db)) \<and> distinct (map su_id (fd_support db))"

text \<open>Evidence is linked to requirements of its own product.\<close>

definition link_within :: "factory_db \<Rightarrow> factory_link \<Rightarrow> bool" where
  "link_within db d \<longleftrightarrow> lk_kind d = ''requirement'' \<and>
     (\<exists>x\<in>set (fd_evidence db). el_id x = lk_from d \<and> requirement_of db (el_product x) (lk_target d))"

definition owners_ok :: "factory_db \<Rightarrow> bool" where
  "owners_ok db \<longleftrightarrow> factory_keyed db \<and> (\<forall>d\<in>set (fd_dependencies db). link_within db d)"

section \<open>Rows that are left alone\<close>

lemma filter_update_out:
  assumes "\<And>r. r \<in> set rows \<Longrightarrow> hit r \<Longrightarrow> \<not> q r \<and> \<not> q (f r)"
  shows "filter q (update_where hit f rows) = filter q rows"
  using assms by (induction rows) (auto simp: update_where_def)

lemma list_ex_update_where:
  assumes "\<And>r. q (f r) = q r"
  shows "list_ex q (update_where hit f rows) = list_ex q rows"
  by (induction rows) (auto simp: update_where_def assms)

lemma map_update_where:
  assumes "\<And>r. h (f r) = h r"
  shows "map h (update_where hit f rows) = map h rows"
  by (simp add: update_where_def assms)

text \<open>A product that somebody else owns.\<close>

definition foreign :: "factory_db \<Rightarrow> string \<Rightarrow> string \<Rightarrow> bool" where
  "foreign db p owner \<longleftrightarrow> (\<exists>r\<in>set (fd_products db). fp_id r = p \<and> fp_owner r \<noteq> owner)"

lemma same_id: "distinct (map h rows) \<Longrightarrow> r \<in> set rows \<Longrightarrow> q \<in> set rows \<Longrightarrow> h r = h q \<Longrightarrow> r = q"
  by (meson distinct_map inj_onD)

lemma foreign_not_owned:
  assumes "factory_keyed db" and "foreign db p owner"
  shows "\<not> product_owned db p owner" "r \<in> set (fd_products db) \<Longrightarrow> fp_owner r = owner \<Longrightarrow> fp_id r \<noteq> p"
proof -
  show other: "fp_id r \<noteq> p" if "r \<in> set (fd_products db)" "fp_owner r = owner" for r
    using assms that same_id [of fp_id "fd_products db" r] unfolding factory_keyed_def foreign_def by metis
  then show "\<not> product_owned db p owner"
    by (auto simp: product_owned_def list_ex_iff)
qed

text \<open>A row with a product's identifier belongs to that product only.\<close>

lemma of_unique:
  assumes "factory_keyed db"
  shows "r \<in> set (fd_sessions db) \<Longrightarrow> session_of db p (fs_id r) \<longleftrightarrow> fs_product r = p"
    and "q \<in> set (fd_requirements db) \<Longrightarrow> requirement_of db p (fr_id q) \<longleftrightarrow> fr_product q = p"
    and "y \<in> set (fd_cycles db) \<Longrightarrow> cycle_of db p (cy_id y) \<longleftrightarrow> cy_product y = p"
    and "c \<in> set (fd_changes db) \<Longrightarrow> change_of db p (cq_id c) \<longleftrightarrow> cq_product c = p"
    and "a \<in> set (fd_assessments db) \<Longrightarrow> assessment_of db p (ia_id a) \<longleftrightarrow> change_of db p (ia_change a)"
    and "x \<in> set (fd_evidence db) \<Longrightarrow> evidence_of db p (el_id x) \<longleftrightarrow> el_product x = p"
    and "l \<in> set (fd_releases db) \<Longrightarrow> release_of db p (rl_id l) \<longleftrightarrow> rl_product l = p"
    and "s \<in> set (fd_support db) \<Longrightarrow> support_of db p (su_id s) \<longleftrightarrow> su_product s = p"
  using assms same_id unfolding of_defs list_ex_iff factory_keyed_def by metis+

text \<open>A fresh identifier belongs to no product.\<close>

lemma of_free:
  "free fs_id i (fd_sessions db) \<Longrightarrow> \<not> session_of db p i"
  "free fr_id i (fd_requirements db) \<Longrightarrow> \<not> requirement_of db p i"
  "free cy_id i (fd_cycles db) \<Longrightarrow> \<not> cycle_of db p i"
  "free ia_id i (fd_assessments db) \<Longrightarrow> \<not> assessment_of db p i"
  by (auto simp: free_def of_defs list_ex_iff)

lemmas view_simps = product_view_def of_defs filter_update_out list_ex_update_where

section \<open>Operations of others\<close>

text \<open>The setting of the next lemmas: an operation of \<open>owner\<close>, seen from a product somebody else owns.\<close>

lemma find_owned:
  "List.find (\<lambda>r. fp_id r = p \<and> fp_owner r = owner) rows = Some r \<Longrightarrow> r \<in> set rows \<and> fp_id r = p \<and> fp_owner r = owner"
  by (drule find_Some_in) simp

lemma product_ops_foreign:
  assumes "factory_keyed db" and "foreign db p owner"
  shows "create_factory_workspace env db owner name = Ok (i, db') \<Longrightarrow> product_view db' p = product_view db p"
    and "create_factory_product_draft env db owner ws title = Ok (x, db') \<Longrightarrow> product_view db' p = product_view db p"
    and "set_factory_product_mode db owner q mode = Ok (b, db') \<Longrightarrow> product_view db' p = product_view db p"
    and "product_view (snd (save_factory_product_project_path db owner q path)) p = product_view db p"
    and "attach_factory_product_existing_project db owner q path remote revision = (b, db') \<Longrightarrow>
      product_view db' p = product_view db p"
    and "create_factory_plan_draft env db owner q title = Ok (x, db') \<Longrightarrow> product_view db' p = product_view db p"
    and "approve_factory_plan db owner i = (b, db') \<Longrightarrow> product_view db' p = product_view db p"
proof -
  have mine: "\<forall>r\<in>set (fd_products db). fp_owner r = owner \<longrightarrow> fp_id r \<noteq> p"
    using foreign_not_owned(2) [OF assms] by blast
  have mine': "\<not> product_owned db p owner"
    by (rule foreign_not_owned(1) [OF assms])
  have kept: "filter (\<lambda>r. fp_id r = p) (update_where (\<lambda>r. fp_id r = q \<and> fp_owner r = owner) f (fd_products db)) =
      filter (\<lambda>r. fp_id r = p) (fd_products db)" if "\<And>r. fp_id (f r) = fp_id r" for f
    using mine by (intro filter_update_out) (auto simp: that)
  show "create_factory_workspace env db owner name = Ok (i, db') \<Longrightarrow> product_view db' p = product_view db p"
    by (auto simp: create_factory_workspace_def insert_if_def Let_def product_view_def of_defs split: if_split_asm)
  show "create_factory_product_draft env db owner ws title = Ok (x, db') \<Longrightarrow> product_view db' p = product_view db p"
    using assms(2) by (auto simp: create_factory_product_draft_def insert_if_def Let_def product_view_def of_defs free_def foreign_def
        split: if_split_asm)
  show "set_factory_product_mode db owner q mode = Ok (b, db') \<Longrightarrow> product_view db' p = product_view db p"
    by (auto simp: set_factory_product_mode_def Let_def product_view_def of_defs kept split: if_split_asm)
  show "product_view (snd (save_factory_product_project_path db owner q path)) p = product_view db p"
    by (auto simp: save_factory_product_project_path_def Let_def product_view_def of_defs kept)
  show "attach_factory_product_existing_project db owner q path remote revision = (b, db') \<Longrightarrow>
      product_view db' p = product_view db p"
    by (auto simp: attach_factory_product_existing_project_def Let_def product_view_def of_defs kept)
  show "create_factory_plan_draft env db owner q title = Ok (x, db') \<Longrightarrow> product_view db' p = product_view db p"
    using mine by (auto simp: create_factory_plan_draft_def insert_if_def Let_def product_view_def of_defs
        split: if_split_asm option.split_asm dest: find_owned)
  show "approve_factory_plan db owner i = (b, db') \<Longrightarrow> product_view db' p = product_view db p"
    using mine' by (auto simp: approve_factory_plan_def Let_def product_view_def of_defs intro!: filter_update_out)
qed

lemma owned_inserts_foreign:
  assumes "factory_keyed db" and "foreign db p owner"
  shows "submit_factory_change_request env db owner q summary = Ok (x, db') \<Longrightarrow> product_view db' p = product_view db p"
    and "create_factory_quality_profile env db owner q name required = Ok (x, db') \<Longrightarrow> product_view db' p = product_view db p"
    and "record_factory_quality_check env db owner profile passed evidence = Ok (x, db') \<Longrightarrow> product_view db' p = product_view db p"
    and "create_factory_release_draft env db owner q build = Ok (x, db') \<Longrightarrow> product_view db' p = product_view db p"
    and "create_factory_support_item env db owner q kind summary = Ok (x, db') \<Longrightarrow> product_view db' p = product_view db p"
    and "create_factory_charter_draft env db owner q content = Ok (z, db') \<Longrightarrow> product_view db' p = product_view db p"
proof -
  have other: "product_owned db q owner \<Longrightarrow> q \<noteq> p" for q
    using foreign_not_owned(1) [OF assms] by blast
  show "submit_factory_change_request env db owner q summary = Ok (x, db') \<Longrightarrow> product_view db' p = product_view db p"
    using other [of q] by (auto simp: submit_factory_change_request_def insert_if_def Let_def product_view_def of_defs split: if_split_asm)
  show "create_factory_quality_profile env db owner q name required = Ok (x, db') \<Longrightarrow> product_view db' p = product_view db p"
    using other [of q] by (auto simp: create_factory_quality_profile_def insert_if_def Let_def product_view_def of_defs split: if_split_asm)
  show "record_factory_quality_check env db owner profile passed evidence = Ok (x, db') \<Longrightarrow> product_view db' p = product_view db p"
    using other by (auto simp: record_factory_quality_check_def insert_if_def Let_def product_view_def of_defs
        split: if_split_asm option.split_asm dest!: find_Some_in)
  show "create_factory_release_draft env db owner q build = Ok (x, db') \<Longrightarrow> product_view db' p = product_view db p"
    using other [of q] by (auto simp: create_factory_release_draft_def factory_release_ready_def factory_release_readiness_def
        insert_if_def Let_def product_view_def of_defs split: if_split_asm)
  show "create_factory_support_item env db owner q kind summary = Ok (x, db') \<Longrightarrow> product_view db' p = product_view db p"
    using other [of q] by (auto simp: create_factory_support_item_def insert_if_def Let_def product_view_def of_defs split: if_split_asm)
  show "create_factory_charter_draft env db owner q content = Ok (z, db') \<Longrightarrow> product_view db' p = product_view db p"
    using other [of q] by (auto simp: create_factory_charter_draft_def insert_if_def Let_def product_view_def of_defs split: if_split_asm
        intro!: filter_update_out)
qed

text \<open>An identifier of one product is none of another.\<close>

lemma of_other:
  assumes "factory_keyed db" and "q \<noteq> p"
  shows "session_of db q i \<Longrightarrow> \<not> session_of db p i" and "requirement_of db q i \<Longrightarrow> \<not> requirement_of db p i"
    and "cycle_of db q i \<Longrightarrow> \<not> cycle_of db p i" and "change_of db q i \<Longrightarrow> \<not> change_of db p i"
    and "evidence_of db q i \<Longrightarrow> \<not> evidence_of db p i" and "release_of db q i \<Longrightarrow> \<not> release_of db p i"
    and "support_of db q i \<Longrightarrow> \<not> support_of db p i"
  using assms same_id unfolding of_defs list_ex_iff factory_keyed_def by metis+

lemma assessment_other:
  assumes "factory_keyed db" and "q \<noteq> p" and "assessment_of db q i"
  shows "\<not> assessment_of db p i"
  using assms of_other(4) [OF assms(1,2)] same_id [of ia_id "fd_assessments db"]
  unfolding assessment_of_def list_ex_iff factory_keyed_def by metis

lemma not_owned_other:
  assumes "factory_keyed db" and "foreign db p owner" and "product_owned db q owner"
  shows "q \<noteq> p"
  using foreign_not_owned(1) [OF assms(1,2)] assms(3) by blast

lemma insert_prompts_other:
  "insert_prompts new s n ks items = Ok items' \<Longrightarrow> \<not> P s \<Longrightarrow>
     filter (\<lambda>r. P (fi_session r)) items' = filter (\<lambda>r. P (fi_session r)) items"
  by (induction new s n ks items rule: insert_prompts.induct) (auto split: if_split_asm)

lemma ensure_prompts_foreign:
  assumes "ensure_discovery_intake_prompts env n db s q = Ok db'" and "\<not> session_of db p s"
  shows "product_view db' p = product_view db p"
proof -
  obtain ks items where items: "insert_prompts (fe_id env) s n ks (fd_items db) = Ok items" "db' = db\<lparr>fd_items := items\<rparr>"
    using assms(1) by (auto simp: ensure_discovery_intake_prompts_def and_then_Inr_iff)
  have "filter (\<lambda>r. session_of db p (fi_session r)) items = filter (\<lambda>r. session_of db p (fi_session r)) (fd_items db)"
    by (rule insert_prompts_other [OF items(1)]) (rule assms(2))
  then show ?thesis
    by (simp add: items(2) product_view_def of_defs)
qed

lemma open_session_of: "open_session db q = Some i \<Longrightarrow> session_of db q i"
proof -
  assume "open_session db q = Some i"
  then obtain r rest where r: "sort_key (\<lambda>r. (- fs_created_at r)) (rev (sort_key fs_id
      (select_where (\<lambda>r. fs_product r = q \<and> fs_status r = ''open'') (fd_sessions db)))) = r # rest" "i = fs_id r"
    unfolding open_session_def by (auto split: list.split_asm)
  have "r \<in> set (sort_key (\<lambda>r. (- fs_created_at r)) (rev (sort_key fs_id
      (select_where (\<lambda>r. fs_product r = q \<and> fs_status r = ''open'') (fd_sessions db)))))"
    unfolding r(1) by simp
  then show "session_of db q i"
    using r(2) by (auto simp: select_where_def session_of_def list_ex_iff)
qed

lemma start_intake_foreign:
  assumes keyed: "factory_keyed db" and other: "foreign db p owner" and res: "start_factory_intake env db owner q = Ok (x, db')"
  shows "product_view db' p = product_view db p"
proof (cases "product_owned db q owner")
  case owned: True
  note ne = not_owned_other [OF keyed other owned]
  show ?thesis
  proof (cases "open_session db q")
    case None
    let ?i = "fe_id env 0"
    let ?db = "db\<lparr>fd_sessions := fd_sessions db @ [\<lparr>fs_id = ?i, fs_product = q, fs_status = ''open'', fs_started_by = owner,
      fs_created_at = fe_now env\<rparr>]\<rparr>"
    have free: "free fs_id ?i (fd_sessions db)" and ens: "ensure_discovery_intake_prompts env 1 ?db ?i q = Ok db'"
      using res None owned by (auto simp: start_factory_intake_def insert_if_def and_then_Inr_iff Let_def split: if_split_asm)
    have "\<not> session_of ?db p ?i"
      using of_free(1) [OF free, of p] ne by (simp add: session_of_def)
    then have "product_view db' p = product_view ?db p"
      by (rule ensure_prompts_foreign [OF ens])
    also have "\<dots> = product_view db p"
      using ne by (simp add: product_view_def of_defs)
    finally show ?thesis .
  next
    case (Some i)
    have "ensure_discovery_intake_prompts env 0 db i q = Ok db'"
      using res Some owned by (auto simp: start_factory_intake_def and_then_Inr_iff)
    then show ?thesis
      using ensure_prompts_foreign of_other(1) [OF keyed ne open_session_of [OF Some]] by blast
  qed
qed (use res in \<open>simp add: start_factory_intake_def\<close>)

lemma record_answer_foreign:
  assumes keyed: "factory_keyed db" and other: "foreign db p owner"
    and res: "record_factory_intake_answer env db owner s k response = Ok (b, db')"
  shows "product_view db' p = product_view db p"
proof (cases "list_ex (\<lambda>r. fs_id r = s \<and> fs_status r = ''open'' \<and> product_owned db (fs_product r) owner) (fd_sessions db)")
  case True
  then obtain q where "session_of db q s" "product_owned db q owner"
    by (auto simp: session_of_def list_ex_iff)
  then have no: "\<not> session_of db p s"
    using of_other(1) [OF keyed] not_owned_other [OF keyed other] by blast
  show ?thesis
  proof (cases "List.find (\<lambda>r. fi_session r = s \<and> fi_key r = k) (fd_items db)")
    case (Some item)
    then have item: "item \<in> set (fd_items db)" "fi_session item = s"
      by (auto dest!: find_Some_in)
    have "filter (\<lambda>r. session_of db p (fi_session r)) (update_where (\<lambda>r. fi_id r = fi_id item)
        (\<lambda>r. r\<lparr>fi_response := response, fi_status := ''answered''\<rparr>) (fd_items db)) =
        filter (\<lambda>r. session_of db p (fi_session r)) (fd_items db)"
    proof (rule filter_update_out)
      fix r
      assume "r \<in> set (fd_items db)" "fi_id r = fi_id item"
      then have "r = item"
        using same_id [of fi_id "fd_items db" r item] keyed item(1) by (simp add: factory_keyed_def)
      then show "\<not> session_of db p (fi_session r) \<and>
          \<not> session_of db p (fi_session (r\<lparr>fi_response := response, fi_status := ''answered''\<rparr>))"
        using no item(2) by simp
    qed
    then show ?thesis
      using res True Some by (auto simp: record_factory_intake_answer_def product_view_def of_defs)
  next
    case None
    then show ?thesis
      using res True no by (auto simp: record_factory_intake_answer_def product_view_def of_defs insert_if_def Let_def
          split: if_split_asm)
  qed
qed (use res in \<open>simp add: record_factory_intake_answer_def\<close>)

lemma requirement_foreign:
  assumes keyed: "factory_keyed db" and other: "foreign db p owner"
    and res: "create_factory_requirement_draft env db owner q skey content = Ok (x, db')"
  shows "product_view db' p = product_view db p"
proof (cases "Option.bind (List.find (\<lambda>r. fp_id r = q \<and> fp_owner r = owner) (fd_products db)) fp_charter")
  case (Some charter)
  then obtain r where "r \<in> set (fd_products db)" "fp_id r = q" "fp_owner r = owner"
    by (auto simp: bind_eq_Some_conv dest: find_owned)
  then have ne: "q \<noteq> p"
    using foreign_not_owned(2) [OF keyed other] by blast
  have free: "free fr_id (fe_id env 0) (fd_requirements db)"
    using res Some by (auto simp: create_factory_requirement_draft_def insert_if_def Let_def split: if_split_asm)
  have "\<not> list_ex (\<lambda>r. fr_id r = fe_id env 0 \<and> fr_product r = p) (fd_requirements db)"
    using of_free(2) [OF free, of p] by (simp add: requirement_of_def)
  then show ?thesis
    using res Some ne by (auto simp: create_factory_requirement_draft_def insert_if_def Let_def product_view_def of_defs
        split: if_split_asm)
qed (use res in \<open>simp add: create_factory_requirement_draft_def\<close>)

lemma apply_foreign:
  assumes ok: "owners_ok db" and other: "foreign db p owner"
    and res: "apply_approved_requirement_change env db owner a req content = Ok (x, db')"
  shows "product_view db' p = product_view db p"
proof (cases "replaceable_revision db owner a req")
  case (Some z)
  have keyed: "factory_keyed db"
    using ok by (simp add: owners_ok_def)
  obtain revision previous where z: "z = (revision, previous)"
    by (cases z)
  obtain r where r: "r \<in> set (fd_requirements db)" "fr_id r = req" "product_owned db (fr_product r) owner"
    and a: "assessment_of db (fr_product r) a"
    using Some by (auto simp: replaceable_revision_def assessment_of_def change_of_def list_ex_iff
        dest!: find_Some_in split: option.split_asm if_split_asm)
  have ne: "fr_product r \<noteq> p"
    by (rule not_owned_other [OF keyed other r(3)])
  have no_req: "\<not> requirement_of db p req"
    using of_unique(2) [OF keyed r(1), of p] ne r(2) by simp
  have no_a: "\<not> assessment_of db p a"
    by (rule assessment_other [OF keyed ne a])
  let ?next = "revision + 1"
  let ?stale = "map lk_from (filter (\<lambda>d. lk_kind d = ''requirement'' \<and> lk_target d = req) (fd_dependencies db))"
  have db': "\<exists>v link. lk_from link = req \<and> fv_requirement v = req \<and> db' = db\<lparr>fd_revisions := fd_revisions db @ [v],
      fd_requirements := update_where (\<lambda>r. fr_id r = req) (\<lambda>r. r\<lparr>fr_revision := ?next\<rparr>) (fd_requirements db),
      fd_requirement_links := fd_requirement_links db @ [link],
      fd_targets := update_where (\<lambda>t. it_assessment t = a \<and> it_kind t = ''requirement'' \<and> it_target t = req)
        (\<lambda>t. t\<lparr>it_staleness := ''current''\<rparr>) (fd_targets db),
      fd_evidence := update_where (\<lambda>e. el_id e \<in> set ?stale) (\<lambda>e. e\<lparr>el_staleness := ''stale''\<rparr>) (fd_evidence db)\<rparr>"
    using res unfolding apply_approved_requirement_change_def Some z Let_def insert_if_def
    by (auto split: if_split_asm intro!: exI)
  have "filter (\<lambda>r. fr_product r = p) (update_where (\<lambda>r. fr_id r = req) (\<lambda>r. r\<lparr>fr_revision := ?next\<rparr>) (fd_requirements db)) =
      filter (\<lambda>r. fr_product r = p) (fd_requirements db)"
    using no_req by (intro filter_update_out) (auto simp: requirement_of_def list_ex_iff)
  moreover have "filter (\<lambda>t. assessment_of db p (it_assessment t)) (update_where (\<lambda>t. it_assessment t = a \<and>
      it_kind t = ''requirement'' \<and> it_target t = req) (\<lambda>t. t\<lparr>it_staleness := ''current''\<rparr>) (fd_targets db)) =
      filter (\<lambda>t. assessment_of db p (it_assessment t)) (fd_targets db)"
    using no_a by (intro filter_update_out) auto
  moreover have "filter (\<lambda>e. el_product e = p) (update_where (\<lambda>e. el_id e \<in> set ?stale) (\<lambda>e. e\<lparr>el_staleness := ''stale''\<rparr>)
      (fd_evidence db)) = filter (\<lambda>e. el_product e = p) (fd_evidence db)"
  proof (rule filter_update_out)
    fix e
    assume e: "e \<in> set (fd_evidence db)" "el_id e \<in> set ?stale"
    then obtain d where d: "d \<in> set (fd_dependencies db)" "lk_target d = req" "lk_from d = el_id e"
      by auto
    then obtain u where u: "u \<in> set (fd_evidence db)" "el_id u = el_id e" "requirement_of db (el_product u) req"
      using ok unfolding owners_ok_def link_within_def by metis
    have "u = e"
      using same_id [of el_id "fd_evidence db" u e] u(1,2) e(1) keyed by (simp add: factory_keyed_def)
    then show "\<not> el_product e = p \<and> \<not> el_product (e\<lparr>el_staleness := ''stale''\<rparr>) = p"
      using u(3) no_req by auto
  qed
  ultimately show ?thesis
    using db' no_req by (auto simp: product_view_def session_of_def requirement_of_def cycle_of_def change_of_def assessment_of_def
        evidence_of_def release_of_def support_of_def list_ex_update_where)
qed (use res in \<open>simp add: apply_approved_requirement_change_def\<close>)

lemma materialize_foreign:
  assumes keyed: "factory_keyed db" and other: "foreign db p owner"
    and res: "materialize_factory_cycle env db owner plan = Ok (x, db')"
  shows "product_view db' p = product_view db p"
proof (cases "db' = db")
  case False
  let ?c = "fe_id env 0"
  obtain q runs where q: "product_owned db q owner" and free: "free cy_id ?c (fd_cycles db)"
    and ins: "insert_stage_runs (fe_id env) ?c 1 factory_lifecycle_stages (fd_runs db) = Ok runs"
    and db': "db' = db\<lparr>fd_cycles := fd_cycles db @ [\<lparr>cy_id = ?c, cy_product = q, cy_plan = plan,
      cy_status = ''planned'', cy_stage = hd factory_lifecycle_stages, cy_created_at = fe_now env\<rparr>], fd_runs := runs\<rparr>"
    using res False by (auto simp: materialize_factory_cycle_def Let_def and_then_Inr_iff insert_if_def bind_eq_Some_conv
        dest!: find_Some_in split: option.split_asm list.split_asm if_split_asm)
  have ne: "q \<noteq> p"
    by (rule not_owned_other [OF keyed other q])
  obtain added where added: "runs = fd_runs db @ added" "map stage_key added = map (Pair ?c) factory_lifecycle_stages"
    by (rule insert_stage_runs_Ok [OF ins]) blast
  have "sr_cycle ` set added \<subseteq> {?c}"
    using arg_cong [OF added(2), of "\<lambda>l. fst ` set l"] by (auto simp: stage_key_def image_image)
  then have "filter (\<lambda>r. cycle_of db p (sr_cycle r)) added = []"
    using of_free(3) [OF free, of p] by (auto simp: filter_empty_conv)
  moreover have "cycle_of db' p = cycle_of db p"
    using ne by (auto simp: cycle_of_def db')
  ultimately show ?thesis
    using ne by (simp add: product_view_def db' added(1)) (simp add: of_defs)
qed simp

lemma owned_cycle:
  assumes "factory_keyed db" and "foreign db p owner"
    and "y \<in> set (fd_cycles db)" and "product_owned db (cy_product y) owner"
  shows "\<not> cycle_of db p (cy_id y)"
  using of_unique(3) [OF assms(1,3)] not_owned_other [OF assms(1,2,4)] by simp

lemma stages_foreign:
  assumes "fd_cycles db' = update_where hit f (fd_cycles db)" and "\<And>y. cy_id (f y) = cy_id y \<and> cy_product (f y) = cy_product y"
    and "fd_runs db' = update_where hit' g (fd_runs db)" and "\<And>r. sr_cycle (g r) = sr_cycle r"
    and "\<And>y. y \<in> set (fd_cycles db) \<Longrightarrow> hit y \<Longrightarrow> cy_product y \<noteq> p"
    and "\<And>r. r \<in> set (fd_runs db) \<Longrightarrow> hit' r \<Longrightarrow> \<not> cycle_of db p (sr_cycle r)"
    and "db'\<lparr>fd_cycles := fd_cycles db, fd_runs := fd_runs db, fd_control := fd_control db, fd_graphs := fd_graphs db,
      fd_nodes := fd_nodes db\<rparr> = db"
  shows "product_view db' p = product_view db p"
proof -
  have cycles: "filter (\<lambda>r. cy_product r = p) (fd_cycles db') = filter (\<lambda>r. cy_product r = p) (fd_cycles db)"
    unfolding assms(1) using assms(2,5) by (intro filter_update_out) auto
  have of: "cycle_of db' p = cycle_of db p"
    unfolding cycle_of_def assms(1) by (intro ext list_ex_update_where) (simp add: assms(2))
  have runs: "filter (\<lambda>r. cycle_of db p (sr_cycle r)) (fd_runs db') = filter (\<lambda>r. cycle_of db p (sr_cycle r)) (fd_runs db)"
    unfolding assms(3) using assms(4,6) by (intro filter_update_out) auto
  let ?db = "db'\<lparr>fd_cycles := fd_cycles db, fd_runs := fd_runs db, fd_control := fd_control db, fd_graphs := fd_graphs db,
      fd_nodes := fd_nodes db\<rparr>"
  have "product_view db' p = product_view ?db p"
    using cycles of runs by (simp add: product_view_def) (simp add: of_defs)
  then show ?thesis
    by (simp only: assms(7))
qed

lemma cycle_ops_foreign:
  assumes keyed: "factory_keyed db" and other: "foreign db p owner"
  shows "pause_factory_cycle db owner c = (b, db') \<Longrightarrow> product_view db' p = product_view db p"
    and "resume_factory_cycle db owner c = (b, db') \<Longrightarrow> product_view db' p = product_view db p"
    and "cancel_factory_cycle db owner c = (b, db') \<Longrightarrow> product_view db' p = product_view db p"
    and "complete_factory_stage_with_evidence env db owner c stage = (b, db') \<Longrightarrow> product_view db' p = product_view db p"
    and "activate_approved_factory_stage env db owner c stage = (b, db') \<Longrightarrow> product_view db' p = product_view db p"
    and "materialize_factory_stage_task_graph env db owner c stage = Ok (g, db') \<Longrightarrow> product_view db' p = product_view db p"
proof -
  have mine: "cy_product y \<noteq> p" if "product_owned db (cy_product y) owner" for y
    by (rule not_owned_other [OF keyed other that])
  have stage: "\<not> cycle_of db p k" if "y \<in> set (fd_cycles db)" "cy_id y = k" "product_owned db (cy_product y) owner" for y k
    using owned_cycle [OF keyed other that(1,3)] that(2) by simp
  have row: "cy_product y \<noteq> p" if "y \<in> set (fd_cycles db)" "\<not> cycle_of db p (cy_id y)" for y
    using of_unique(3) [OF keyed that(1), of p] that(2) by simp
  have same: "fd_runs db = update_where (\<lambda>_. False) (\<lambda>r. r) (fd_runs db)" "fd_cycles db = update_where (\<lambda>_. False) (\<lambda>y. y) (fd_cycles db)"
    by (simp_all add: update_where_none)
  show "product_view db' p = product_view db p" if "pause_factory_cycle db owner c = (b, db')"
    by (rule stages_foreign [where hit' = "\<lambda>_. False" and g = "\<lambda>r. r" and hit = "\<lambda>y. cy_id y = c \<and> open_cycle y \<and>
        product_owned db (cy_product y) owner" and f = "\<lambda>y. y\<lparr>cy_status := ''paused''\<rparr>"])
      (use that mine in \<open>auto simp: pause_factory_cycle_def Let_def update_where_none\<close>)
  show "product_view db' p = product_view db p" if "resume_factory_cycle db owner c = (b, db')"
    by (rule stages_foreign [where hit' = "\<lambda>_. False" and g = "\<lambda>r. r" and hit = "\<lambda>y. cy_id y = c \<and> cy_status y = ''paused'' \<and>
        product_owned db (cy_product y) owner" and f = "\<lambda>y. y\<lparr>cy_status := (if list_ex (\<lambda>r. sr_cycle r = cy_id y \<and>
          sr_status r = ''active'') (fd_runs db) then ''active'' else ''planned'')\<rparr>"])
      (use that mine in \<open>auto simp: resume_factory_cycle_def Let_def update_where_none\<close>)
  show "product_view db' p = product_view db p" if res: "cancel_factory_cycle db owner c = (b, db')"
  proof (cases "db' = db")
    case False
    then obtain y where y: "y \<in> set (fd_cycles db)" "cy_id y = c" "product_owned db (cy_product y) owner"
      using res by (auto simp: cancel_factory_cycle_def list_ex_iff split: if_split_asm)
    show ?thesis
      by (rule stages_foreign [where hit = "\<lambda>y. cy_id y = c" and f = "\<lambda>y. y\<lparr>cy_status := ''cancelled''\<rparr>" and
          hit' = "\<lambda>r. sr_cycle r = c \<and> (sr_status r = ''pending'' \<or> sr_status r = ''active'')" and g = "\<lambda>r. r\<lparr>sr_status := ''cancelled''\<rparr>"])
        (use res False stage [OF y] row in \<open>auto simp: cancel_factory_cycle_def split: if_split_asm\<close>)
  qed simp
  show "product_view db' p = product_view db p" if res: "complete_factory_stage_with_evidence env db owner c stage = (b, db')"
    by (rule stages_foreign [where hit = "\<lambda>_. False" and f = "\<lambda>y. y" and
        hit' = "\<lambda>r. sr_cycle r = c \<and> sr_stage r = stage \<and> sr_status r = ''active'' \<and> stage_evidenced db r \<and>
            list_ex (\<lambda>y. cy_id y = sr_cycle r \<and> cy_status y = ''active'' \<and> product_owned db (cy_product y) owner) (fd_cycles db)"
        and g = "\<lambda>r. r\<lparr>sr_status := ''completed'', sr_completed_at := Some (fe_now env)\<rparr>"])
      (use res stage in \<open>auto simp: complete_factory_stage_with_evidence_def Let_def update_where_none list_ex_iff\<close>)
  show "product_view db' p = product_view db p" if res: "activate_approved_factory_stage env db owner c stage = (b, db')"
  proof -
    let ?hit = "\<lambda>r. sr_cycle r = c \<and> sr_stage r = stage \<and> sr_status r = ''pending'' \<and> sr_graph r \<noteq> None \<and>
            list_ex (\<lambda>y. cy_id y = sr_cycle r \<and> open_cycle y \<and> product_owned db (cy_product y) owner) (fd_cycles db) \<and>
            stage_approved db owner r"
    let ?g = "\<lambda>r. r\<lparr>sr_status := ''active'', sr_started_at := Some (fe_now env)\<rparr>"
    have hit: "\<not> cycle_of db p (sr_cycle r)" if "?hit r" for r
      using that stage by (auto simp: list_ex_iff)
    show ?thesis
    proof (cases "count_where ?hit (fd_runs db) = 1")
      case True
      then have "\<not> cycle_of db p c"
        using count_one_hit hit by blast
      then show ?thesis
        by (intro stages_foreign [where hit = "\<lambda>y. cy_id y = c" and f = "\<lambda>y. y\<lparr>cy_status := ''active'', cy_stage := stage\<rparr>"
            and hit' = ?hit and g = ?g])
          (use res True row hit in \<open>auto simp: activate_approved_factory_stage_def Let_def\<close>)
    next
      case False
      then show ?thesis
        by (intro stages_foreign [where hit = "\<lambda>_. False" and f = "\<lambda>y. y" and hit' = ?hit and g = ?g])
          (use res hit in \<open>auto simp: activate_approved_factory_stage_def Let_def update_where_none\<close>)
    qed
  qed
  show "product_view db' p = product_view db p" if res: "materialize_factory_stage_task_graph env db owner c stage = Ok (g, db')"
  proof (cases "db' = db")
    case False
    then have "cycle_owned db c owner"
      using res by (auto simp: materialize_factory_stage_task_graph_def split: option.split_asm if_split_asm)
    then have "\<not> cycle_of db p c"
      using stage by (auto simp: cycle_owned_def list_ex_iff)
    then show ?thesis
      by (intro stages_foreign [where hit = "\<lambda>_. False" and f = "\<lambda>y. y" and
          hit' = "\<lambda>r. sr_cycle r = c \<and> sr_stage r = stage" and g = "\<lambda>r. r\<lparr>sr_graph := Some (fe_id env 0)\<rparr>"])
        (use res False in \<open>auto simp: materialize_factory_stage_task_graph_def Let_def and_then_Inr_iff update_where_none
          split: option.split_asm if_split_asm\<close>)
  qed simp
qed

lemma insert_targets_other:
  "insert_targets new a n impact rows = Ok rows' \<Longrightarrow> \<not> P a \<Longrightarrow>
     filter (\<lambda>t. P (it_assessment t)) rows' = filter (\<lambda>t. P (it_assessment t)) rows"
  by (induction new a n impact rows rule: insert_targets.induct) (auto simp: Let_def split: if_split_asm)

lemma assess_foreign:
  assumes keyed: "factory_keyed db" and other: "foreign db p owner"
    and res: "assess_factory_change_request env db owner change = Ok (x, db')"
  shows "product_view db' p = product_view db p"
proof (cases "List.find (\<lambda>r. cq_id r = change \<and> cq_status r = ''proposed'' \<and> product_owned db (cq_product r) owner) (fd_changes db)")
  case (Some r)
  let ?a = "fe_id env 0"
  have r: "r \<in> set (fd_changes db)" "cq_id r = change" "product_owned db (cq_product r) owner"
    using find_Some_in [OF Some] by auto
  have no: "\<not> change_of db p change"
    using of_unique(4) [OF keyed r(1), of p] not_owned_other [OF keyed other r(3)] r(2) by simp
  define row where "row = \<lparr>ia_id = ?a, ia_change = change, ia_status = ''ready'',
    ia_affected = fold (\<lambda>x. saturating_succ) (impact_of db (cq_product r)) 0, ia_accepted_at = None\<rparr>"
  obtain targets where free: "free ia_id ?a (fd_assessments db)"
    and ins: "insert_targets (fe_id env) ?a 1 (impact_of db (cq_product r)) (fd_targets db) = Ok targets"
    and db': "db' = db\<lparr>fd_assessments := fd_assessments db @ [row], fd_targets := targets,
      fd_changes := update_where (\<lambda>q. cq_id q = change) (\<lambda>q. q\<lparr>cq_status := ''awaiting_approval''\<rparr>) (fd_changes db)\<rparr>"
    using res Some by (auto simp: assess_factory_change_request_def Let_def and_then_Inr_iff row_def split: if_split_asm)
  have row: "ia_id row = ?a" "ia_change row = change"
    by (simp_all add: row_def)
  have changes: "filter (\<lambda>q. cq_product q = p) (fd_changes db') = filter (\<lambda>q. cq_product q = p) (fd_changes db)"
    unfolding db' using no by (simp, intro filter_update_out) (auto simp: change_of_def list_ex_iff)
  have of: "change_of db' p = change_of db p"
    unfolding change_of_def db' by (simp add: list_ex_update_where)
  have of': "assessment_of db' p = assessment_of db p"
    unfolding assessment_of_def of by (intro ext) (simp add: db' no row)
  have "filter (\<lambda>t. assessment_of db p (it_assessment t)) targets = filter (\<lambda>t. assessment_of db p (it_assessment t)) (fd_targets db)"
    by (rule insert_targets_other [OF ins]) (rule of_free(4) [OF free])
  then show ?thesis
    using changes of of' no row by (simp add: product_view_def) (simp add: db' session_of_def requirement_of_def cycle_of_def
        evidence_of_def release_of_def support_of_def)
qed (use res in \<open>simp add: assess_factory_change_request_def\<close>)

lemma resolve_foreign:
  assumes keyed: "factory_keyed db" and other: "foreign db p owner"
    and res: "resolve_factory_impact_assessment env db owner i approved = (b, db')"
  shows "product_view db' p = product_view db p"
proof (cases "List.find (\<lambda>a. ia_id a = i \<and> ia_status a = ''ready'' \<and>
         list_ex (\<lambda>q. cq_id q = ia_change a \<and> cq_status q = ''awaiting_approval'' \<and> product_owned db (cq_product q) owner)
           (fd_changes db)) (fd_assessments db)")
  case (Some a)
  define status where "status = (if approved then ''accepted'' else ''rejected'')"
  have a: "a \<in> set (fd_assessments db)" "ia_id a = i" "list_ex (\<lambda>q. cq_id q = ia_change a \<and> cq_status q = ''awaiting_approval'' \<and>
      product_owned db (cq_product q) owner) (fd_changes db)"
    using find_Some_in [OF Some] by auto
  then obtain q where q: "q \<in> set (fd_changes db)" "cq_id q = ia_change a" "product_owned db (cq_product q) owner"
    by (auto simp: list_ex_iff)
  have no: "\<not> change_of db p (ia_change a)"
    using of_unique(4) [OF keyed q(1), of p] not_owned_other [OF keyed other q(3)] q(2) by simp
  have db': "db' = db\<lparr>fd_assessments := update_where (\<lambda>b. ia_id b = i)
        (\<lambda>b. b\<lparr>ia_status := status, ia_accepted_at := Some (fe_now env)\<rparr>) (fd_assessments db),
      fd_changes := update_where (\<lambda>q. cq_id q = ia_change a)
        (\<lambda>q. q\<lparr>cq_status := status, cq_resolved_at := Some (fe_now env)\<rparr>) (fd_changes db)\<rparr>"
    using res Some by (simp add: resolve_factory_impact_assessment_def Let_def status_def)
  have changes: "filter (\<lambda>q. cq_product q = p) (fd_changes db') = filter (\<lambda>q. cq_product q = p) (fd_changes db)"
    unfolding db' using no by (simp, intro filter_update_out) (auto simp: change_of_def list_ex_iff)
  have of: "change_of db' p = change_of db p"
    unfolding change_of_def db' by (simp add: list_ex_update_where)
  have of': "assessment_of db' p = assessment_of db p"
    unfolding assessment_of_def of by (simp add: db' list_ex_update_where)
  have "filter (\<lambda>r. change_of db p (ia_change r)) (fd_assessments db') = filter (\<lambda>r. change_of db p (ia_change r)) (fd_assessments db)"
    unfolding db'
  proof (simp, rule filter_update_out)
    fix b
    assume "b \<in> set (fd_assessments db)" "ia_id b = i"
    then have "b = a"
      using same_id [of ia_id "fd_assessments db" b a] a(1,2) keyed by (simp add: factory_keyed_def)
    then show "\<not> change_of db p (ia_change b) \<and> \<not> change_of db p (ia_change (b\<lparr>ia_status := status,
        ia_accepted_at := Some (fe_now env)\<rparr>))"
      using no by simp
  qed
  then show ?thesis
    using changes of of' by (simp add: product_view_def) (simp add: db' session_of_def requirement_of_def cycle_of_def
        evidence_of_def release_of_def support_of_def)
qed (use res in \<open>simp add: resolve_factory_impact_assessment_def\<close>)

lemma ensure_profiles_other:
  "ensure_profiles new now q n names rows = Ok (ids, rows') \<Longrightarrow> q \<noteq> p \<Longrightarrow>
     filter (\<lambda>r. qp_product r = p) rows' = filter (\<lambda>r. qp_product r = p) rows"
  by (induction new now q n names rows arbitrary: ids rows' rule: ensure_profiles.induct)
    (auto simp: and_then_Inr_iff split: list.split_asm if_split_asm)

lemma owned_rows_foreign:
  assumes keyed: "factory_keyed db" and other: "foreign db p owner"
  shows "link_factory_stage_evidence_to_requirement env db owner e req = (b, db') \<Longrightarrow> product_view db' p = product_view db p"
    and "record_factory_stage_evidence env db owner c stage content = Ok (x, db') \<Longrightarrow> product_view db' p = product_view db p"
    and "ensure_react_native_closed_testing_quality_profile env db owner q = Ok (ids, db') \<Longrightarrow> product_view db' p = product_view db p"
    and "approve_factory_closed_testing_release env db owner i = Ok (b, db') \<Longrightarrow> product_view db' p = product_view db p"
    and "triage_factory_support_item db owner i = (b, db') \<Longrightarrow> product_view db' p = product_view db p"
    and "resolve_factory_support_item env db owner i resolution = (b, db') \<Longrightarrow> product_view db' p = product_view db p"
    and "link_support_to_change_request env db owner i change = (b, db') \<Longrightarrow> product_view db' p = product_view db p"
proof -
  have mine: "q \<noteq> p" if "product_owned db q owner" for q
    by (rule not_owned_other [OF keyed other that])
  show "product_view db' p = product_view db p" if res: "link_factory_stage_evidence_to_requirement env db owner e req = (b, db')"
  proof (cases "db' = db")
    case False
    then obtain z where "z \<in> set (fd_evidence db)" "el_id z = e" "product_owned db (el_product z) owner"
      using res by (auto simp: link_factory_stage_evidence_to_requirement_def list_ex_iff split: if_split_asm)
    then have "\<not> evidence_of db p e"
      using of_unique(6) [OF keyed, of z p] mine by auto
    then show ?thesis
      using res by (auto simp: link_factory_stage_evidence_to_requirement_def Let_def product_view_def of_defs split: if_split_asm)
  qed simp
  show "product_view db' p = product_view db p" if res: "record_factory_stage_evidence env db owner c stage content = Ok (x, db')"
  proof (cases "db' = db")
    case False
    then obtain r q where run: "owned_stage_run db owner c stage = Some (r, q)"
      using res by (auto simp: record_factory_stage_evidence_def split: if_split_asm option.split_asm)
    define row where "row = \<lparr>el_id = fe_id env 0, el_product = q, el_subject_kind = ''stage_run'', el_subject = sr_id r,
      el_artifact = None, el_ref = Some content, el_storage = ''inline_reference'', el_staleness = ''current''\<rparr>"
    have row: "product_owned db (el_product row) owner"
      using run by (auto simp: owned_stage_run_def row_def split: option.split_asm if_split_asm)
    have db': "db' = db\<lparr>fd_evidence := fd_evidence db @ [row]\<rparr>"
      using res False run by (auto simp: record_factory_stage_evidence_def insert_if_def Let_def row_def split: if_split_asm)
    have "evidence_of db' p = evidence_of db p"
      using mine [OF row] by (auto simp: evidence_of_def db')
    then show ?thesis
      using mine [OF row] by (simp add: product_view_def) (simp add: db' session_of_def requirement_of_def cycle_of_def
          change_of_def assessment_of_def release_of_def support_of_def)
  qed simp
  show "product_view db' p = product_view db p"
    if res: "ensure_react_native_closed_testing_quality_profile env db owner q = Ok (ids, db')"
  proof (cases "product_owned db q owner")
    case True
    then obtain ids' rows where rows: "ensure_profiles (fe_id env) (fe_now env) q 0 react_native_closed_testing_quality_gates
        (fd_profiles db) = Ok (ids', rows)" "db' = db\<lparr>fd_profiles := rows\<rparr>"
      using res by (auto simp: ensure_react_native_closed_testing_quality_profile_def and_then_Inr_iff)
    show ?thesis
      using ensure_profiles_other [OF rows(1) mine [OF True]] by (simp add: rows(2) product_view_def of_defs)
  qed (use res in \<open>simp add: ensure_react_native_closed_testing_quality_profile_def\<close>)
  show "product_view db' p = product_view db p" if res: "approve_factory_closed_testing_release env db owner i = Ok (b, db')"
  proof (cases "db' = db")
    case False
    then obtain z where z: "z \<in> set (fd_releases db)" "rl_id z = i" "product_owned db (rl_product z) owner"
      using res by (auto simp: approve_factory_closed_testing_release_def list_ex_iff split: if_split_asm)
    then have no: "\<not> release_of db p i"
      using of_unique(7) [OF keyed z(1), of p] mine by auto
    have "filter (\<lambda>r. rl_product r = p) (update_where (\<lambda>r. rl_id r = i) (\<lambda>r. r\<lparr>rl_status := ''approved''\<rparr>) (fd_releases db)) =
        filter (\<lambda>r. rl_product r = p) (fd_releases db)"
      using no by (intro filter_update_out) (auto simp: release_of_def list_ex_iff)
    then show ?thesis
      using res no by (auto simp: approve_factory_closed_testing_release_def insert_if_def Let_def product_view_def of_defs
          list_ex_update_where split: if_split_asm)
  qed simp
  have support: "filter (\<lambda>r. su_product r = p) (update_where (\<lambda>r. su_id r = i \<and> P r \<and> product_owned db (su_product r) owner) f
      (fd_support db)) = filter (\<lambda>r. su_product r = p) (fd_support db)" if "\<And>r. su_product (f r) = su_product r" for P f
    using mine by (intro filter_update_out) (auto simp: that)
  show "triage_factory_support_item db owner i = (b, db') \<Longrightarrow> product_view db' p = product_view db p"
    by (auto simp: triage_factory_support_item_def Let_def product_view_def of_defs support list_ex_update_where)
  show "resolve_factory_support_item env db owner i resolution = (b, db') \<Longrightarrow> product_view db' p = product_view db p"
    by (auto simp: resolve_factory_support_item_def Let_def product_view_def of_defs support list_ex_update_where)
  show "product_view db' p = product_view db p" if res: "link_support_to_change_request env db owner i change = (b, db')"
  proof (cases "db' = db")
    case False
    then obtain z where z: "z \<in> set (fd_support db)" "su_id z = i" "product_owned db (su_product z) owner"
      using res by (auto simp: link_support_to_change_request_def list_ex_iff split: if_split_asm)
    then have "\<not> support_of db p i"
      using of_unique(8) [OF keyed z(1), of p] mine by auto
    then show ?thesis
      using res by (auto simp: link_support_to_change_request_def Let_def product_view_def of_defs split: if_split_asm)
  qed simp
qed

lemma op_foreign:
  assumes ok: "owners_ok db" and other: "foreign db p owner" and op: "factory_op w env owner db db'"
  shows "product_view db' p = product_view db p"
proof -
  have keyed: "factory_keyed db"
    using ok by (simp add: owners_ok_def)
  from op show ?thesis
    by cases (simp, (erule product_ops_foreign [OF keyed other] owned_inserts_foreign [OF keyed other]
        start_intake_foreign [OF keyed other] record_answer_foreign [OF keyed other] requirement_foreign [OF keyed other]
        apply_foreign [OF ok other] materialize_foreign [OF keyed other] cycle_ops_foreign [OF keyed other]
        assess_foreign [OF keyed other] resolve_foreign [OF keyed other] owned_rows_foreign [OF keyed other] |
        simp add: product_ops_foreign(4) [OF keyed other])+)
qed

section \<open>Keys and links are kept\<close>

lemma insert_prompts_keys:
  "insert_prompts new s n ks items = Ok items' \<Longrightarrow> distinct (map fi_id items) \<Longrightarrow> distinct (map fi_id items')"
  by (induction new s n ks items rule: insert_prompts.induct) (auto simp: free_def split: if_split_asm)

text \<open>The identifiers of the tables \<open>factory_keyed\<close> speaks of.\<close>

definition id_columns :: "factory_db \<Rightarrow> string list list" where
  "id_columns db = [map fp_id (fd_products db), map fs_id (fd_sessions db), map fi_id (fd_items db),
     map fr_id (fd_requirements db), map cy_id (fd_cycles db), map cq_id (fd_changes db), map ia_id (fd_assessments db),
     map el_id (fd_evidence db), map rl_id (fd_releases db), map su_id (fd_support db)]"

lemma keyed_columns: "factory_keyed db \<longleftrightarrow> list_all distinct (id_columns db)"
  by (simp add: factory_keyed_def id_columns_def)

lemma same_columns: "id_columns db' = id_columns db \<Longrightarrow> factory_keyed db \<Longrightarrow> factory_keyed db'"
  by (simp add: keyed_columns)

lemma op_keyed:
  assumes ok: "factory_keyed db" and "factory_op w env owner db db'"
  shows "factory_keyed db'"
  using assms(2)
proof cases
  case (op_intake p i)
  then show ?thesis
    using ok by (auto simp: start_factory_intake_def ensure_discovery_intake_prompts_def insert_if_def and_then_Inr_iff
        factory_keyed_def free_def Let_def intro: insert_prompts_keys split: if_split_asm option.split_asm)
next
  case (op_cycle plan x)
  then show ?thesis
    using ok by (auto simp: materialize_factory_cycle_def insert_if_def and_then_Inr_iff factory_keyed_def free_def Let_def
        split: if_split_asm option.split_asm list.split_asm)
next
  case (op_support p source_kind summary i)
  then show ?thesis
    using ok by (auto simp: create_factory_support_item_def insert_if_def and_then_Inr_iff factory_keyed_def free_def Let_def map_update_where
        split: if_split_asm option.split_asm prod.split_asm)
next
  case (op_product ws title i)
  then show ?thesis
    using ok by (auto simp: create_factory_product_draft_def insert_if_def and_then_Inr_iff factory_keyed_def free_def Let_def map_update_where
        split: if_split_asm option.split_asm prod.split_asm)
next
  case (op_answer s q r)
  then show ?thesis
    using ok by (auto simp: record_factory_intake_answer_def insert_if_def and_then_Inr_iff factory_keyed_def free_def Let_def map_update_where
        split: if_split_asm option.split_asm prod.split_asm)
next
  case (op_requirement p skey content x)
  then show ?thesis
    using ok by (auto simp: create_factory_requirement_draft_def insert_if_def and_then_Inr_iff factory_keyed_def free_def Let_def map_update_where
        split: if_split_asm option.split_asm prod.split_asm)
next
  case (op_submit p summary i)
  then show ?thesis
    using ok by (auto simp: submit_factory_change_request_def insert_if_def and_then_Inr_iff factory_keyed_def free_def Let_def map_update_where
        split: if_split_asm option.split_asm prod.split_asm)
next
  case (op_assess change x)
  then show ?thesis
    using ok by (auto simp: assess_factory_change_request_def insert_if_def and_then_Inr_iff factory_keyed_def free_def Let_def map_update_where
        split: if_split_asm option.split_asm prod.split_asm)
next
  case (op_evidence c stage content i)
  then show ?thesis
    using ok by (auto simp: record_factory_stage_evidence_def insert_if_def and_then_Inr_iff factory_keyed_def free_def Let_def map_update_where
        split: if_split_asm option.split_asm prod.split_asm)
next
  case (op_release p build i)
  then show ?thesis
    using ok by (auto simp: create_factory_release_draft_def insert_if_def and_then_Inr_iff factory_keyed_def free_def Let_def map_update_where
        split: if_split_asm option.split_asm prod.split_asm)
qed (use ok in \<open>auto intro!: same_columns [OF _ ok] simp: id_columns_def other_op_defs materialize_factory_stage_task_graph_def
    activate_approved_factory_stage_def complete_factory_stage_with_evidence_def pause_factory_cycle_def
    resume_factory_cycle_def cancel_factory_cycle_def insert_if_def Let_def and_then_Inr_iff map_update_where
    split: if_split_asm option.split_asm prod.split_asm\<close>)

definition evidence_pairs :: "factory_db \<Rightarrow> (string \<times> string) set" where
  "evidence_pairs db = (\<lambda>x. (el_id x, el_product x)) ` set (fd_evidence db)"

definition requirement_pairs :: "factory_db \<Rightarrow> (string \<times> string) set" where
  "requirement_pairs db = (\<lambda>r. (fr_id r, fr_product r)) ` set (fd_requirements db)"

lemma link_within_pairs:
  "link_within db d \<longleftrightarrow> lk_kind d = ''requirement'' \<and>
     (\<exists>q. (lk_from d, q) \<in> evidence_pairs db \<and> (lk_target d, q) \<in> requirement_pairs db)"
  unfolding link_within_def requirement_of_def evidence_pairs_def requirement_pairs_def list_ex_iff image_iff prod.inject by metis

lemma op_pairs_grow:
  assumes "factory_op w env owner db db'"
  shows "evidence_pairs db \<subseteq> evidence_pairs db' \<and> requirement_pairs db \<subseteq> requirement_pairs db'"
  using assms
proof cases
  case (op_apply a req content x)
  then show ?thesis
    by (auto simp: apply_approved_requirement_change_def insert_if_def Let_def evidence_pairs_def requirement_pairs_def
        image_update_where split: if_split_asm option.split_asm prod.split_asm)
qed (auto simp: evidence_pairs_def requirement_pairs_def other_op_defs materialize_factory_stage_task_graph_def
    materialize_factory_cycle_def activate_approved_factory_stage_def complete_factory_stage_with_evidence_def
    pause_factory_cycle_def resume_factory_cycle_def cancel_factory_cycle_def insert_if_def Let_def and_then_Inr_iff
    split: if_split_asm option.split_asm prod.split_asm list.split_asm)

lemma op_new_links:
  assumes "factory_op w env owner db db'" and "d \<in> set (fd_dependencies db')"
  shows "d \<in> set (fd_dependencies db) \<or> link_within db d"
  using assms
proof cases
  case (op_link_evidence e req)
  then show ?thesis
    using assms(2) by (auto simp: link_factory_stage_evidence_to_requirement_def Let_def link_within_def requirement_of_def
        list_ex_iff split: if_split_asm) metis
qed (use assms(2) in \<open>auto simp: other_op_defs materialize_factory_stage_task_graph_def
    materialize_factory_cycle_def activate_approved_factory_stage_def complete_factory_stage_with_evidence_def
    pause_factory_cycle_def resume_factory_cycle_def cancel_factory_cycle_def insert_if_def Let_def and_then_Inr_iff
    split: if_split_asm option.split_asm prod.split_asm list.split_asm\<close>)

lemma control_owners [simp]:
  "product_view (db\<lparr>fd_control := f\<rparr>) p = product_view db p" "factory_keyed (db\<lparr>fd_control := f\<rparr>) = factory_keyed db"
  "link_within (db\<lparr>fd_control := f\<rparr>) = link_within db" "foreign (db\<lparr>fd_control := f\<rparr>) p owner = foreign db p owner"
  by (auto simp: product_view_def of_defs factory_keyed_def link_within_def foreign_def)

interpretation owner_rules: factory_invariant owners_ok
proof
  fix w env owner db db'
  assume op: "factory_op w env owner db db'" and ok: "owners_ok db"
  have "link_within db' d" if "d \<in> set (fd_dependencies db')" for d
    using op_new_links [OF op that] ok op_pairs_grow [OF op] unfolding owners_ok_def link_within_pairs by blast
  then show "owners_ok db'"
    using op_keyed [OF _ op] ok by (simp add: owners_ok_def)
qed (simp add: owners_ok_def)

section \<open>Isolation\<close>

text \<open>Requests of everybody but one.\<close>

fun not_by :: "string \<Rightarrow> factory_event \<Rightarrow> bool" where
  "not_by owner (Asked call who cmd) \<longleftrightarrow> ac_subject who \<noteq> owner"
| "not_by owner (Elsewhere f) \<longleftrightarrow> True"

definition owned_product :: "factory_db \<Rightarrow> string \<Rightarrow> string \<Rightarrow> bool" where
  "owned_product db p owner \<longleftrightarrow> (\<exists>r\<in>set (pv_product (product_view db p)). fp_owner r = owner)"

lemma owned_product_foreign: "owned_product db p owner \<Longrightarrow> owner \<noteq> other \<Longrightarrow> foreign db p other"
  by (auto simp: owned_product_def product_view_def foreign_def)

lemma step_foreign:
  assumes "owners_ok (fy_db pl)" and "owned_product (fy_db pl) p owner" and "not_by owner e"
  shows "product_view (fy_db (factory_step w pl e)) p = product_view (fy_db pl) p"
proof (rule factory_step_cases [of w pl e])
  fix call who cmd r db f
  assume e: "e = Asked call who cmd" and op: "factory_op w (fx_env call) (ac_subject who) (fy_db pl) db"
    and db: "fy_db (factory_step w pl e) = db\<lparr>fd_control := f\<rparr>"
  have "owner \<noteq> ac_subject who"
    using assms(3) e by auto
  then show ?thesis
    unfolding db using op_foreign [OF assms(1) owned_product_foreign [OF assms(2)] op] by simp
qed simp_all

interpretation strangers: terminal_machine "factory_step w" "not_by owner" "\<lambda>pl. owners_ok (fy_db pl)"
  "\<lambda>pl. owned_product (fy_db pl) p owner" "\<lambda>pl. product_view (fy_db pl) p" for w owner p
proof
  fix pl :: factory_plane and e
  assume "owners_ok (fy_db pl)"
  then show "owners_ok (fy_db (factory_step w pl e))"
    by (rule owner_rules.step_keeps)
next
  fix pl :: factory_plane and e
  assume a: "owners_ok (fy_db pl)" "owned_product (fy_db pl) p owner" "not_by owner e"
  show "product_view (fy_db (factory_step w pl e)) p = product_view (fy_db pl) p"
    by (rule step_foreign [OF a])
  then show "owned_product (fy_db (factory_step w pl e)) p owner"
    using a(2) by (simp add: owned_product_def)
qed

text \<open>
  C15: owners are isolated. Whatever commands the other subjects run, and whatever happens to the control plane's tables,
  every row of a product, in all twenty-one tables, is what it was: its charter, requirements and their revisions, plans,
  cycles and stages, changes and their impact, evidence, quality, releases and support.
\<close>

theorem owner_isolation:
  assumes "owners_ok (fy_db pl)" and "owned_product (fy_db pl) p owner" and "list_all (not_by owner) events"
  shows "product_view (fy_db (foldl (factory_step w) pl events)) p = product_view (fy_db pl) p"
  using strangers.final_run [OF assms] by simp

end
