(* ===== verification/Factory_Gates.thy ===== *)
theory Factory_Gates
  imports Factory_Owners
begin

text \<open>
  The gates of a product's way to a release: what a draft needs, evidence that a changed requirement made stale, the
  decisions that stay with the human owner, the numbering of revisions, and the source a product is bound to.
\<close>

lemmas op_defs = other_op_defs materialize_factory_stage_task_graph_def materialize_factory_cycle_def
  activate_approved_factory_stage_def complete_factory_stage_with_evidence_def pause_factory_cycle_def
  resume_factory_cycle_def cancel_factory_cycle_def

section \<open>Stale evidence\<close>

definition stale_products :: "factory_db \<Rightarrow> string set" where
  "stale_products db = el_product ` {x \<in> set (fd_evidence db). el_staleness x = ''stale''}"

lemma stale_blocks: "p \<in> stale_products db \<Longrightarrow> factory_release_ready db owner p \<noteq> Some True"
  by (auto simp: stale_products_def factory_release_ready_def factory_release_readiness_def Let_def count_where_def
      filter_empty_conv)

lemma op_stale_grows:
  assumes "factory_op w env owner db db'"
  shows "stale_products db \<subseteq> stale_products db'"
  using assms
proof cases
  case (op_apply a req content x)
  then obtain p where "fd_evidence db' = update_where p (\<lambda>e. e\<lparr>el_staleness := ''stale''\<rparr>) (fd_evidence db)"
    by (auto simp: apply_approved_requirement_change_def insert_if_def Let_def
        split: if_split_asm option.split_asm prod.split_asm)
  then show ?thesis
    by (force simp: stale_products_def set_update_where)
qed (auto simp: stale_products_def op_defs insert_if_def Let_def and_then_Inr_iff
    split: if_split_asm option.split_asm prod.split_asm list.split_asm)

interpretation stale_rule: factory_invariant "\<lambda>db. p \<in> stale_products db" for p
  by unfold_locales (blast dest: op_stale_grows [THEN subsetD], simp add: stale_products_def)

text \<open>
  stale evidence blocks the release. Once a requirement change has marked evidence of a product as stale, the product
  is not ready again whatever anybody does, and no release of it is drafted.
\<close>

theorem stale_evidence_final:
  assumes "p \<in> stale_products (fy_db pl)"
  shows "let db' = fy_db (foldl (factory_step w) pl events)
    in factory_release_ready db' owner p \<noteq> Some True \<and> create_factory_release_draft env db' owner p build = Ok (None, db')"
  using stale_blocks [OF stale_rule.runs_keep [OF assms]] by (simp add: Let_def create_factory_release_draft_def)

section \<open>Releases\<close>

text \<open>What readiness means.\<close>

definition release_open :: "factory_db \<Rightarrow> string \<Rightarrow> bool" where
  "release_open db p \<longleftrightarrow>
     (\<forall>q\<in>set (fd_profiles db). qp_product q = p \<and> qp_required q \<longrightarrow>
        (\<exists>k\<in>set (fd_checks db). qc_profile k = qp_id q \<and> qc_status k = ''passed'' \<and> sql_nonblank (qc_evidence k))) \<and>
     verify_completed db p \<and>
     (\<forall>a\<in>set (fd_assessments db). ia_status a = ''ready'' \<longrightarrow> \<not> change_of db p (ia_change a)) \<and>
     p \<notin> stale_products db"

lemma ready_iff: "factory_release_ready db owner p = Some True \<longleftrightarrow> product_owned db p owner \<and> release_open db p"
proof (cases "product_owned db p owner")
  case True
  have "count_where (profile_blocks db p) (fd_profiles db) = 0 \<longleftrightarrow>
      (\<forall>q\<in>set (fd_profiles db). qp_product q = p \<and> qp_required q \<longrightarrow>
        (\<exists>k\<in>set (fd_checks db). qc_profile k = qp_id q \<and> qc_status k = ''passed'' \<and> sql_nonblank (qc_evidence k)))"
    unfolding count_where_def profile_blocks_def length_0_conv filter_empty_conv list_ex_iff by blast
  moreover have "count_where (\<lambda>a. ia_status a = ''ready'' \<and> list_ex (\<lambda>q. cq_id q = ia_change a \<and> cq_product q = p)
      (fd_changes db)) (fd_assessments db) = 0 \<longleftrightarrow>
      (\<forall>a\<in>set (fd_assessments db). ia_status a = ''ready'' \<longrightarrow> \<not> change_of db p (ia_change a))"
    unfolding count_where_def length_0_conv filter_empty_conv change_of_def by blast
  moreover have "count_where (\<lambda>e. el_product e = p \<and> el_staleness e = ''stale'') (fd_evidence db) = 0 \<longleftrightarrow> p \<notin> stale_products db"
    unfolding count_where_def length_0_conv filter_empty_conv stale_products_def by blast
  ultimately show ?thesis
    using True by (simp add: factory_release_ready_def factory_release_readiness_def Let_def release_open_def)
qed (simp add: factory_release_ready_def factory_release_readiness_def)

lemma op_release_change:
  assumes op: "factory_op w env owner db db'" and r: "r \<in> set (fd_releases db')" "r \<notin> set (fd_releases db)"
  shows "product_owned db (rl_product r) owner \<and> rl_status r = ''draft'' \<and> factory_release_ready db owner (rl_product r) = Some True \<or>
    rl_status r = ''approved'' \<and>
      (\<exists>d\<in>set (fd_releases db). rl_id d = rl_id r \<and> rl_status d = ''draft'' \<and> product_owned db (rl_product d) owner)"
proof -
  have same: ?thesis if "fd_releases db' = fd_releases db"
    using r that by simp
  from op show ?thesis
  proof cases
    case (op_release p build i)
    then show ?thesis
      using r by (auto simp: create_factory_release_draft_def factory_release_ready_def factory_release_readiness_def
          insert_if_def Let_def split: if_split_asm)
  next
    case (op_approve_release i)
    then show ?thesis
      using r by (auto simp: approve_factory_closed_testing_release_def insert_if_def Let_def list_ex_iff set_update_where
          split: if_split_asm)
  qed (rule same; auto simp: op_defs insert_if_def Let_def and_then_Inr_iff
    split: if_split_asm option.split_asm prod.split_asm list.split_asm)+
qed


section \<open>What agents cannot decide\<close>

text \<open>The decisions that are the human owner's: approved plans, started and ended stages, cancelled cycles, settled
  assessments, replaced requirements, approved releases, and settled approvals.\<close>

record human_decisions =
  hu_plans :: "string list"
  hu_stages :: "(string \<times> string) list"
  hu_cancelled :: "string list"
  hu_assessments :: "(string \<times> string) list"
  hu_replaced :: "requirement_revision list"
  hu_stale :: "string list"
  hu_releases :: "factory_release list"
  hu_channels :: "release_channel list"
  hu_approvals :: "approval_row list"

definition human_decisions :: "factory_db \<Rightarrow> human_decisions" where
  "human_decisions db =
     \<lparr>hu_plans = map fl_id (filter (\<lambda>r. fl_status r = ''approved'') (fd_plans db)),
      hu_stages = map (\<lambda>r. (sr_id r, sr_status r)) (filter (\<lambda>r. sr_status r \<noteq> ''pending'') (fd_runs db)),
      hu_cancelled = map cy_id (filter (\<lambda>r. cy_status r = ''cancelled'') (fd_cycles db)),
      hu_assessments = map (\<lambda>r. (ia_id r, ia_status r)) (filter (\<lambda>r. ia_status r \<noteq> ''ready'') (fd_assessments db)),
      hu_replaced = filter (\<lambda>r. fv_revision r \<noteq> 1) (fd_revisions db),
      hu_stale = map el_id (filter (\<lambda>r. el_staleness r = ''stale'') (fd_evidence db)),
      hu_releases = filter (\<lambda>r. rl_status r \<noteq> ''draft'') (fd_releases db),
      hu_channels = fd_channels db,
      hu_approvals = filter (\<lambda>r. ap_status r \<noteq> ''pending'') (cd_approvals (fd_control db))\<rparr>"

lemma map_filter_update:
  assumes "\<And>r. hit r \<Longrightarrow> q (f r) = q r" and "\<And>r. h (f r) = h r"
  shows "map h (filter q (update_where hit f rows)) = map h (filter q rows)"
  by (induction rows) (auto simp: update_where_def assms)

lemma materialize_undecided:
  assumes "materialize_factory_cycle env db owner plan = Ok (x, db')"
  shows "human_decisions db' = human_decisions db"
proof (cases "db' = db")
  case False
  let ?c = "fe_id env 0"
  obtain q runs where ins: "insert_stage_runs (fe_id env) ?c 1 factory_lifecycle_stages (fd_runs db) = Ok runs"
    and db': "db' = db\<lparr>fd_cycles := fd_cycles db @ [\<lparr>cy_id = ?c, cy_product = q, cy_plan = plan,
      cy_status = ''planned'', cy_stage = hd factory_lifecycle_stages, cy_created_at = fe_now env\<rparr>], fd_runs := runs\<rparr>"
    using assms False by (auto simp: materialize_factory_cycle_def Let_def and_then_Inr_iff insert_if_def
        split: option.split_asm list.split_asm if_split_asm)
  obtain added where "runs = fd_runs db @ added" "list_all (\<lambda>r. sr_status r = ''pending'') added"
    by (rule insert_stage_runs_Ok [OF ins]) blast
  then show ?thesis
    by (simp add: human_decisions_def db' list_all_iff)
qed simp

lemma graph_undecided:
  assumes "materialize_factory_stage_task_graph env db owner c stage = Ok (x, db')"
  shows "human_decisions db' = human_decisions db"
  using assms
  by (auto simp: materialize_factory_stage_task_graph_def insert_stage_rows_def stage_approval_def insert_if_def Let_def
      and_then_Inr_iff human_decisions_def map_filter_update split: option.split_asm if_split_asm)

lemma pause_undecided:
  "human_decisions (snd (pause_factory_cycle db owner c)) = human_decisions db"
  "human_decisions (snd (resume_factory_cycle db owner c)) = human_decisions db"
proof -
  show "human_decisions (snd (pause_factory_cycle db owner c)) = human_decisions db"
    by (auto simp: pause_factory_cycle_def Let_def human_decisions_def open_cycle_def intro!: map_filter_update)
  show "human_decisions (snd (resume_factory_cycle db owner c)) = human_decisions db"
    by (auto simp: resume_factory_cycle_def Let_def human_decisions_def intro!: map_filter_update split: if_split_asm)
qed

lemma undecided_other:
  "human_decisions (db\<lparr>fd_workspaces := a\<rparr>) = human_decisions db" "human_decisions (db\<lparr>fd_products := b\<rparr>) = human_decisions db"
  "human_decisions (db\<lparr>fd_sessions := c\<rparr>) = human_decisions db" "human_decisions (db\<lparr>fd_items := d\<rparr>) = human_decisions db"
  "human_decisions (db\<lparr>fd_charters := e\<rparr>) = human_decisions db" "human_decisions (db\<lparr>fd_requirements := f\<rparr>) = human_decisions db"
  "human_decisions (db\<lparr>fd_requirement_links := g\<rparr>) = human_decisions db" "human_decisions (db\<lparr>fd_changes := h\<rparr>) = human_decisions db"
  "human_decisions (db\<lparr>fd_targets := i\<rparr>) = human_decisions db" "human_decisions (db\<lparr>fd_dependencies := j\<rparr>) = human_decisions db"
  "human_decisions (db\<lparr>fd_profiles := k\<rparr>) = human_decisions db" "human_decisions (db\<lparr>fd_checks := l\<rparr>) = human_decisions db"
  "human_decisions (db\<lparr>fd_support := m\<rparr>) = human_decisions db" "human_decisions (db\<lparr>fd_support_links := n\<rparr>) = human_decisions db"
  by (simp_all add: human_decisions_def)

lemma undecided_inserts:
  "fl_status p \<noteq> ''approved'' \<Longrightarrow> rows1 = fd_plans db \<Longrightarrow> human_decisions (db\<lparr>fd_plans := rows1 @ [p]\<rparr>) = human_decisions db"
  "ia_status a = ''ready'' \<Longrightarrow> rows2 = fd_assessments db \<Longrightarrow> human_decisions (db\<lparr>fd_assessments := rows2 @ [a]\<rparr>) = human_decisions db"
  "fv_revision v = 1 \<Longrightarrow> rows3 = fd_revisions db \<Longrightarrow> human_decisions (db\<lparr>fd_revisions := rows3 @ [v]\<rparr>) = human_decisions db"
  "el_staleness e \<noteq> ''stale'' \<Longrightarrow> rows4 = fd_evidence db \<Longrightarrow> human_decisions (db\<lparr>fd_evidence := rows4 @ [e]\<rparr>) = human_decisions db"
  "rl_status l = ''draft'' \<Longrightarrow> rows5 = fd_releases db \<Longrightarrow> human_decisions (db\<lparr>fd_releases := rows5 @ [l]\<rparr>) = human_decisions db"
  by (simp_all add: human_decisions_def)

lemma agent_undecided:
  assumes "run_factory_command w env made db owner cmd = Ok (r, db')" and "agent_may_execute cmd"
  shows "human_decisions db' = human_decisions db"
proof (cases cmd)
  case (Materialize_Planned_Cycle p k)
  then show ?thesis
    using assms(1) materialize_undecided by (auto simp: materialize_planned_cycle_def reply_some_iff)
next
  case (Materialize_Stage_Task_Graph c s k)
  then show ?thesis
    using assms(1) graph_undecided by (auto simp: materialize_stage_task_graph_def reply_some_iff)
next
  case (Pause_Cycle c k)
  then show ?thesis
    using assms(1) pause_undecided(1) [of db owner c] by (auto simp: pause_cycle_def reply_if_iff)
next
  case (Resume_Cycle c k)
  then show ?thesis
    using assms(1) pause_undecided(2) [of db owner c] by (auto simp: resume_cycle_def reply_if_iff)
qed (use assms in \<open>auto simp: agent_may_execute_def factory_handlers attach_existing_project_def generate_charter_draft_def
    create_workspace_def inspect_release_readiness_def inspect_support_overview_def or_internal_def
    reply_some_iff reply_if_iff and_then_Inr_iff other_op_defs insert_if_def Let_def undecided_other undecided_inserts
    split: if_split_asm option.split_asm prod.split_asm\<close>)

text \<open>The calls an agent can make.\<close>

datatype agent_call = Over_Mcp factory_call factory_command | Over_Http factory_call actor factory_command

fun agent_step :: "factory_world \<Rightarrow> factory_plane \<Rightarrow> agent_call \<Rightarrow> factory_plane" where
  "agent_step w pl (Over_Mcp call cmd) = snd (tool_factory_execute w call pl cmd)"
| "agent_step w pl (Over_Http call who cmd) = snd (handle_factory_command w call pl who cmd)"

lemma logged_decisions: "human_decisions (factory_logged w call who cmd db) = human_decisions db"
  by (simp add: human_decisions_def factory_logged_def)

lemma dispatch_undecided:
  assumes "agent_may_execute cmd"
  shows "human_decisions (fy_db (snd (dispatch_factory_command w call pl who cmd))) = human_decisions (fy_db pl)"
  by (rule dispatch_factory_cases [of w pl cmd call who])
    (use assms in \<open>auto simp: factory_left_alone_def factory_ran_def logged_decisions dest: agent_undecided\<close>)

lemma agent_step_undecided: "human_decisions (fy_db (agent_step w pl e)) = human_decisions (fy_db pl)"
  by (cases e) (simp_all add: tool_factory_execute_def handle_factory_command_def dispatch_undecided split: prod.split sum.split,
    metis dispatch_undecided snd_conv)

interpretation agents: terminal_machine "agent_step w" "\<lambda>_. True" "\<lambda>_. True" "\<lambda>_. True" "\<lambda>pl. human_decisions (fy_db pl)" for w
  by unfold_locales (simp_all add: agent_step_undecided)


section \<open>Revisions\<close>

text \<open>The revisions of each requirement are numbered from 1 to its current one, in order.\<close>

definition revisions_ok :: "factory_db \<Rightarrow> bool" where
  "revisions_ok db \<longleftrightarrow> distinct (map fr_id (fd_requirements db)) \<and>
     (\<forall>v\<in>set (fd_revisions db). fv_requirement v \<in> fr_id ` set (fd_requirements db)) \<and>
     (\<forall>r\<in>set (fd_requirements db). 1 \<le> fr_revision r \<and>
        map fv_revision (filter (\<lambda>v. fv_requirement v = fr_id r) (fd_revisions db)) = [1..fr_revision r])"

lemma apply_revisions:
  assumes ok: "revisions_ok db" and res: "apply_approved_requirement_change env db owner a req content = Ok (Some x, db')"
  shows "revisions_ok db' \<and> prefix (fd_revisions db) (fd_revisions db')"
proof -
  obtain revision previous where found: "replaceable_revision db owner a req = Some (revision, previous)"
    using res by (auto simp: apply_approved_requirement_change_def split: option.split_asm)
  then obtain r where r: "r \<in> set (fd_requirements db)" "fr_id r = req" "fr_revision r = revision"
    by (auto simp: replaceable_revision_def dest!: find_Some_in split: option.split_asm if_split_asm)
  define v where "v = \<lparr>fv_id = fe_id env 0, fv_requirement = req, fv_revision = revision + 1,
    fv_ref = ''inline:'' @ fe_id env 0, fv_text = content, fv_status = ''proposed''\<rparr>"
  have db': "fd_revisions db' = fd_revisions db @ [v]"
    "fd_requirements db' = update_where (\<lambda>r. fr_id r = req) (\<lambda>r. r\<lparr>fr_revision := revision + 1\<rparr>) (fd_requirements db)"
    using res found by (auto simp: v_def apply_approved_requirement_change_def insert_if_def Let_def split: if_split_asm)
  have v: "fv_requirement v = req" "fv_revision v = revision + 1"
    by (simp_all add: v_def)
  have keys: "map fr_id (fd_requirements db') = map fr_id (fd_requirements db)"
    unfolding db'(2) by (rule map_update_where) simp
  have "1 \<le> fr_revision s \<and> map fv_revision (filter (\<lambda>v. fv_requirement v = fr_id s) (fd_revisions db')) = [1..fr_revision s]"
    if "s \<in> set (fd_requirements db')" for s
  proof -
    from that obtain q where q: "q \<in> set (fd_requirements db)" "s = (if fr_id q = req then q\<lparr>fr_revision := revision + 1\<rparr> else q)"
      unfolding db'(2) by (auto simp: update_where_def)
    have old: "1 \<le> fr_revision q" "map fv_revision (filter (\<lambda>v. fv_requirement v = fr_id q) (fd_revisions db)) = [1..fr_revision q]"
      using ok q(1) by (auto simp: revisions_ok_def)
    show ?thesis
    proof (cases "fr_id q = req")
      case True
      then have "q = r"
        using ok r q(1) same_id [of fr_id "fd_requirements db" q r] by (simp add: revisions_ok_def)
      then show ?thesis
        using old True r(3) q(2) v by (simp add: db'(1) upto_rec2)
    next
      case False
      then show ?thesis
        using old q(2) v(1) by (auto simp: db'(1))
    qed
  qed
  moreover have "fv_requirement u \<in> fr_id ` set (fd_requirements db')" if "u \<in> set (fd_revisions db')" for u
  proof -
    have "fr_id ` set (fd_requirements db') = fr_id ` set (fd_requirements db)"
      using arg_cong [OF keys, of set] by simp
    then show ?thesis
      using that ok r(1,2) v(1) by (auto simp: db'(1) revisions_ok_def)
  qed
  ultimately show ?thesis
    using ok keys by (simp add: revisions_ok_def db'(1))
qed

lemma draft_revisions:
  assumes ok: "revisions_ok db" and res: "create_factory_requirement_draft env db owner p skey content = Ok (Some x, db')"
  shows "revisions_ok db' \<and> prefix (fd_revisions db) (fd_revisions db')"
proof -
  let ?i = "fe_id env 0"
  define v where "v = \<lparr>fv_id = fe_id env 1, fv_requirement = ?i, fv_revision = 1,
    fv_ref = ''inline:'' @ fe_id env 1, fv_text = content, fv_status = ''proposed''\<rparr>"
  have free: "free fr_id ?i (fd_requirements db)" and db1: "fd_revisions db' = fd_revisions db @ [v]"
    and "\<exists>r. fr_id r = ?i \<and> fr_revision r = 1 \<and> fd_requirements db' = fd_requirements db @ [r]"
    using res by (auto simp: v_def create_factory_requirement_draft_def insert_if_def Let_def split: if_split_asm option.split_asm)
  then obtain r where r: "fr_id r = ?i" "fr_revision r = 1" and db2: "fd_requirements db' = fd_requirements db @ [r]"
    by blast
  note db' = db1 db2
  have v: "fv_requirement v = ?i" "fv_revision v = 1"
    by (simp_all add: v_def)
  have "filter (\<lambda>v. fv_requirement v = ?i) (fd_revisions db) = []"
    using ok free unfolding revisions_ok_def free_def filter_empty_conv image_set by metis
  moreover have "fr_id q \<noteq> ?i" if "q \<in> set (fd_requirements db)" for q
    using free imageI [OF that, of fr_id] by (metis free_def set_map)
  ultimately show ?thesis
    using ok free v r unfolding revisions_ok_def db' free_def by auto
qed

lemma revisions_other:
  assumes "fd_requirements db' = fd_requirements db" and "fd_revisions db' = fd_revisions db"
  shows "revisions_ok db \<longrightarrow> revisions_ok db' \<and> prefix (fd_revisions db) (fd_revisions db')"
  using assms by (simp add: revisions_ok_def)

lemma op_revisions:
  assumes "factory_op w env owner db db'"
  shows "revisions_ok db \<longrightarrow> revisions_ok db' \<and> prefix (fd_revisions db) (fd_revisions db')"
  using assms
proof cases
  case (op_apply a req content x)
  then show ?thesis
    using apply_revisions by blast
next
  case (op_requirement p skey content x)
  then show ?thesis
    using draft_revisions by blast
qed (rule revisions_other; auto simp: op_defs insert_if_def Let_def and_then_Inr_iff
    split: if_split_asm option.split_asm prod.split_asm list.split_asm)+

interpretation revision_rule: factory_invariant "\<lambda>db. revisions_ok db \<and> prefix vs (fd_revisions db)" for vs
  by unfold_locales (use op_revisions in \<open>blast intro: prefix_order.trans\<close>, simp add: revisions_ok_def)

text \<open>
  C19: requirements keep their history. Whatever is requested, revisions are only added, and those of each requirement
  are numbered 1, 2, 3 and so on without a gap up to the requirement's current revision.
\<close>

theorem requirement_history:
  assumes "revisions_ok (fy_db pl)"
  shows "let db' = fy_db (foldl (factory_step w) pl events)
    in prefix (fd_revisions (fy_db pl)) (fd_revisions db') \<and>
      (\<forall>r\<in>set (fd_requirements db').
         map fv_revision (filter (\<lambda>v. fv_requirement v = fr_id r) (fd_revisions db')) = [1..fr_revision r])"
  using revision_rule.runs_keep [where vs = "fd_revisions (fy_db pl)" and pl = pl and events = events and w = w] assms
  by (simp add: Let_def revisions_ok_def)
section \<open>Sources and targets\<close>

text \<open>The git source a product is bound to: none, or a plain remote at a full commit.\<close>

definition source_pinned :: "factory_product \<Rightarrow> bool" where
  "source_pinned r \<longleftrightarrow> fp_source_remote r = [] \<and> fp_source_revision r = [] \<or>
     fp_source_remote r \<noteq> [] \<and> \<not> remote_has_embedded_http_credentials (fp_source_remote r) \<and>
     length (fp_source_revision r) = 40 \<and> list_all is_ascii_hexdigit (fp_source_revision r)"

lemma inspected_source:
  assumes "inspect_existing_git_project w path = Ok source"
  shows "source_pinned (r\<lparr>fp_project_path := eg_path source, fp_source_remote := eg_remote source,
    fp_source_revision := eg_revision source\<rparr>)"
  using assms by (auto simp: inspect_existing_git_project_def source_pinned_def and_then_Inr_iff
      split: option.split_asm if_split_asm)

lemma source_pinned_kept:
  "source_pinned (r\<lparr>fp_mode := m\<rparr>) = source_pinned r"
  "source_pinned (r\<lparr>fp_project_path := path\<rparr>) = source_pinned r"
  "source_pinned (r\<lparr>fp_charter := x\<rparr>) = source_pinned r"
  by (simp_all add: source_pinned_def)

lemma op_sources:
  assumes op: "factory_op w env owner db db'" and ok: "list_all source_pinned (fd_products db)"
  shows "list_all source_pinned (fd_products db')"
  using op
proof cases
  case (op_attach path source p)
  then show ?thesis
    using ok inspected_source [OF op_attach(1)]
    by (auto simp: attach_factory_product_existing_project_def Let_def list_all_iff set_update_where)
next
  case (op_product ws title i)
  then obtain r where "fd_products db' = fd_products db @ [r]" "fp_source_remote r = []" "fp_source_revision r = []"
    by (auto simp: create_factory_product_draft_def insert_if_def Let_def split: if_split_asm)
  then show ?thesis
    using ok by (simp add: source_pinned_def [of r])
next
  case (op_mode p mode)
  then show ?thesis
    using ok by (auto simp: set_factory_product_mode_def insert_if_def Let_def list_all_iff set_update_where source_pinned_kept
        split: if_split_asm)
next
  case (op_path p path)
  then show ?thesis
    using ok by (auto simp: save_factory_product_project_path_def Let_def list_all_iff set_update_where source_pinned_kept)
next
  case (op_charter p content x)
  then show ?thesis
    using ok by (auto simp: create_factory_charter_draft_def insert_if_def Let_def list_all_iff set_update_where
        source_pinned_kept split: if_split_asm option.split_asm)
qed (use ok in \<open>auto simp: op_defs insert_if_def Let_def and_then_Inr_iff split: if_split_asm option.split_asm prod.split_asm
    list.split_asm\<close>)

interpretation source_rule: factory_invariant "\<lambda>db. list_all source_pinned (fd_products db)"
  by unfold_locales (rule op_sources, simp_all)


definition slug_char :: "char \<Rightarrow> bool" where
  "slug_char c \<longleftrightarrow> is_ascii_alphanumeric c \<and> lower_char c = c \<or> c = CHR ''-''"

lemma lower_char_idem: "lower_char (lower_char c) = lower_char c"
  by (auto simp: lower_char_def)

lemma slug_chars_safe: "list_all slug_char (slug_chars title)"
  by (auto simp: slug_chars_def list_all_iff to_lowercase_def slug_char_def lower_char_idem)

lemma set_trim: "set (trim_end_by q (dropWhile q xs)) \<subseteq> set xs"
  by (auto simp: trim_end_by_def dest!: set_dropWhileD)

lemma factory_project_slug_safe:
  "factory_project_slug title \<noteq> [] \<and> list_all slug_char (factory_project_slug title)"
proof -
  have "list_all slug_char (trim_end_by (\<lambda>c. c = CHR ''-'') (dropWhile (\<lambda>c. c = CHR ''-'') (slug_chars title)))"
    using slug_chars_safe [of title] set_trim [of "\<lambda>c. c = CHR ''-''" "slug_chars title"] by (auto simp: list_all_iff)
  moreover have "list_all slug_char ''factory-project''"
    by code_simp
  ultimately show ?thesis
    by (simp add: factory_project_slug_def Let_def)
qed

lemma category_known: "factory_project_category platform \<in> {''mobile'', ''web'', ''embedded'', ''ai'', ''tools''}"
  unfolding factory_project_category_def Let_def by (simp only: insert_iff simp_thms split: if_split)

text \<open>
  a scaffold stays in its place. The directory a product is scaffolded into is one of five category directories of
  the workspace root and a name of lower-case letters, digits and dashes, whatever the product's title is; it had no files,
  and no other product of the run was put there.
\<close>

theorem scaffold_confined:
  assumes "scaffold_target w made db owner p = Ok (existing, Some (category, target))"
  shows "\<exists>name. target = child_path (child_path (fo_root w) category) name \<and>
    category \<in> {''mobile'', ''web'', ''embedded'', ''ai'', ''tools''} \<and> name \<noteq> [] \<and> list_all slug_char name \<and>
    \<not> fo_nonempty w target \<and> target \<notin> set made"
proof -
  obtain title platform where made: "category = factory_project_category platform"
      "target = child_path (child_path (fo_root w) category) (factory_project_slug title)"
    and unused: "\<not> fo_nonempty w target" "target \<notin> set made"
    using assms unfolding scaffold_target_def Let_def by (auto split: option.split_asm if_split_asm)
  show ?thesis
    using made(2) category_known [of platform] factory_project_slug_safe [of title] unused
    unfolding made(1) by blast
qed

end
