(* ===== verification/Factory_Samples.thy ===== *)
theory Factory_Samples
  imports Factory_Gates
begin

text \<open>
  One product's way through the Factory on concrete requests, and the properties of the Factory theories applied to it.
\<close>

definition factory_sample_world :: factory_world where
  "factory_sample_world = \<lparr>fo_hash = \<lambda>s. s, fo_command = \<lambda>c. factory_command_name c @ factory_key c,
     fo_envelope = \<lambda>a b c. [], fo_secret = \<lambda>s. False, fo_error = \<lambda>e. ''error'', fo_audit_error = ''audit'', fo_root = ''/w'',
     fo_is_dir = \<lambda>p. True, fo_nonempty = \<lambda>p. False, fo_scaffolds = \<lambda>p. True, fo_canonical = Some, fo_has_git = \<lambda>p. True,
     fo_git = \<lambda>p args. Git_Output (Some (if args = [''rev-parse'', ''--is-inside-work-tree''] then ''true''
       else if args = [''rev-parse'', ''--show-toplevel''] then p
       else if args = [''rev-parse'', ''HEAD''] then replicate 40 CHR ''a'' else ''git@h:r''))\<rparr>"

definition factory_sample_call :: "string \<Rightarrow> factory_call" where
  "factory_sample_call tag = \<lparr>fx_env = \<lparr>fe_now = 1, fe_id = \<lambda>n. tag @ replicate n CHR ''x''\<rparr>, fx_stamp = ''t'', fx_enabled = True,
     fx_audit_ok = True, fx_idem_table = None, fx_idem_read = None, fx_begin = None, fx_commit = None\<rparr>"

definition empty_factory :: factory_plane where
  "empty_factory = \<lparr>fy_db = \<lparr>fd_control = empty_db [], fd_graphs = [], fd_nodes = [], fd_artifact_refs = [], fd_workspaces = [],
     fd_products = [], fd_plans = [], fd_sessions = [], fd_items = [], fd_charters = [], fd_requirements = [],
     fd_revisions = [], fd_requirement_links = [], fd_cycles = [], fd_runs = [], fd_changes = [], fd_assessments = [],
     fd_targets = [], fd_evidence = [], fd_dependencies = [], fd_profiles = [], fd_checks = [], fd_releases = [],
     fd_channels = [], fd_support = [], fd_support_links = []\<rparr>, fy_idem = [], fy_made = []\<rparr>"

abbreviation (input) asks :: "string \<Rightarrow> string \<Rightarrow> factory_command \<Rightarrow> factory_event" where
  "asks who tag cmd \<equiv> Asked (factory_sample_call tag) \<lparr>ac_subject = who, ac_may_mutate = True\<rparr> cmd"

abbreviation (input) factory_run :: "factory_plane \<Rightarrow> factory_event list \<Rightarrow> factory_db" where
  "factory_run pl events \<equiv> fy_db (foldl (factory_step factory_sample_world) pl events)"

definition planned_events :: "factory_event list" where
  "planned_events =
     [asks ''o'' ''w'' (Create_Workspace ''Shop'' ''key-0001''),
      asks ''o'' ''p'' (Create_Product_Draft ''w'' ''Till'' ''key-0002''),
      asks ''o'' ''l'' (Create_Plan_Draft ''p'' ''First'' ''key-0003''),
      asks ''o'' ''a'' (Approve_Plan ''l'' ''key-0004''),
      asks ''o'' ''c'' (Materialize_Planned_Cycle ''l'' ''key-0005'')]"

definition planned_factory :: factory_plane where
  "planned_factory = foldl (factory_step factory_sample_world) empty_factory planned_events"

text \<open>The first stage has its task graph, and somebody approved its execution outside the Factory.\<close>

definition approve_all :: "control_db \<Rightarrow> control_db" where
  "approve_all d = d\<lparr>cd_approvals := map (\<lambda>a. a\<lparr>ap_status := ''approved''\<rparr>) (cd_approvals d)\<rparr>"

definition staged_factory :: factory_plane where
  "staged_factory = foldl (factory_step factory_sample_world) planned_factory
     [asks ''o'' ''g'' (Materialize_Stage_Task_Graph ''c'' ''discover'' ''key-0006''), Elsewhere approve_all]"

text \<open>A product with a cycle that has passed its verify stage.\<close>

definition verified_factory :: "evidence_link list \<Rightarrow> factory_plane" where
  "verified_factory ev = empty_factory\<lparr>fy_db := (fy_db empty_factory)\<lparr>
     fd_products := [\<lparr>fp_id = ''p'', fp_workspace = ''w'', fp_owner = ''o'', fp_title = ''../Till 2'', fp_mode = ''governed'',
       fp_project_path = [], fp_source_remote = [], fp_source_revision = [], fp_status = ''draft'', fp_charter = Some ''h''\<rparr>],
     fd_cycles := [\<lparr>cy_id = ''c'', cy_product = ''p'', cy_plan = ''l'', cy_status = ''active'', cy_stage = ''verify'',
       cy_created_at = 1\<rparr>],
     fd_runs := [\<lparr>sr_id = ''s'', sr_cycle = ''c'', sr_stage = ''verify'', sr_status = ''completed'', sr_graph = None,
       sr_started_at = None, sr_completed_at = None\<rparr>],
     fd_evidence := ev\<rparr>\<rparr>"

abbreviation owner_o :: actor where
  "owner_o \<equiv> \<lparr>ac_subject = ''o'', ac_may_mutate = True\<rparr>"

abbreviation shop_command :: factory_command where
  "shop_command \<equiv> Create_Workspace ''Shop'' ''key-0001''"

lemma empty_factory_ok: "cycles_ok (fy_db empty_factory)" "owners_ok (fy_db empty_factory)" "revisions_ok (fy_db empty_factory)"
  by (simp_all add: empty_factory_def cycles_ok_def cycles_keyed_def cycle_sound_def cycle_state_def cycle_row_def
      stage_run_of_def owners_ok_def factory_keyed_def revisions_ok_def)

lemma planned_ok: "cycles_ok (fy_db planned_factory)" "owners_ok (fy_db planned_factory)" "revisions_ok (fy_db planned_factory)"
  unfolding planned_factory_def
  using cycle_rules.runs_keep [OF empty_factory_ok(1)] owner_rules.runs_keep [OF empty_factory_ok(2)]
    revision_rule.runs_keep [where vs = "[]" and pl = empty_factory] empty_factory_ok(3) by simp_all

section \<open>The runs, evaluated\<close>

text \<open>One evaluation of all of them: setting up the code equations is most of its time.\<close>

lemma sample_runs:
  "fst (dispatch_factory_command factory_sample_world (factory_sample_call ''w'') empty_factory owner_o shop_command) =
     Ok [(''workspace_id'', J_Text ''w''), (''name'', J_Text ''Shop'')]"
  "admitted factory_sample_world (factory_sample_call ''z'') owner_o shop_command"
  "map fw_id (fd_workspaces (factory_run (snd (dispatch_factory_command factory_sample_world (factory_sample_call ''w'')
     empty_factory owner_o shop_command)) [asks ''x'' ''v'' (Create_Workspace ''Other'' ''key-0002'')])) = [''w'', ''v'']"
  "(let x = cycle_state (factory_run planned_factory [asks ''o'' ''d'' (Pause_Cycle ''c'' ''key-0006''),
      asks ''o'' ''e'' (Cancel_Cycle ''c'' ''key-0007'')]) ''c''
    in fst x = Some ''cancelled'' \<and> snd x ''verify'' = Some ''cancelled'')"
  "snd (cycle_state (fy_db staged_factory) ''c'') ''discover'' = Some ''pending'' \<and>
      snd (cycle_state (fy_db (factory_step factory_sample_world staged_factory
        (asks ''o'' ''s'' (Activate_Approved_Stage ''c'' ''discover'' ''key-0007'')))) ''c'') ''discover'' = Some ''active''"
  "map fp_owner (pv_product (product_view (fy_db planned_factory) ''p'')) = [''o''] \<and>
      length (pv_cycles (product_view (fy_db planned_factory) ''p'')) = 1"
  "fd_releases (fy_db (factory_step factory_sample_world (verified_factory [])
      (asks ''o'' ''r'' (Create_Release_Draft ''p'' ''b1'' ''key-0009'')))) =
      [\<lparr>rl_id = ''r'', rl_product = ''p'', rl_status = ''draft'', rl_build = ''b1''\<rparr>]"
  "map fr_id (fd_requirements (factory_run (verified_factory [])
      [asks ''o'' ''q'' (Create_Requirement_Draft ''p'' ''login'' ''Users log in'' ''key-0006'')])) = [''q'']"
  "map fp_source_remote (fd_products (factory_run (verified_factory [])
      [asks ''o'' ''v'' (Attach_Existing_Project ''p'' ''/home/o/till'' ''key-0006'')])) = [''git@h:r'']"
proof -
  have "(fst (dispatch_factory_command factory_sample_world (factory_sample_call ''w'') empty_factory owner_o shop_command) =
     Ok [(''workspace_id'', J_Text ''w''), (''name'', J_Text ''Shop'')]) \<and>
    (admitted factory_sample_world (factory_sample_call ''z'') owner_o shop_command) \<and>
    (map fw_id (fd_workspaces (factory_run (snd (dispatch_factory_command factory_sample_world (factory_sample_call ''w'')
     empty_factory owner_o shop_command)) [asks ''x'' ''v'' (Create_Workspace ''Other'' ''key-0002'')])) = [''w'', ''v'']) \<and>
    ((let x = cycle_state (factory_run planned_factory [asks ''o'' ''d'' (Pause_Cycle ''c'' ''key-0006''),
      asks ''o'' ''e'' (Cancel_Cycle ''c'' ''key-0007'')]) ''c''
    in fst x = Some ''cancelled'' \<and> snd x ''verify'' = Some ''cancelled'')) \<and>
    (snd (cycle_state (fy_db staged_factory) ''c'') ''discover'' = Some ''pending'' \<and>
      snd (cycle_state (fy_db (factory_step factory_sample_world staged_factory
        (asks ''o'' ''s'' (Activate_Approved_Stage ''c'' ''discover'' ''key-0007'')))) ''c'') ''discover'' = Some ''active'') \<and>
    (map fp_owner (pv_product (product_view (fy_db planned_factory) ''p'')) = [''o''] \<and>
      length (pv_cycles (product_view (fy_db planned_factory) ''p'')) = 1) \<and>
    (fd_releases (fy_db (factory_step factory_sample_world (verified_factory [])
      (asks ''o'' ''r'' (Create_Release_Draft ''p'' ''b1'' ''key-0009'')))) =
      [\<lparr>rl_id = ''r'', rl_product = ''p'', rl_status = ''draft'', rl_build = ''b1''\<rparr>]) \<and>
    (map fr_id (fd_requirements (factory_run (verified_factory [])
      [asks ''o'' ''q'' (Create_Requirement_Draft ''p'' ''login'' ''Users log in'' ''key-0006'')])) = [''q'']) \<and>
    (map fp_source_remote (fd_products (factory_run (verified_factory [])
      [asks ''o'' ''v'' (Attach_Existing_Project ''p'' ''/home/o/till'' ''key-0006'')])) = [''git@h:r''])"
    by code_simp
  then show "fst (dispatch_factory_command factory_sample_world (factory_sample_call ''w'') empty_factory owner_o shop_command) =
     Ok [(''workspace_id'', J_Text ''w''), (''name'', J_Text ''Shop'')]"
    "admitted factory_sample_world (factory_sample_call ''z'') owner_o shop_command"
    "map fw_id (fd_workspaces (factory_run (snd (dispatch_factory_command factory_sample_world (factory_sample_call ''w'')
     empty_factory owner_o shop_command)) [asks ''x'' ''v'' (Create_Workspace ''Other'' ''key-0002'')])) = [''w'', ''v'']"
    "(let x = cycle_state (factory_run planned_factory [asks ''o'' ''d'' (Pause_Cycle ''c'' ''key-0006''),
      asks ''o'' ''e'' (Cancel_Cycle ''c'' ''key-0007'')]) ''c''
    in fst x = Some ''cancelled'' \<and> snd x ''verify'' = Some ''cancelled'')"
    "snd (cycle_state (fy_db staged_factory) ''c'') ''discover'' = Some ''pending'' \<and>
      snd (cycle_state (fy_db (factory_step factory_sample_world staged_factory
        (asks ''o'' ''s'' (Activate_Approved_Stage ''c'' ''discover'' ''key-0007'')))) ''c'') ''discover'' = Some ''active''"
    "map fp_owner (pv_product (product_view (fy_db planned_factory) ''p'')) = [''o''] \<and>
      length (pv_cycles (product_view (fy_db planned_factory) ''p'')) = 1"
    "fd_releases (fy_db (factory_step factory_sample_world (verified_factory [])
      (asks ''o'' ''r'' (Create_Release_Draft ''p'' ''b1'' ''key-0009'')))) =
      [\<lparr>rl_id = ''r'', rl_product = ''p'', rl_status = ''draft'', rl_build = ''b1''\<rparr>]"
    "map fr_id (fd_requirements (factory_run (verified_factory [])
      [asks ''o'' ''q'' (Create_Requirement_Draft ''p'' ''login'' ''Users log in'' ''key-0006'')])) = [''q'']"
    "map fp_source_remote (fd_products (factory_run (verified_factory [])
      [asks ''o'' ''v'' (Attach_Existing_Project ''p'' ''/home/o/till'' ''key-0006'')])) = [''git@h:r'']"
    by - (elim conjE, (intro conjI)?; assumption)+
qed

section \<open>The properties on these runs\<close>


theorem cycle_lifecycle_witness:
  "let after_run = cycle_state (factory_run planned_factory [asks ''o'' ''d'' (Pause_Cycle ''c'' ''key-0006''),
      asks ''o'' ''e'' (Cancel_Cycle ''c'' ''key-0007'')]) ''c''
   in cycle_next\<^sup>*\<^sup>* (cycle_state (fy_db planned_factory) ''c'') after_run \<and> cycle_sound after_run \<and>
     fst after_run = Some ''cancelled'' \<and> snd after_run ''verify'' = Some ''cancelled''"
proof -
  have "let x = cycle_state (factory_run planned_factory [asks ''o'' ''d'' (Pause_Cycle ''c'' ''key-0006''),
      asks ''o'' ''e'' (Cancel_Cycle ''c'' ''key-0007'')]) ''c''
    in fst x = Some ''cancelled'' \<and> snd x ''verify'' = Some ''cancelled''"
    by (rule sample_runs(4))
  then show ?thesis
    using cycle_lifecycle [OF planned_ok(1), of "''c''" factory_sample_world
        "[asks ''o'' ''d'' (Pause_Cycle ''c'' ''key-0006''), asks ''o'' ''e'' (Cancel_Cycle ''c'' ''key-0007'')]"]
    by (simp add: Let_def)
qed


theorem owner_isolation_witness:
  "product_view (factory_run planned_factory [asks ''x'' ''d'' (Cancel_Cycle ''c'' ''key-0006''),
     asks ''x'' ''e'' (Set_Product_Mode ''p'' Quick ''key-0007'')]) ''p'' = product_view (fy_db planned_factory) ''p'' \<and>
   length (pv_cycles (product_view (fy_db planned_factory) ''p'')) = 1"
proof -
  have "map fp_owner (pv_product (product_view (fy_db planned_factory) ''p'')) = [''o''] \<and>
      length (pv_cycles (product_view (fy_db planned_factory) ''p'')) = 1"
    by (rule sample_runs(6))
  moreover from this have "owned_product (fy_db planned_factory) ''p'' ''o''"
    by (auto simp: owned_product_def)
  ultimately show ?thesis
    using owner_isolation [OF planned_ok(2), of "''p''" "''o''" "[asks ''x'' ''d'' (Cancel_Cycle ''c'' ''key-0006''),
      asks ''x'' ''e'' (Set_Product_Mode ''p'' Quick ''key-0007'')]" factory_sample_world] by simp
qed

theorem stale_evidence_final_witness:
  "factory_release_ready (factory_run (verified_factory [\<lparr>el_id = ''e'', el_product = ''p'', el_subject_kind = ''stage_run'',
     el_subject = ''s'', el_artifact = None, el_ref = Some ''r'', el_storage = ''reference'', el_staleness = ''stale''\<rparr>])
     [asks ''o'' ''v'' (Record_Stage_Evidence ''c'' ''verify'' ''new'' ''key-0008'')]) ''o'' ''p'' \<noteq> Some True"
  (is "factory_release_ready (factory_run ?pl ?events) _ _ \<noteq> _")
proof -
  have "''p'' \<in> stale_products (fy_db ?pl)"
    by code_simp
  then show ?thesis
    using stale_evidence_final [of "''p''" ?pl factory_sample_world ?events "''o''"] by (simp add: Let_def)
qed


lemma verified_revisions: "revisions_ok (fy_db (verified_factory []))"
  by (simp add: verified_factory_def empty_factory_def revisions_ok_def)

theorem requirement_history_witness:
  "let db' = factory_run (verified_factory []) [asks ''o'' ''q'' (Create_Requirement_Draft ''p'' ''login'' ''Users log in'' ''key-0006'')]
   in map fr_id (fd_requirements db') = [''q''] \<and>
     (\<forall>r\<in>set (fd_requirements db').
        map fv_revision (filter (\<lambda>v. fv_requirement v = fr_id r) (fd_revisions db')) = [1..fr_revision r])"
proof -
  let ?e = "asks ''o'' ''q'' (Create_Requirement_Draft ''p'' ''login'' ''Users log in'' ''key-0006'')"
  have "map fr_id (fd_requirements (factory_run (verified_factory []) [?e])) = [''q'']"
    by (rule sample_runs(8))
  then show ?thesis
    using requirement_history [OF verified_revisions, of factory_sample_world "[?e]"] by (simp add: Let_def)
qed


theorem scaffold_confined_witness:
  "\<exists>name. ''/w/tools/till-2'' = child_path (child_path ''/w'' ''tools'') name \<and> list_all slug_char name"
proof -
  have "scaffold_target factory_sample_world [] (fy_db (verified_factory [])) ''o'' ''p'' = Ok ([], Some (''tools'', ''/w/tools/till-2''))"
    by code_simp
  from scaffold_confined [OF this] show ?thesis
    by (auto simp: factory_sample_world_def)
qed

end
