(* ===== verification/Utf8.thy ===== *)
theory Utf8
  imports Prelude
begin

text \<open>
  UTF-8 as Rust's \<open>str\<close> uses it: the encoding of a Unicode scalar value, the strict decoder of
  \<open>String::from_utf8\<close> (no overlong forms, no surrogates, nothing above U+10FFFF), and their
  round trip. Bytes are numbers below 256.
\<close>

type_synonym uchar = nat
type_synonym utext = "uchar list"

definition scalar_value :: "uchar \<Rightarrow> bool" where
  "scalar_value c \<longleftrightarrow> c < 0xD800 \<or> (0xE000 \<le> c \<and> c < 0x110000)"

definition encode_char :: "uchar \<Rightarrow> nat list" where
  "encode_char c =
     (if c < 0x80 then [c]
      else if c < 0x800 then [0xC0 + c div 64, 0x80 + c mod 64]
      else if c < 0x10000 then [0xE0 + c div 4096, 0x80 + c div 64 mod 64, 0x80 + c mod 64]
      else [0xF0 + c div 262144, 0x80 + c div 4096 mod 64, 0x80 + c div 64 mod 64, 0x80 + c mod 64])"

definition encode :: "utext \<Rightarrow> nat list" where
  "encode s = concat (map encode_char s)"

definition continuation :: "nat \<Rightarrow> bool" where
  "continuation b \<longleftrightarrow> 0x80 \<le> b \<and> b < 0xC0"

fun decode :: "nat list \<Rightarrow> utext option" where
  "decode [] = Some []"
| "decode (a # bs) =
     (if a < 0x80 then map_option (Cons a) (decode bs)
      else if a < 0xC0 then None
      else if a < 0xE0 then
        (case bs of
           b # rest \<Rightarrow>
             (let c = (a - 0xC0) * 64 + (b - 0x80)
              in if continuation b \<and> 0x80 \<le> c then map_option (Cons c) (decode rest) else None)
         | [] \<Rightarrow> None)
      else if a < 0xF0 then
        (case bs of
           b # b' # rest \<Rightarrow>
             (let c = (a - 0xE0) * 4096 + (b - 0x80) * 64 + (b' - 0x80)
              in if continuation b \<and> continuation b' \<and> 0x800 \<le> c \<and> scalar_value c
                 then map_option (Cons c) (decode rest) else None)
         | _ \<Rightarrow> None)
      else
        (case bs of
           b # b' # b'' # rest \<Rightarrow>
             (let c = (a - 0xF0) * 262144 + (b - 0x80) * 4096 + (b' - 0x80) * 64 + (b'' - 0x80)
              in if continuation b \<and> continuation b' \<and> continuation b'' \<and> 0x10000 \<le> c \<and> scalar_value c
                 then map_option (Cons c) (decode rest) else None)
         | _ \<Rightarrow> None))"

lemma encode_simps [simp]:
  "encode [] = []" "encode (c # s) = encode_char c @ encode s" "encode (s @ t) = encode s @ encode t"
  by (simp_all add: encode_def)

lemma continuation_mod [simp]: "continuation (128 + n mod 64)"
  by (simp add: continuation_def)

text \<open>The base-64 digits of a number, abstractly: \<open>c\<close> is \<open>q\<close> followed by \<open>r\<close> and so on.\<close>

lemma base64_digits:
  obtains q r where "c div 64 = q" "c mod 64 = r" "c = 64 * q + r" "r < (64 :: nat)"
  by (rule that [of "c div 64" "c mod 64"]) simp_all

lemma div_64_64: "c div 4096 = c div 64 div (64 :: nat)" "c div 262144 = c div 64 div 64 div (64 :: nat)"
  by (simp_all add: div_mult2_eq [symmetric])

lemma decode_two:
  assumes "2 \<le> q" and "q < 32" and "r < 64"
  shows "decode ((192 + q) # (128 + r) # bs) = map_option (Cons (64 * q + r)) (decode bs)"
  using assms by (simp add: continuation_def mult.commute)

lemma decode_three:
  assumes "q < 16" and "r < 64" and "t < 64" and "0x800 \<le> 4096 * q + 64 * r + t"
    and "scalar_value (4096 * q + 64 * r + t)"
  shows "decode ((224 + q) # (128 + r) # (128 + t) # bs) =
    map_option (Cons (4096 * q + 64 * r + t)) (decode bs)"
  using assms by (simp add: continuation_def mult.commute)

lemma decode_four:
  assumes "r < 64" and "t < 64" and "u < 64"
    and "0x10000 \<le> 262144 * q + 4096 * r + 64 * t + u"
    and "scalar_value (262144 * q + 4096 * r + 64 * t + u)"
  shows "decode ((240 + q) # (128 + r) # (128 + t) # (128 + u) # bs) =
    map_option (Cons (262144 * q + 4096 * r + 64 * t + u)) (decode bs)"
  using assms by (simp add: continuation_def mult.commute)

lemma decode_encode_char:
  assumes "scalar_value c"
  shows "decode (encode_char c @ bs) = map_option (Cons c) (decode bs)"
proof -
  obtain q1 r1 where 1: "c div 64 = q1" "c mod 64 = r1" "c = 64 * q1 + r1" "r1 < 64"
    by (rule base64_digits)
  obtain q2 r2 where 2: "q1 div 64 = q2" "q1 mod 64 = r2" "q1 = 64 * q2 + r2" "r2 < 64"
    by (rule base64_digits)
  obtain q3 r3 where 3: "q2 div 64 = q3" "q2 mod 64 = r3" "q2 = 64 * q3 + r3" "r3 < 64"
    by (rule base64_digits)
  have c3: "c = 4096 * q2 + 64 * r2 + r1" and c4: "c = 262144 * q3 + 4096 * r3 + 64 * r2 + r1"
    using 1(3) 2(3) 3(3) by linarith+
  have d: "c div 4096 = q2" "c div 262144 = q3"
    by (simp_all only: div_64_64 1(1) 2(1) 3(1))
  consider (one) "c < 0x80" | (two) "0x80 \<le> c" "c < 0x800" | (three) "0x800 \<le> c" "c < 0x10000"
    | (four) "0x10000 \<le> c"
    by linarith
  then show ?thesis
  proof cases
    case one
    then show ?thesis
      by (simp add: encode_char_def)
  next
    case two
    then have "encode_char c = [192 + q1, 128 + r1]"
      using 1(1,2) by (simp add: encode_char_def)
    moreover have "2 \<le> q1" and "q1 < 32"
      using two 1(3,4) by linarith+
    moreover note two
    ultimately
    show ?thesis
      using decode_two [of q1 r1 bs] 1(3,4) by simp
  next
    case three
    then have "encode_char c = [224 + q2, 128 + r2, 128 + r1]"
      using 1(1,2) 2(2) d(1) by (simp add: encode_char_def)
    moreover have "q2 < 16"
      using three c3 by linarith
    ultimately show ?thesis
      using decode_three [of q2 r2 r1 bs] 1(4) 2(4) c3 three assms by simp
  next
    case four
    then have "encode_char c = [240 + q3, 128 + r3, 128 + r2, 128 + r1]"
      using 1(1,2) 2(2) 3(2) d by (simp add: encode_char_def)
    then show ?thesis
      using decode_four [of r3 r2 r1 q3 bs] 1(4) 2(4) 3(4) c4 four assms by simp
  qed
qed

text \<open>
  Decoding what encoding writes gives the text back, for every list of Unicode scalar values.\<close>

theorem decode_encode:
  assumes "list_all scalar_value s"
  shows "decode (encode s) = Some s"
  using assms by (induction s) (simp_all add: decode_encode_char)

theorem decode_encode_witness:
  "decode (encode [97, 233, 0x20AC, 0x1F600]) = Some [97, 233, 0x20AC, 0x1F600]"
  by (rule decode_encode) (simp add: scalar_value_def)

lemma encode_inj:
  "list_all scalar_value s \<Longrightarrow> list_all scalar_value t \<Longrightarrow> encode s = encode t \<Longrightarrow> s = t"
  using decode_encode option.inject by metis

section \<open>Lengths\<close>

abbreviation line_feed :: uchar where
  "line_feed \<equiv> 10"

definition len_utf8 :: "uchar \<Rightarrow> nat" where
  "len_utf8 c = (if c < 128 then 1 else if c < 2048 then 2 else if c < 65536 then 3 else 4)"

definition len_utf16 :: "uchar \<Rightarrow> nat" where
  "len_utf16 c = (if c < 65536 then 1 else 2)"

definition byte_len :: "utext \<Rightarrow> nat" where
  "byte_len s = sum_list (map len_utf8 s)"

definition utf16_len :: "utext \<Rightarrow> nat" where
  "utf16_len s = sum_list (map len_utf16 s)"

lemma len_pos [simp]: "0 < len_utf8 c" "0 < len_utf16 c"
  by (simp_all add: len_utf8_def len_utf16_def)

lemma text_len_simps [simp]:
  "byte_len [] = 0" "byte_len (c # s) = len_utf8 c + byte_len s" "byte_len (s @ t) = byte_len s + byte_len t"
  "utf16_len [] = 0" "utf16_len (c # s) = len_utf16 c + utf16_len s" "utf16_len (s @ t) = utf16_len s + utf16_len t"
  by (simp_all add: byte_len_def utf16_len_def)

lemma length_encode: "length (encode s) = byte_len s"
  by (induction s) (simp_all add: encode_char_def len_utf8_def)

section \<open>Decoding is strict\<close>

lemma encode_two:
  assumes "2 \<le> q" and "q < 32" and "r < 64"
  shows "encode_char (64 * q + r) = [192 + q, 128 + r]"
proof -
  have "(64 * q + r) div 64 = q" "(64 * q + r) mod 64 = r"
    using assms(3) by simp_all
  then show ?thesis
    using assms by (simp add: encode_char_def)
qed

lemma last_digit: "t < 64 \<Longrightarrow> (64 * n + t) div 64 = (n :: nat)" "t < 64 \<Longrightarrow> (64 * n + t) mod 64 = (t :: nat)"
  by simp_all

lemma encode_three:
  assumes "q < 16" and "r < 64" and "t < 64" and "0x800 \<le> 4096 * q + 64 * r + t"
  shows "encode_char (4096 * q + 64 * r + t) = [224 + q, 128 + r, 128 + t]"
proof -
  let ?c = "4096 * q + 64 * r + t"
  have c: "?c = 64 * (64 * q + r) + t"
    by simp
  have d: "?c div 64 = 64 * q + r" "?c mod 64 = t"
    by (subst c, rule last_digit, rule assms)+
  then have "?c div 4096 = q" "?c div 64 mod 64 = r"
    using assms(2) last_digit [of r q] by (simp_all only: div_64_64)
  then show ?thesis
    using assms(1,4) d(2) by (simp add: encode_char_def)
qed

lemma encode_four:
  assumes "r < 64" and "t < 64" and "u < 64" and "0x10000 \<le> 262144 * q + 4096 * r + 64 * t + u"
  shows "encode_char (262144 * q + 4096 * r + 64 * t + u) = [240 + q, 128 + r, 128 + t, 128 + u]"
proof -
  let ?c = "262144 * q + 4096 * r + 64 * t + u"
  have c: "?c = 64 * (64 * (64 * q + r) + t) + u"
    by simp
  have d: "?c div 64 = 64 * (64 * q + r) + t" "?c mod 64 = u"
    by (subst c, rule last_digit, rule assms)+
  then have d2: "?c div 4096 = 64 * q + r" "?c div 64 mod 64 = t"
    using assms(2) last_digit [of t "64 * q + r"] by (simp_all only: div_64_64)
  then have "?c div 262144 = q" "?c div 4096 mod 64 = r"
    using d(1) assms(1,2) last_digit [of r q] last_digit [of t "64 * q + r"] by (simp_all only: div_64_64)
  then show ?thesis
    using assms(4) d(2) d2(2) by (simp add: encode_char_def)
qed

lemma continuation_digit: "continuation b \<Longrightarrow> \<exists>r<64. b = 128 + r"
  by (intro exI [of _ "b - 128"]) (auto simp: continuation_def)

text \<open>A decoded sequence starts with the encoding of the first character.\<close>

lemma decode_step:
  assumes "decode (a # bs) = Some s"
  shows "\<exists>c s' rest. s = c # s' \<and> a # bs = encode_char c @ rest \<and> decode rest = Some s'"
proof -
  consider (one) "a < 0x80" | (two) q where "a = 192 + q" "q < 32" | (three) q where "a = 224 + q" "q < 16"
    | (four) q where "a = 240 + q"
  proof (cases "a < 0x80 \<or> 0xC0 \<le> a")
    case True
    then show ?thesis
      using that(1) that(2) [of "a - 192"] that(3) [of "a - 224"] that(4) [of "a - 240"] by linarith
  next
    case False
    then show ?thesis
      using assms by simp
  qed
  then show ?thesis
  proof cases
    case one
    then obtain s' where "decode bs = Some s'" "s = a # s'"
      using assms by auto
    then show ?thesis
      using one by (intro exI [of _ a] exI [of _ s'] exI [of _ bs]) (simp add: encode_char_def)
  next
    case two
    then obtain b rest s' where b: "bs = b # rest" "continuation b" "0x80 \<le> q * 64 + (b - 0x80)"
        "decode rest = Some s'" "s = (q * 64 + (b - 0x80)) # s'"
      using assms by (cases bs) (auto simp: Let_def split: if_splits)
    obtain r where r: "r < 64" "b = 128 + r"
      using continuation_digit b(2) by blast
    have "2 \<le> q"
      using b(3) r by linarith
    then show ?thesis
      using encode_two [of q r] two b r by (intro exI [of _ "64 * q + r"] exI [of _ s'] exI [of _ rest]) (simp add: mult.commute)
  next
    case three
    then obtain b b' rest s' where b: "bs = b # b' # rest" "continuation b" "continuation b'"
        "0x800 \<le> q * 4096 + (b - 0x80) * 64 + (b' - 0x80)"
        "decode rest = Some s'" "s = (q * 4096 + (b - 0x80) * 64 + (b' - 0x80)) # s'"
      using assms by (cases bs; cases "tl bs") (auto simp: Let_def split: if_splits)
    obtain r t where r: "r < 64" "b = 128 + r" "t < 64" "b' = 128 + t"
      using continuation_digit b(2,3) by metis
    then show ?thesis
      using encode_three [of q r t] three b
      by (intro exI [of _ "4096 * q + 64 * r + t"] exI [of _ s'] exI [of _ rest]) (simp add: mult.commute)
  next
    case four
    then obtain b b' b'' rest s' where b: "bs = b # b' # b'' # rest" "continuation b" "continuation b'" "continuation b''"
        "0x10000 \<le> q * 262144 + (b - 0x80) * 4096 + (b' - 0x80) * 64 + (b'' - 0x80)"
        "decode rest = Some s'" "s = (q * 262144 + (b - 0x80) * 4096 + (b' - 0x80) * 64 + (b'' - 0x80)) # s'"
      using assms by (cases bs; cases "tl bs"; cases "tl (tl bs)") (auto simp: Let_def split: if_splits)
    obtain r t u where r: "r < 64" "b = 128 + r" "t < 64" "b' = 128 + t" "u < 64" "b'' = 128 + u"
      using continuation_digit b(2,3,4) by metis
    then show ?thesis
      using encode_four [of r t u q] four b
      by (intro exI [of _ "262144 * q + 4096 * r + 64 * t + u"] exI [of _ s'] exI [of _ rest]) (simp add: mult.commute)
  qed
qed

text \<open>Every byte sequence that decodes is the encoding of its text.\<close>

lemma encode_decode: "decode bs = Some s \<Longrightarrow> encode s = bs"
proof (induction s arbitrary: bs)
  case Nil
  then show ?case
    using decode_step by (cases bs) fastforce+
next
  case (Cons c s)
  then obtain a bs' where "bs = a # bs'"
    by (cases bs) auto
  then show ?case
    using decode_step [of a bs' "c # s"] Cons by auto
qed

end
