(* ===== verification/Project_Files.thy ===== *)
theory Project_Files
  imports App_Error Utf8
begin

text \<open>
  The file operations of an opened project (\<open>rwk-core/src/project.rs\<close>, \<open>rwk-core/src/documents.rs\<close>): path
  and name validation, reading and saving a document with revision checks, creating, renaming
  and deleting entries. The project's directory tree is state: a map from the components of a
  path to a file's bytes or a folder; links are not modelled. The revision (SHA-256) is a parameter.
  An error is reduced to its code. \<open>io\<close> says which system calls of a save fail, and
  \<open>meanwhile\<close> is what other processes do to the tree while the save writes its temporary file.
\<close>

section \<open>Documents and the tree\<close>

definition max_file_bytes :: nat where
  "max_file_bytes = 2 * 1024 * 1024"

record document =
  dc_project :: string
  dc_path :: utext
  dc_content :: utext
  dc_revision :: string

datatype entry = File "nat list" | Folder

type_synonym tree = "utext list \<Rightarrow> entry option"

record project =
  pr_id :: string
  pr_tree :: tree

abbreviation ustr :: "string \<Rightarrow> utext" where
  "ustr s \<equiv> map of_char s"

abbreviation slash :: uchar where
  "slash \<equiv> 47"

abbreviation backslash :: uchar where
  "backslash \<equiv> 92"

section \<open>Paths and names\<close>

definition max_relative_path_bytes :: nat where
  "max_relative_path_bytes = 4096"

definition validate_relative_path :: "utext \<Rightarrow> bool \<Rightarrow> error_code + unit" where
  "validate_relative_path relative allow_empty =
     (if relative = [] then (if allow_empty then Ok () else Err Invalid_Input)
      else if byte_len relative \<le> max_relative_path_bytes \<and>
              \<not> (0 \<in> set relative \<or> backslash \<in> set relative) \<and>
              list_all (\<lambda>part. part \<noteq> [] \<and> part \<noteq> ustr ''.'' \<and> part \<noteq> ustr ''..'') (split_on slash relative)
           then Ok () else Err Invalid_Input)"

definition max_entry_name_bytes :: nat where
  "max_entry_name_bytes = 255"

definition skipped_directories :: "utext list" where
  "skipped_directories =
     map ustr [''.git'', ''node_modules'', ''target'', ''.venv'', ''venv'', ''.cache'', ''.pnpm'']"

text \<open>Rust's \<open>char::is_whitespace\<close> and \<open>char::is_control\<close>.\<close>

definition unicode_space :: "uchar \<Rightarrow> bool" where
  "unicode_space c \<longleftrightarrow>
     (9 \<le> c \<and> c \<le> 13) \<or> c = 0x20 \<or> c = 0x85 \<or> c = 0xA0 \<or> c = 0x1680 \<or> (0x2000 \<le> c \<and> c \<le> 0x200A) \<or>
     c = 0x2028 \<or> c = 0x2029 \<or> c = 0x202F \<or> c = 0x205F \<or> c = 0x3000"

definition is_control :: "uchar \<Rightarrow> bool" where
  "is_control c \<longleftrightarrow> c < 0x20 \<or> (0x7F \<le> c \<and> c < 0xA0)"

definition utrim :: "utext \<Rightarrow> utext" where
  "utrim s = rev (dropWhile unicode_space (rev (dropWhile unicode_space s)))"

definition validate_entry_name :: "utext \<Rightarrow> error_code + unit" where
  "validate_entry_name name =
     (if name = [] \<or> utrim name \<noteq> name then Err Invalid_Input
      else if name = ustr ''.'' \<or> name = ustr ''..'' \<or> slash \<in> set name \<or> backslash \<in> set name then Err Invalid_Input
      else if list_ex is_control name then Err Invalid_Input
      else if max_entry_name_bytes < byte_len name then Err Invalid_Input
      else if starts_with name (ustr ''.raios-save-'') \<or> name \<in> set skipped_directories then Err Invalid_Input
      else Ok ())"

text \<open>The components of a path; the empty path is the project root.\<close>

definition components :: "utext \<Rightarrow> utext list" where
  "components path = (if path = [] then [] else split_on slash path)"

definition split_path :: "utext \<Rightarrow> utext \<times> utext" where
  "split_path path =
     (let name = rev (takeWhile (\<lambda>c. c \<noteq> slash) (rev path));
          rest = dropWhile (\<lambda>c. c \<noteq> slash) (rev path)
      in (rev (tl rest), name))"

section \<open>Reading\<close>

text \<open>Looking an entry up: a file on the way is no directory, anything else missing is not found.\<close>

definition lookup_entry :: "tree \<Rightarrow> utext list \<Rightarrow> error_code + entry" where
  "lookup_entry t path =
     (if path = [] then Ok Folder
      else case t path of
             Some e \<Rightarrow> Ok e
           | None \<Rightarrow>
               if list_ex (\<lambda>k. case t (take k path) of Some (File b) \<Rightarrow> True | _ \<Rightarrow> False) [1..<length path]
               then Err Invalid_Input else Err Not_Found)"

definition read_bounded :: "nat list \<Rightarrow> error_code + nat list" where
  "read_bounded bytes = (if max_file_bytes < length bytes then Err Invalid_Input else Ok bytes)"

definition read_document :: "(nat list \<Rightarrow> string) \<Rightarrow> project \<Rightarrow> utext \<Rightarrow> error_code + document" where
  "read_document revision_of pr relative =
     and_then (validate_relative_path relative False) (\<lambda>_.
     and_then (lookup_entry (pr_tree pr) (components relative)) (\<lambda>e.
       case e of
         Folder \<Rightarrow> Err Invalid_Input
       | File stored \<Rightarrow>
           and_then (read_bounded stored) (\<lambda>bytes.
             case decode bytes of
               None \<Rightarrow> Err Invalid_Input
             | Some content \<Rightarrow>
                 Ok \<lparr>dc_project = pr_id pr, dc_path = relative, dc_content = content,
                     dc_revision = revision_of bytes\<rparr>)))"

section \<open>Saving\<close>

datatype save_step = Step_Create | Step_Permissions | Step_Write | Step_Sync | Step_Rename

definition replace_file ::
  "(save_step \<Rightarrow> error_code option) \<Rightarrow> (tree \<Rightarrow> tree) \<Rightarrow> (nat list \<Rightarrow> string) \<Rightarrow> utext list \<Rightarrow> utext list \<Rightarrow>
   document \<Rightarrow> tree \<Rightarrow> (error_code + unit) \<times> tree" where
  "replace_file io meanwhile revision_of temporary name doc t =
     (case io Step_Create of
        Some e \<Rightarrow> (Err e, t)
      | None \<Rightarrow>
          if t temporary \<noteq> None then (Err Io, t)
          else let t1 = t(temporary \<mapsto> File [])
               in case io Step_Permissions of
                    Some e \<Rightarrow> (Err e, t1)
                  | None \<Rightarrow>
                      (case io Step_Write of
                         Some e \<Rightarrow> (Err e, t1)
                       | None \<Rightarrow>
                           let t2 = t1(temporary \<mapsto> File (encode (dc_content doc)))
                           in case io Step_Sync of
                                Some e \<Rightarrow> (Err e, t2)
                              | None \<Rightarrow>
                                  let t3 = meanwhile t2
                                  in case lookup_entry t3 name of
                                       Inl e \<Rightarrow> (Err e, t3)
                                     | Inr Folder \<Rightarrow> (Err Io, t3)
                                     | Inr (File stored) \<Rightarrow>
                                         (case read_bounded stored of
                                            Inl e \<Rightarrow> (Err e, t3)
                                          | Inr bytes \<Rightarrow>
                                              if revision_of bytes \<noteq> dc_revision doc then (Err Conflict, t3)
                                              else case io Step_Rename of
                                                     Some e \<Rightarrow> (Err e, t3)
                                                   | None \<Rightarrow>
                                                       (case t3 temporary of
                                                          None \<Rightarrow> (Err Io, t3)
                                                        | Some e \<Rightarrow> (Ok (), t3(temporary := None, name \<mapsto> e))))))"

definition temporary_path :: "string \<Rightarrow> utext list \<Rightarrow> utext list" where
  "temporary_path uuid path = butlast path @ [ustr (''.raios-save-'' @ uuid)]"

definition save_document ::
  "(save_step \<Rightarrow> error_code option) \<Rightarrow> (tree \<Rightarrow> tree) \<Rightarrow> (nat list \<Rightarrow> string) \<Rightarrow> string \<Rightarrow>
   document \<Rightarrow> project \<Rightarrow> (error_code + document) \<times> project" where
  "save_document io meanwhile revision_of uuid doc pr =
     (if dc_project doc \<noteq> pr_id pr then (Err Invalid_Input, pr)
      else case validate_relative_path (dc_path doc) False of
             Inl e \<Rightarrow> (Err e, pr)
           | Inr _ \<Rightarrow>
               if max_file_bytes < byte_len (dc_content doc) then (Err Invalid_Input, pr)
               else let path = components (dc_path doc)
                    in case lookup_entry (pr_tree pr) path of
                         Inl e \<Rightarrow> (Err e, pr)
                       | Inr Folder \<Rightarrow> (Err Invalid_Input, pr)
                       | Inr (File stored) \<Rightarrow>
                           (case read_bounded stored of
                              Inl e \<Rightarrow> (Err e, pr)
                            | Inr bytes \<Rightarrow>
                                if revision_of bytes \<noteq> dc_revision doc then (Err Conflict, pr)
                                else let temporary = temporary_path uuid path
                                     in case replace_file io meanwhile revision_of temporary path doc (pr_tree pr) of
                                          (Inl e, t) \<Rightarrow> (Err e, pr\<lparr>pr_tree := t(temporary := None)\<rparr>)
                                        | (Inr _, t) \<Rightarrow>
                                            (Ok (doc\<lparr>dc_revision := revision_of (encode (dc_content doc))\<rparr>),
                                             pr\<lparr>pr_tree := t\<rparr>)))"

section \<open>Creating, renaming and deleting entries\<close>

definition open_parent :: "tree \<Rightarrow> utext \<Rightarrow> error_code + utext list" where
  "open_parent t parent =
     and_then (validate_relative_path parent True) (\<lambda>_.
     and_then (lookup_entry t (components parent)) (\<lambda>e.
       case e of Folder \<Rightarrow> Ok (components parent) | File b \<Rightarrow> Err Invalid_Input))"

definition entry_in :: "tree \<Rightarrow> utext \<Rightarrow> utext \<Rightarrow> error_code + utext list \<times> utext" where
  "entry_in t parent name =
     and_then (validate_entry_name name) (\<lambda>_.
     and_then (open_parent t parent) (\<lambda>dir.
       Ok (dir, if parent = [] then name else parent @ [slash] @ name)))"

definition create_entry :: "entry \<Rightarrow> utext \<Rightarrow> utext \<Rightarrow> tree \<Rightarrow> (error_code + utext) \<times> tree" where
  "create_entry e parent name t =
     (case entry_in t parent name of
        Inl err \<Rightarrow> (Err err, t)
      | Inr (dir, path) \<Rightarrow>
          if t (dir @ [name]) \<noteq> None then (Err Conflict, t) else (Ok path, t(dir @ [name] \<mapsto> e)))"

definition create_file :: "utext \<Rightarrow> utext \<Rightarrow> tree \<Rightarrow> (error_code + utext) \<times> tree" where
  "create_file parent name t = create_entry (File []) parent name t"

definition create_folder :: "utext \<Rightarrow> utext \<Rightarrow> tree \<Rightarrow> (error_code + utext) \<times> tree" where
  "create_folder parent name t = create_entry Folder parent name t"

text \<open>\<open>rename\<close> of a file or of a folder with everything below it.\<close>

definition move_subtree :: "utext list \<Rightarrow> utext list \<Rightarrow> tree \<Rightarrow> tree" where
  "move_subtree old new t =
     (\<lambda>p. if starts_with p new then t (old @ drop (length new) p)
          else if starts_with p old then None
          else t p)"

definition rename_entry :: "utext \<Rightarrow> utext \<Rightarrow> tree \<Rightarrow> (error_code + utext) \<times> tree" where
  "rename_entry path new_name t =
     (case validate_relative_path path False of
        Inl e \<Rightarrow> (Err e, t)
      | Inr _ \<Rightarrow>
          let (parent, old_name) = split_path path
          in case entry_in t parent new_name of
               Inl e \<Rightarrow> (Err e, t)
             | Inr (dir, new_path) \<Rightarrow>
                 if old_name = new_name then (Ok new_path, t)
                 else if t (dir @ [old_name]) = None then (Err Not_Found, t)
                 else if t (dir @ [new_name]) \<noteq> None then (Err Conflict, t)
                 else (Ok new_path, move_subtree (dir @ [old_name]) (dir @ [new_name]) t))"

definition delete_entry :: "utext \<Rightarrow> tree \<Rightarrow> (error_code + unit) \<times> tree" where
  "delete_entry path t =
     (case validate_relative_path path False of
        Inl e \<Rightarrow> (Err e, t)
      | Inr _ \<Rightarrow>
          let (parent, name) = split_path path
          in case open_parent t parent of
               Inl e \<Rightarrow> (Err e, t)
             | Inr dir \<Rightarrow>
                 (case t (dir @ [name]) of
                    None \<Rightarrow> (Err Not_Found, t)
                  | Some Folder \<Rightarrow>
                      if \<exists>below. below \<noteq> [] \<and> t (dir @ [name] @ below) \<noteq> None then (Err Invalid_Input, t)
                      else (Ok (), t(dir @ [name] := None))
                  | Some (File b) \<Rightarrow> (Ok (), t(dir @ [name] := None))))"

section \<open>The tree stays a tree\<close>

text \<open>Every entry is in a folder, and no entry has the root's empty path.\<close>

definition tree_ok :: "tree \<Rightarrow> bool" where
  "tree_ok t \<longleftrightarrow> t [] = None \<and> (\<forall>dir name. t (dir @ [name]) \<noteq> None \<longrightarrow> dir = [] \<or> t dir = Some Folder)"

lemma tree_okI:
  "t [] = None \<Longrightarrow> (\<And>dir name e. t (dir @ [name]) = Some e \<Longrightarrow> dir = [] \<or> t dir = Some Folder) \<Longrightarrow> tree_ok t"
  by (auto simp: tree_ok_def)

lemma tree_ok_parent: "tree_ok t \<Longrightarrow> t (dir @ [name]) = Some e \<Longrightarrow> dir = [] \<or> t dir = Some Folder"
  by (auto simp: tree_ok_def)

lemma tree_ok_root: "tree_ok t \<Longrightarrow> t [] = None"
  by (simp add: tree_ok_def)

lemma lookup_entry_Ok: "lookup_entry t path = Ok e \<longleftrightarrow> (path = [] \<and> e = Folder) \<or> (path \<noteq> [] \<and> t path = Some e)"
  by (auto simp: lookup_entry_def split: option.split)

lemma open_parent_Ok: "open_parent t parent = Ok dir \<Longrightarrow> dir = [] \<or> t dir = Some Folder"
proof -
  assume "open_parent t parent = Ok dir"
  then obtain e where "lookup_entry t (components parent) = Ok e"
      "(case e of Folder \<Rightarrow> Ok (components parent) | File b \<Rightarrow> Err Invalid_Input) = Ok dir"
    by (auto simp: open_parent_def and_then_Inr_iff)
  then show ?thesis
    by (cases e) (auto simp: lookup_entry_Ok)
qed

lemma entry_in_Ok: "entry_in t parent name = Ok (dir, path) \<Longrightarrow> dir = [] \<or> t dir = Some Folder"
  using open_parent_Ok [of t parent dir] by (auto simp: entry_in_def and_then_Inr_iff)

lemma tree_ok_below_file:
  assumes "tree_ok t" and "t p = Some (File b)"
  shows "t (p @ [n]) = None"
  using assms tree_ok_parent [of t p n] tree_ok_root [OF assms(1)] by (cases "t (p @ [n])") auto

lemma tree_ok_below_None1: "tree_ok t \<Longrightarrow> t p = None \<Longrightarrow> p \<noteq> [] \<Longrightarrow> t (p @ [n]) = None"
  using tree_ok_parent [of t p n] by (cases "t (p @ [n])") auto

lemma tree_ok_create:
  assumes "tree_ok t" and "dir = [] \<or> t dir = Some Folder" and "t (dir @ [name]) = None"
  shows "tree_ok (t(dir @ [name] \<mapsto> e))"
proof (rule tree_okI)
  show "(t(dir @ [name] \<mapsto> e)) [] = None"
    using tree_ok_root [OF assms(1)] by simp
  fix d n x
  assume "(t(dir @ [name] \<mapsto> e)) (d @ [n]) = Some x"
  then consider "d = dir" | "d @ [n] \<noteq> dir @ [name]" "t (d @ [n]) = Some x"
    by (auto split: if_splits)
  then show "d = [] \<or> (t(dir @ [name] \<mapsto> e)) d = Some Folder"
  proof cases
    case 1
    then show ?thesis
      using assms(2) by auto
  next
    case 2
    moreover have "d \<noteq> dir @ [name]"
      using 2(2) tree_ok_below_None1 [OF assms(1,3), of n] by auto
    ultimately show ?thesis
      using tree_ok_parent [OF assms(1)] by auto
  qed
qed

lemma tree_ok_remove:
  assumes "tree_ok t" and "\<And>n. t (p @ [n]) = None"
  shows "tree_ok (t(p := None))"
proof (rule tree_okI)
  show "(t(p := None)) [] = None"
    using tree_ok_root [OF assms(1)] by simp
  fix d n x
  assume "(t(p := None)) (d @ [n]) = Some x"
  then have n: "t (d @ [n]) = Some x"
    by (simp split: if_splits)
  then have "d \<noteq> p"
    using assms(2) by auto
  then show "d = [] \<or> (t(p := None)) d = Some Folder"
    using tree_ok_parent [OF assms(1) n] by simp
qed

lemma tree_ok_move:
  assumes t: "tree_ok t" and ne: "old \<noteq> new" and dir: "dir = [] \<or> t dir = Some Folder"
    and "t (dir @ [new]) = None"
  shows "tree_ok (move_subtree (dir @ [old]) (dir @ [new]) t)"
proof -
  let ?m = "move_subtree (dir @ [old]) (dir @ [new]) t"
  have dir_kept: "\<not> starts_with dir (dir @ [n])" for n
    by (auto simp: starts_with_iff prefix_def)
  have step: "?m (d @ [x]) = None \<or> d = [] \<or> ?m d = Some Folder" for d x
  proof (cases "starts_with (d @ [x]) (dir @ [new])")
    case True
    then obtain r where r: "d @ [x] = (dir @ [new]) @ r"
      by (auto simp: starts_with_iff prefix_def)
    show ?thesis
    proof (cases r rule: rev_cases)
      case Nil
      then have "d = dir"
        using r by simp
      then show ?thesis
        using dir dir_kept by (auto simp: move_subtree_def)
    next
      case (snoc r' y)
      then have d: "d = (dir @ [new]) @ r'" "x = y"
        using r by (auto simp flip: append_assoc)
      have "?m (d @ [x]) = t ((dir @ [old] @ r') @ [x])" and "?m d = t (dir @ [old] @ r')"
        using d by (simp_all add: move_subtree_def starts_with_iff)
      moreover have "dir @ [old] @ r' \<noteq> []"
        by simp
      ultimately show ?thesis
        using t unfolding tree_ok_def by metis
    qed
  next
    case new: False
    show ?thesis
    proof (cases "starts_with (d @ [x]) (dir @ [old])")
      case True
      then show ?thesis
        using new by (simp add: move_subtree_def)
    next
      case False
      have "\<not> starts_with d (dir @ [old])" "\<not> starts_with d (dir @ [new])"
        using new False by (auto simp: starts_with_iff prefix_def)
      then show ?thesis
        using t new False by (auto simp: move_subtree_def tree_ok_def)
    qed
  qed
  have "?m [] = None"
    using t by (simp add: move_subtree_def starts_with_iff tree_ok_def)
  then show ?thesis
  proof (rule tree_okI)
    fix d x e
    assume "?m (d @ [x]) = Some e"
    then show "d = [] \<or> ?m d = Some Folder"
      using step [of d x] by simp
  qed
qed

datatype entry_op = Create_File utext utext | Create_Folder utext utext | Rename utext utext | Delete utext

fun entry_step :: "entry_op \<Rightarrow> tree \<Rightarrow> tree" where
  "entry_step (Create_File parent name) t = snd (create_file parent name t)"
| "entry_step (Create_Folder parent name) t = snd (create_folder parent name t)"
| "entry_step (Rename path name) t = snd (rename_entry path name t)"
| "entry_step (Delete path) t = snd (delete_entry path t)"

lemma create_entry_cases:
  obtains (same) "snd (create_entry e parent name t) = t"
  | (created) dir where "dir = [] \<or> t dir = Some Folder" "t (dir @ [name]) = None"
      "snd (create_entry e parent name t) = t(dir @ [name] \<mapsto> e)"
proof (cases "entry_in t parent name")
  case (Inl err)
  then show ?thesis
    using same by (simp add: create_entry_def)
next
  case (Inr r)
  obtain dir path where r: "r = (dir, path)"
    by (cases r)
  then show ?thesis
    using Inr same created [of dir] entry_in_Ok [of t parent name dir path]
    by (cases "t (dir @ [name])") (simp_all add: create_entry_def)
qed

lemma rename_entry_cases:
  obtains (same) "snd (rename_entry path name t) = t"
  | (moved) dir old where "dir = [] \<or> t dir = Some Folder" "old \<noteq> name" "t (dir @ [name]) = None"
      "snd (rename_entry path name t) = move_subtree (dir @ [old]) (dir @ [name]) t"
proof (cases "validate_relative_path path False")
  case (Inl err)
  then show ?thesis
    using same by (simp add: rename_entry_def)
next
  case valid: (Inr u)
  obtain parent old where s: "split_path path = (parent, old)"
    by (cases "split_path path")
  show ?thesis
  proof (cases "entry_in t parent name")
    case (Inl err)
    then show ?thesis
      using same valid s by (simp add: rename_entry_def)
  next
    case (Inr r)
    obtain dir np where r: "r = (dir, np)"
      by (cases r)
    have "snd (rename_entry path name t) =
        (if old = name \<or> t (dir @ [old]) = None \<or> t (dir @ [name]) \<noteq> None then t
         else move_subtree (dir @ [old]) (dir @ [name]) t)"
      using Inr valid s r by (simp add: rename_entry_def)
    moreover have "dir = [] \<or> t dir = Some Folder"
      using entry_in_Ok Inr r by blast
    ultimately show ?thesis
      using same moved [of dir old] by presburger
  qed
qed

lemma tree_ok_create_entry: "tree_ok t \<Longrightarrow> tree_ok (snd (create_entry e parent name t))"
  by (cases rule: create_entry_cases [of e parent name t]) (simp_all add: tree_ok_create)

lemma tree_ok_rename: "tree_ok t \<Longrightarrow> tree_ok (snd (rename_entry path name t))"
  by (cases rule: rename_entry_cases [of path name t]) (simp_all add: tree_ok_move)

lemma tree_ok_delete:
  assumes "tree_ok t"
  shows "tree_ok (snd (delete_entry path t))"
proof -
  have "tree_ok (t(p := None))" if "t p = Some Folder" "\<not> (\<exists>below. below \<noteq> [] \<and> t (p @ below) \<noteq> None)" for p
    using tree_ok_remove [OF assms, of p] that by blast
  moreover have "tree_ok (t(p := None))" if "t p = Some (File b)" for p b
    using tree_ok_remove [OF assms, of p] tree_ok_below_file [OF assms that] by blast
  ultimately show ?thesis
    using assms by (auto simp: delete_entry_def split: sum.split prod.split option.split entry.split)
qed

lemma tree_ok_step: "tree_ok t \<Longrightarrow> tree_ok (entry_step op t)"
  by (cases op) (simp_all add: create_file_def create_folder_def tree_ok_create_entry tree_ok_rename tree_ok_delete)

text \<open>
  Whatever sequence of files and folders is created, renamed and deleted, the project stays
  a tree: every entry lies in a folder, a rename moves a folder with all it holds, and no folder
  with anything in it is deleted.\<close>

theorem entry_operations_keep_tree:
  assumes "tree_ok t"
  shows "tree_ok (fold entry_step ops t)"
  using assms by (induction ops arbitrary: t) (simp_all add: tree_ok_step)

theorem entry_operations_keep_tree_witness:
  "tree_ok (fold entry_step [Create_Folder [] (ustr ''a''), Create_File (ustr ''a'') (ustr ''b''), Rename (ustr ''a'') (ustr ''c''),
     Delete (ustr ''c/b'')] Map.empty)"
  by (rule entry_operations_keep_tree) (simp add: tree_ok_def)

text \<open>No content is lost by a creation or a rename.\<close>

lemma create_entry_extends: "t \<subseteq>\<^sub>m snd (create_entry e parent name t)"
  by (cases rule: create_entry_cases [of e parent name t]) (auto simp: map_le_def)

lemma rename_keeps_contents:
  assumes "tree_ok t" and "t p = Some (File b)"
  shows "\<exists>q. snd (rename_entry path name t) q = Some (File b)"
proof (cases rule: rename_entry_cases [of path name t])
  case same
  then show ?thesis
    using assms(2) by auto
next
  case (moved dir old)
  have below: "t ((dir @ [name]) @ r) = None" for r
  proof (induction r rule: rev_induct)
    case (snoc x r)
    then show ?case
      using tree_ok_below_None1 [OF assms(1), of "(dir @ [name]) @ r" x] by simp
  qed (simp add: moved)
  show ?thesis
  proof (cases "starts_with p (dir @ [old])")
    case True
    then obtain r where "p = (dir @ [old]) @ r"
      by (auto simp: starts_with_iff prefix_def)
    then show ?thesis
      using assms(2) moved(4) by (intro exI [of _ "(dir @ [name]) @ r"]) (simp add: move_subtree_def starts_with_iff)
  next
    case False
    moreover have "\<not> starts_with p (dir @ [name])"
      using below assms(2) by (auto simp: starts_with_iff prefix_def)
    ultimately show ?thesis
      using assms(2) moved(4) by (intro exI [of _ p]) (simp add: move_subtree_def)
  qed
qed

section \<open>A save replaces what was read, or nothing\<close>

definition while_saving :: "(tree \<Rightarrow> tree) \<Rightarrow> utext list \<Rightarrow> document \<Rightarrow> tree \<Rightarrow> tree" where
  "while_saving meanwhile temporary doc t =
     (meanwhile (t(temporary \<mapsto> File (encode (dc_content doc)))))(temporary := None)"

lemma replace_file_Ok:
  assumes "replace_file io meanwhile revision_of temporary name doc t = (Inr u, t')"
    and "\<And>t. meanwhile t temporary = t temporary" and "t name \<noteq> None"
  shows "\<exists>stored. while_saving meanwhile temporary doc t name = Some (File stored) \<and> revision_of stored = dc_revision doc \<and>
    t' = (while_saving meanwhile temporary doc t)(name \<mapsto> File (encode (dc_content doc)))"
proof -
  let ?t2 = "t(temporary \<mapsto> File (encode (dc_content doc)))"
  let ?t3 = "meanwhile ?t2"
  have new: "t temporary = None" and found: "\<exists>stored. lookup_entry ?t3 name = Inr (File stored) \<and>
      revision_of stored = dc_revision doc \<and> t' = ?t3(temporary := None, name \<mapsto> the (?t3 temporary)) \<and> ?t3 temporary \<noteq> None"
    using assms(1)
    by (auto simp: replace_file_def Let_def read_bounded_def split: option.splits if_splits sum.splits entry.splits)
  then obtain stored where s: "lookup_entry ?t3 name = Inr (File stored)" "revision_of stored = dc_revision doc"
      "t' = ?t3(temporary := None, name \<mapsto> the (?t3 temporary))"
    by blast
  have "name \<noteq> temporary"
    using new assms(3) by auto
  moreover have "?t3 temporary = Some (File (encode (dc_content doc)))"
    using assms(2) by simp
  ultimately show ?thesis
    using s by (auto simp: while_saving_def lookup_entry_Ok)
qed

lemma replace_file_Err:
  assumes "replace_file io meanwhile revision_of temporary name doc t = (Inl e, t')"
    and "t temporary = None"
  shows "t'(temporary := None) = t \<or> t'(temporary := None) = while_saving meanwhile temporary doc t"
proof -
  have "t(temporary := None) = t"
    using assms(2) by (simp add: fun_upd_idem)
  then show ?thesis
    using assms(1)
    by (auto simp: replace_file_def Let_def while_saving_def split: option.splits if_splits sum.splits entry.splits)
qed

lemma components_not_Nil: "validate_relative_path p False = Inr u \<Longrightarrow> components p \<noteq> []"
  by (auto simp: validate_relative_path_def components_def split: if_splits)

lemma read_document_Ok:
  "read_document revision_of pr path = Inr doc \<Longrightarrow>
   \<exists>stored. pr_tree pr (components path) = Some (File stored) \<and> decode stored = Some (dc_content doc) \<and>
     dc_revision doc = revision_of stored \<and> dc_path doc = path \<and> dc_project doc = pr_id pr"
proof -
  assume "read_document revision_of pr path = Inr doc"
  then obtain u e where v: "validate_relative_path path False = Inr u"
      and e: "lookup_entry (pr_tree pr) (components path) = Inr e"
      and r: "(case e of Folder \<Rightarrow> Err Invalid_Input
        | File stored \<Rightarrow> and_then (read_bounded stored) (\<lambda>bytes.
            case decode bytes of None \<Rightarrow> Err Invalid_Input
            | Some content \<Rightarrow> Ok \<lparr>dc_project = pr_id pr, dc_path = path, dc_content = content,
                dc_revision = revision_of bytes\<rparr>)) = Inr doc"
    by (auto simp: read_document_def and_then_Inr_iff)
  then show ?thesis
    using components_not_Nil [OF v]
    by (cases e) (auto simp: lookup_entry_Ok and_then_Inr_iff read_bounded_def split: option.splits if_splits)
qed

lemma save_document_cases:
  obtains (refused) e where "save_document io meanwhile revision_of uuid doc pr = (Inl e, pr)"
  | (replaced) stored where "dc_project doc = pr_id pr" "validate_relative_path (dc_path doc) False = Inr ()"
      "byte_len (dc_content doc) \<le> max_file_bytes"
      "pr_tree pr (components (dc_path doc)) = Some (File stored)"
      "save_document io meanwhile revision_of uuid doc pr =
        (case replace_file io meanwhile revision_of (temporary_path uuid (components (dc_path doc)))
            (components (dc_path doc)) doc (pr_tree pr) of
           (Inl e, t) \<Rightarrow> (Inl e, pr\<lparr>pr_tree := t(temporary_path uuid (components (dc_path doc)) := None)\<rparr>)
         | (Inr _, t) \<Rightarrow> (Inr (doc\<lparr>dc_revision := revision_of (encode (dc_content doc))\<rparr>), pr\<lparr>pr_tree := t\<rparr>))"
proof (cases "dc_project doc = pr_id pr \<and> validate_relative_path (dc_path doc) False = Inr () \<and>
    byte_len (dc_content doc) \<le> max_file_bytes")
  case True
  then have ne: "components (dc_path doc) \<noteq> []"
    using components_not_Nil by blast
  show ?thesis
  proof (cases "lookup_entry (pr_tree pr) (components (dc_path doc))")
    case (Inl e)
    then show ?thesis
      using True refused [of e] by (simp add: save_document_def)
  next
    case (Inr ent)
    show ?thesis
    proof (cases ent)
      case (File stored)
      then have "pr_tree pr (components (dc_path doc)) = Some (File stored)"
        using Inr ne by (simp add: lookup_entry_Ok)
      moreover have big: "save_document io meanwhile revision_of uuid doc pr = (Inl Invalid_Input, pr)"
        if "max_file_bytes < length stored"
        using that True Inr File by (simp add: save_document_def read_bounded_def Let_def)
      moreover have old: "save_document io meanwhile revision_of uuid doc pr = (Inl Conflict, pr)"
        if "\<not> max_file_bytes < length stored" "revision_of stored \<noteq> dc_revision doc"
        using that True Inr File by (simp add: save_document_def read_bounded_def Let_def)
      moreover have "save_document io meanwhile revision_of uuid doc pr =
          (case replace_file io meanwhile revision_of (temporary_path uuid (components (dc_path doc)))
            (components (dc_path doc)) doc (pr_tree pr) of
           (Inl e, t) \<Rightarrow> (Inl e, pr\<lparr>pr_tree := t(temporary_path uuid (components (dc_path doc)) := None)\<rparr>)
         | (Inr _, t) \<Rightarrow> (Inr (doc\<lparr>dc_revision := revision_of (encode (dc_content doc))\<rparr>), pr\<lparr>pr_tree := t\<rparr>))"
        if "\<not> max_file_bytes < length stored" "revision_of stored = dc_revision doc"
        using that True Inr File by (simp add: save_document_def read_bounded_def Let_def)
      ultimately show ?thesis
        using True refused replaced by blast
    next
      case Folder
      then show ?thesis
        using True Inr refused [of Invalid_Input] by (simp add: save_document_def)
    qed
  qed
next
  case False
  then have "\<exists>e. save_document io meanwhile revision_of uuid doc pr = (Inl e, pr)"
    by (cases "validate_relative_path (dc_path doc) False") (auto simp: save_document_def)
  then show ?thesis
    using refused by blast
qed

lemma save_document_project: "pr_id (snd (save_document io meanwhile revision_of uuid doc pr)) = pr_id pr"
  by (cases rule: save_document_cases [of io meanwhile revision_of uuid doc pr])
    (auto split: prod.split sum.split)

text \<open>
  A save replaces a file only while its content still has the revision the document was
  read at, whatever other processes do to the project during the save, and leaves every other
  entry as they left it; a save that fails anywhere changes nothing and leaves no temporary file.\<close>

theorem save_document_safe:
  assumes "pr_tree pr (temporary_path uuid (components (dc_path doc))) = None"
    and "\<And>t. meanwhile t (temporary_path uuid (components (dc_path doc))) = t (temporary_path uuid (components (dc_path doc)))"
  shows "case save_document io meanwhile revision_of uuid doc pr of
      (Inr saved, pr') \<Rightarrow>
        (\<exists>stored. while_saving meanwhile (temporary_path uuid (components (dc_path doc))) doc (pr_tree pr)
             (components (dc_path doc)) = Some (File stored) \<and>
           revision_of stored = dc_revision doc \<and>
           pr_tree pr' = (while_saving meanwhile (temporary_path uuid (components (dc_path doc))) doc (pr_tree pr))
             (components (dc_path doc) \<mapsto> File (encode (dc_content doc)))) \<and>
        saved = doc\<lparr>dc_revision := revision_of (encode (dc_content doc))\<rparr>
    | (Inl e, pr') \<Rightarrow>
        pr_tree pr' = pr_tree pr \<or>
        pr_tree pr' = while_saving meanwhile (temporary_path uuid (components (dc_path doc))) doc (pr_tree pr)"
proof (cases rule: save_document_cases [of io meanwhile revision_of uuid doc pr])
  case (refused e)
  then show ?thesis
    by simp
next
  case (replaced stored)
  let ?temp = "temporary_path uuid (components (dc_path doc))"
  obtain r t where rt: "replace_file io meanwhile revision_of ?temp (components (dc_path doc)) doc (pr_tree pr) = (r, t)"
    by fastforce
  show ?thesis
  proof (cases r)
    case (Inl e)
    then show ?thesis
      using replace_file_Err [OF rt [unfolded Inl] assms(1)] rt replaced(5) by simp
  next
    case (Inr u)
    have "pr_tree pr (components (dc_path doc)) \<noteq> None"
      using replaced(4) by simp
    from replace_file_Ok [OF rt [unfolded Inr] assms(2) this]
    show ?thesis
      using Inr rt replaced(5) by simp
  qed
qed

definition one_file :: "string \<Rightarrow> nat list \<Rightarrow> project" where
  "one_file name stored = \<lparr>pr_id = ''p'', pr_tree = [[ustr name] \<mapsto> File stored]\<rparr>"

definition text_of :: "string \<Rightarrow> utext \<Rightarrow> string \<Rightarrow> document" where
  "text_of name content revision =
     \<lparr>dc_project = ''p'', dc_path = ustr name, dc_content = content, dc_revision = revision\<rparr>"

theorem save_document_safe_witness:
  "case save_document (\<lambda>_. None) (\<lambda>t. t) (map char_of) ''1'' (text_of ''a'' [66] ''A'') (one_file ''a'' [65]) of
      (Inr saved, pr') \<Rightarrow>
        (\<exists>stored. while_saving (\<lambda>t. t) (temporary_path ''1'' (components (dc_path (text_of ''a'' [66] ''A''))))
             (text_of ''a'' [66] ''A'') (pr_tree (one_file ''a'' [65]))
             (components (dc_path (text_of ''a'' [66] ''A''))) = Some (File stored) \<and>
           map char_of stored = dc_revision (text_of ''a'' [66] ''A'') \<and>
           pr_tree pr' = (while_saving (\<lambda>t. t) (temporary_path ''1'' (components (dc_path (text_of ''a'' [66] ''A''))))
             (text_of ''a'' [66] ''A'') (pr_tree (one_file ''a'' [65])))
             (components (dc_path (text_of ''a'' [66] ''A'')) \<mapsto> File (encode (dc_content (text_of ''a'' [66] ''A''))))) \<and>
        saved = (text_of ''a'' [66] ''A'')\<lparr>dc_revision := map char_of (encode (dc_content (text_of ''a'' [66] ''A'')))\<rparr>
    | (Inl e, pr') \<Rightarrow>
        pr_tree pr' = pr_tree (one_file ''a'' [65]) \<or>
        pr_tree pr' = while_saving (\<lambda>t. t) (temporary_path ''1'' (components (dc_path (text_of ''a'' [66] ''A''))))
          (text_of ''a'' [66] ''A'') (pr_tree (one_file ''a'' [65]))"
  by (rule save_document_safe) (simp_all add: one_file_def text_of_def temporary_path_def components_def)

text \<open>
  C33: What a successful save returns is what reading the file gives next: the same text, and
  the revision the next save has to name.\<close>

theorem save_then_read:
  assumes "save_document io meanwhile revision_of uuid doc pr = (Inr saved, pr')"
    and "pr_tree pr (temporary_path uuid (components (dc_path doc))) = None"
    and "\<And>t. meanwhile t (temporary_path uuid (components (dc_path doc))) = t (temporary_path uuid (components (dc_path doc)))"
    and "list_all scalar_value (dc_content doc)"
  shows "read_document revision_of pr' (dc_path doc) = Inr saved"
proof (cases rule: save_document_cases [of io meanwhile revision_of uuid doc pr])
  case (refused e)
  then show ?thesis
    using assms(1) by simp
next
  case (replaced stored)
  have f: "pr_tree pr' (components (dc_path doc)) = Some (File (encode (dc_content doc)))"
    and s: "saved = doc\<lparr>dc_revision := revision_of (encode (dc_content doc))\<rparr>"
    using save_document_safe [where pr = pr and uuid = uuid and doc = doc and meanwhile = meanwhile
        and io = io and revision_of = revision_of, OF assms(2,3)] assms(1)
    by auto
  have "pr_id pr' = pr_id pr"
    using replaced(5) assms(1) by (auto split: prod.splits sum.splits)
  moreover have "length (encode (dc_content doc)) \<le> max_file_bytes"
    using replaced(3) by (simp add: length_encode)
  ultimately show ?thesis
    using f s replaced(1,2) components_not_Nil [OF replaced(2)] decode_encode [OF assms(4)]
    by (cases doc) (simp add: read_document_def lookup_entry_def read_bounded_def)
qed

theorem save_then_read_witness:
  "read_document (\<lambda>b. replicate (length b) (CHR ''x'')) (snd (save_document (\<lambda>_. None) (\<lambda>t. t) (\<lambda>b. replicate (length b) (CHR ''x'')) ''1''
      (text_of ''a'' [66] ''x'') (one_file ''a'' [65]))) (dc_path (text_of ''a'' [66] ''x'')) = Inr (text_of ''a'' [66] ''x'')"
  by (rule save_then_read [where io = "\<lambda>_. None" and meanwhile = "\<lambda>t. t" and uuid = "''1''" and pr = "one_file ''a'' [65]"])
    (simp_all add: Let_def one_file_def text_of_def temporary_path_def components_def save_document_def replace_file_def
      lookup_entry_def read_bounded_def max_file_bytes_def encode_char_def validate_relative_path_def
      max_relative_path_bytes_def len_utf8_def scalar_value_def)

end
