(* ===== verification/Doc_Session.thy ===== *)
theory Doc_Session
  imports Project_Files
begin

text \<open>
  The session of the file open in the editor (\<open>rwk-core/src/workbench/documents.rs\<close>), and the
  system of that session, the editor's text, the saves running in the background and the
  project's files, which other processes change at any time. The edit counter is a number
  (\<open>u64\<close> in the code); a project id and a path identify the document.
\<close>

section \<open>The session\<close>

datatype switch_decision = Allowed | Needs_Decision

datatype save_blocked = No_Document | Unchanged | Save_Conflict

record open_doc =
  od_project :: string
  od_path :: utext
  od_base :: string
  od_dirty :: bool
  od_conflict :: bool
  od_generation :: nat
  od_last_error :: "error_code option"

type_synonym session = "open_doc option"

definition new_session :: session where
  "new_session = None"

definition session_path :: "session \<Rightarrow> utext option" where
  "session_path s = map_option od_path s"

definition is_dirty :: "session \<Rightarrow> bool" where
  "is_dirty s = (case s of Some d \<Rightarrow> od_dirty d | None \<Rightarrow> False)"

definition has_conflict :: "session \<Rightarrow> bool" where
  "has_conflict s = (case s of Some d \<Rightarrow> od_conflict d | None \<Rightarrow> False)"

definition last_error :: "session \<Rightarrow> error_code option" where
  "last_error s = (case s of Some d \<Rightarrow> od_last_error d | None \<Rightarrow> None)"

definition request_open :: "string \<Rightarrow> utext \<Rightarrow> session \<Rightarrow> switch_decision" where
  "request_open project path s =
     (case s of
        Some d \<Rightarrow> if od_dirty d \<and> (od_project d \<noteq> project \<or> od_path d \<noteq> path) then Needs_Decision else Allowed
      | None \<Rightarrow> Allowed)"

definition request_leave :: "session \<Rightarrow> switch_decision" where
  "request_leave s = (if is_dirty s then Needs_Decision else Allowed)"

definition opened :: "document \<Rightarrow> session \<Rightarrow> session" where
  "opened doc s =
     Some \<lparr>od_project = dc_project doc, od_path = dc_path doc, od_base = dc_revision doc, od_dirty = False,
           od_conflict = False, od_generation = 0, od_last_error = None\<rparr>"

definition edited_doc :: "session \<Rightarrow> session" where
  "edited_doc s = map_option (\<lambda>d. d\<lparr>od_dirty := True, od_generation := od_generation d + 1\<rparr>) s"

definition begin_save :: "utext \<Rightarrow> session \<Rightarrow> save_blocked + document \<times> nat" where
  "begin_save content s =
     (case s of
        None \<Rightarrow> Err No_Document
      | Some d \<Rightarrow>
          if od_conflict d then Err Save_Conflict
          else if \<not> od_dirty d then Err Unchanged
          else Ok (\<lparr>dc_project = od_project d, dc_path = od_path d, dc_content = content,
                    dc_revision = od_base d\<rparr>, od_generation d))"

definition save_succeeded :: "document \<Rightarrow> nat \<Rightarrow> session \<Rightarrow> session" where
  "save_succeeded saved ticket s =
     map_option (\<lambda>d.
       if od_project d = dc_project saved \<and> od_path d = dc_path saved
       then d\<lparr>od_base := dc_revision saved, od_conflict := False, od_last_error := None,
              od_dirty := (if od_generation d = ticket then False else od_dirty d)\<rparr>
       else d) s"

definition save_failed :: "error_code \<Rightarrow> session \<Rightarrow> session" where
  "save_failed e s =
     map_option (\<lambda>d. if e = Conflict then d\<lparr>od_conflict := True\<rparr> else d\<lparr>od_last_error := Some e\<rparr>) s"

definition close_session :: "session \<Rightarrow> session" where
  "close_session s = None"

text \<open>
  Leaving, and opening another file, asks for a decision exactly while there are unsaved
  edits, and a conflict blocks every save until the file is loaded again.\<close>

theorem session_guards:
  "(request_leave s = Needs_Decision \<longleftrightarrow> is_dirty s) \<and>
   (request_open p f s = Needs_Decision \<longleftrightarrow> is_dirty s \<and> \<not> (\<exists>d. s = Some d \<and> od_project d = p \<and> od_path d = f)) \<and>
   (is_ok (begin_save t s) \<longleftrightarrow> is_dirty s \<and> \<not> has_conflict s) \<and>
   \<not> has_conflict (opened doc s) \<and> \<not> is_dirty (opened doc s)"
  by (auto simp: request_leave_def request_open_def is_dirty_def has_conflict_def begin_save_def opened_def
      split: option.splits)

section \<open>The editor and the files\<close>

record editor =
  ed_session :: session
  ed_text :: utext
  ed_project :: project
  ed_saving :: "(document \<times> nat) list"
  ed_known :: "nat list list"
  ed_replaced :: "nat list list"

text \<open>
  \<open>ed_known\<close> (contents this editor loaded or wrote) and \<open>ed_replaced\<close> (contents its saves
  replaced) are history for the statements; the code does not have them.
\<close>

datatype editor_event =
    Type utext
  | Start_Save
  | Finish_Save nat "save_step \<Rightarrow> error_code option" "tree \<Rightarrow> tree" string
  | Other_Processes "tree \<Rightarrow> tree"
  | Reload

fun editor_step :: "(nat list \<Rightarrow> string) \<Rightarrow> utext \<Rightarrow> editor_event \<Rightarrow> editor \<Rightarrow> editor" where
  "editor_step revision_of path (Type t) st = st\<lparr>ed_text := t, ed_session := edited_doc (ed_session st)\<rparr>"
| "editor_step revision_of path Start_Save st =
     (case begin_save (ed_text st) (ed_session st) of
        Inl e \<Rightarrow> st
      | Inr save \<Rightarrow> st\<lparr>ed_saving := ed_saving st @ [save]\<rparr>)"
| "editor_step revision_of path (Finish_Save i io meanwhile uuid) st =
     (if i < length (ed_saving st) then
        (case ed_saving st ! i of (doc, ticket) \<Rightarrow>
          (case save_document io meanwhile revision_of uuid doc (ed_project st) of
             (Inl e, pr) \<Rightarrow>
               st\<lparr>ed_saving := remove_at i (ed_saving st), ed_project := pr,
                  ed_session := save_failed e (ed_session st)\<rparr>
           | (Inr saved, pr) \<Rightarrow>
               st\<lparr>ed_saving := remove_at i (ed_saving st), ed_project := pr,
                  ed_session := save_succeeded saved ticket (ed_session st),
                  ed_known := ed_known st @ [encode (dc_content doc)],
                  ed_replaced := ed_replaced st @
                    (case while_saving meanwhile (temporary_path uuid (components (dc_path doc))) doc
                        (pr_tree (ed_project st)) (components (dc_path doc)) of
                       Some (File stored) \<Rightarrow> [stored]
                     | _ \<Rightarrow> [])\<rparr>))
      else st)"
| "editor_step revision_of path (Other_Processes f) st =
     st\<lparr>ed_project := (ed_project st)\<lparr>pr_tree := f (pr_tree (ed_project st))\<rparr>\<rparr>"
| "editor_step revision_of path Reload st =
     (case read_document revision_of (ed_project st) path of
        Inl e \<Rightarrow> st
      | Inr doc \<Rightarrow>
          st\<lparr>ed_session := opened doc (ed_session st), ed_text := dc_content doc,
             ed_known := ed_known st @
               (case pr_tree (ed_project st) (components path) of Some (File stored) \<Rightarrow> [stored] | _ \<Rightarrow> [])\<rparr>)"

definition fresh_editor :: "project \<Rightarrow> editor" where
  "fresh_editor pr =
     \<lparr>ed_session = new_session, ed_text = [], ed_project = pr, ed_saving = [], ed_known = [], ed_replaced = []\<rparr>"

text \<open>The temporary name of a save is new and nobody else touches it.\<close>

definition event_ok :: "utext \<Rightarrow> editor_event \<Rightarrow> editor \<Rightarrow> bool" where
  "event_ok path ev st \<longleftrightarrow>
     (case ev of
        Finish_Save i io meanwhile uuid \<Rightarrow>
          pr_tree (ed_project st) (temporary_path uuid (components path)) = None \<and>
          (\<forall>t. meanwhile t (temporary_path uuid (components path)) = t (temporary_path uuid (components path)))
      | _ \<Rightarrow> True)"

inductive editor_run :: "(nat list \<Rightarrow> string) \<Rightarrow> utext \<Rightarrow> project \<Rightarrow> editor \<Rightarrow> bool"
  for revision_of :: "nat list \<Rightarrow> string" and path :: utext and pr :: project where
  run_start: "editor_run revision_of path pr (fresh_editor pr)"
| run_step: "editor_run revision_of path pr st \<Longrightarrow> event_ok path ev st \<Longrightarrow>
    editor_run revision_of path pr (editor_step revision_of path ev st)"

text \<open>The discipline that keeps the dirty flag true: saves end in the order they began, and the
  file is not loaded again while one is running.\<close>

definition orderly :: "editor_event \<Rightarrow> editor \<Rightarrow> bool" where
  "orderly ev st \<longleftrightarrow>
     (case ev of Finish_Save i io meanwhile uuid \<Rightarrow> i = 0 | Reload \<Rightarrow> ed_saving st = [] | _ \<Rightarrow> True)"

inductive orderly_run :: "(nat list \<Rightarrow> string) \<Rightarrow> utext \<Rightarrow> project \<Rightarrow> editor \<Rightarrow> bool"
  for revision_of :: "nat list \<Rightarrow> string" and path :: utext and pr :: project where
  orderly_start: "orderly_run revision_of path pr (fresh_editor pr)"
| orderly_step: "orderly_run revision_of path pr st \<Longrightarrow> event_ok path ev st \<Longrightarrow> orderly ev st \<Longrightarrow>
    orderly_run revision_of path pr (editor_step revision_of path ev st)"

section \<open>No foreign content is replaced\<close>

definition known_revision :: "(nat list \<Rightarrow> string) \<Rightarrow> editor \<Rightarrow> string \<Rightarrow> bool" where
  "known_revision revision_of st r \<longleftrightarrow> r \<in> revision_of ` set (ed_known st)"

definition traced :: "(nat list \<Rightarrow> string) \<Rightarrow> utext \<Rightarrow> editor \<Rightarrow> bool" where
  "traced revision_of path st \<longleftrightarrow>
     (\<forall>doc ticket. (doc, ticket) \<in> set (ed_saving st) \<longrightarrow>
        dc_path doc = path \<and> known_revision revision_of st (dc_revision doc)) \<and>
     (\<forall>d. ed_session st = Some d \<longrightarrow> od_path d = path \<and> known_revision revision_of st (od_base d)) \<and>
     (\<forall>c\<in>set (ed_replaced st). known_revision revision_of st (revision_of c))"

lemma begin_save_Ok_iff:
  "begin_save content s = Inr (doc, ticket) \<longleftrightarrow>
     (\<exists>d. s = Some d \<and> \<not> od_conflict d \<and> od_dirty d \<and> ticket = od_generation d \<and>
        doc = \<lparr>dc_project = od_project d, dc_path = od_path d, dc_content = content, dc_revision = od_base d\<rparr>)"
  by (auto simp: begin_save_def split: option.splits)

lemma save_failed_Some:
  "save_failed e s = Some d \<longleftrightarrow>
     (\<exists>d'. s = Some d' \<and> d = (if e = Conflict then d'\<lparr>od_conflict := True\<rparr> else d'\<lparr>od_last_error := Some e\<rparr>))"
  by (auto simp: save_failed_def)

text \<open>What ends a save, by the guarantee of \<open>save_document\<close>.\<close>

lemma save_outcome:
  assumes "event_ok path (Finish_Save i io meanwhile uuid) st" and "dc_path doc = path"
  shows "case save_document io meanwhile revision_of uuid doc (ed_project st) of
      (Inr saved, pr') \<Rightarrow>
        (\<exists>stored. while_saving meanwhile (temporary_path uuid (components (dc_path doc))) doc (pr_tree (ed_project st))
            (components (dc_path doc)) = Some (File stored) \<and> revision_of stored = dc_revision doc) \<and>
        saved = doc\<lparr>dc_revision := revision_of (encode (dc_content doc))\<rparr>
    | (Inl e, pr') \<Rightarrow> True"
proof -
  have new: "pr_tree (ed_project st) (temporary_path uuid (components (dc_path doc))) = None"
    and kept: "\<And>t. meanwhile t (temporary_path uuid (components (dc_path doc))) = t (temporary_path uuid (components (dc_path doc)))"
    using assms by (simp_all add: event_ok_def)
  show ?thesis
    using save_document_safe [where io = io and meanwhile = meanwhile and revision_of = revision_of and uuid = uuid
        and doc = doc and pr = "ed_project st", OF new kept]
    by (auto split: prod.splits sum.splits)
qed

lemma known_mono:
  "known_revision revision_of st r \<Longrightarrow> set (ed_known st) \<subseteq> set (ed_known st') \<Longrightarrow> known_revision revision_of st' r"
  by (auto simp: known_revision_def)

lemma traced_mono:
  assumes "traced revision_of path st" and "set (ed_known st) \<subseteq> set (ed_known st')"
    and "set (ed_saving st') \<subseteq> set (ed_saving st)"
    and "\<And>d. ed_session st' = Some d \<Longrightarrow> od_path d = path \<and> known_revision revision_of st' (od_base d)"
    and "\<And>c. c \<in> set (ed_replaced st') \<Longrightarrow> c \<in> set (ed_replaced st) \<or> known_revision revision_of st' (revision_of c)"
  shows "traced revision_of path st'"
proof -
  have "dc_path doc = path \<and> known_revision revision_of st' (dc_revision doc)"
    if "(doc, ticket) \<in> set (ed_saving st')" for doc ticket
    using assms(1) subsetD [OF assms(3) that] known_mono [OF _ assms(2)] by (auto simp: traced_def)
  moreover have "known_revision revision_of st' (revision_of c)" if "c \<in> set (ed_replaced st')" for c
    using assms(1) assms(5) [OF that] known_mono [OF _ assms(2)] unfolding traced_def by blast
  ultimately show ?thesis
    using assms(4) unfolding traced_def by blast
qed

lemma in_remove_at: "x \<in> set (remove_at i xs) \<Longrightarrow> x \<in> set xs"
  by (auto simp: remove_at_def dest: in_set_takeD in_set_dropD)

lemma traced_finish:
  assumes t: "traced revision_of path st" and "event_ok path (Finish_Save i io meanwhile uuid) st"
  shows "traced revision_of path (editor_step revision_of path (Finish_Save i io meanwhile uuid) st)"
proof (cases "i < length (ed_saving st)")
  case True
  obtain doc ticket where d: "ed_saving st ! i = (doc, ticket)"
    by fastforce
  then have "(doc, ticket) \<in> set (ed_saving st)"
    using True by (metis nth_mem)
  then have doc: "dc_path doc = path" "known_revision revision_of st (dc_revision doc)"
    using t by (auto simp: traced_def)
  obtain r pr where s: "save_document io meanwhile revision_of uuid doc (ed_project st) = (r, pr)"
    by fastforce
  have sess: "od_path d = path \<and> known_revision revision_of st (od_base d)" if "ed_session st = Some d" for d
    using t that by (auto simp: traced_def)
  show ?thesis
  proof (cases r)
    case (Inl e)
    show ?thesis
      by (rule traced_mono [OF t])
        (use True d s Inl sess in \<open>auto dest: in_remove_at simp: save_failed_Some known_revision_def split: if_splits\<close>)
  next
    case (Inr saved)
    have out: "\<exists>stored. while_saving meanwhile (temporary_path uuid (components path)) doc (pr_tree (ed_project st))
            (components path) = Some (File stored) \<and> revision_of stored = dc_revision doc"
      and sv: "saved = doc\<lparr>dc_revision := revision_of (encode (dc_content doc))\<rparr>"
      using save_outcome [OF assms(2) doc(1), of revision_of] s Inr doc(1) by auto
    show ?thesis
      by (rule traced_mono [OF t])
        (use True d s Inr sess out sv doc in
          \<open>auto dest: in_remove_at simp: save_succeeded_def known_revision_def split: if_splits\<close>)
  qed
qed (use t in simp)

lemma traced_step:
  assumes t: "traced revision_of path st" and "event_ok path ev st"
  shows "traced revision_of path (editor_step revision_of path ev st)"
proof (cases ev)
  case (Type x)
  then show ?thesis
    using t by (auto simp: traced_def edited_doc_def known_revision_def)
next
  case Start_Save
  then show ?thesis
    using t by (auto simp: traced_def known_revision_def begin_save_Ok_iff split: sum.split)
next
  case (Finish_Save i io meanwhile uuid)
  then show ?thesis
    using traced_finish [OF t] assms(2) by simp
next
  case (Other_Processes f)
  then show ?thesis
    using t by (auto simp: traced_def known_revision_def)
next
  case Reload
  show ?thesis
  proof (cases "read_document revision_of (ed_project st) path")
    case (Inl e)
    then show ?thesis
      using Reload t by simp
  next
    case (Inr doc)
    from read_document_Ok [OF this] show ?thesis
      by (intro traced_mono [OF t]) (use Reload Inr in \<open>auto simp: opened_def known_revision_def\<close>)
  qed
qed

text \<open>
  However typing, saves in the background, reloads and changes by other processes follow one
  another, every content a save of the editor replaced has the revision of a content the editor
  had loaded or written itself: no change by others is ever overwritten unseen.\<close>

theorem no_foreign_content_replaced:
  assumes "editor_run revision_of path pr st"
  shows "list_all (\<lambda>c. revision_of c \<in> revision_of ` set (ed_known st)) (ed_replaced st)"
proof -
  have "traced revision_of path st"
    using assms
  proof induction
    case run_start
    then show ?case
      by (simp add: traced_def fresh_editor_def new_session_def)
  next
    case (run_step st ev)
    then show ?case
      by (simp add: traced_step)
  qed
  then show ?thesis
    by (auto simp: traced_def known_revision_def list_all_iff)
qed

definition demo_rev :: "nat list \<Rightarrow> string" where
  "demo_rev b = replicate (sum_list b) (CHR ''x'')"

lemma demo_run_start: "editor_run demo_rev (ustr ''a'') (one_file ''a'' [65]) (fresh_editor (one_file ''a'' [65]))"
  by (rule run_start)

definition demo_events :: "editor_event list" where
  "demo_events = [Reload, Type [66], Start_Save, Finish_Save 0 (\<lambda>_. None) (\<lambda>t. t) ''1'']"

lemma demo_events_run:
  "editor_run demo_rev (ustr ''a'') (one_file ''a'' [65])
     (fold (editor_step demo_rev (ustr ''a'')) demo_events (fresh_editor (one_file ''a'' [65])))"
  unfolding demo_events_def fold.simps comp_apply id_apply
  by (intro run_step run_start)
    (simp_all add: event_ok_def fresh_editor_def one_file_def temporary_path_def components_def read_document_def
      lookup_entry_def read_bounded_def max_file_bytes_def validate_relative_path_def
      max_relative_path_bytes_def len_utf8_def begin_save_def opened_def edited_doc_def)

theorem no_foreign_content_replaced_witness:
  "list_all (\<lambda>c. demo_rev c \<in> demo_rev ` set (ed_known
       (fold (editor_step demo_rev (ustr ''a'')) demo_events (fresh_editor (one_file ''a'' [65])))))
     (ed_replaced (fold (editor_step demo_rev (ustr ''a'')) demo_events (fresh_editor (one_file ''a'' [65]))))"
  by (rule no_foreign_content_replaced [OF demo_events_run])

section \<open>When the editor says saved\<close>

definition save_ok :: "utext \<Rightarrow> project \<Rightarrow> utext \<Rightarrow> open_doc \<Rightarrow> document \<times> nat \<Rightarrow> bool" where
  "save_ok path pr content d s \<longleftrightarrow>
     dc_path (fst s) = path \<and> dc_project (fst s) = pr_id pr \<and> snd s \<le> od_generation d \<and>
     (snd s = od_generation d \<longrightarrow> dc_content (fst s) = content) \<and>
     (\<not> od_dirty d \<longrightarrow> snd s = od_generation d)"

definition saving_ok :: "utext \<Rightarrow> project \<Rightarrow> editor \<Rightarrow> open_doc \<Rightarrow> bool" where
  "saving_ok path pr st d \<longleftrightarrow>
     sorted (map snd (ed_saving st)) \<and> (\<forall>s\<in>set (ed_saving st). save_ok path pr (ed_text st) d s)"

definition truthful :: "(nat list \<Rightarrow> string) \<Rightarrow> utext \<Rightarrow> project \<Rightarrow> editor \<Rightarrow> bool" where
  "truthful revision_of path pr st \<longleftrightarrow>
     pr_id (ed_project st) = pr_id pr \<and>
     (case ed_session st of
        None \<Rightarrow> ed_saving st = []
      | Some d \<Rightarrow>
          od_path d = path \<and> od_project d = pr_id pr \<and> saving_ok path pr st d \<and>
          (\<not> od_dirty d \<longrightarrow> od_base d = revision_of (encode (ed_text st))))"

lemma truthful_finish:
  assumes t: "truthful revision_of path pr st" and ok: "event_ok path (Finish_Save 0 io meanwhile uuid) st"
  shows "truthful revision_of path pr (editor_step revision_of path (Finish_Save 0 io meanwhile uuid) st)"
proof (cases "ed_saving st")
  case Nil
  then show ?thesis
    using t by simp
next
  case (Cons sv rest)
  obtain doc ticket where dt: "sv = (doc, ticket)"
    by (cases sv)
  obtain d where d: "ed_session st = Some d"
    using t Cons by (auto simp: truthful_def split: option.splits)
  have doc: "dc_path doc = path" "dc_project doc = pr_id pr" "ticket \<le> od_generation d"
      "ticket = od_generation d \<Longrightarrow> dc_content doc = ed_text st" "\<not> od_dirty d \<Longrightarrow> ticket = od_generation d"
    and rest: "sorted (map snd rest)" "\<forall>s\<in>set rest. ticket \<le> snd s" "\<forall>s\<in>set rest. save_ok path pr (ed_text st) d s"
    using t d Cons dt by (auto simp: truthful_def saving_ok_def save_ok_def)
  have od: "od_path d = path" "od_project d = pr_id pr" "pr_id (ed_project st) = pr_id pr"
      "\<not> od_dirty d \<Longrightarrow> od_base d = revision_of (encode (ed_text st))"
    using t d by (auto simp: truthful_def)
  obtain r pr' where s: "save_document io meanwhile revision_of uuid doc (ed_project st) = (r, pr')"
    by fastforce
  have id: "pr_id pr' = pr_id pr"
    using save_document_project [of io meanwhile revision_of uuid doc "ed_project st"] s od(3) by simp
  have rm: "remove_at 0 (sv # rest) = rest"
    by (simp add: remove_at_def)
  show ?thesis
  proof (cases r)
    case (Inl e)
    then show ?thesis
      using Cons dt d s id rm rest od
      by (auto simp: truthful_def saving_ok_def save_ok_def save_failed_def)
  next
    case (Inr saved)
    have sv: "saved = doc\<lparr>dc_revision := revision_of (encode (dc_content doc))\<rparr>"
      using save_outcome [OF ok doc(1), of revision_of] s Inr by simp
    show ?thesis
    proof (cases "ticket = od_generation d")
      case True
      then have "\<forall>s\<in>set rest. snd s = od_generation d"
        using rest(2,3) by (fastforce simp: save_ok_def)
      then show ?thesis
        using True Cons dt d s Inr sv id rm rest od doc
        by (simp add: truthful_def saving_ok_def save_ok_def save_succeeded_def)
    next
      case False
      then have "od_dirty d"
        using doc(5) by blast
      then show ?thesis
        using False Cons dt d s Inr sv id rm rest od doc
        by (simp add: truthful_def saving_ok_def save_ok_def save_succeeded_def)
    qed
  qed
qed

lemma truthful_step:
  assumes t: "truthful revision_of path pr st" and "event_ok path ev st" and "orderly ev st"
  shows "truthful revision_of path pr (editor_step revision_of path ev st)"
proof (cases ev)
  case (Type x)
  then show ?thesis
    using t by (fastforce simp: truthful_def saving_ok_def save_ok_def edited_doc_def split: option.splits)
next
  case Start_Save
  show ?thesis
  proof (cases "begin_save (ed_text st) (ed_session st)")
    case (Inl e)
    then show ?thesis
      using Start_Save t by simp
  next
    case (Inr sv)
    obtain doc ticket where sv: "sv = (doc, ticket)"
      by (cases sv)
    obtain d where d: "ed_session st = Some d" "od_dirty d" "ticket = od_generation d"
        "doc = \<lparr>dc_project = od_project d, dc_path = od_path d, dc_content = ed_text st, dc_revision = od_base d\<rparr>"
      using Inr by (auto simp: sv begin_save_Ok_iff)
    have "od_path d = path" "od_project d = pr_id pr" "saving_ok path pr st d"
      using t d(1) by (simp_all add: truthful_def)
    moreover from this(3) have "\<forall>t\<in>set (map snd (ed_saving st)). t \<le> od_generation d"
      by (auto simp: saving_ok_def save_ok_def)
    ultimately have "saving_ok path pr (st\<lparr>ed_saving := ed_saving st @ [sv]\<rparr>) d"
      using d sv by (simp add: saving_ok_def save_ok_def sorted_append)
    then show ?thesis
      using Start_Save Inr t d(1,2) by (simp add: truthful_def)
  qed
next
  case (Finish_Save i io meanwhile uuid)
  then show ?thesis
    using truthful_finish [OF t] assms(2,3) by (simp add: orderly_def)
next
  case (Other_Processes f)
  then show ?thesis
    using t by (auto simp: truthful_def saving_ok_def split: option.splits)
next
  case Reload
  show ?thesis
  proof (cases "read_document revision_of (ed_project st) path")
    case (Inl e)
    then show ?thesis
      using Reload t by simp
  next
    case (Inr doc)
    then obtain stored where "decode stored = Some (dc_content doc)" "dc_revision doc = revision_of stored"
        "dc_path doc = path" "dc_project doc = pr_id (ed_project st)"
      using read_document_Ok by blast
    then show ?thesis
      using Reload Inr t assms(3) encode_decode
      by (auto simp: truthful_def saving_ok_def opened_def orderly_def)
  qed
qed

text \<open>
  C4: If saves end in the order they began and no reload happens during one, then whenever the
  editor shows no unsaved edits its text is exactly the content of the revision it last loaded
  or wrote, however edits, saves and changes by other processes interleave.\<close>

theorem clean_means_saved:
  assumes "orderly_run revision_of path pr st" and "ed_session st = Some d" and "\<not> od_dirty d"
  shows "od_base d = revision_of (encode (ed_text st))"
proof -
  have "truthful revision_of path pr st"
    using assms(1)
  proof induction
    case orderly_start
    then show ?case
      by (simp add: truthful_def fresh_editor_def new_session_def)
  next
    case (orderly_step st ev)
    then show ?case
      by (simp add: truthful_step)
  qed
  then show ?thesis
    using assms(2,3) by (simp add: truthful_def)
qed

lemmas demo_defs = event_ok_def orderly_def fresh_editor_def new_session_def one_file_def temporary_path_def components_def
  read_document_def lookup_entry_def read_bounded_def max_file_bytes_def validate_relative_path_def
  max_relative_path_bytes_def len_utf8_def begin_save_def opened_def edited_doc_def save_document_def
  replace_file_def Let_def encode_char_def while_saving_def save_succeeded_def remove_at_def demo_rev_def

lemma demo_orderly_run:
  "orderly_run demo_rev (ustr ''a'') (one_file ''a'' [65])
     (fold (editor_step demo_rev (ustr ''a'')) demo_events (fresh_editor (one_file ''a'' [65])))"
  unfolding demo_events_def fold.simps comp_apply id_apply
  by (intro orderly_step orderly_start) (simp_all add: demo_defs)

lemma demo_session:
  "ed_session (fold (editor_step demo_rev (ustr ''a'')) demo_events (fresh_editor (one_file ''a'' [65]))) =
     Some \<lparr>od_project = ''p'', od_path = ustr ''a'', od_base = demo_rev [66], od_dirty = False, od_conflict = False,
       od_generation = 1, od_last_error = None\<rparr>"
  by (simp add: demo_events_def demo_defs)

theorem clean_means_saved_witness:
  "od_base \<lparr>od_project = ''p'', od_path = ustr ''a'', od_base = demo_rev [66], od_dirty = False, od_conflict = False,
       od_generation = 1, od_last_error = None\<rparr> =
     demo_rev (encode (ed_text (fold (editor_step demo_rev (ustr ''a'')) demo_events (fresh_editor (one_file ''a'' [65])))))"
  by (rule clean_means_saved [OF demo_orderly_run demo_session]) simp

text \<open>
  Without the discipline the dirty flag can lie: a ticket counts edits since the file was
  loaded, so a save that ends after a reload can match the edits made since; and a save
  overtaken by a later one that restored the original text still passes the revision check.
\<close>

lemma stale_ticket_hides_edits:
  "let st = fold (editor_step demo_rev (ustr ''a''))
      [Reload, Type [66], Start_Save, Reload, Type [67], Finish_Save 0 (\<lambda>_. None) (\<lambda>t. t) ''1'']
      (fresh_editor (one_file ''a'' [65]))
   in \<not> is_dirty (ed_session st) \<and> ed_text st = [67] \<and> pr_tree (ed_project st) [ustr ''a''] = Some (File [66])"
  by (simp add: demo_defs is_dirty_def)

lemma overtaken_save_hides_edits:
  "let st = fold (editor_step demo_rev (ustr ''a''))
      [Reload, Type [66], Start_Save, Type [65], Start_Save,
       Finish_Save 1 (\<lambda>_. None) (\<lambda>t. t) ''1'', Finish_Save 0 (\<lambda>_. None) (\<lambda>t. t) ''2'']
      (fresh_editor (one_file ''a'' [65]))
   in \<not> is_dirty (ed_session st) \<and> ed_text st = [65] \<and> pr_tree (ed_project st) [ustr ''a''] = Some (File [66])"
  by (simp add: demo_defs is_dirty_def)

end
