(* ===== verification/Text_Edits.thy ===== *)
theory Text_Edits
  imports Utf8 "HOL-Library.Product_Lexorder"
begin

text \<open>
  Text edits from a language server (\<open>rwk-core/src/lsp/edits.rs\<close>): ordering them, reading
  them from a workspace edit, finding the byte offset of a position whose column counts UTF-16
  units, applying them, and the word under the cursor. A text is a list of Unicode scalar
  values; byte offsets are sums of their UTF-8 lengths. The JSON decoder, the mapping of URIs to
  project paths and the Unicode table of alphanumeric characters are parameters. A panic
  (\<open>replace_range\<close> off a character boundary) is \<open>None\<close>; the \<open>u32\<close> counters wrap.

  The reference semantics reads all edits in the original text: \<open>locate\<close> splits a text at a
  position, \<open>edited\<close> replaces all spans at once.
\<close>

section \<open>Byte offsets\<close>

text \<open>How many characters the first \<open>n\<close> bytes are, and \<open>String::replace_range\<close>.\<close>

fun boundary :: "nat \<Rightarrow> utext \<Rightarrow> nat option" where
  "boundary n [] = (if n = 0 then Some 0 else None)"
| "boundary n (c # cs) =
     (if n = 0 then Some 0
      else if len_utf8 c \<le> n then map_option Suc (boundary (n - len_utf8 c) cs) else None)"

definition replace_range :: "nat \<Rightarrow> nat \<Rightarrow> utext \<Rightarrow> utext \<Rightarrow> utext option" where
  "replace_range from to new s =
     (case (boundary from s, boundary to s) of
        (Some a, Some b) \<Rightarrow> if from \<le> to then Some (take a s @ new @ drop b s) else None
      | _ \<Rightarrow> None)"

lemma boundary_append [simp]: "boundary (byte_len s) (s @ t) = Some (length s)"
  by (induction s) (cases t, auto simp: le_diff_conv)

section \<open>The code\<close>

record lsp_position =
  pos_line :: "32 word"
  pos_character :: "32 word"

record text_edit =
  te_start :: lsp_position
  te_end :: lsp_position
  te_new :: utext

datatype edit_error =
    Too_Many_Edits
  | Overlapping_Edits
  | Not_Understood
  | File_Operations
  | Too_Many_Files
  | Outside_Project
  | Outside_File
  | Reversed_Range

definition max_edits :: nat where
  "max_edits = 10000"

definition max_files :: nat where
  "max_files = 500"

definition key :: "lsp_position \<Rightarrow> nat \<times> nat" where
  "key p = (unat (pos_line p), unat (pos_character p))"

fun overlapping :: "text_edit list \<Rightarrow> bool" where
  "overlapping (e # f # es) \<longleftrightarrow> key (te_end e) > key (te_start f) \<or> overlapping (f # es)"
| "overlapping [e] \<longleftrightarrow> False"
| "overlapping [] \<longleftrightarrow> False"

definition in_apply_order :: "text_edit list \<Rightarrow> edit_error + text_edit list" where
  "in_apply_order edits =
     (if max_edits < length edits then Err Too_Many_Edits
      else let sorted = sort_key (\<lambda>e. key (te_start e)) edits
           in if overlapping sorted then Err Overlapping_Edits else Ok (rev sorted))"

fun skip_lines :: "nat \<Rightarrow> nat \<Rightarrow> utext \<Rightarrow> (nat \<times> utext) option" where
  "skip_lines 0 start rest = Some (start, rest)"
| "skip_lines (Suc k) start rest =
     (case dropWhile (\<lambda>c. c \<noteq> line_feed) rest of
        [] \<Rightarrow> None
      | nl # after \<Rightarrow> skip_lines k (start + byte_len (takeWhile (\<lambda>c. c \<noteq> line_feed) rest) + 1) after)"

fun walk_column :: "nat \<Rightarrow> nat \<Rightarrow> nat \<Rightarrow> utext \<Rightarrow> nat" where
  "walk_column column units offset [] = offset"
| "walk_column column units offset (c # cs) =
     (if column \<le> units then offset
      else walk_column column ((units + len_utf16 c) mod 2 ^ 32) (offset + len_utf8 c) cs)"

definition offset_of :: "utext \<Rightarrow> lsp_position \<Rightarrow> nat option" where
  "offset_of s p =
     (case skip_lines (unat (pos_line p)) 0 s of
        None \<Rightarrow> None
      | Some (start, rest) \<Rightarrow>
          Some (walk_column (unat (pos_character p)) 0 start (takeWhile (\<lambda>c. c \<noteq> line_feed) rest)))"

fun apply_edits :: "utext \<Rightarrow> text_edit list \<Rightarrow> (edit_error + utext) option" where
  "apply_edits result [] = Some (Ok result)"
| "apply_edits result (e # es) =
     (case (offset_of result (te_start e), offset_of result (te_end e)) of
        (Some from, Some to) \<Rightarrow>
          if to < from then Some (Err Reversed_Range)
          else (case replace_range from to (te_new e) result of
                  None \<Rightarrow> None
                | Some next \<Rightarrow> apply_edits next es)
      | _ \<Rightarrow> Some (Err Outside_File))"

section \<open>The reference: positions and edits of the original text\<close>

text \<open>
  The text before and after a position. A column inside a surrogate pair is rounded up; a
  column past the end of its line is no position here.
\<close>

fun locate :: "nat \<Rightarrow> nat \<Rightarrow> utext \<Rightarrow> (utext \<times> utext) option" where
  "locate (Suc line) column [] = None"
| "locate (Suc line) column (c # cs) =
     map_option (apfst (Cons c)) (locate (if c = line_feed then line else Suc line) column cs)"
| "locate 0 column [] = (if column = 0 then Some ([], []) else None)"
| "locate 0 column (c # cs) =
     (if column = 0 then Some ([], c # cs)
      else if c = line_feed then None
      else map_option (apfst (Cons c)) (locate 0 (column - len_utf16 c) cs))"

definition before :: "utext \<Rightarrow> lsp_position \<Rightarrow> utext option" where
  "before s p = map_option fst (locate (unat (pos_line p)) (unat (pos_character p)) s)"

fun edited :: "nat \<Rightarrow> utext \<Rightarrow> (nat \<times> nat \<times> utext) list \<Rightarrow> utext" where
  "edited pos s [] = s"
| "edited pos s ((a, b, new) # es) = take (a - pos) s @ new @ edited b (drop (b - pos) s) es"

definition span :: "utext \<Rightarrow> text_edit \<Rightarrow> (nat \<times> nat \<times> utext) option" where
  "span s e =
     (case (before s (te_start e), before s (te_end e)) of
        (Some p, Some q) \<Rightarrow> Some (length p, length q, te_new e)
      | _ \<Rightarrow> None)"

definition well_placed :: "utext \<Rightarrow> text_edit \<Rightarrow> bool" where
  "well_placed s e \<longleftrightarrow> key (te_start e) \<le> key (te_end e) \<and> span s e \<noteq> None"

lemma locate_append: "locate k col s = Some (p, q) \<Longrightarrow> s = p @ q"
  by (induction k col s arbitrary: p q rule: locate.induct) (auto split: if_splits)

text \<open>A position is determined by the text before it.\<close>

lemma locate_prefix: "locate k col (p @ q) = Some (p, q) \<Longrightarrow> locate k col (p @ r) = Some (p, r)"
proof (induction k col p rule: locate.induct)
  case (1 line column)
  then show ?case
    by (cases q) (auto dest: locate_append)
next
  case (3 column)
  then show ?case
    by (cases q; cases r) (auto split: if_splits dest: locate_append)
qed (auto split: if_splits)

lemma locate_mono:
  "locate k col s = Some (p, q) \<Longrightarrow> locate k' col' s = Some (p', q') \<Longrightarrow> (k, col) \<le> (k', col') \<Longrightarrow>
   length p \<le> length p'"
proof (induction s arbitrary: k col k' col' p q p' q')
  case Nil
  then show ?case
    by (cases k; cases k') (auto split: if_splits)
next
  case (Cons c cs)
  show ?case
  proof (cases k)
    case 0
    show ?thesis
    proof (cases "col = 0")
      case True
      then show ?thesis
        using Cons.prems(1) 0 by simp
    next
      case False
      with Cons.prems(1) 0 obtain p1 where
        p: "p = c # p1" "locate 0 (col - len_utf16 c) cs = Some (p1, q)" "c \<noteq> line_feed"
        by (auto split: if_splits)
      show ?thesis
      proof (cases k')
        case 0
        then show ?thesis
          using Cons.IH [OF p(2)] Cons.prems(2,3) p False \<open>k = 0\<close> by (auto split: if_splits)
      next
        case (Suc j)
        then show ?thesis
          using Cons.IH [OF p(2)] Cons.prems(2) p by (auto split: if_splits)
      qed
    qed
  next
    case (Suc j)
    with Cons.prems(3) obtain j' where "k' = Suc j'"
      by (cases k') auto
    then show ?thesis
      using Cons.IH Cons.prems Suc by (fastforce split: if_splits)
  qed
qed

section \<open>Offsets of positions\<close>

lemma locate_line:
  "locate (Suc k) col s = Some (p, q) \<Longrightarrow>
   \<exists>p' rest. dropWhile (\<lambda>c. c \<noteq> line_feed) s = line_feed # rest \<and> locate k col rest = Some (p', q) \<and>
     p = takeWhile (\<lambda>c. c \<noteq> line_feed) s @ line_feed # p'"
  by (induction s arbitrary: p) (auto split: if_splits)

lemma walk_column_locate:
  "locate 0 (col - units) s = Some (p, q) \<Longrightarrow> units + utf16_len p < 2 ^ 32 \<Longrightarrow>
   walk_column col units off (takeWhile (\<lambda>c. c \<noteq> line_feed) s) = off + byte_len p"
proof (induction s arbitrary: units off p)
  case Nil
  then show ?case
    by (auto split: if_splits)
next
  case (Cons c cs)
  show ?case
  proof (cases "col - units = 0")
    case True
    then show ?thesis
      using Cons.prems by (auto split: if_splits)
  next
    case False
    then obtain p' where p: "p = c # p'" "c \<noteq> line_feed" "locate 0 (col - (units + len_utf16 c)) cs = Some (p', q)"
      using Cons.prems(1) by (auto split: if_splits)
    then show ?thesis
      using Cons.IH [OF p(3)] Cons.prems(2) False by (simp add: add.assoc)
  qed
qed

lemma skip_lines_locate:
  "locate k col s = Some (p, q) \<Longrightarrow>
   \<exists>body p' rest. skip_lines k off s = Some (off + byte_len body, rest) \<and>
     locate 0 col rest = Some (p', q) \<and> p = body @ p'"
proof (induction k arbitrary: s p off)
  case 0
  then show ?case
    by (auto intro: exI [of _ "[]"])
next
  case (Suc k)
  obtain p1 rest where l: "dropWhile (\<lambda>c. c \<noteq> line_feed) s = line_feed # rest"
      "locate k col rest = Some (p1, q)" "p = takeWhile (\<lambda>c. c \<noteq> line_feed) s @ line_feed # p1"
    using locate_line [OF Suc.prems] by blast
  let ?off = "off + byte_len (takeWhile (\<lambda>c. c \<noteq> line_feed) s) + 1"
  obtain body p' r where "skip_lines k ?off rest = Some (?off + byte_len body, r)"
      "locate 0 col r = Some (p', q)" "p1 = body @ p'"
    using Suc.IH [OF l(2)] by blast
  then show ?case
    using l(1,3)
    by (intro exI [of _ "takeWhile (\<lambda>c. c \<noteq> line_feed) s @ line_feed # body"] exI [of _ p'] exI [of _ r])
      (simp add: len_utf8_def)
qed

lemma offset_of_located:
  assumes "before s p = Some t" and "utf16_len t < 2 ^ 32"
  shows "offset_of s p = Some (byte_len t)" and "\<exists>r. s = t @ r"
proof -
  obtain q where l: "locate (unat (pos_line p)) (unat (pos_character p)) s = Some (t, q)"
    using assms(1) by (auto simp: before_def)
  show "\<exists>r. s = t @ r"
    using locate_append [OF l] by blast
  obtain body t' rest where b: "skip_lines (unat (pos_line p)) 0 s = Some (byte_len body, rest)"
      "locate 0 (unat (pos_character p)) rest = Some (t', q)" "t = body @ t'"
    using skip_lines_locate [OF l, of 0] by auto
  have "walk_column (unat (pos_character p)) 0 (byte_len body) (takeWhile (\<lambda>c. c \<noteq> line_feed) rest)
      = byte_len body + byte_len t'"
    using b assms(2) by (intro walk_column_locate [of _ _ _ _ q]) simp_all
  then show "offset_of s p = Some (byte_len t)"
    using b by (simp add: offset_of_def)
qed

text \<open>Text after a position may change without moving it.\<close>

lemma before_stable: "before (t @ r) p = Some t \<Longrightarrow> before (t @ r') p = Some t"
  using locate_prefix locate_append by (fastforce simp: before_def)

lemma before_mono:
  "before s p = Some t \<Longrightarrow> before s p' = Some t' \<Longrightarrow> key p \<le> key p' \<Longrightarrow> length t \<le> length t'"
  using locate_mono by (fastforce simp: before_def key_def)

lemma before_take: "before s p = Some t \<Longrightarrow> t = take (length t) s"
  using locate_append by (fastforce simp: before_def)

lemma utf16_len_take: "utf16_len (take n s) \<le> utf16_len s"
  by (metis append_take_drop_id le_add1 text_len_simps(6))

section \<open>Applying ordered edits is editing the original text at once\<close>

lemma replace_range_located:
  assumes "a \<le> b" and "b \<le> length s"
  shows "replace_range (byte_len (take a s)) (byte_len (take b s)) new s = Some (take a s @ new @ drop b s)"
proof -
  have "boundary (byte_len (take a s)) s = Some a" "boundary (byte_len (take b s)) s = Some b"
    using boundary_append [of "take a s" "drop a s"] boundary_append [of "take b s" "drop b s"] assms
    by (simp_all add: min_def)
  moreover have "byte_len (take a s) \<le> byte_len (take b s)"
  proof -
    have "take b s = take a s @ take (b - a) (drop a s)"
      using assms(1) by (metis le_add_diff_inverse take_add)
    then show ?thesis
      by simp
  qed
  ultimately show ?thesis
    by (simp add: replace_range_def)
qed

lemma apply_edits_append:
  "apply_edits s (es @ fs) =
     (case apply_edits s es of Some (Inr t) \<Rightarrow> apply_edits t fs | r \<Rightarrow> r)"
  by (induction s es rule: apply_edits.induct) (simp_all split: option.split sum.split)

text \<open>The edits are in place: their spans follow one another from an index on.\<close>

fun chained :: "utext \<Rightarrow> nat \<Rightarrow> text_edit list \<Rightarrow> bool" where
  "chained s n [] \<longleftrightarrow> True"
| "chained s n (e # es) \<longleftrightarrow>
     (\<exists>p q. before s (te_start e) = Some p \<and> before s (te_end e) = Some q \<and>
       n \<le> length p \<and> length p \<le> length q \<and> chained s (length q) es)"

lemma chained_apply:
  assumes "utf16_len s < 2 ^ 32"
  shows "chained s n es \<Longrightarrow> n \<le> length s \<Longrightarrow>
    apply_edits s (rev es) = Some (Ok (take n s @ edited n (drop n s) (map (\<lambda>e. the (span s e)) es)))"
proof (induction es arbitrary: n)
  case (Cons e es)
  then obtain p q where
    pq: "before s (te_start e) = Some p" "before s (te_end e) = Some q" "n \<le> length p" "length p \<le> length q"
      "chained s (length q) es"
    by auto
  have pt: "p = take (length p) s" and qt: "q = take (length q) s"
    using pq before_take by blast+
  have ql: "length q \<le> length s"
    using qt by (metis length_take min.cobounded1)
  let ?tail = "edited (length q) (drop (length q) s) (map (\<lambda>e. the (span s e)) es)"
  let ?t = "q @ ?tail"
  have IH: "apply_edits s (rev es) = Some (Ok ?t)"
    using Cons.IH [OF pq(5) ql] qt by simp
  have sq: "s = q @ drop (length q) s" and qp: "q = p @ drop (length p) q"
    using pt qt pq(4) by (metis append_take_drop_id, metis append_take_drop_id min.absorb1 take_take)
  have "before ?t (te_end e) = Some q"
    using before_stable pq(2) sq by metis
  moreover have "before ?t (te_start e) = Some p"
    using before_stable [of p "drop (length p) q @ drop (length q) s" "te_start e"] pq(1) sq qp by (metis append_assoc)
  moreover have "utf16_len p < 2 ^ 32" "utf16_len q < 2 ^ 32"
    using assms pt qt utf16_len_take by (metis le_less_trans)+
  ultimately have off: "offset_of ?t (te_start e) = Some (byte_len p)" "offset_of ?t (te_end e) = Some (byte_len q)"
    using offset_of_located(1) by blast+
  have tp: "take (length p) ?t = p" and tq: "take (length q) ?t = q"
    using qp by (metis append_assoc append_eq_conv_conj, simp)
  have "byte_len p \<le> byte_len q"
    using qp by (metis le_add1 text_len_simps(3))
  moreover have "replace_range (byte_len p) (byte_len q) (te_new e) ?t = Some (p @ te_new e @ ?tail)"
    using replace_range_located [of "length p" "length q" ?t "te_new e"] pq(4) tp tq by simp
  ultimately have "apply_edits ?t [e] = Some (Ok (p @ te_new e @ ?tail))"
    using off by simp
  moreover have "p @ te_new e @ ?tail = take n s @ edited n (drop n s) (map (\<lambda>e. the (span s e)) (e # es))"
  proof -
    have "p = take n s @ take (length p - n) (drop n s)"
      using pt pq(3) by (metis le_add_diff_inverse take_add)
    then show ?thesis
      using pq by (simp add: span_def)
  qed
  ultimately show ?case
    using IH by (simp add: apply_edits_append)
qed simp

lemma placed_chained:
  "\<not> overlapping es \<Longrightarrow> \<forall>e\<in>set es. well_placed s e \<Longrightarrow>
   es \<noteq> [] \<Longrightarrow> n \<le> length (the (before s (te_start (hd es)))) \<Longrightarrow> chained s n es"
proof (induction es arbitrary: n rule: overlapping.induct)
  case (1 e f es)
  have "span s e \<noteq> None" "span s f \<noteq> None" and ke: "key (te_start e) \<le> key (te_end e)"
    using 1 by (auto simp: well_placed_def)
  then obtain p q p' where pq: "before s (te_start e) = Some p" "before s (te_end e) = Some q"
      "before s (te_start f) = Some p'"
    by (auto simp: span_def split: option.splits)
  have "key (te_end e) \<le> key (te_start f)"
    using 1(2) by (simp add: not_less)
  then have "length q \<le> length p'" and "length p \<le> length q"
    using before_mono pq ke by blast+
  then show ?case
    using 1 pq by simp
next
  case (2 e)
  then have "span s e \<noteq> None" and "key (te_start e) \<le> key (te_end e)"
    by (auto simp: well_placed_def)
  then show ?case
    using 2 before_mono by (auto simp: span_def split: option.splits)
qed simp

text \<open>
  If the edits of an answer are accepted and each names a range of the text, applying them
  in the given order, each in the text the ones before it left, replaces all ranges of the
  original text at once; no offset falls between the bytes of a character.\<close>

theorem edits_apply_at_once:
  assumes "in_apply_order es = Inr ordered" and "list_all (well_placed s) es" and "utf16_len s < 2 ^ 32"
  shows "apply_edits s ordered =
    Some (Inr (edited 0 s (map (\<lambda>e. the (span s e)) (sort_key (\<lambda>e. key (te_start e)) es))))"
proof -
  let ?es = "sort_key (\<lambda>e. key (te_start e)) es"
  have o: "ordered = rev ?es" and n: "\<not> overlapping ?es"
    using assms(1) by (auto simp: in_apply_order_def Let_def split: if_splits)
  have "chained s 0 ?es"
  proof (cases "?es = []")
    case False
    then show ?thesis
      using placed_chained [OF n, of s 0] assms(2) by (simp add: list_all_iff)
  qed simp
  then show ?thesis
    using chained_apply [OF assms(3), of 0 ?es] o by simp
qed

definition edit_at :: "32 word \<Rightarrow> 32 word \<Rightarrow> 32 word \<Rightarrow> utext \<Rightarrow> text_edit" where
  "edit_at line a b new =
     \<lparr>te_start = \<lparr>pos_line = line, pos_character = a\<rparr>, te_end = \<lparr>pos_line = line, pos_character = b\<rparr>, te_new = new\<rparr>"

theorem edits_apply_at_once_witness:
  "apply_edits [233, 0x1F600, 120, 10, 97] [edit_at 1 0 1 [122], edit_at 0 3 4 [89]] =
    Some (Inr (edited 0 [233, 0x1F600, 120, 10, 97]
      (map (\<lambda>e. the (span [233, 0x1F600, 120, 10, 97] e))
        (sort_key (\<lambda>e. key (te_start e)) [edit_at 0 3 4 [89], edit_at 1 0 1 [122]]))))"
  by (rule edits_apply_at_once)
    (simp_all add: in_apply_order_def max_edits_def edit_at_def key_def well_placed_def span_def before_def
      utf16_len_def len_utf16_def)

text \<open>
  A column past the end of its line stops at the line end, and that end moves with the edits
  applied before: two insertions past the end of a line come out in the wrong order.
\<close>

lemma clamped_columns_reorder:
  "in_apply_order [edit_at 0 5 5 [65], edit_at 0 9 9 [66]] = Inr [edit_at 0 9 9 [66], edit_at 0 5 5 [65]]"
  "apply_edits [97, 98] [edit_at 0 9 9 [66], edit_at 0 5 5 [65]] = Some (Inr [97, 98, 66, 65])"
  by (simp_all add: in_apply_order_def max_edits_def edit_at_def key_def offset_of_def replace_range_def len_utf8_def
      len_utf16_def)

section \<open>Workspace edits\<close>

datatype one_of = Plain_Edit text_edit | Annotated_Edit text_edit string

datatype document_changes = Doc_Edits "(string \<times> one_of list) list" | Doc_Operations

record workspace_edits =
  we_changes :: "(string \<times> text_edit list) list option"
  we_document_changes :: "document_changes option"

record file_edits =
  fe_path :: string
  fe_edits :: "text_edit list"

fun plain :: "one_of \<Rightarrow> text_edit" where
  "plain (Plain_Edit e) = e"
| "plain (Annotated_Edit e annotation) = e"

fun add_edits :: "string \<times> text_edit list \<Rightarrow> (string \<times> text_edit list) list \<Rightarrow> (string \<times> text_edit list) list" where
  "add_edits (uri, es) [] = [(uri, es)]"
| "add_edits (uri, es) ((known, ks) # rest) =
     (if known = uri then (known, ks @ es) # rest else (known, ks) # add_edits (uri, es) rest)"

fun read_files :: "(string \<Rightarrow> string option) \<Rightarrow> (string \<times> text_edit list) list \<Rightarrow> edit_error + file_edits list" where
  "read_files relative [] = Ok []"
| "read_files relative ((uri, es) # rest) =
     (case relative uri of
        None \<Rightarrow> Err Outside_Project
      | Some path \<Rightarrow>
          and_then (in_apply_order es) (\<lambda>ordered.
          and_then (read_files relative rest) (\<lambda>files.
            Ok (\<lparr>fe_path = path, fe_edits = ordered\<rparr> # files))))"

definition workspace_edit ::
  "('v \<Rightarrow> workspace_edits option option) \<Rightarrow> (string \<Rightarrow> string option) \<Rightarrow> 'v \<Rightarrow> edit_error + file_edits list" where
  "workspace_edit from_value relative answer =
     (case from_value answer of
        None \<Rightarrow> Err Not_Understood
      | Some None \<Rightarrow> Ok []
      | Some (Some we) \<Rightarrow>
          (let by_uri = fold add_edits (case we_changes we of None \<Rightarrow> [] | Some cs \<Rightarrow> cs) []
           in case we_document_changes we of
                Some Doc_Operations \<Rightarrow> Err File_Operations
              | Some (Doc_Edits ds) \<Rightarrow>
                  (let by_uri = fold (\<lambda>(uri, es). add_edits (uri, map plain es)) ds by_uri
                   in if max_files < length by_uri then Err Too_Many_Files else read_files relative by_uri)
              | None \<Rightarrow>
                  if max_files < length by_uri then Err Too_Many_Files else read_files relative by_uri))"

text \<open>What an answer asks for: the files in the order they are first named, and per file all edits.\<close>

definition requested :: "workspace_edits \<Rightarrow> (string \<times> text_edit list) list" where
  "requested we =
     (case we_changes we of None \<Rightarrow> [] | Some cs \<Rightarrow> cs) @
     (case we_document_changes we of
        Some (Doc_Edits ds) \<Rightarrow> map (\<lambda>(uri, es). (uri, map plain es)) ds
      | _ \<Rightarrow> [])"

definition named_files :: "(string \<times> text_edit list) list \<Rightarrow> string list" where
  "named_files rs = rev (remdups (rev (map fst rs)))"

definition edits_of :: "(string \<times> text_edit list) list \<Rightarrow> string \<Rightarrow> text_edit list" where
  "edits_of rs uri = concat (map snd (filter (\<lambda>r. fst r = uri) rs))"

lemma add_edits_grouped:
  "distinct us \<Longrightarrow> add_edits (u, es) (map (\<lambda>v. (v, f v)) us) =
     (if u \<in> set us then map (\<lambda>v. (v, if v = u then f v @ es else f v)) us
      else map (\<lambda>v. (v, f v)) us @ [(u, es)])"
  by (induction us) auto

lemma fold_add_edits:
  "fold add_edits rs [] = map (\<lambda>u. (u, edits_of rs u)) (named_files rs)"
proof (induction rs rule: rev_induct)
  case Nil
  then show ?case
    by (simp add: named_files_def)
next
  case (snoc r rs)
  obtain u es where r: "r = (u, es)"
    by (cases r)
  have e: "edits_of (rs @ [r]) v = (if v = u then edits_of rs v @ es else edits_of rs v)" for v
    by (simp add: edits_of_def r)
  have "u \<notin> set (named_files rs) \<Longrightarrow> edits_of rs u = []"
    by (force simp: named_files_def edits_of_def)
  moreover have "named_files (rs @ [r]) = (if u \<in> set (named_files rs) then named_files rs else named_files rs @ [u])"
    by (simp add: named_files_def r)
  moreover have "distinct (named_files rs)"
    by (simp add: named_files_def)
  ultimately show ?case
    using snoc by (auto simp: add_edits_grouped r e [unfolded r])
qed

lemma read_files_Ok_iff:
  "read_files relative (map (\<lambda>u. (u, f u)) us) = Ok files \<longleftrightarrow>
   list_all2 (\<lambda>u file. relative u = Some (fe_path file) \<and> in_apply_order (f u) = Ok (fe_edits file)) us files"
proof (induction us arbitrary: files)
  case (Cons u us)
  then show ?case
    by (cases files; cases "relative u"; auto simp: and_then_Inr_iff)
qed auto

text \<open>
  A workspace edit is accepted as a whole or refused: it is accepted exactly when it asks
  for no file operation, names at most 500 files, all inside the project, and the edits of each
  do not overlap; then every named file comes once, with all edits asked for it in whatever
  part of the answer, in the order they are to be applied.\<close>

theorem workspace_edit_all_or_nothing:
  "workspace_edit from_value relative answer = Inr files \<longleftrightarrow>
     (from_value answer = Some None \<and> files = []) \<or>
     (\<exists>we. from_value answer = Some (Some we) \<and> we_document_changes we \<noteq> Some Doc_Operations \<and>
        length (named_files (requested we)) \<le> max_files \<and>
        list_all2 (\<lambda>u file. relative u = Some (fe_path file) \<and>
            in_apply_order (edits_of (requested we) u) = Inr (fe_edits file))
          (named_files (requested we)) files)"
proof (cases "from_value answer")
  case (Some d)
  show ?thesis
  proof (cases d)
    case (Some we)
    have docs: "fold (\<lambda>(uri, es). add_edits (uri, map plain es)) ds g
        = fold add_edits (map (\<lambda>(uri, es). (uri, map plain es)) ds) g" for ds g
      by (simp add: fold_map comp_def case_prod_unfold)
    have "workspace_edit from_value relative answer =
        (if we_document_changes we = Some Doc_Operations then Err File_Operations
         else if max_files < length (fold add_edits (requested we) []) then Err Too_Many_Files
         else read_files relative (fold add_edits (requested we) []))"
      using \<open>from_value answer = Some d\<close> Some
      by (simp add: workspace_edit_def requested_def docs Let_def split: option.split document_changes.split)
    then show ?thesis
      using \<open>from_value answer = Some d\<close> Some
      by (simp add: fold_add_edits read_files_Ok_iff not_less)
  qed (use Some in \<open>auto simp: workspace_edit_def\<close>)
qed (auto simp: workspace_edit_def)

section \<open>The word under the cursor\<close>

fun with_units :: "nat \<Rightarrow> utext \<Rightarrow> (nat \<times> uchar) list" where
  "with_units units [] = []"
| "with_units units (c # cs) = (units, c) # with_units ((units + len_utf16 c) mod 2 ^ 32) cs"

definition rposition :: "('a \<Rightarrow> bool) \<Rightarrow> 'a list \<Rightarrow> nat option" where
  "rposition p xs = map_option (\<lambda>i. length xs - 1 - i) (position p (rev xs))"

fun widen_left :: "('a \<Rightarrow> bool) \<Rightarrow> 'a list \<Rightarrow> nat \<Rightarrow> nat" where
  "widen_left p xs 0 = 0"
| "widen_left p xs (Suc i) = (if p (xs ! i) then widen_left p xs i else Suc i)"

function widen_right :: "('a \<Rightarrow> bool) \<Rightarrow> 'a list \<Rightarrow> nat \<Rightarrow> nat" where
  "widen_right p xs i = (if i + 1 < length xs \<and> p (xs ! (i + 1)) then widen_right p xs (i + 1) else i)"
  by pat_completeness auto

termination widen_right
  by (relation "measure (\<lambda>(p, xs, i). length xs - i)") auto

declare widen_right.simps [simp del]

definition word_index :: "(uchar \<Rightarrow> bool) \<Rightarrow> (nat \<times> uchar) list \<Rightarrow> nat \<Rightarrow> nat option" where
  "word_index is_word characters column =
     (case (case position (\<lambda>(start, c). column \<le> start \<and> is_word c) characters of
              Some i \<Rightarrow> if fst (characters ! i) = column then Some i else None
            | None \<Rightarrow> None) of
        Some i \<Rightarrow> Some i
      | None \<Rightarrow> rposition (\<lambda>(start, c). is_word c \<and> (start + len_utf16 c) mod 2 ^ 32 = column) characters)"

definition word_at :: "(uchar \<Rightarrow> bool) \<Rightarrow> utext \<Rightarrow> 32 word \<Rightarrow> utext option" where
  "word_at is_alphanumeric line column =
     (let is_word = (\<lambda>c. is_alphanumeric c \<or> c = 95);
          characters = with_units 0 line
      in case word_index is_word characters (unat column) of
           None \<Rightarrow> None
         | Some i \<Rightarrow>
             let from = widen_left (is_word \<circ> snd) characters i;
                 to = widen_right (is_word \<circ> snd) characters i
             in Some (map snd (take (to + 1 - from) (drop from characters))))"

text \<open>
  The reference: characters \<open>a\<close> to \<open>b\<close> (exclusive) are a maximal word, and the column is at one
  of its characters or at its end.
\<close>

definition word_run :: "(uchar \<Rightarrow> bool) \<Rightarrow> utext \<Rightarrow> nat \<Rightarrow> nat \<Rightarrow> nat \<Rightarrow> bool" where
  "word_run is_word line column a b \<longleftrightarrow>
     a < b \<and> b \<le> length line \<and> (\<forall>i\<in>{a..<b}. is_word (line ! i)) \<and>
     (a = 0 \<or> \<not> is_word (line ! (a - 1))) \<and> (b = length line \<or> \<not> is_word (line ! b)) \<and>
     (\<exists>k\<in>{a..b}. utf16_len (take k line) = column)"

lemma length_with_units [simp]: "length (with_units u s) = length s"
  by (induction u s rule: with_units.induct) auto

lemma nth_with_units:
  "i < length s \<Longrightarrow> u + utf16_len s < 2 ^ 32 \<Longrightarrow> with_units u s ! i = (u + utf16_len (take i s), s ! i)"
proof (induction s arbitrary: i u)
  case (Cons c s)
  then show ?case
    by (cases i) (simp_all add: add.assoc)
qed simp

lemma snd_with_units [simp]: "map snd (with_units u s) = s"
  by (induction u s rule: with_units.induct) auto

lemma widen_left_spec:
  "widen_left p xs i \<le> i \<and> (\<forall>j. widen_left p xs i \<le> j \<and> j < i \<longrightarrow> p (xs ! j)) \<and>
   (0 < widen_left p xs i \<longrightarrow> \<not> p (xs ! (widen_left p xs i - 1)))"
  by (induction p xs i rule: widen_left.induct) (auto simp: less_Suc_eq le_Suc_eq)

lemma widen_right_spec:
  "i < length xs \<Longrightarrow> i \<le> widen_right p xs i \<and> widen_right p xs i < length xs \<and>
   (\<forall>j. i < j \<and> j \<le> widen_right p xs i \<longrightarrow> p (xs ! j)) \<and>
   (widen_right p xs i + 1 < length xs \<longrightarrow> \<not> p (xs ! (widen_right p xs i + 1)))"
proof (induction p xs i rule: widen_right.induct)
  case (1 p xs i)
  show ?case
  proof (cases "i + 1 < length xs \<and> p (xs ! (i + 1))")
    case True
    then have "widen_right p xs i = widen_right p xs (i + 1)"
      by (subst widen_right.simps) simp
    moreover have IH: "i + 1 \<le> widen_right p xs (i + 1)" "widen_right p xs (i + 1) < length xs"
        "\<And>j. i + 1 < j \<Longrightarrow> j \<le> widen_right p xs (i + 1) \<Longrightarrow> p (xs ! j)"
        "widen_right p xs (i + 1) + 1 < length xs \<Longrightarrow> \<not> p (xs ! (widen_right p xs (i + 1) + 1))"
      using 1(1) [OF True] True by blast+
    moreover have "p (xs ! j)" if "i < j" "j \<le> widen_right p xs (i + 1)" for j
      using IH(3) True that by (cases "j = i + 1") simp_all
    ultimately show ?thesis
      by simp
  next
    case False
    then have "widen_right p xs i = i"
      by (subst widen_right.simps) auto
    then show ?thesis
      using False 1(2) by auto
  qed
qed

lemma rposition_Some: "rposition p xs = Some i \<Longrightarrow> i < length xs \<and> p (xs ! i)"
proof -
  assume "rposition p xs = Some i"
  then obtain k where k: "position p (rev xs) = Some k" "i = length xs - 1 - k"
    by (auto simp: rposition_def)
  then have "k < length xs" and "p (rev xs ! k)"
    using position_Some [OF k(1)] by simp_all
  then show ?thesis
    using k(2) rev_nth [of k xs] by simp
qed

lemma rposition_None: "rposition p xs = None \<longleftrightarrow> (\<forall>x\<in>set xs. \<not> p x)"
  by (simp add: rposition_def position_None_iff)

lemma utf16_len_take_mono: "i \<le> j \<Longrightarrow> utf16_len (take i s) \<le> utf16_len (take j s)"
  by (metis min.absorb1 take_take utf16_len_take)

lemma utf16_len_take_Suc: "i < length s \<Longrightarrow> utf16_len (take (Suc i) s) = utf16_len (take i s) + len_utf16 (s ! i)"
  by (simp add: take_Suc_conv_app_nth)


lemma word_index_Some:
  assumes "word_index P (with_units 0 s) col = Some i" and "utf16_len s < 2 ^ 32"
  shows "i < length s \<and> P (s ! i) \<and> (utf16_len (take i s) = col \<or> utf16_len (take (Suc i) s) = col)"
proof -
  let ?cs = "with_units 0 s"
  consider (ahead) "position (\<lambda>(start, c). col \<le> start \<and> P c) ?cs = Some i" "fst (?cs ! i) = col"
    | (behind) "rposition (\<lambda>(start, c). P c \<and> (start + len_utf16 c) mod 2 ^ 32 = col) ?cs = Some i"
    using assms(1) by (auto simp: word_index_def split: option.splits if_splits)
  then show ?thesis
  proof cases
    case ahead
    then have "i < length s" "P (snd (?cs ! i))"
      using position_Some [OF ahead(1)] by (simp_all add: case_prod_unfold)
    then show ?thesis
      using ahead(2) nth_with_units [of i s 0] assms(2) by simp
  next
    case behind
    then have i: "i < length s" "P (snd (?cs ! i))" "(fst (?cs ! i) + len_utf16 (snd (?cs ! i))) mod 2 ^ 32 = col"
      using rposition_Some [OF behind] by (simp_all add: case_prod_unfold)
    moreover have "utf16_len (take (Suc i) s) < 2 ^ 32"
      using assms(2) utf16_len_take [of "Suc i" s] by linarith
    ultimately show ?thesis
      using nth_with_units [of i s 0] assms(2) by (simp add: utf16_len_take_Suc)
  qed
qed

lemma word_index_None:
  assumes "word_index P (with_units 0 s) col = None" and "utf16_len s < 2 ^ 32"
    and i: "i < length s" "P (s ! i)"
  shows "utf16_len (take i s) \<noteq> col" and "utf16_len (take (Suc i) s) \<noteq> col"
proof -
  let ?cs = "with_units 0 s"
  let ?front = "\<lambda>(start, c). col \<le> start \<and> P c"
  have ci: "?cs ! i = (utf16_len (take i s), s ! i)" "?cs ! i \<in> set ?cs"
    using nth_with_units [of i s 0] assms(2) i nth_mem [of i ?cs] by simp_all
  have behind: "rposition (\<lambda>(start, c). P c \<and> (start + len_utf16 c) mod 2 ^ 32 = col) ?cs = None"
    and ahead: "\<And>j. position ?front ?cs = Some j \<Longrightarrow> fst (?cs ! j) \<noteq> col"
    using assms(1) by (auto simp: word_index_def split: option.splits if_splits)
  have "utf16_len (take (Suc i) s) < 2 ^ 32"
    using assms(2) utf16_len_take [of "Suc i" s] by linarith
  then show "utf16_len (take (Suc i) s) \<noteq> col"
    using behind [unfolded rposition_None, THEN bspec, OF ci(2)] ci(1) i by (simp add: utf16_len_take_Suc)
  show "utf16_len (take i s) \<noteq> col"
  proof
    assume c: "utf16_len (take i s) = col"
    then have "position ?front ?cs \<noteq> None"
      using ci i by (auto simp: position_None_iff)
    then obtain j where j: "position ?front ?cs = Some j"
      by auto
    have "j \<le> i"
      using position_Some_first [OF j, of i] ci(1) c i by (metis (mono_tags, lifting) case_prod_conv le_refl linorder_not_le)
    moreover have "j < length s" "col \<le> fst (?cs ! j)"
      using position_Some [OF j] by (simp_all add: case_prod_unfold)
    ultimately have "fst (?cs ! j) = col"
      using nth_with_units [of j s 0] assms(2) utf16_len_take_mono [of j i s] c by simp
    then show False
      using ahead [OF j] by simp
  qed
qed

lemma word_run_unique:
  assumes "word_run P s col a b" and "word_run P s col a' b'"
  shows "a = a'" and "b = b'"
proof -
  have strict: "i < j \<Longrightarrow> j \<le> length s \<Longrightarrow> utf16_len (take i s) < utf16_len (take j s)" for i j
    using utf16_len_take_mono [of "Suc i" j s] utf16_len_take_Suc [of i s] len_pos(2) [of "s ! i"]
    by linarith
  obtain k k' where k: "k \<in> {a..b}" "utf16_len (take k s) = col" "k' \<in> {a'..b'}" "utf16_len (take k' s) = col"
    using assms by (auto simp: word_run_def)
  have "b \<le> length s" "b' \<le> length s"
    using assms by (auto simp: word_run_def)
  then have kk: "k = k'"
    using strict k by (metis atLeastAtMost_iff le_trans less_irrefl linorder_neqE_nat)
  have left: "\<not> c < c'" if "word_run P s col c d" "word_run P s col c' d'" "k \<in> {c..d}" "k \<in> {c'..d'}" for c d c' d'
  proof
    assume "c < c'"
    then have "\<not> P (s ! (c' - 1))" "c \<le> c' - 1" "c' - 1 < d"
      using that by (auto simp: word_run_def)
    then show False
      using that(1) by (simp add: word_run_def)
  qed
  have right: "\<not> d < d'" if "word_run P s col c d" "word_run P s col c' d'" "k \<in> {c..d}" "k \<in> {c'..d'}" for c d c' d'
  proof
    assume "d < d'"
    then have "\<not> P (s ! d)" "c' \<le> d"
      using that by (auto simp: word_run_def)
    then show False
      using that(2) \<open>d < d'\<close> by (simp add: word_run_def)
  qed
  show "a = a'" and "b = b'"
    using left right assms k kk by (metis linorder_neqE_nat)+
qed

lemma word_at_run:
  assumes "utf16_len line < 2 ^ 32" and "word_index P (with_units 0 line) (unat column) = Some i"
    and "P = (\<lambda>c. is_alphanumeric c \<or> c = 95)"
  shows "\<exists>a b. word_run P line (unat column) a b \<and>
    word_at is_alphanumeric line column = Some (take (b - a) (drop a line))"
proof -
  let ?cs = "with_units 0 line"
  let ?a = "widen_left (P \<circ> snd) ?cs i"
  let ?b = "widen_right (P \<circ> snd) ?cs i + 1"
  have i: "i < length line" "P (line ! i)"
      "utf16_len (take i line) = unat column \<or> utf16_len (take (Suc i) line) = unat column"
    using word_index_Some [OF assms(2,1)] by blast+
  have l: "?a \<le> i" "\<And>j. ?a \<le> j \<Longrightarrow> j < i \<Longrightarrow> P (snd (?cs ! j))" "0 < ?a \<Longrightarrow> \<not> P (snd (?cs ! (?a - 1)))"
    using widen_left_spec [of "P \<circ> snd" ?cs i] by simp_all
  have r: "i < ?b" "?b \<le> length line" "\<And>j. i < j \<Longrightarrow> j < ?b \<Longrightarrow> P (snd (?cs ! j))"
      "?b < length line \<Longrightarrow> \<not> P (snd (?cs ! ?b))"
    using widen_right_spec [of i ?cs "P \<circ> snd"] i(1) by (simp_all add: less_Suc_eq_le)
  have nth: "snd (?cs ! j) = line ! j" if "j < length line" for j
    using nth_with_units [of j line 0] assms(1) that by simp
  have "P (line ! j)" if "j \<in> {?a..<?b}" for j
  proof -
    have "j < length line"
      using that r(2) by simp
    then show ?thesis
      using l(2) [of j] r(3) [of j] i(2) nth [of j] that by (cases "j < i"; cases "j = i") simp_all
  qed
  moreover have "?a = 0 \<or> \<not> P (line ! (?a - 1))"
    using l(1,3) nth [of "?a - 1"] i(1) by (cases "?a = 0") simp_all
  moreover have "?b = length line \<or> \<not> P (line ! ?b)"
    using r(2,4) nth [of ?b] by (cases "?b = length line") simp_all
  moreover have "\<exists>k\<in>{?a..?b}. utf16_len (take k line) = unat column"
    using i(3) l(1) r(1) by (meson Suc_leI atLeastAtMost_iff le_SucI less_imp_le_nat)
  ultimately have "word_run P line (unat column) ?a ?b"
    using l(1) r(1,2) by (simp add: word_run_def)
  moreover have "word_at is_alphanumeric line column = Some (take (?b - ?a) (drop ?a line))"
    using assms(2) by (simp add: word_at_def assms(3) Let_def flip: take_map drop_map)
  ultimately show ?thesis
    by blast
qed

text \<open>
  C34: On a line of fewer than \<open>2 ^ 32\<close> UTF-16 units the lookup returns exactly the maximal run
  of word characters the column is in or at an end of, and nothing when there is none.\<close>

theorem word_at_exact:
  assumes "utf16_len line < 2 ^ 32"
  shows "word_at is_alphanumeric line column = Some w \<longleftrightarrow>
    (\<exists>a b. word_run (\<lambda>c. is_alphanumeric c \<or> c = 95) line (unat column) a b \<and> w = take (b - a) (drop a line))"
proof (cases "word_index (\<lambda>c. is_alphanumeric c \<or> c = 95) (with_units 0 line) (unat column)")
  case None
  let ?P = "\<lambda>c. is_alphanumeric c \<or> c = 95"
  have "\<not> word_run ?P line (unat column) a b" for a b
  proof
    assume r: "word_run ?P line (unat column) a b"
    then obtain k where k: "a \<le> k" "k \<le> b" "utf16_len (take k line) = unat column"
      by (auto simp: word_run_def)
    show False
    proof (cases "k < b")
      case True
      then show ?thesis
        using word_index_None(1) [OF None assms, of k] r k by (simp add: word_run_def)
    next
      case False
      moreover have "a < b" "b \<le> length line" "\<forall>i\<in>{a..<b}. ?P (line ! i)"
        using r by (simp_all add: word_run_def)
      ultimately have "b - 1 < length line" "?P (line ! (b - 1))" "utf16_len (take (Suc (b - 1)) line) = unat column"
        using k by simp_all
      then show ?thesis
        using word_index_None(2) [OF None assms, of "b - 1"] by blast
    qed
  qed
  moreover have "word_at is_alphanumeric line column = None"
    using None by (simp add: word_at_def Let_def)
  ultimately show ?thesis
    by simp
next
  case (Some i)
  then show ?thesis
    using word_at_run [OF assms Some refl] word_run_unique by (metis option.inject)
qed

theorem word_at_exact_witness:
  "word_at (\<lambda>c. 97 \<le> c) [32, 97, 98, 32] 3 = Some ([97, 98] :: utext) \<longleftrightarrow>
    (\<exists>a b. word_run (\<lambda>c. 97 \<le> c \<or> c = 95) [32, 97, 98, 32] (unat (3 :: 32 word)) a b \<and>
       ([97, 98] :: utext) = take (b - a) (drop a [32, 97, 98, 32]))"
  by (rule word_at_exact) (simp add: len_utf16_def)

end
