(* ===== verification/Replace_Text.thy ===== *)
theory Replace_Text
  imports Text_Edits Project_Files
begin

text \<open>
  Project-wide replacement (\<open>rwk-core/src/replace.rs\<close>): the one change that turns a text into
  another, and the run over the files a search named. The compiled pattern is a parameter: the
  function that replaces all its matches in a text and counts them. A slice off a character
  boundary would panic: \<open>None\<close>.
\<close>

section \<open>The change between two texts\<close>

record change =
  ch_start :: "32 word \<times> 32 word"
  ch_end :: "32 word \<times> 32 word"
  ch_text :: utext

definition last_line :: "utext \<Rightarrow> utext" where
  "last_line s = rev (takeWhile (\<lambda>c. c \<noteq> line_feed) (rev s))"

definition position_in :: "utext \<Rightarrow> nat \<Rightarrow> (32 word \<times> 32 word) option" where
  "position_in s offset =
     (case boundary offset s of
        None \<Rightarrow> None
      | Some k \<Rightarrow>
          let before = take k s
          in Some (of_nat (count_list before line_feed), of_nat (utf16_len (last_line before))))"

definition is_char_boundary :: "utext \<Rightarrow> nat \<Rightarrow> bool" where
  "is_char_boundary s offset \<longleftrightarrow> boundary offset s \<noteq> None"

fun common_start :: "nat list \<Rightarrow> nat list \<Rightarrow> nat" where
  "common_start (a # as) (b # bs) = (if a = b then Suc (common_start as bs) else 0)"
| "common_start [] bs = 0"
| "common_start as [] = 0"

text \<open>\<open>while !p(n) { n -= 1 }\<close>\<close>

fun back_off :: "(nat \<Rightarrow> bool) \<Rightarrow> nat \<Rightarrow> nat" where
  "back_off p 0 = 0"
| "back_off p (Suc n) = (if p (Suc n) then Suc n else back_off p n)"

definition single_change :: "utext \<Rightarrow> utext \<Rightarrow> change option option" where
  "single_change old new =
     (if old = new then Some None
      else
        let old_len = byte_len old;
            new_len = byte_len new;
            start = back_off (\<lambda>k. is_char_boundary old k \<and> is_char_boundary new k)
                      (common_start (encode old) (encode new));
            max_tail = min old_len new_len - start;
            tail = back_off (\<lambda>k. is_char_boundary old (old_len - k) \<and> is_char_boundary new (new_len - k))
                     (common_start (take max_tail (rev (encode old))) (take max_tail (rev (encode new))))
        in case (position_in old start, position_in old (old_len - tail),
                 boundary start new, boundary (new_len - tail) new) of
             (Some from, Some to, Some a, Some b) \<Rightarrow>
               Some (Some \<lparr>ch_start = from, ch_end = to, ch_text = take (b - a) (drop a new)\<rparr>)
           | _ \<Rightarrow> None)"

definition as_edit :: "change \<Rightarrow> text_edit" where
  "as_edit ch =
     \<lparr>te_start = \<lparr>pos_line = fst (ch_start ch), pos_character = snd (ch_start ch)\<rparr>,
      te_end = \<lparr>pos_line = fst (ch_end ch), pos_character = snd (ch_end ch)\<rparr>,
      te_new = ch_text ch\<rparr>"

lemma common_start_take: "take (common_start xs ys) xs = take (common_start xs ys) ys"
  by (induction xs ys rule: common_start.induct) auto

lemma common_start_le: "common_start xs ys \<le> length xs" "common_start xs ys \<le> length ys"
  by (induction xs ys rule: common_start.induct) auto

lemma back_off_le: "back_off p n \<le> n"
  by (induction p n rule: back_off.induct) auto

lemma back_off_holds: "p 0 \<Longrightarrow> p (back_off p n)"
  by (induction p n rule: back_off.induct) auto

lemma boundary_Some: "boundary n s = Some k \<Longrightarrow> k \<le> length s \<and> byte_len (take k s) = n"
proof (induction n s arbitrary: k rule: boundary.induct)
  case (2 n c cs)
  show ?case
  proof (cases "n = 0")
    case False
    then obtain k' where "boundary (n - len_utf8 c) cs = Some k'" "k = Suc k'" "len_utf8 c \<le> n"
      using "2.prems" by (auto split: if_splits)
    then show ?thesis
      using "2.IH" False by simp
  qed (use 2 in simp)
qed (auto split: if_splits)

lemma encode_take: "boundary n s = Some k \<Longrightarrow> encode (take k s) = take n (encode s)"
proof -
  assume "boundary n s = Some k"
  then have "length (encode (take k s)) = n"
    using boundary_Some by (simp add: length_encode)
  moreover have "encode s = encode (take k s) @ encode (drop k s)"
    by (metis append_take_drop_id encode_simps(3))
  ultimately show ?thesis
    by simp
qed

lemma encode_drop: "boundary n s = Some k \<Longrightarrow> encode (drop k s) = drop n (encode s)"
proof -
  assume b: "boundary n s = Some k"
  then have "length (encode (take k s)) = n"
    using boundary_Some by (simp add: length_encode)
  moreover have "encode s = encode (take k s) @ encode (drop k s)"
    by (metis append_take_drop_id encode_simps(3))
  ultimately show ?thesis
    by simp
qed

lemma boundary_zero [simp]: "boundary 0 s = Some 0"
  by (cases s) auto

lemma boundary_end [simp]: "boundary (byte_len s) s = Some (length s)"
  using boundary_append [of s "[]"] by simp

text \<open>The position of a boundary locates it again.\<close>

lemma takeWhile_no_break: "line_feed \<notin> set s \<Longrightarrow> takeWhile (\<lambda>c. c \<noteq> line_feed) (rev s) = rev s"
  unfolding takeWhile_eq_all_conv by auto

lemma last_line_Nil [simp]: "last_line [] = []"
  by (simp add: last_line_def)

lemma last_line_Cons: "last_line (c # s) = (if c = line_feed \<or> line_feed \<in> set s then last_line s else c # s)"
proof (cases "line_feed \<in> set s")
  case True
  then have "takeWhile (\<lambda>c. c \<noteq> line_feed) (rev s @ [c]) = takeWhile (\<lambda>c. c \<noteq> line_feed) (rev s)"
    by (intro takeWhile_append1 [of line_feed]) auto
  then show ?thesis
    using True by (simp add: last_line_def)
next
  case False
  then have "takeWhile (\<lambda>c. c \<noteq> line_feed) (rev s @ [c]) = rev s @ takeWhile (\<lambda>c. c \<noteq> line_feed) [c]"
    by (intro takeWhile_append2) auto
  then show ?thesis
    by (cases "c = line_feed") (simp_all add: last_line_def takeWhile_no_break [OF False])
qed

lemma last_line_all: "line_feed \<notin> set s \<Longrightarrow> last_line s = s"
  by (simp add: last_line_def takeWhile_no_break)

lemma len_utf16_not_zero [simp]: "len_utf16 c \<noteq> 0"
  using len_pos(2) [of c] by linarith

lemma locate_exact:
  "locate (count_list p line_feed) (utf16_len (last_line p)) (p @ q) = Some (p, q)"
proof (induction p)
  case Nil
  then show ?case
    by (cases q) simp_all
next
  case (Cons c p)
  show ?case
  proof (cases "line_feed \<in> set p")
    case True
    then obtain n where "count_list p line_feed = Suc n"
      by (metis count_list_0_iff not0_implies_Suc)
    then show ?thesis
      using Cons True by (auto simp: last_line_Cons)
  next
    case False
    then show ?thesis
      using Cons by (auto simp: last_line_Cons last_line_all count_list_0_iff [THEN iffD2])
  qed
qed

lemma line_count_le: "count_list s line_feed \<le> byte_len s"
proof (induction s)
  case (Cons c s)
  have "Suc 0 \<le> len_utf8 c"
    using len_pos(1) [of c] by linarith
  then show ?case
    using Cons by auto
qed simp

lemma utf16_le_bytes: "utf16_len s \<le> byte_len s"
proof (induction s)
  case (Cons c s)
  have "len_utf16 c \<le> len_utf8 c"
    by (simp add: len_utf16_def len_utf8_def)
  then show ?case
    using Cons by simp
qed simp

lemma utf16_last_line: "utf16_len (last_line s) \<le> utf16_len s"
  by (induction s) (auto simp: last_line_Cons)

lemma before_position_in:
  assumes "position_in s n = Some (l, c)" and "boundary n s = Some k" and "byte_len s < 2 ^ 32"
  shows "before s \<lparr>pos_line = l, pos_character = c\<rparr> = Some (take k s)"
proof -
  have lc: "l = of_nat (count_list (take k s) line_feed)" "c = of_nat (utf16_len (last_line (take k s)))"
    using assms(1,2) by (simp_all add: position_in_def Let_def)
  have "byte_len (take k s) \<le> byte_len s"
    by (metis append_take_drop_id le_add1 text_len_simps(3))
  then have "byte_len (take k s) < 2 ^ 32"
    using assms(3) by linarith
  then have "count_list (take k s) line_feed < 2 ^ 32" "utf16_len (last_line (take k s)) < 2 ^ 32"
    using line_count_le [of "take k s"] utf16_last_line [of "take k s"] utf16_le_bytes [of "take k s"] by linarith+
  then have "unat l = count_list (take k s) line_feed" "unat c = utf16_len (last_line (take k s))"
    using lc by (simp_all add: unat_of_nat)
  then show ?thesis
    using locate_exact [of "take k s" "drop k s"] by (simp add: before_def)
qed

lemma take_min: "n \<le> m \<Longrightarrow> take n (take m xs) = take n xs"
  by (simp add: min_def)

lemma len_utf8_not_zero [simp]: "len_utf8 c \<noteq> 0"
  using len_pos(1) [of c] by linarith

lemma boundary_order: "boundary m s = Some i \<Longrightarrow> boundary n s = Some j \<Longrightarrow> m \<le> n \<Longrightarrow> i \<le> j"
proof -
  assume b: "boundary m s = Some i" "boundary n s = Some j" "m \<le> n"
  then have i: "i \<le> length s" "byte_len (take i s) = m" and j: "j \<le> length s" "byte_len (take j s) = n"
    using boundary_Some by blast+
  show "i \<le> j"
  proof (rule ccontr)
    assume "\<not> i \<le> j"
    then have "take i s = take j s @ take (i - j) (drop j s)" "take (i - j) (drop j s) \<noteq> []"
      using i by (simp_all flip: take_add)
    then show False
      using i(2) j(2) b(3) len_pos(1) by (cases "take (i - j) (drop j s)") auto
  qed
qed

text \<open>What the two scans find: a common start and a common end that do not overlap.\<close>

lemma single_change_parts:
  assumes "old \<noteq> new" and "list_all scalar_value old" and "list_all scalar_value new"
  shows "\<exists>p x y q n e. old = p @ x @ q \<and> new = p @ y @ q \<and> boundary n old = Some (length p) \<and>
    boundary e old = Some (length (p @ x)) \<and>
    single_change old new =
      (case (position_in old n, position_in old e) of
         (Some from, Some to) \<Rightarrow> Some (Some \<lparr>ch_start = from, ch_end = to, ch_text = y\<rparr>)
       | _ \<Rightarrow> None)"
proof -
  let ?ol = "byte_len old" let ?nl = "byte_len new"
  let ?ps = "\<lambda>k. is_char_boundary old k \<and> is_char_boundary new k"
  let ?cs = "common_start (encode old) (encode new)"
  define s where "s = back_off ?ps ?cs"
  let ?mt = "min ?ol ?nl - s"
  let ?ro = "take ?mt (rev (encode old))" let ?rn = "take ?mt (rev (encode new))"
  let ?pt = "\<lambda>k. is_char_boundary old (?ol - k) \<and> is_char_boundary new (?nl - k)"
  define u where "u = back_off ?pt (common_start ?ro ?rn)"
  have "?ps s"
    unfolding s_def by (rule back_off_holds) (simp add: is_char_boundary_def)
  then obtain a a' where a: "boundary s old = Some a" "boundary s new = Some a'"
    by (auto simp: is_char_boundary_def)
  have "?pt u"
    unfolding u_def by (rule back_off_holds) (simp add: is_char_boundary_def)
  then obtain b b' where b: "boundary (?ol - u) old = Some b" "boundary (?nl - u) new = Some b'"
    by (auto simp: is_char_boundary_def)
  have s_le: "s \<le> ?cs"
    unfolding s_def by (rule back_off_le)
  then have "take s (encode old) = take s (encode new)"
    using arg_cong [OF common_start_take [of "encode old" "encode new"], of "take s"] by (simp only: take_min [OF s_le])
  then have eq: "encode (take a old) = encode (take a' new)"
    using encode_take [OF a(1)] encode_take [OF a(2)] by simp
  have scalars: "list_all scalar_value (take i old)" "list_all scalar_value (drop i old)"
      "list_all scalar_value (take i new)" "list_all scalar_value (drop i new)" for i
    using assms(2,3) by (auto simp: list_all_iff dest: in_set_takeD in_set_dropD)
  have pre: "take a old = take a' new"
    using eq by (rule encode_inj [OF scalars(1,3)])
  have u_le: "u \<le> common_start ?ro ?rn"
    unfolding u_def by (rule back_off_le)
  then have u_mt: "u \<le> ?mt"
    using common_start_le(1) [of ?ro ?rn] by simp
  have "take u ?ro = take u ?rn"
    using arg_cong [OF common_start_take [of ?ro ?rn], of "take u"] by (simp only: take_min [OF u_le])
  then have "take u (rev (encode old)) = take u (rev (encode new))"
    by (simp only: take_min [OF u_mt])
  then have "drop (length (encode old) - u) (encode old) = drop (length (encode new) - u) (encode new)"
    by (metis rev_rev_ident rev_take length_rev)
  then have "encode (drop b old) = encode (drop b' new)"
    using encode_drop [OF b(1)] encode_drop [OF b(2)] by (simp add: length_encode)
  then have post: "drop b old = drop b' new"
    by (rule encode_inj [OF scalars(2,4)])
  have "s \<le> ?ol - u" "s \<le> ?nl - u"
    using u_mt s_le common_start_le [of "encode old" "encode new"] by (auto simp: length_encode)
  then have ab: "a \<le> b" "a' \<le> b'"
    using boundary_order a b by blast+
  have split: "xs = take i xs @ take (j - i) (drop i xs) @ drop j xs" if "i \<le> j" for i j and xs :: utext
    using that by (metis append_assoc append_take_drop_id le_add_diff_inverse take_add)
  have old: "old = take a old @ take (b - a) (drop a old) @ drop b old"
    and new: "new = take a old @ take (b' - a') (drop a' new) @ drop b old"
    using split ab pre post by metis+
  have la: "length (take a old) = a" and lb: "length (take a old @ take (b - a) (drop a old)) = b"
    using boundary_Some [OF a(1)] boundary_Some [OF b(1)] ab by (auto simp: min_def)
  have "single_change old new =
      (case (position_in old s, position_in old (?ol - u)) of
         (Some from, Some to) \<Rightarrow>
           Some (Some \<lparr>ch_start = from, ch_end = to, ch_text = take (b' - a') (drop a' new)\<rparr>)
       | _ \<Rightarrow> None)"
    using assms(1) a b by (simp add: single_change_def Let_def flip: s_def u_def split: option.split)
  then show ?thesis
    using old new a(1) b(1) la lb by metis
qed

text \<open>
  C24: Two different texts are told apart by one change that, applied to the old text as a
  language-server edit, gives exactly the new text; equal texts need none; and no slice ever
  falls inside a multi-byte character.\<close>

theorem single_change_makes_new:
  assumes "list_all scalar_value old" and "list_all scalar_value new" and "byte_len old < 2 ^ 32"
  shows "case single_change old new of
      None \<Rightarrow> False
    | Some None \<Rightarrow> old = new
    | Some (Some ch) \<Rightarrow> old \<noteq> new \<and> apply_edits old [as_edit ch] = Some (Inr new)"
proof (cases "old = new")
  case True
  then show ?thesis
    by (simp add: single_change_def)
next
  case False
  obtain p x y q n e where o: "old = p @ x @ q" and nw: "new = p @ y @ q"
      and bn: "boundary n old = Some (length p)" and be: "boundary e old = Some (length (p @ x))"
      and sc: "single_change old new =
        (case (position_in old n, position_in old e) of
           (Some from, Some to) \<Rightarrow> Some (Some \<lparr>ch_start = from, ch_end = to, ch_text = y\<rparr>)
         | _ \<Rightarrow> None)"
    using single_change_parts [OF False assms(1,2)] by blast
  obtain l c l' c' where pn: "position_in old n = Some (l, c)" and pe: "position_in old e = Some (l', c')"
    using bn be by (simp add: position_in_def Let_def)
  let ?ch = "\<lparr>ch_start = (l, c), ch_end = (l', c'), ch_text = y\<rparr>"
  have "before old \<lparr>pos_line = l, pos_character = c\<rparr> = Some p"
    using before_position_in [OF pn bn assms(3)] o by simp
  moreover have "before old \<lparr>pos_line = l', pos_character = c'\<rparr> = Some (p @ x)"
    using before_position_in [OF pe be assms(3)] o by simp
  ultimately have "chained old 0 [as_edit ?ch]" and span: "span old (as_edit ?ch) = Some (length p, length (p @ x), y)"
    by (simp_all add: as_edit_def span_def)
  moreover have "utf16_len old < 2 ^ 32"
    using assms(3) utf16_le_bytes [of old] by linarith
  ultimately have "apply_edits old (rev [as_edit ?ch]) =
      Some (Inr (take 0 old @ edited 0 (drop 0 old) (map (\<lambda>e. the (span old e)) [as_edit ?ch])))"
    by (intro chained_apply) simp_all
  then have "apply_edits old [as_edit ?ch] = Some (Inr new)"
    using span o nw by simp
  then show ?thesis
    using False sc pn pe by simp
qed

theorem single_change_makes_new_witness:
  "case single_change [233, 49, 10] [232, 49, 10] of
      None \<Rightarrow> False
    | Some None \<Rightarrow> [233, 49, 10] = ([232, 49, 10] :: utext)
    | Some (Some ch) \<Rightarrow> [233, 49, 10] \<noteq> ([232, 49, 10] :: utext) \<and>
        apply_edits [233, 49, 10] [as_edit ch] = Some (Inr [232, 49, 10])"
  by (rule single_change_makes_new) (simp_all add: scalar_value_def len_utf8_def)

section \<open>Replacing in the files of a project\<close>

record replace_report =
  rr_files :: "(utext \<times> nat) list"
  rr_skipped :: "utext list"
  rr_failed :: "utext list"

type_synonym save_env = "utext \<Rightarrow> (save_step \<Rightarrow> error_code option) \<times> (tree \<Rightarrow> tree) \<times> string"

definition replacements :: "replace_report \<Rightarrow> nat" where
  "replacements r = sum_list (map snd (rr_files r))"

fun replace_one ::
  "save_env \<Rightarrow> (nat list \<Rightarrow> string) \<Rightarrow> (utext \<Rightarrow> utext \<times> nat) \<Rightarrow> utext list \<Rightarrow> bool \<Rightarrow> utext \<Rightarrow>
   replace_report \<times> project \<Rightarrow> replace_report \<times> project" where
  "replace_one env revision_of pattern busy write path (report, pr) =
     (if path \<in> set busy then (report\<lparr>rr_skipped := rr_skipped report @ [path]\<rparr>, pr)
      else case read_document revision_of pr path of
             Inl e \<Rightarrow> (report\<lparr>rr_failed := rr_failed report @ [path]\<rparr>, pr)
           | Inr doc \<Rightarrow>
               (case pattern (dc_content doc) of (content, n) \<Rightarrow>
                  if n = 0 then (report, pr)
                  else if write then
                    (case env path of (io, meanwhile, uuid) \<Rightarrow>
                      (case save_document io meanwhile revision_of uuid (doc\<lparr>dc_content := content\<rparr>) pr of
                         (Inl e, pr') \<Rightarrow> (report\<lparr>rr_failed := rr_failed report @ [path]\<rparr>, pr')
                       | (Inr saved, pr') \<Rightarrow> (report\<lparr>rr_files := rr_files report @ [(path, n)]\<rparr>, pr')))
                  else (report\<lparr>rr_files := rr_files report @ [(path, n)]\<rparr>, pr)))"

fun replace_run ::
  "save_env \<Rightarrow> (nat list \<Rightarrow> string) \<Rightarrow> (utext \<Rightarrow> utext \<times> nat) \<Rightarrow> utext list \<Rightarrow> bool \<Rightarrow> utext list \<Rightarrow> utext list \<Rightarrow>
   replace_report \<times> project \<Rightarrow> replace_report \<times> project" where
  "replace_run env revision_of pattern busy write seen [] st = st"
| "replace_run env revision_of pattern busy write seen (path # paths) st =
     (if path \<in> set seen then replace_run env revision_of pattern busy write seen paths st
      else replace_run env revision_of pattern busy write (path # seen) paths
             (replace_one env revision_of pattern busy write path st))"

definition no_report :: replace_report where
  "no_report = \<lparr>rr_files = [], rr_skipped = [], rr_failed = []\<rparr>"

definition preview ::
  "save_env \<Rightarrow> (nat list \<Rightarrow> string) \<Rightarrow> (utext \<Rightarrow> utext \<times> nat) \<Rightarrow> utext list \<Rightarrow> utext list \<Rightarrow> project \<Rightarrow> replace_report \<times> project" where
  "preview env revision_of pattern busy paths pr = replace_run env revision_of pattern busy False [] paths (no_report, pr)"

definition replace_all ::
  "save_env \<Rightarrow> (nat list \<Rightarrow> string) \<Rightarrow> (utext \<Rightarrow> utext \<times> nat) \<Rightarrow> utext list \<Rightarrow> utext list \<Rightarrow> project \<Rightarrow> replace_report \<times> project" where
  "replace_all env revision_of pattern busy paths pr = replace_run env revision_of pattern busy True [] paths (no_report, pr)"

lemma preview_changes_nothing: "snd (preview env revision_of pattern busy paths pr) = pr"
proof -
  have "snd (replace_run env revision_of pattern busy False seen paths st) = snd st" for seen st
  proof (induction paths arbitrary: seen st)
    case (Cons path paths)
    have "snd (replace_one env revision_of pattern busy False path st) = snd st"
      by (cases st) (auto split: sum.split prod.split)
    then show ?case
      using Cons by simp
  qed simp
  then show ?thesis
    by (simp add: preview_def)
qed

fun unsplit :: "'a \<Rightarrow> 'a list list \<Rightarrow> 'a list" where
  "unsplit c [] = []"
| "unsplit c [x] = x"
| "unsplit c (x # y # xs) = x @ c # unsplit c (y # xs)"

lemma unsplit_split_on: "unsplit c (split_on c s) = s"
proof (induction s)
  case (Cons x s)
  obtain p ps where s: "split_on c s = p # ps"
    using split_on_not_Nil by (metis neq_Nil_conv)
  then show ?case
    using Cons by (cases ps) auto
qed simp

lemma components_inj:
  "components p = components q \<Longrightarrow> components p \<noteq> [] \<Longrightarrow> p = q"
  using unsplit_split_on by (metis components_def)

text \<open>The state of the run: \<open>pr\<close> is the project before it.\<close>

definition replaced_so_far ::
  "(nat list \<Rightarrow> string) \<Rightarrow> (utext \<Rightarrow> utext \<times> nat) \<Rightarrow> utext list \<Rightarrow> project \<Rightarrow> utext list \<Rightarrow> replace_report \<Rightarrow> project \<Rightarrow> bool" where
  "replaced_so_far revision_of pattern busy pr seen report pr' \<longleftrightarrow>
     pr_id pr' = pr_id pr \<and>
     (\<forall>p. pr_tree pr' p = pr_tree pr p \<or> p \<in> components ` fst ` set (rr_files report)) \<and>
     (\<forall>p. pr_tree pr p = None \<longrightarrow> pr_tree pr' p = None) \<and>
     (\<forall>f\<in>set (rr_files report). fst f \<in> set seen \<and> fst f \<notin> set busy \<and> components (fst f) \<noteq> [] \<and>
        (\<exists>doc content. read_document revision_of pr (fst f) = Inr doc \<and> pattern (dc_content doc) = (content, snd f) \<and>
           0 < snd f \<and> pr_tree pr' (components (fst f)) = Some (File (encode content))))"

lemma read_document_same:
  assumes "read_document revision_of pr' path = Inr doc" and "pr_tree pr' (components path) = pr_tree pr (components path)"
    and "pr_id pr' = pr_id pr"
  shows "read_document revision_of pr path = Inr doc"
proof -
  obtain u where v: "validate_relative_path path False = Inr u"
    using assms(1) by (auto simp: read_document_def and_then_Inr_iff)
  obtain stored where "pr_tree pr' (components path) = Some (File stored)"
    using read_document_Ok [OF assms(1)] by blast
  then have l: "lookup_entry (pr_tree pr) (components path) = lookup_entry (pr_tree pr') (components path)"
    using assms(2) by (simp add: lookup_entry_def)
  have "read_document revision_of pr path = read_document revision_of pr' path"
    unfolding read_document_def l assms(3) by (rule refl)
  then show ?thesis
    using assms(1) by simp
qed

lemma while_saving_id: "t temporary = None \<Longrightarrow> while_saving (\<lambda>t. t) temporary doc t = t"
  by (auto simp: while_saving_def)

lemma save_undisturbed:
  assumes "save_document io (\<lambda>t. t) revision_of uuid doc pr = (r, pr')"
    and "pr_tree pr (temporary_path uuid (components (dc_path doc))) = None"
  shows "case r of
      Inl e \<Rightarrow> pr_tree pr' = pr_tree pr
    | Inr saved \<Rightarrow> pr_tree pr' = (pr_tree pr)(components (dc_path doc) \<mapsto> File (encode (dc_content doc))) \<and>
        pr_tree pr (components (dc_path doc)) \<noteq> None"
  using save_document_safe [where io = io and meanwhile = "\<lambda>t. t" and revision_of = revision_of and uuid = uuid
      and doc = doc and pr = pr, OF assms(2) refl] assms(1)
    while_saving_id [where t = "pr_tree pr", OF assms(2)]
  by (auto split: sum.splits)

lemma replaced_one:
  assumes inv: "replaced_so_far revision_of pattern busy pr seen report pr'"
    and new: "path \<notin> set seen" and env: "env path = (io, \<lambda>t. t, uuid)"
    and temp: "pr_tree pr (temporary_path uuid (components path)) = None"
    and step: "replace_one env revision_of pattern busy True path (report, pr') = (report2, pr2)"
  shows "replaced_so_far revision_of pattern busy pr (path # seen) report2 pr2"
proof -
  have grow: "replaced_so_far revision_of pattern busy pr (path # seen) report pr'"
    using inv by (auto simp: replaced_so_far_def)
  show ?thesis
  proof (cases "path \<in> set busy \<or> (\<exists>e. read_document revision_of pr' path = Inl e)")
    case True
    then have "pr2 = pr'" and "rr_files report2 = rr_files report"
      using step by (auto split: if_splits)
    then show ?thesis
      using grow by (simp add: replaced_so_far_def)
  next
    case False
    then obtain doc where doc: "path \<notin> set busy" "read_document revision_of pr' path = Inr doc"
      by (cases "read_document revision_of pr' path") auto
    obtain content n where pat: "pattern (dc_content doc) = (content, n)"
      by fastforce
    show ?thesis
    proof (cases "n = 0")
      case True
      then show ?thesis
        using step doc pat grow by simp
    next
      case n: False
      let ?doc = "doc\<lparr>dc_content := content\<rparr>"
      obtain r pr3 where s: "save_document io (\<lambda>t. t) revision_of uuid ?doc pr' = (r, pr3)"
        by fastforce
      have path: "dc_path doc = path"
        using read_document_Ok [OF doc(2)] by blast
      have "pr_tree pr' (temporary_path uuid (components path)) = None"
        using inv temp by (simp add: replaced_so_far_def)
      then have out: "case r of Inl e \<Rightarrow> pr_tree pr3 = pr_tree pr'
          | Inr saved \<Rightarrow> pr_tree pr3 = (pr_tree pr')(components path \<mapsto> File (encode content)) \<and>
              pr_tree pr' (components path) \<noteq> None"
        using save_undisturbed [OF s] path by (cases r) simp_all
      have id: "pr_id pr3 = pr_id pr'"
        using save_document_project [of io "\<lambda>t. t" revision_of uuid ?doc pr'] s by simp
      show ?thesis
      proof (cases r)
        case (Inl e)
        then have "report2 = report\<lparr>rr_failed := rr_failed report @ [path]\<rparr>" "pr2 = pr3" "pr_tree pr3 = pr_tree pr'"
          using step doc pat n env s out by simp_all
        then show ?thesis
          using grow id by (simp add: replaced_so_far_def)
      next
        case (Inr saved)
        then have r2: "report2 = report\<lparr>rr_files := rr_files report @ [(path, n)]\<rparr>" "pr2 = pr3"
          and t3: "pr_tree pr3 = (pr_tree pr')(components path \<mapsto> File (encode content))"
              "pr_tree pr' (components path) \<noteq> None"
          using step doc pat n env s out by simp_all
        have ne: "components path \<noteq> []"
          using doc(2) components_not_Nil by (auto simp: read_document_def and_then_Inr_iff)
        have other: "components (fst f) \<noteq> components path" if "f \<in> set (rr_files report)" for f
          using inv that new components_inj [of "fst f" path] by (auto simp: replaced_so_far_def)
        then have "components path \<notin> components ` fst ` set (rr_files report)"
          by force
        then have "pr_tree pr' (components path) = pr_tree pr (components path)"
          using inv by (auto simp: replaced_so_far_def)
        then have "read_document revision_of pr path = Inr doc"
          using read_document_same [OF doc(2)] inv by (simp add: replaced_so_far_def)
        then show ?thesis
          using grow r2 t3 id ne other doc(1) pat n \<open>pr_tree pr' (components path) = pr_tree pr (components path)\<close>
          unfolding replaced_so_far_def by auto
      qed
    qed
  qed
qed

lemma replaced_run:
  "replaced_so_far revision_of pattern busy pr seen report pr' \<Longrightarrow>
   \<forall>path\<in>set paths. \<exists>io uuid. env path = (io, \<lambda>t. t, uuid) \<and> pr_tree pr (temporary_path uuid (components path)) = None \<Longrightarrow>
   replace_run env revision_of pattern busy True seen paths (report, pr') = (report2, pr2) \<Longrightarrow>
   replaced_so_far revision_of pattern busy pr (seen @ paths) report2 pr2"
proof (induction paths arbitrary: seen report pr')
  case Nil
  then show ?case
    by simp
next
  case (Cons path paths)
  obtain io uuid where env: "env path = (io, \<lambda>t. t, uuid)" "pr_tree pr (temporary_path uuid (components path)) = None"
    using Cons.prems(2) by auto
  have rest: "\<forall>path\<in>set paths. \<exists>io uuid. env path = (io, \<lambda>t. t, uuid) \<and>
      pr_tree pr (temporary_path uuid (components path)) = None"
    using Cons.prems(2) by simp
  have perm: "replaced_so_far revision_of pattern busy pr (s2 @ paths) report2 pr2"
    if "replaced_so_far revision_of pattern busy pr (s1 @ paths) report2 pr2" "set s1 \<subseteq> set s2" for s1 s2
    using that unfolding replaced_so_far_def by auto
  show ?case
  proof (cases "path \<in> set seen")
    case True
    then have "replaced_so_far revision_of pattern busy pr (seen @ paths) report2 pr2"
      using Cons.IH [OF Cons.prems(1) rest] Cons.prems(3) by simp
    then show ?thesis
      using perm [of seen "seen @ [path]"] by auto
  next
    case False
    obtain report3 pr3 where one: "replace_one env revision_of pattern busy True path (report, pr') = (report3, pr3)"
      by fastforce
    have "replace_run env revision_of pattern busy True (path # seen) paths (report3, pr3) = (report2, pr2)"
      using Cons.prems(3) False by (simp only: replace_run.simps one if_False)
    then have "replaced_so_far revision_of pattern busy pr ((path # seen) @ paths) report2 pr2"
      by (rule Cons.IH [OF replaced_one [OF Cons.prems(1) False env one] rest])
    then show ?thesis
      using perm [of "path # seen" "seen @ [path]"] by auto
  qed
qed

text \<open>
  When nobody else writes to the project, a replacement changes exactly the files it
  reports: each of them was named, is not open with unsaved edits, had a match, and holds the
  replaced text afterwards; every other file is as before. A preview changes nothing.\<close>

theorem replace_all_confined:
  assumes "replace_all env revision_of pattern busy paths pr = (report, pr')"
    and "\<forall>path\<in>set paths. \<exists>io uuid. env path = (io, \<lambda>t. t, uuid) \<and>
      pr_tree pr (temporary_path uuid (components path)) = None"
  shows "(\<forall>p. pr_tree pr' p = pr_tree pr p \<or> p \<in> components ` fst ` set (rr_files report)) \<and>
    list_all (\<lambda>f. fst f \<in> set paths \<and> fst f \<notin> set busy \<and>
      (\<exists>doc content. read_document revision_of pr (fst f) = Inr doc \<and> pattern (dc_content doc) = (content, snd f) \<and>
         0 < snd f \<and> pr_tree pr' (components (fst f)) = Some (File (encode content)))) (rr_files report) \<and>
    snd (preview env revision_of pattern busy paths pr) = pr"
proof -
  have "replaced_so_far revision_of pattern busy pr [] no_report pr"
    by (simp add: replaced_so_far_def no_report_def)
  from replaced_run [OF this assms(2)] assms(1)
  have "replaced_so_far revision_of pattern busy pr paths report pr'"
    by (simp add: replace_all_def)
  then show ?thesis
    unfolding replaced_so_far_def preview_changes_nothing list_all_iff by blast
qed

definition demo_pattern :: "utext \<Rightarrow> utext \<times> nat" where
  "demo_pattern s = (map (\<lambda>c. if c = 65 then 66 else c) s, count_list s 65)"

definition demo_env :: save_env where
  "demo_env path = (\<lambda>_. None, \<lambda>t. t, ''1'')"

lemma demo_replace:
  "replace_all demo_env (\<lambda>b. replicate (length b) (CHR ''x'')) demo_pattern [] [ustr ''a'', ustr ''b''] (one_file ''a'' [65]) =
    (\<lparr>rr_files = [(ustr ''a'', 1)], rr_skipped = [], rr_failed = [ustr ''b'']\<rparr>, one_file ''a'' [66])"
  by (simp add: replace_all_def no_report_def demo_pattern_def demo_env_def one_file_def read_document_def
      validate_relative_path_def max_relative_path_bytes_def len_utf8_def components_def lookup_entry_def
      read_bounded_def max_file_bytes_def save_document_def replace_file_def temporary_path_def Let_def
      encode_char_def)

theorem replace_all_confined_witness:
  "(\<forall>p. pr_tree (one_file ''a'' [66]) p = pr_tree (one_file ''a'' [65]) p \<or>
      p \<in> components ` fst ` set (rr_files \<lparr>rr_files = [(ustr ''a'', 1)], rr_skipped = [], rr_failed = [ustr ''b'']\<rparr>)) \<and>
    list_all (\<lambda>f. fst f \<in> set [ustr ''a'', ustr ''b''] \<and> fst f \<notin> set [] \<and>
      (\<exists>doc content. read_document (\<lambda>b. replicate (length b) (CHR ''x'')) (one_file ''a'' [65]) (fst f) = Inr doc \<and>
         demo_pattern (dc_content doc) = (content, snd f) \<and>
         0 < snd f \<and> pr_tree (one_file ''a'' [66]) (components (fst f)) = Some (File (encode content))))
      (rr_files \<lparr>rr_files = [(ustr ''a'', 1)], rr_skipped = [], rr_failed = [ustr ''b'']\<rparr>) \<and>
    snd (preview demo_env (\<lambda>b. replicate (length b) (CHR ''x'')) demo_pattern [] [ustr ''a'', ustr ''b''] (one_file ''a'' [65]))
      = one_file ''a'' [65]"
  by (rule replace_all_confined [OF demo_replace])
    (simp add: demo_env_def one_file_def temporary_path_def components_def)

end
