(* ===== verification/Consent.thy ===== *)
theory Consent
  imports App_Error
begin

text \<open>
  The workspace's consent for operations whose policy action is \<open>confirm\<close>
  (\<open>rwk-core/src/consent.rs\<close>): a registry with at most one pending request, and the gate that
  reads the daemon's policy, opens a request and waits for the answer. The registry's methods are
  steps under its mutex. A request's channel is modelled by the answer sent on it, if any, and by
  whether its waiter still holds the receiver; time is in seconds.
\<close>

section \<open>The registry\<close>

definition consent_timeout :: nat where
  "consent_timeout = 120"

datatype decision = Approved | Denied

record consent_state =
  cs_requests :: "(string \<times> nat) list"
  cs_closed :: bool
  cs_answers :: "string \<Rightarrow> decision option"
  cs_receivers :: "string set"

definition new_registry :: consent_state where
  "new_registry = \<lparr>cs_requests = [], cs_closed = False, cs_answers = Map.empty, cs_receivers = {}\<rparr>"

text \<open>\<open>id\<close> is the fresh UUID of the request.\<close>

definition begin_at :: "string \<Rightarrow> nat \<Rightarrow> consent_state \<Rightarrow> (error_code + string) \<times> consent_state" where
  "begin_at i now st =
     (if cs_closed st then (Err Workspace_Closed, st)
      else let st = st\<lparr>cs_requests := filter (\<lambda>p. now < snd p) (cs_requests st)\<rparr>
           in if cs_requests st \<noteq> [] then (Err Conflict, st)
              else (Ok i, st\<lparr>cs_requests := [(i, now + consent_timeout)],
                             cs_receivers := insert i (cs_receivers st)\<rparr>))"

definition decide_at :: "string \<Rightarrow> decision \<Rightarrow> nat \<Rightarrow> consent_state \<Rightarrow> (error_code + unit) \<times> consent_state" where
  "decide_at i d now st =
     (if cs_closed st then (Err Workspace_Closed, st)
      else case map_of (cs_requests st) i of
             None \<Rightarrow> (Err Not_Found, st)
           | Some expires_at \<Rightarrow>
               let st = st\<lparr>cs_requests := filter (\<lambda>p. fst p \<noteq> i) (cs_requests st)\<rparr>
               in if expires_at \<le> now then (Err Conflict, st)
                  else if i \<notin> cs_receivers st then (Err Conflict, st)
                  else (Ok (), st\<lparr>cs_answers := (cs_answers st)(i \<mapsto> d)\<rparr>))"

text \<open>
  How the wait ends: with the answer if one was sent; otherwise by its timeout, or because the
  sender is gone, which the registry dropped.
\<close>

definition wait_end :: "string \<Rightarrow> consent_state \<Rightarrow> (error_code + decision) \<times> consent_state" where
  "wait_end i st =
     (let outcome =
            (case cs_answers st i of
               Some d \<Rightarrow> Ok d
             | None \<Rightarrow>
                 if i \<in> fst ` set (cs_requests st) then Err Conflict
                 else if cs_closed st then Err Workspace_Closed else Err Conflict)
      in (outcome, st\<lparr>cs_requests := filter (\<lambda>p. fst p \<noteq> i) (cs_requests st),
                      cs_receivers := cs_receivers st - {i}\<rparr>))"

definition shutdown :: "consent_state \<Rightarrow> consent_state" where
  "shutdown st = st\<lparr>cs_closed := True, cs_requests := []\<rparr>"

section \<open>The gate\<close>

datatype policy_answer = Policy_Allow | Policy_Deny | Policy_Confirm

datatype gate_outcome = Gate_Allowed | Gate_Approved

text \<open>The gate up to its wait: decided at once, or a request whose answer it waits for.\<close>

datatype gate_start = Gate_Done "error_code + gate_outcome" | Gate_Waits string

definition gate_begin ::
  "error_code + policy_answer \<Rightarrow> string \<Rightarrow> nat \<Rightarrow> consent_state \<Rightarrow> gate_start \<times> consent_state" where
  "gate_begin policy i now st =
     (case policy of
        Inl e \<Rightarrow> (Gate_Done (Err e), st)
      | Inr Policy_Allow \<Rightarrow> (Gate_Done (Ok Gate_Allowed), st)
      | Inr Policy_Deny \<Rightarrow> (Gate_Done (Err Forbidden), st)
      | Inr Policy_Confirm \<Rightarrow>
          (case begin_at i now st of
             (Inl e, st) \<Rightarrow> (Gate_Done (Err e), st)
           | (Inr i, st) \<Rightarrow> (Gate_Waits i, st)))"

definition gate_end :: "string \<Rightarrow> consent_state \<Rightarrow> (error_code + gate_outcome) \<times> consent_state" where
  "gate_end i st =
     (case wait_end i st of
        (Inl e, st) \<Rightarrow> (Err e, st)
      | (Inr Approved, st) \<Rightarrow> (Ok Gate_Approved, st)
      | (Inr Denied, st) \<Rightarrow> (Err Forbidden, st))"

section \<open>Gates, users and a shutdown at once\<close>

datatype consent_event =
    Gate_Begin "error_code + policy_answer" string nat
  | Decide string decision nat
  | Gate_End string
  | Shutdown

record consent_run =
  cr_state :: consent_state
  cr_waiting :: "string set"
  cr_used :: "string set"
  cr_passed :: "(string \<times> gate_outcome) list"

definition start_run :: consent_run where
  "start_run = \<lparr>cr_state = new_registry, cr_waiting = {}, cr_used = {}, cr_passed = []\<rparr>"

text \<open>A gate's UUID is new; only a waiting gate ends.\<close>

fun consent_step :: "consent_event \<Rightarrow> consent_run \<Rightarrow> consent_run" where
  "consent_step (Gate_Begin policy i now) r =
     (if i \<in> cr_used r then r
      else case gate_begin policy i now (cr_state r) of
             (Gate_Done (Inr g), st) \<Rightarrow>
               r\<lparr>cr_state := st, cr_used := insert i (cr_used r), cr_passed := cr_passed r @ [(i, g)]\<rparr>
           | (Gate_Done (Inl e), st) \<Rightarrow> r\<lparr>cr_state := st, cr_used := insert i (cr_used r)\<rparr>
           | (Gate_Waits j, st) \<Rightarrow>
               r\<lparr>cr_state := st, cr_used := insert i (cr_used r), cr_waiting := insert j (cr_waiting r)\<rparr>)"
| "consent_step (Decide i d now) r = r\<lparr>cr_state := snd (decide_at i d now (cr_state r))\<rparr>"
| "consent_step (Gate_End i) r =
     (if i \<notin> cr_waiting r then r
      else case gate_end i (cr_state r) of
             (Inr g, st) \<Rightarrow> r\<lparr>cr_state := st, cr_waiting := cr_waiting r - {i}, cr_passed := cr_passed r @ [(i, g)]\<rparr>
           | (Inl e, st) \<Rightarrow> r\<lparr>cr_state := st, cr_waiting := cr_waiting r - {i}\<rparr>)"
| "consent_step Shutdown r = r\<lparr>cr_state := shutdown (cr_state r)\<rparr>"

definition run_events :: "consent_event list \<Rightarrow> consent_run" where
  "run_events evs = foldl (\<lambda>r ev. consent_step ev r) start_run evs"

text \<open>What entitles a gate to pass: the policy allowed it, or the user said yes to its request.\<close>

definition entitled :: "consent_event list \<Rightarrow> string \<times> gate_outcome \<Rightarrow> bool" where
  "entitled evs p \<longleftrightarrow>
     (case snd p of
        Gate_Allowed \<Rightarrow> \<exists>now. Gate_Begin (Inr Policy_Allow) (fst p) now \<in> set evs
      | Gate_Approved \<Rightarrow>
          \<exists>before between after opened now. evs = before @ Gate_Begin (Inr Policy_Confirm) (fst p) opened # between
              @ Decide (fst p) Approved now # after \<and>
            now < opened + consent_timeout \<and> Shutdown \<notin> set before \<union> set between)"

definition pending_from :: "consent_event list \<Rightarrow> string \<times> nat \<Rightarrow> bool" where
  "pending_from evs q \<longleftrightarrow>
     (\<exists>before after opened. evs = before @ Gate_Begin (Inr Policy_Confirm) (fst q) opened # after \<and>
        snd q = opened + consent_timeout) \<and> Shutdown \<notin> set evs"

definition consent_inv :: "consent_event list \<Rightarrow> consent_run \<Rightarrow> bool" where
  "consent_inv evs r \<longleftrightarrow>
     (cs_closed (cr_state r) \<longleftrightarrow> Shutdown \<in> set evs) \<and>
     length (cs_requests (cr_state r)) \<le> 1 \<and>
     (\<forall>q\<in>set (cs_requests (cr_state r)). pending_from evs q) \<and>
     (\<forall>i. cs_answers (cr_state r) i = Some Approved \<longrightarrow> entitled evs (i, Gate_Approved)) \<and>
     (\<forall>p\<in>set (cr_passed r). entitled evs p) \<and>
     cr_waiting r \<subseteq> cr_used r \<and> fst ` set (cr_passed r) \<subseteq> cr_used r - cr_waiting r \<and>
     distinct (map fst (cr_passed r))"

lemma entitled_snoc: "entitled evs p \<Longrightarrow> entitled (evs @ [ev]) p"
proof (cases "snd p")
  case Gate_Approved
  assume "entitled evs p"
  then obtain before between after opened now where
    "evs = before @ Gate_Begin (Inr Policy_Confirm) (fst p) opened # between @ Decide (fst p) Approved now # after"
    "now < opened + consent_timeout" "Shutdown \<notin> set before \<union> set between"
    using Gate_Approved by (auto simp: entitled_def)
  then show ?thesis
    using Gate_Approved unfolding entitled_def
    by (simp, intro exI [of _ before] exI [of _ between] exI [of _ "after @ [ev]"] exI [of _ opened] exI [of _ now]) simp
qed (auto simp: entitled_def)

lemma pending_from_snoc: "pending_from evs q \<Longrightarrow> ev \<noteq> Shutdown \<Longrightarrow> pending_from (evs @ [ev]) q"
proof -
  assume "pending_from evs q" and ev: "ev \<noteq> Shutdown"
  then obtain before after opened where "evs = before @ Gate_Begin (Inr Policy_Confirm) (fst q) opened # after"
      "snd q = opened + consent_timeout" "Shutdown \<notin> set evs"
    by (auto simp: pending_from_def)
  then show ?thesis
    using ev unfolding pending_from_def
    by (intro conjI exI [of _ before] exI [of _ "after @ [ev]"] exI [of _ opened]) auto
qed

lemma filter_length_le: "length xs \<le> 1 \<Longrightarrow> length (filter P xs) \<le> 1"
  using length_filter_le le_trans by blast

text \<open>A step that keeps the answers and the passed gates, and only drops requests.\<close>

lemma consent_inv_drop:
  assumes "consent_inv evs r" and "ev \<noteq> Shutdown"
    and "cs_closed st = cs_closed (cr_state r)" and "cs_answers st = cs_answers (cr_state r)"
    and "set (cs_requests st) \<subseteq> set (cs_requests (cr_state r))" and "length (cs_requests st) \<le> 1"
  shows "consent_inv (evs @ [ev]) (r\<lparr>cr_state := st\<rparr>)"
  using assms entitled_snoc pending_from_snoc unfolding consent_inv_def by (auto simp: subset_iff)

lemma begin_at_drop:
  assumes "begin_at i now st = (Inl e, st')"
  shows "cs_closed st' = cs_closed st" "cs_answers st' = cs_answers st"
    "set (cs_requests st') \<subseteq> set (cs_requests st)" "length (cs_requests st') \<le> length (cs_requests st)"
  using assms by (auto simp: begin_at_def Let_def split: if_splits)

lemma begin_at_Ok:
  assumes "begin_at i now st = (Inr j, st')"
  shows "j = i" "\<not> cs_closed st" "cs_closed st' = cs_closed st" "cs_answers st' = cs_answers st"
    "cs_requests st' = [(i, now + consent_timeout)]"
  using assms by (auto simp: begin_at_def Let_def split: if_splits)

lemma consent_inv_used: "consent_inv evs r \<Longrightarrow> consent_inv evs (r\<lparr>cr_used := insert i (cr_used r)\<rparr>)"
  by (auto simp: consent_inv_def)

lemma consent_inv_pass:
  assumes "consent_inv evs r" and "i \<in> cr_used r" and "i \<notin> fst ` set (cr_passed r)" and "entitled evs (i, g)"
  shows "consent_inv evs (r\<lparr>cr_waiting := cr_waiting r - {i}, cr_passed := cr_passed r @ [(i, g)]\<rparr>)"
  using assms by (auto simp: consent_inv_def)

lemma consent_inv_begin:
  assumes inv: "consent_inv evs r"
  shows "consent_inv (evs @ [Gate_Begin policy i now]) (consent_step (Gate_Begin policy i now) r)"
    (is "consent_inv (_ @ [?ev]) _")
proof (cases "i \<in> cr_used r")
  case True
  then show ?thesis
    using consent_inv_drop [OF inv, of ?ev "cr_state r"] inv by (simp add: consent_inv_def)
next
  case False
  have same: "consent_inv (evs @ [?ev]) (r\<lparr>cr_used := insert i (cr_used r)\<rparr>)"
    using consent_inv_used [OF consent_inv_drop [OF inv, of ?ev "cr_state r"]] inv by (simp add: consent_inv_def)
  show ?thesis
  proof (cases policy)
    case (Inl e)
    then show ?thesis
      using same False by (simp add: gate_begin_def)
  next
    case (Inr a)
    show ?thesis
    proof (cases a)
      case Policy_Allow
      have "entitled (evs @ [?ev]) (i, Gate_Allowed)"
        using Inr Policy_Allow by (auto simp: entitled_def)
      moreover have "i \<notin> fst ` set (cr_passed r)" "i \<notin> cr_waiting r"
        using inv False by (auto simp: consent_inv_def)
      ultimately show ?thesis
        using consent_inv_pass [OF same, of i Gate_Allowed] Inr Policy_Allow False
        by (simp add: gate_begin_def)
    next
      case Policy_Deny
      then show ?thesis
        using same Inr False by (simp add: gate_begin_def)
    next
      case Policy_Confirm
      obtain res st where b: "begin_at i now (cr_state r) = (res, st)"
        by fastforce
      show ?thesis
      proof (cases res)
        case (Inl e)
        note d = begin_at_drop [OF b [unfolded Inl]]
        have "length (cs_requests st) \<le> 1"
          using d(4) inv by (simp add: consent_inv_def)
        then have "consent_inv (evs @ [?ev]) (r\<lparr>cr_state := st, cr_used := insert i (cr_used r)\<rparr>)"
          using consent_inv_used [OF consent_inv_drop [OF inv, of ?ev st]] d by simp
        then show ?thesis
          using Inl b Policy_Confirm Inr False by (simp add: gate_begin_def)
      next
        case res: (Inr j)
        note d = begin_at_Ok [OF b [unfolded res]]
        have "Shutdown \<notin> set evs"
          using d(2) inv by (simp add: consent_inv_def)
        then have "pending_from (evs @ [?ev]) (i, now + consent_timeout)"
          using Inr Policy_Confirm by (auto simp: pending_from_def)
        then show ?thesis
          using same d res b Policy_Confirm Inr False inv
          by (auto simp: gate_begin_def consent_inv_def)
      qed
    qed
  qed
qed

lemma consent_inv_decide:
  assumes inv: "consent_inv evs r"
  shows "consent_inv (evs @ [Decide i d now]) (consent_step (Decide i d now) r)"
    (is "consent_inv (_ @ [?ev]) _")
proof -
  let ?st = "cr_state r"
  let ?less = "?st\<lparr>cs_requests := filter (\<lambda>p. fst p \<noteq> i) (cs_requests ?st)\<rparr>"
  have less: "consent_inv (evs @ [?ev]) (r\<lparr>cr_state := ?less\<rparr>)"
    by (rule consent_inv_drop [OF inv]) (use inv filter_length_le in \<open>auto simp: consent_inv_def\<close>)
  have same: "consent_inv (evs @ [?ev]) (r\<lparr>cr_state := ?st\<rparr>)"
    by (rule consent_inv_drop [OF inv]) (use inv in \<open>auto simp: consent_inv_def\<close>)
  consider (same) "snd (decide_at i d now ?st) = ?st" | (less) "snd (decide_at i d now ?st) = ?less"
    | (sent) e where "map_of (cs_requests ?st) i = Some e" "now < e"
        "snd (decide_at i d now ?st) = ?less\<lparr>cs_answers := (cs_answers ?st)(i \<mapsto> d)\<rparr>"
  proof (cases "cs_closed ?st \<or> map_of (cs_requests ?st) i = None")
    case True
    then show ?thesis
      using that(1) by (auto simp: decide_at_def)
  next
    case False
    then obtain e where e: "map_of (cs_requests ?st) i = Some e"
      by auto
    show ?thesis
    proof (cases "e \<le> now \<or> i \<notin> cs_receivers ?st")
      case True
      then show ?thesis
        using that(2) False e by (auto simp: decide_at_def Let_def)
    next
      case sent: False
      then show ?thesis
        using that(3) False e by (auto simp: decide_at_def Let_def)
    qed
  qed
  then show ?thesis
  proof cases
    case sent
    have ent: "entitled (evs @ [?ev]) (i, Gate_Approved)" if "d = Approved"
    proof -
      have "pending_from evs (i, e)"
        using sent(1) inv map_of_SomeD by (fastforce simp: consent_inv_def)
      then obtain before after opened where
        "evs = before @ Gate_Begin (Inr Policy_Confirm) i opened # after" "e = opened + consent_timeout" "Shutdown \<notin> set evs"
        by (auto simp: pending_from_def)
      then show ?thesis
        using that sent(2) unfolding entitled_def
        by (simp, intro exI [of _ before] exI [of _ after] exI [of _ "[]"] exI [of _ opened] exI [of _ now]) simp
    qed
    then show ?thesis
      using less sent(3) by (auto simp: consent_inv_def)
  qed (use same less in simp_all)
qed

lemma consent_inv_end:
  assumes inv: "consent_inv evs r"
  shows "consent_inv (evs @ [Gate_End i]) (consent_step (Gate_End i) r)"
    (is "consent_inv (_ @ [?ev]) _")
proof (cases "i \<in> cr_waiting r")
  case False
  then show ?thesis
    using consent_inv_drop [OF inv, of ?ev "cr_state r"] inv by (simp add: consent_inv_def)
next
  case True
  let ?st = "cr_state r"
  let ?less = "?st\<lparr>cs_requests := filter (\<lambda>p. fst p \<noteq> i) (cs_requests ?st), cs_receivers := cs_receivers ?st - {i}\<rparr>"
  have less: "consent_inv (evs @ [?ev]) (r\<lparr>cr_state := ?less\<rparr>)"
    by (rule consent_inv_drop [OF inv]) (use inv filter_length_le in \<open>auto simp: consent_inv_def\<close>)
  have fresh: "i \<in> cr_used r" "i \<notin> fst ` set (cr_passed r)"
    using inv True by (auto simp: consent_inv_def)
  have w: "wait_end i ?st = (fst (wait_end i ?st), ?less)"
    by (simp add: wait_end_def Let_def)
  show ?thesis
  proof (cases "cs_answers ?st i")
    case (Some d)
    then have "wait_end i ?st = (Inr d, ?less)"
      by (simp add: wait_end_def Let_def)
    moreover have "entitled (evs @ [?ev]) (i, Gate_Approved)" if "d = Approved"
      using inv Some that entitled_snoc by (auto simp: consent_inv_def)
    ultimately show ?thesis
      using True less consent_inv_pass [OF less, of i Gate_Approved] fresh
      by (cases d) (auto simp: gate_end_def consent_inv_def)
  next
    case None
    then have "\<exists>e. fst (wait_end i ?st) = Inl e"
      by (cases "i \<in> fst ` set (cs_requests ?st)"; cases "cs_closed ?st") (auto simp: wait_end_def Let_def)
    then obtain e where "fst (wait_end i ?st) = Inl e"
      by blast
    then have "gate_end i ?st = (Inl e, ?less)"
      using w by (simp add: gate_end_def split: prod.splits)
    then show ?thesis
      using True less by (auto simp: consent_inv_def)
  qed
qed

lemma consent_inv_shutdown:
  "consent_inv evs r \<Longrightarrow> consent_inv (evs @ [Shutdown]) (consent_step Shutdown r)"
  using entitled_snoc by (auto simp: consent_inv_def shutdown_def)

lemma consent_inv_run: "consent_inv evs (run_events evs)"
proof (induction evs rule: rev_induct)
  case Nil
  then show ?case
    by (simp add: consent_inv_def run_events_def start_run_def new_registry_def)
next
  case (snoc ev evs)
  then show ?case
    using consent_inv_begin consent_inv_decide consent_inv_end consent_inv_shutdown
    by (cases ev) (simp_all add: run_events_def del: consent_step.simps)
qed

text \<open>
  However gates, answers and a shutdown interleave, an operation passes its gate only if the
  daemon's policy allowed it, or the policy asked for confirmation and the user approved that
  very request within two minutes and before the shutdown; no request passes twice and at most
  one is pending.\<close>

theorem consent_needed:
  "list_all (entitled evs) (cr_passed (run_events evs)) \<and> distinct (map fst (cr_passed (run_events evs))) \<and>
   length (cs_requests (cr_state (run_events evs))) \<le> 1"
  using consent_inv_run [of evs] by (simp add: consent_inv_def list_all_iff)

end
