(* ===== verification/Spec2Isabelle.thy ===== *)
theory Spec2Isabelle
  imports Mcp_Gate Policy_Suggest Lock_Manager Task_Lifecycle Scheduled_Jobs Dock_Props
    Conflicts Side_Diff Control_Runs Factory_Samples Doc_Session Replace_Text Consent
begin

text \<open>
  R-AI-OS is an operating layer for coding agents. This development models, from the Rust
  sources, the parts of it whose decisions others rely on, and proves what they promise. Paths
  are relative to the repository's root; \<open>core\<close> stands for \<open>src/crates/raios-core/src\<close>,
  \<open>runtime\<close> for \<open>src/crates/raios-runtime/src\<close> and \<open>rwk\<close> for
  \<open>src/tools/raios-workspace-native/crates/rwk-core/src\<close> (in the theories the leading
  \<open>src/\<close> is left out).

  \<^bold>\<open>The program's parts.\<close>

  \<^item> \<^emph>\<open>The guarded tool server.\<close> An agent calls tools through the MCP server (\<open>Mcp_Gate\<close>:
    \<open>handle_request\<close>, \<open>handle_tools_call\<close> of \<open>raios-surface-mcp/src/mcp/mod.rs\<close> and
    \<open>tools.rs\<close>). Each call passes, in this order, the pinned tool manifest (\<open>Tool_Pin\<close>, read when
    the server starts), the policy with its payload shield (\<open>Policy\<close>: \<open>policy.rs\<close>, \<open>umai.rs\<close>,
    \<open>hooks.rs\<close>, \<open>shield.rs\<close>), the audit ledger (\<open>Audit_Chain\<close>: \<open>verify_chain.rs\<close>), the rate limiter
    (\<open>Rate_Limiter\<close>), the quarantine queue (\<open>Quarantine\<close>) and the tool's declared capabilities
    (\<open>Capabilities\<close>, with \<open>Sandbox\<close> for paths and \<open>Egress\<close> for hosts); while it runs, the secrets
    leased to it are in the environment (\<open>Secret_Lease\<close>). All of them are in \<open>core/security\<close>.
    \<open>Policy_Suggest\<close> reads the ledger back and proposes rules.
  \<^item> \<^emph>\<open>Coordination of agents.\<close> Named locks (\<open>Lock_Manager\<close>: \<open>core/lock_manager.rs\<close>), task graphs
    (\<open>Task_Dag\<close>: validation, \<open>core/task_graph/dag.rs\<close>; \<open>Task_Store\<close>: the relational store,
    \<open>store.rs\<close> and \<open>core/db/wf_task_graph.rs\<close>; \<open>Task_Executor\<close>: the polling executor,
    \<open>runtime/daemon/cmd/task_graph.rs\<close>; \<open>Task_Lifecycle\<close>: creation, executor and status together)
    and scheduled jobs (\<open>Scheduled_Jobs\<close>: \<open>core/db/scheduler.rs\<close>, \<open>runtime/daemon/scheduler.rs\<close>).
  \<^item> \<^emph>\<open>Handoffs and the control plane.\<close> Work passed from one agent to another is four linked rows of
    the control database (\<open>Handoff_Store\<close>: \<open>core/db/wf_handoff.rs\<close>, \<open>wf_handoff_receipt.rs\<close>): task, run,
    artifact and approval. The owner's commands reach it through one dispatcher (\<open>Control_Plane\<close>:
    \<open>dispatch_with_seams\<close> of \<open>runtime/control_plane/service.rs\<close>, \<open>service/commands.rs\<close>, \<open>handoff.rs\<close>,
    \<open>agent_launch.rs\<close>, \<open>project_registry.rs\<close>, \<open>command_policy.rs\<close>), which consults \<open>Policy\<close>, runs the
    command with its idempotency and \<open>Audit_Chain\<close> rows in one transaction, and acts on the jobs of
    \<open>Scheduled_Jobs\<close>; the agents' wrappers take and deliver handoffs in the same store. \<open>Handoff_Rows\<close>
    and \<open>Handoff_Lifecycle\<close> hold its invariant and the effect of each operation, \<open>Handoff_Props\<close> and
    \<open>Control_Runs\<close> the properties of runs, the last one together with \<open>Handoff_View\<close>.
  \<^item> \<^emph>\<open>The Product Factory.\<close> An owner's products move from intake over a charter, requirements, plans and
    cycles of seven stages to releases and support. The repositories are functions on the tables
    (\<open>Factory_Store\<close>: \<open>core/db/factory_products.rs\<close>, \<open>factory_intake.rs\<close>, \<open>factory_requirements.rs\<close> and the building
    of cycles; \<open>Factory_Delivery\<close>: the moves of \<open>factory_cycles.rs\<close>, \<open>factory_evidence.rs\<close>, \<open>factory_releases.rs\<close>,
    \<open>factory_support.rs\<close>), the service validates, dispatches and answers the thirty-seven commands
    (\<open>Factory_Service\<close>: \<open>runtime/product_factory/service.rs\<close>, \<open>service/commands.rs\<close>, \<open>service/validate.rs\<close>, the MCP tool
    \<open>tools_factory.rs\<close> and the HTTP handler). Its task graphs and approvals are rows of the same control database
    as the handoffs. \<open>Factory_Dispatch\<close> holds what a dispatch does, \<open>Factory_Ops\<close> the changes a command can make,
    \<open>Factory_Cycles\<close>, \<open>Factory_Owners\<close> and \<open>Factory_Gates\<close> the properties of runs, \<open>Factory_Samples\<close> a run on concrete requests.
  \<^item> \<^emph>\<open>The native workspace.\<close> The editor's files (\<open>Project_Files\<close>: \<open>rwk/project.rs\<close>,
    \<open>rwk/documents.rs\<close>), the session of the open file (\<open>Doc_Session\<close>: \<open>rwk/workbench/documents.rs\<close>,
    with the saving steps of \<open>rwk-ui/src/editor/view.rs\<close>), edits of a language server
    (\<open>Text_Edits\<close>: \<open>rwk/lsp/edits.rs\<close>), replacement over the project (\<open>Replace_Text\<close>:
    \<open>rwk/replace.rs\<close>), merge conflicts and diffs (\<open>Conflicts\<close>, \<open>Side_Diff\<close>), the terminal dock
    (\<open>Dock\<close>, \<open>Dock_Props\<close>: \<open>rwk/workbench/dock.rs\<close>), the handoff of work to another agent
    (\<open>Handoff_View\<close>: \<open>rwk/handoff_state.rs\<close>, \<open>rwk/handoff_flow.rs\<close>) and the user's consent
    (\<open>Consent\<close>: \<open>rwk/consent.rs\<close>), which uses the policy decision of \<open>Policy\<close>. Their errors are
    those of \<open>App_Error\<close> (\<open>rwk/error.rs\<close>).

  \<^bold>\<open>How state and operations correspond.\<close> A struct is a record, an enum a datatype, a
  Rust \<open>Result\<close> a sum with the error on the left, an \<open>Option\<close> an option; every early return and
  every refused lock or statement is a branch. Stateful operations take the state and return it
  changed. A database table is the list of its rows in rowid order, changed by the SQL
  operations of \<open>Sql_Table\<close>; whether the store can be read or written is part of the state where
  the code's behaviour depends on it. Texts are character lists; \<open>Utf8\<close> encodes and decodes
  them where offsets in bytes matter, \<open>Text_Lines\<close> and \<open>Prelude\<close> hold Rust's \<open>str\<close> and slice
  operations (splitting, trimming, prefixes, parsing of integers). Integers are words where they
  can wrap (\<open>u32\<close> budgets, \<open>u64\<close> durations; wrap-around as in a release build) and \<open>int\<close> or \<open>nat\<close>
  where the code bounds them itself. \<open>f32\<close> shares of the dock are IEEE numbers with rounding
  (\<open>Float32\<close>). Clock readings are arguments, so time is whatever the caller says, and only a
  lemma that needs a monotone clock assumes one. Operations that hold a mutex are one step.

  \<^bold>\<open>Parameters.\<close> Code outside the repository is an argument of the definitions that use
  it: the hash of the ledger and of the manifest, the URL parser, the JSON decoders, the
  compiled regular expression of a replacement, the file-system resolution of the sandbox, the
  uuid and time stamps of new rows, the bodies of the tools, the jobs an executor starts, the
  encoders, secret scan and terminal launcher of the control plane (record \<open>codecs\<close>). What a
  theorem needs of such an argument is one of its hypotheses (for example that a hash has no
  collision among the rows at hand), and its witness gives a concrete function for it.

  \<^bold>\<open>What the lemma groups show.\<close>

  \<^item> \<^emph>\<open>Safety of the server:\<close> a tool runs exactly when every gate allows it, the error code names
    the first gate that refused, every decision is in the ledger, and no capability or secret
    outlives its call. Below these stand the exactness of each gate: sandbox, egress, window,
    approvals used once, leases per tool, pin on first use, policy rules.
  \<^item> \<^emph>\<open>The ledger:\<close> it verifies in every state concurrent writers can reach (\<open>ledger_reachable\<close>, by rule
    induction), and, under the stated hypotheses on hash and fields, two ledgers with the same
    length and last hash agree row by row.
  \<^item> \<^emph>\<open>Coordination:\<close> a lock is kept for its term; a claimed job is not claimed twice; the
    validation accepts exactly acyclic closed graphs; a created graph reads back; no node
    starts before the dependencies it was given, an executor with open gates is not stuck, and
    it completes the graph within as many rounds as nodes.
  \<^item> \<^emph>\<open>Handoffs:\<close> the four rows of a handoff always agree on one stage, and the store refines the lifecycle
    \<open>lifecycle_next\<close> of stages; one handoff is active per agent and place; in every interleaving of commands and
    agents' operations a handoff is delivered once, by its addressee, with exactly one ledger row, and no
    command delivers. A dispatch is all or nothing, a retry under the same key returns the first
    answer, a decision needs the revision it was taken on, and the workspace reads the stored stage.
  \<^item> \<^emph>\<open>Products:\<close> a Factory command is all or nothing and runs once per key; every run is, for each cycle, a run of
    the machine \<open>cycle_next\<close> (a cancelled cycle and a completed stage are final, a stage starts only on an approval and ends
    only on evidence); no command of another principal touches any row of a product; agents decide nothing that is the
    owner's; releases are drafted only of ready products, and stale evidence keeps a product from being ready for good;
    requirements keep a gapless history; attached sources are pinned and scaffolds confined.
  \<^item> \<^emph>\<open>Editing:\<close> edits applied one by one equal the simultaneous replacement of their ranges; a
    save never replaces content the editor did not load or write itself, whatever the order of
    the steps; saving and reading is a round trip; the conflict scanner finds exactly the blocks
    of a reference definition; the dock keeps its invariants and its panes.
  \<^item> \<^emph>\<open>Delivery and consent:\<close> a handoff counts as delivered only on evidence, and an operation
    that needs confirmation runs only with the user's own answer to that very request.

  \<^bold>\<open>Interfaces.\<close> \<open>Machines\<close> holds the contracts the stateful components share: \<open>machine\<close> (a
  step that keeps an invariant), \<open>terminal_machine\<close> (states an observation of which is final),
  \<open>simulation\<close> (every step is, seen through an abstraction, a step of an abstract relation) and
  \<open>budget\<close> (a run of charged requests is granted up to a limit). \<open>Sql_Table\<close> holds \<open>keyed_table\<close>.
  \<open>factory_invariant\<close> of \<open>Factory_Ops\<close> is what a fact about the Factory's tables has to satisfy, operation by operation, to
  hold in every run of commands and other changes of the control database.
  Each component interprets them on its own steps and tables and takes the facts about whole runs
  from there.

  \<^bold>\<open>Bounds and ghost state.\<close> Limits are those of the code (2 MiB files, 20,000 diff lines, 12
  panes, depth 4, 10,000 edits). No definition takes fuel: recursion is structural, or a measure
  is proved to decrease (the cycle search visits every node with an entry once). Histories that
  the code does not keep (which contents the editor loaded, wrote and replaced) stand beside its
  state in the system of \<open>Doc_Session\<close>, where no operation reads them.

  \<^bold>\<open>Not modelled.\<close> Loading the policy file (TOML crate) and the Windows branches of the
  sandbox; the tools' bodies; the legacy cache tables of task graphs; listing and git
  commands of a project; the compiled pattern of a replacement (regex crate); rendering, argument
  parsing and event glue of the terminal, native, tray and web interfaces; the daemon's HTTP server
  and proxy, agent runner, language server process and terminal emulator (process, socket and
  thread I/O around third-party crates); scanners that are tables of regular expressions; vendored
  code and the editor extension. The parts
  of the Product Factory no command reaches (adapters, artifact store, overview, tables nobody writes), and the remaining
  modules of \<open>core/db\<close> (sessions, memory items, activity feed), over tables of their own.
\<close>

end
